(* ===== verification/Prelude.thy ===== *)
theory Prelude
  imports Main "HOL-Library.Multiset"
begin

text \<open>
  The shared base of the development: the error values the TypeScript code throws, results as
  sums (\<open>Inl\<close> for a thrown error), sequencing and mapping of fallible operations in the order
  the code evaluates them, the stable sort of \<open>Array.prototype.sort\<close>, insertion ordered maps
  (\<open>Map\<close>), and the collections of simplification rules the component theories share.
\<close>

named_theorems js_simps \<open>evaluation rules of the JavaScript operations\<close>
named_theorems res_simps \<open>case analysis of results\<close>

section \<open>Errors and results\<close>

text \<open>
  \<open>new Error(message)\<close>, \<open>new HttpError(statusCode, message, code)\<close> and the \<open>RangeError\<close> of the
  runtime (an invalid \<open>Date\<close> printed as an ISO string).
\<close>

datatype js_error =
    Error string
  | HttpError nat string "string option"
  | RangeError string

type_synonym 'a result = "js_error + 'a"

definition rbind :: "'a result \<Rightarrow> ('a \<Rightarrow> 'b result) \<Rightarrow> 'b result" where
  "rbind r f = (case r of Inl e \<Rightarrow> Inl e | Inr x \<Rightarrow> f x)"

lemma rbind_simps [simp]:
  "rbind (Inl e) f = Inl e"
  "rbind (Inr x) f = f x"
  by (simp_all add: rbind_def)

lemma rbind_Inr_iff [res_simps]: "rbind r f = Inr y \<longleftrightarrow> (\<exists>x. r = Inr x \<and> f x = Inr y)"
  by (cases r) auto

lemma rbind_Inl_iff [res_simps]:
  "rbind r f = Inl e \<longleftrightarrow> r = Inl e \<or> (\<exists>x. r = Inr x \<and> f x = Inl e)"
  by (cases r) auto

lemma rbind_InrE:
  assumes "rbind r f = Inr y"
  obtains x where "r = Inr x" and "f x = Inr y"
  using assms by (auto simp: res_simps)

lemma rbind_cong [fundef_cong]:
  assumes "r = r'" and "\<And>x. r' = Inr x \<Longrightarrow> f x = f' x"
  shows "rbind r f = rbind r' f'"
  using assms by (cases r') auto

text \<open>\<open>if (cond) throw e\<close>: the guard of a statement sequence.\<close>

definition throw_if :: "bool \<Rightarrow> js_error \<Rightarrow> unit result" where
  "throw_if b e = (if b then Inl e else Inr ())"

lemma throw_if_simps [simp]:
  "throw_if True e = Inl e"
  "throw_if False e = Inr ()"
  by (simp_all add: throw_if_def)

lemma throw_if_Inr_iff [res_simps]: "throw_if b e = Inr u \<longleftrightarrow> \<not> b"
  by (simp add: throw_if_def)

text \<open>\<open>xs.map(f)\<close> with a callback that may throw: left to right, stopping at the first error.\<close>

fun map_r :: "('a \<Rightarrow> 'b result) \<Rightarrow> 'a list \<Rightarrow> 'b list result" where
  "map_r f [] = Inr []"
| "map_r f (x # xs) = rbind (f x) (\<lambda>y. rbind (map_r f xs) (\<lambda>ys. Inr (y # ys)))"

lemma map_r_Inr_length: "map_r f xs = Inr ys \<Longrightarrow> length ys = length xs"
  by (induction xs arbitrary: ys) (auto simp: res_simps)

lemma map_r_Inr_iff:
  "map_r f xs = Inr ys \<longleftrightarrow> list_all2 (\<lambda>x y. f x = Inr y) xs ys"
  by (induction xs arbitrary: ys) (auto simp: res_simps list_all2_Cons1)

lemma map_r_total: "(\<And>x. x \<in> set xs \<Longrightarrow> f x = Inr (g x)) \<Longrightarrow> map_r f xs = Inr (map g xs)"
  by (induction xs) auto

lemma map_r_cong [fundef_cong]:
  "xs = ys \<Longrightarrow> (\<And>x. x \<in> set ys \<Longrightarrow> f x = g x) \<Longrightarrow> map_r f xs = map_r g ys"
  by (induction ys arbitrary: xs) auto

text \<open>\<open>for (const x of xs) state = step(state, x)\<close> with a step that may throw.\<close>

fun fold_r :: "('s \<Rightarrow> 'a \<Rightarrow> 's result) \<Rightarrow> 's \<Rightarrow> 'a list \<Rightarrow> 's result" where
  "fold_r f s [] = Inr s"
| "fold_r f s (x # xs) = rbind (f s x) (\<lambda>s'. fold_r f s' xs)"

lemma fold_r_append: "fold_r f s (xs @ ys) = rbind (fold_r f s xs) (\<lambda>s'. fold_r f s' ys)"
proof (induction xs arbitrary: s)
  case Nil
  then show ?case by simp
next
  case (Cons x xs)
  then show ?case by (cases "f s x") simp_all
qed

lemma fold_r_cong [fundef_cong]:
  "s = t \<Longrightarrow> xs = ys \<Longrightarrow> (\<And>x u. x \<in> set ys \<Longrightarrow> f u x = g u x) \<Longrightarrow> fold_r f s xs = fold_r g t ys"
proof (induction ys arbitrary: s t xs)
  case Nil
  then show ?case by simp
next
  case (Cons y ys)
  then show ?case by (cases "g t y") auto
qed

text \<open>An invariant of a fallible loop: kept by every step that returns.\<close>

lemma fold_r_invariant:
  assumes "fold_r f s xs = Inr t" and "P s"
    and "\<And>u x v. P u \<Longrightarrow> x \<in> set xs \<Longrightarrow> f u x = Inr v \<Longrightarrow> P v"
  shows "P t"
  using assms
proof (induction xs arbitrary: s)
  case Nil
  then show ?case by simp
next
  case (Cons x xs)
  from Cons.prems(1) obtain u where "f s x = Inr u" and "fold_r f u xs = Inr t"
    by (auto simp: res_simps)
  with Cons show ?case by (metis list.set_intros)
qed

section \<open>Stable sorting by a comparator\<close>

text \<open>
  \<open>[...xs].sort(cmp)\<close> is stable: the comparator returns a negative number when the left element
  comes first. For a comparator that is a total preorder the result of any stable sort is the
  same list, so an insertion sort that keeps equal elements in place models it.
\<close>

fun insert_by :: "('a \<Rightarrow> 'a \<Rightarrow> int) \<Rightarrow> 'a \<Rightarrow> 'a list \<Rightarrow> 'a list" where
  "insert_by cmp x [] = [x]"
| "insert_by cmp x (y # ys) = (if cmp x y \<le> 0 then x # y # ys else y # insert_by cmp x ys)"

fun sort_by :: "('a \<Rightarrow> 'a \<Rightarrow> int) \<Rightarrow> 'a list \<Rightarrow> 'a list" where
  "sort_by cmp [] = []"
| "sort_by cmp (x # xs) = insert_by cmp x (sort_by cmp xs)"

lemma mset_insert_by [simp]: "mset (insert_by cmp x ys) = {#x#} + mset ys"
  by (induction ys) auto

lemma mset_sort_by [simp]: "mset (sort_by cmp xs) = mset xs"
  by (induction xs) auto

lemma set_insert_by [simp]: "set (insert_by cmp x ys) = insert x (set ys)"
  by (induction ys) auto

lemma set_sort_by [simp]: "set (sort_by cmp xs) = set xs"
  by (induction xs) auto

lemma length_sort_by [simp]: "length (sort_by cmp xs) = length xs"
  by (metis mset_sort_by size_mset)

lemma distinct_sort_by [simp]: "distinct (sort_by cmp xs) = distinct xs"
  by (metis mset_sort_by mset_eq_imp_distinct_iff)

text \<open>What a comparator must satisfy on a carrier for the sorted order to mean anything.\<close>

locale comparator =
  fixes cmp :: "'a \<Rightarrow> 'a \<Rightarrow> int" and carrier :: "'a set"
  assumes cmp_total: "x \<in> carrier \<Longrightarrow> y \<in> carrier \<Longrightarrow> \<not> cmp x y \<le> 0 \<Longrightarrow> cmp y x \<le> 0"
    and cmp_trans: "x \<in> carrier \<Longrightarrow> y \<in> carrier \<Longrightarrow> z \<in> carrier \<Longrightarrow>
      cmp x y \<le> 0 \<Longrightarrow> cmp y z \<le> 0 \<Longrightarrow> cmp x z \<le> 0"
begin

lemma insert_by_sorted:
  assumes "x \<in> carrier" and "set ys \<subseteq> carrier"
    and "sorted_wrt (\<lambda>a b. cmp a b \<le> 0) ys"
  shows "sorted_wrt (\<lambda>a b. cmp a b \<le> 0) (insert_by cmp x ys)"
  using assms
proof (induction ys)
  case Nil
  then show ?case by simp
next
  case (Cons y ys)
  show ?case
  proof (cases "cmp x y \<le> 0")
    case True
    with Cons.prems show ?thesis by (auto intro: cmp_trans)
  next
    case False
    with Cons.prems have "cmp y x \<le> 0" by (auto intro: cmp_total)
    with False Cons show ?thesis by auto
  qed
qed

lemma sort_by_sorted:
  "set xs \<subseteq> carrier \<Longrightarrow> sorted_wrt (\<lambda>a b. cmp a b \<le> 0) (sort_by cmp xs)"
  by (induction xs) (simp_all add: insert_by_sorted)

lemma insert_by_filter:
  assumes "x \<in> carrier" and "set ys \<subseteq> carrier"
    and "sorted_wrt (\<lambda>a b. cmp a b \<le> 0) ys"
    and cls: "\<And>y z. y \<in> carrier \<Longrightarrow> z \<in> carrier \<Longrightarrow> P y \<Longrightarrow> P z \<Longrightarrow> cmp y z \<le> 0"
  shows "filter P (insert_by cmp x ys) = filter P (x # ys)"
  using assms(1-3)
proof (induction ys)
  case Nil
  then show ?case by simp
next
  case (Cons y ys)
  have "\<not> (P x \<and> P y)" if "\<not> cmp x y \<le> 0"
    using that cls Cons.prems by auto
  with Cons show ?case by auto
qed

text \<open>Stability: elements the comparator does not separate keep their order.\<close>

lemma sort_by_stable:
  assumes "set xs \<subseteq> carrier"
    and "\<And>y z. y \<in> carrier \<Longrightarrow> z \<in> carrier \<Longrightarrow> P y \<Longrightarrow> P z \<Longrightarrow> cmp y z \<le> 0"
  shows "filter P (sort_by cmp xs) = filter P xs"
  using assms(1)
proof (induction xs)
  case Nil
  then show ?case by simp
next
  case (Cons x xs)
  then have "filter P (insert_by cmp x (sort_by cmp xs)) = filter P (x # sort_by cmp xs)"
    by (intro insert_by_filter sort_by_sorted) (auto intro: assms(2))
  with Cons show ?case by simp
qed

end

section \<open>Insertion ordered maps\<close>

text \<open>
  \<open>Map.prototype.set\<close> keeps the position of an existing key and appends a new one;
  \<open>map.get(k)\<close> is \<open>map_of m k\<close> and \<open>map.has(k)\<close> tests it for \<open>None\<close>.
\<close>

fun map_set :: "'k \<Rightarrow> 'v \<Rightarrow> ('k \<times> 'v) list \<Rightarrow> ('k \<times> 'v) list" where
  "map_set k v [] = [(k, v)]"
| "map_set k v ((k', v') # m) = (if k' = k then (k, v) # m else (k', v') # map_set k v m)"

lemma map_of_map_set [simp]: "map_of (map_set k v m) = (map_of m)(k \<mapsto> v)"
  by (induction m) auto

lemma map_set_fresh: "k \<notin> fst ` set m \<Longrightarrow> map_set k v m = m @ [(k, v)]"
  by (induction m) auto

lemma dom_map_set [simp]: "fst ` set (map_set k v m) = insert k (fst ` set m)"
  by (induction k v m rule: map_set.induct) (simp_all add: insert_commute)

lemma distinct_map_set [simp]: "distinct (map fst m) \<Longrightarrow> distinct (map fst (map_set k v m))"
proof (induction m)
  case Nil
  then show ?case by simp
next
  case (Cons p m)
  obtain k' v' where "p = (k', v')" by force
  with Cons dom_map_set [of k v m] show ?case by (auto simp flip: set_map)
qed

text \<open>\<open>xs.slice(start, end)\<close> for indices inside the array, as clamped by the runtime.\<close>

definition slice :: "nat \<Rightarrow> nat \<Rightarrow> 'a list \<Rightarrow> 'a list" where
  "slice i j xs = take (j - i) (drop i xs)"

lemma length_slice_le: "length (slice i j xs) \<le> length xs"
  by (simp add: slice_def)

lemma set_slice: "set (slice i j xs) \<subseteq> set xs"
  unfolding slice_def by (meson in_set_dropD in_set_takeD subsetI)

end
