(* ===== verification/JsNumber.thy ===== *)
theory JsNumber
  imports Prelude Complex_Main "HOL-Library.Log_Nat"
begin

text \<open>
  JavaScript numbers: IEEE 754 binary64 values with the arithmetic of the language. A finite
  double is kept as the rational number it denotes, so every operation is the exact rational
  operation followed by \<open>fl\<close>, rounding to nearest with ties to even, with the gradual underflow
  (quantum \<open>2 powi -1074\<close>) and the overflow threshold (\<open>2 ^ 1024\<close>) of the format; infinities and
  NaN are values of their own. The two zeros are one value here: the code that is modelled
  observes the sign of a zero nowhere (\<open>formatSeedNumber\<close> prints both as \<open>0\<close>).

  \<open>Math.exp\<close>, \<open>Math.log\<close> and \<open>Math.pow\<close> are implementation-approximated by the language
  specification, so they are fields of a parameter record \<open>js_math\<close>.
\<close>

section \<open>Values and rounding\<close>

datatype jsnum = Num rat | PosInf | NegInf | NaN

text \<open>The exponent of the leading bit: \<open>2 powi bexp x \<le> x < 2 powi (bexp x + 1)\<close> for positive \<open>x\<close>.\<close>

definition bexp :: "rat \<Rightarrow> int" where
  "bexp x = (case quotient_of x of (p, q) \<Rightarrow>
     let d = bitlen p - bitlen q in if 2 powi d \<le> x then d else d - 1)"

text \<open>Rounding to the nearest integer, ties to even.\<close>

definition rne :: "rat \<Rightarrow> int" where
  "rne x = (let f = \<lfloor>x\<rfloor>; r = x - of_int f in
     if r < 1 / 2 then f else if 1 / 2 < r then f + 1 else if even f then f else f + 1)"

definition quantum_exp :: "rat \<Rightarrow> int" where
  "quantum_exp x = max (bexp \<bar>x\<bar> - 52) (-1074)"

definition dbl_lim :: rat where
  "dbl_lim = 2 ^ 1024"

definition fl :: "rat \<Rightarrow> jsnum" where
  "fl x = (if x = 0 then Num 0 else
     let e = quantum_exp x; y = of_int (rne (x / 2 powi e)) * 2 powi e in
     if dbl_lim \<le> y then PosInf else if y \<le> - dbl_lim then NegInf else Num y)"

text \<open>The rationals that are doubles.\<close>

definition rep :: "rat \<Rightarrow> bool" where
  "rep v \<longleftrightarrow> (\<exists>m e. v = of_int m * 2 powi e \<and> \<bar>m\<bar> \<le> 2 ^ 53 \<and> - 1074 \<le> e) \<and> \<bar>v\<bar> < dbl_lim"

section \<open>Arithmetic and comparison\<close>

fun jneg :: "jsnum \<Rightarrow> jsnum" where
  "jneg (Num a) = Num (- a)"
| "jneg PosInf = NegInf"
| "jneg NegInf = PosInf"
| "jneg NaN = NaN"

fun jadd :: "jsnum \<Rightarrow> jsnum \<Rightarrow> jsnum" where
  "jadd (Num a) (Num b) = fl (a + b)"
| "jadd NaN _ = NaN"
| "jadd _ NaN = NaN"
| "jadd PosInf NegInf = NaN"
| "jadd NegInf PosInf = NaN"
| "jadd PosInf _ = PosInf"
| "jadd NegInf _ = NegInf"
| "jadd (Num _) y = y"

definition jsub :: "jsnum \<Rightarrow> jsnum \<Rightarrow> jsnum" where
  "jsub x y = jadd x (jneg y)"

definition signed_inf :: "rat \<Rightarrow> jsnum" where
  "signed_inf a = (if 0 < a then PosInf else if a < 0 then NegInf else NaN)"

fun jmul :: "jsnum \<Rightarrow> jsnum \<Rightarrow> jsnum" where
  "jmul (Num a) (Num b) = fl (a * b)"
| "jmul NaN _ = NaN"
| "jmul _ NaN = NaN"
| "jmul (Num a) PosInf = signed_inf a"
| "jmul (Num a) NegInf = signed_inf (- a)"
| "jmul PosInf (Num b) = signed_inf b"
| "jmul NegInf (Num b) = signed_inf (- b)"
| "jmul PosInf PosInf = PosInf"
| "jmul NegInf NegInf = PosInf"
| "jmul PosInf NegInf = NegInf"
| "jmul NegInf PosInf = NegInf"

fun jdiv :: "jsnum \<Rightarrow> jsnum \<Rightarrow> jsnum" where
  "jdiv (Num a) (Num b) = (if b = 0 then signed_inf a else fl (a / b))"
| "jdiv NaN _ = NaN"
| "jdiv _ NaN = NaN"
| "jdiv (Num _) _ = Num 0"
| "jdiv PosInf (Num b) = (if b < 0 then NegInf else PosInf)"
| "jdiv NegInf (Num b) = (if b < 0 then PosInf else NegInf)"
| "jdiv _ _ = NaN"

text \<open>The relational operators are false when an operand is NaN.\<close>

fun jlt :: "jsnum \<Rightarrow> jsnum \<Rightarrow> bool" where
  "jlt (Num a) (Num b) = (a < b)"
| "jlt NaN _ = False"
| "jlt _ NaN = False"
| "jlt NegInf y = (y \<noteq> NegInf)"
| "jlt x PosInf = (x \<noteq> PosInf)"
| "jlt _ _ = False"

definition jle :: "jsnum \<Rightarrow> jsnum \<Rightarrow> bool" where
  "jle x y \<longleftrightarrow> x \<noteq> NaN \<and> y \<noteq> NaN \<and> (jlt x y \<or> x = y)"

text \<open>\<open>===\<close> on numbers: NaN equals nothing.\<close>

definition jeq :: "jsnum \<Rightarrow> jsnum \<Rightarrow> bool" where
  "jeq x y \<longleftrightarrow> x \<noteq> NaN \<and> x = y"

text \<open>\<open>Math.min\<close> and \<open>Math.max\<close> return NaN when an argument is NaN.\<close>

definition jmin :: "jsnum \<Rightarrow> jsnum \<Rightarrow> jsnum" where
  "jmin x y = (if x = NaN \<or> y = NaN then NaN else if jlt y x then y else x)"

definition jmax :: "jsnum \<Rightarrow> jsnum \<Rightarrow> jsnum" where
  "jmax x y = (if x = NaN \<or> y = NaN then NaN else if jlt x y then y else x)"

fun jfloor :: "jsnum \<Rightarrow> jsnum" where
  "jfloor (Num a) = Num (of_int \<lfloor>a\<rfloor>)"
| "jfloor x = x"

text \<open>\<open>Math.round\<close>: the nearest integer, ties towards positive infinity.\<close>

fun jround :: "jsnum \<Rightarrow> jsnum" where
  "jround (Num a) = Num (of_int \<lfloor>a + 1 / 2\<rfloor>)"
| "jround x = x"

fun is_integer :: "jsnum \<Rightarrow> bool" where
  "is_integer (Num a) = (of_int \<lfloor>a\<rfloor> = a)"
| "is_integer _ = False"

text \<open>\<open>x >>> 0\<close> (ToUint32) and \<open>x | 0\<close> (ToInt32): truncation, then wrap-around at 32 bits.\<close>

definition trunc_int :: "rat \<Rightarrow> int" where
  "trunc_int a = (if 0 \<le> a then \<lfloor>a\<rfloor> else - \<lfloor>- a\<rfloor>)"

fun to_uint32 :: "jsnum \<Rightarrow> int" where
  "to_uint32 (Num a) = trunc_int a mod 2 ^ 32"
| "to_uint32 _ = 0"

definition to_int32 :: "jsnum \<Rightarrow> int" where
  "to_int32 x = (let u = to_uint32 x in if 2 ^ 31 \<le> u then u - 2 ^ 32 else u)"

abbreviation num :: "int \<Rightarrow> jsnum" where
  "num i \<equiv> Num (of_int i)"

text \<open>
  \<open>Number.parseFloat(value.toFixed(8))\<close>: eight decimals, the larger magnitude on a tie, read back
  as the nearest double; from \<open>10 ^ 21\<close> on, \<open>toFixed\<close> prints the number itself.
\<close>

definition to_fixed8_int :: "rat \<Rightarrow> int" where
  "to_fixed8_int a = \<lfloor>a * 10 ^ 8 + 1 / 2\<rfloor>"

fun round_fixed8 :: "jsnum \<Rightarrow> jsnum" where
  "round_fixed8 (Num a) =
     (if 10 ^ 21 \<le> \<bar>a\<bar> then Num a
      else if a < 0 then jneg (fl (of_int (to_fixed8_int (- a)) / 10 ^ 8))
      else fl (of_int (to_fixed8_int a) / 10 ^ 8))"
| "round_fixed8 x = x"

record js_math =
  m_exp :: "jsnum \<Rightarrow> jsnum"
  m_log :: "jsnum \<Rightarrow> jsnum"
  m_pow :: "jsnum \<Rightarrow> jsnum \<Rightarrow> jsnum"


section \<open>Rounding facts\<close>

lemma powi_nat: "0 \<le> k \<Longrightarrow> (2::rat) powi k = 2 ^ nat k"
  by (simp add: power_int_def)

lemma bitlen_pos: "0 < p \<Longrightarrow> 0 < bitlen p"
  using bitlen_eq_zero_iff [of p] bitlen_nonneg [of p] by linarith

lemma bitlen_powi:
  assumes "0 < p"
  shows "2 powi (bitlen p - 1) \<le> (of_int p :: rat)" and "(of_int p :: rat) < 2 powi bitlen p"
proof -
  from bitlen_bounds [OF assms]
  have b: "2 ^ nat (bitlen p - 1) \<le> p" "p < 2 ^ nat (bitlen p)" by auto
  have "of_int (2 ^ nat (bitlen p - 1)) \<le> (of_int p :: rat)" using b(1) by (simp only: of_int_le_iff)
  then show "2 powi (bitlen p - 1) \<le> (of_int p :: rat)"
    using bitlen_pos [OF assms] by (simp add: powi_nat)
  have "(of_int p :: rat) < of_int (2 ^ nat (bitlen p))" using b(2) by (simp only: of_int_less_iff)
  then show "(of_int p :: rat) < 2 powi bitlen p"
    using bitlen_pos [OF assms] by (simp add: powi_nat)
qed

lemma bexp_bounds:
  assumes "0 < x"
  shows "2 powi bexp x \<le> x" and "x < 2 powi (bexp x + 1)"
proof -
  obtain p q where pq: "quotient_of x = (p, q)" by force
  have q: "0 < q" using quotient_of_denom_pos [OF pq] .
  have x: "x = of_int p / of_int q" using quotient_of_div [OF pq] .
  have p: "0 < p" using assms q by (simp add: x zero_less_divide_iff)
  define d where "d = bitlen p - bitlen q"
  have "x \<le> of_int p / 2 powi (bitlen q - 1)"
    unfolding x using p q bitlen_powi [OF q] by (intro divide_left_mono) auto
  also have "\<dots> < 2 powi bitlen p / 2 powi (bitlen q - 1)"
    using bitlen_powi [OF p] by (intro divide_strict_right_mono) auto
  also have "\<dots> = 2 powi (d + 1)" by (simp add: d_def algebra_simps flip: power_int_diff)
  finally have up: "x < 2 powi (d + 1)" .
  have "2 powi (d - 1) = (2 powi (bitlen p - 1) / 2 powi bitlen q :: rat)"
    by (simp add: d_def algebra_simps flip: power_int_diff)
  also have "\<dots> \<le> of_int p / 2 powi bitlen q"
    using bitlen_powi [OF p] by (intro divide_right_mono) auto
  also have "\<dots> \<le> x"
    unfolding x using p q bitlen_powi [OF q] by (intro divide_left_mono) auto
  finally have low: "2 powi (d - 1) \<le> x" .
  have "bexp x = (if 2 powi d \<le> x then d else d - 1)"
    by (simp add: bexp_def pq d_def Let_def)
  with up low show "2 powi bexp x \<le> x" and "x < 2 powi (bexp x + 1)"
    by auto
qed

lemma rne_le_iff_int: "x \<le> of_int n \<Longrightarrow> rne x \<le> n"
proof -
  assume *: "x \<le> of_int n"
  show "rne x \<le> n"
  proof (cases "x = of_int n")
    case True
    then show ?thesis by (simp add: rne_def)
  next
    case False
    with * have "\<lfloor>x\<rfloor> < n" by (simp add: floor_less_iff)
    then show ?thesis by (auto simp: rne_def Let_def)
  qed
qed

lemma rne_ge_iff_int: "of_int n \<le> x \<Longrightarrow> n \<le> rne x"
proof -
  assume "of_int n \<le> x"
  then have "n \<le> \<lfloor>x\<rfloor>" by (simp add: le_floor_iff)
  then show "n \<le> rne x" by (auto simp: rne_def Let_def)
qed

lemma rne_of_int [simp]: "rne (of_int n) = n"
  by (simp add: rne_def)

lemma rne_near: "\<bar>x - of_int n\<bar> < 1 / 2 \<Longrightarrow> rne x = n"
proof -
  assume *: "\<bar>x - of_int n\<bar> < 1 / 2"
  show "rne x = n"
  proof (cases "of_int n \<le> x")
    case True
    with * have "\<lfloor>x\<rfloor> = n" by (intro floor_unique) auto
    with * True show ?thesis by (simp add: rne_def Let_def)
  next
    case False
    with * have "\<lfloor>x\<rfloor> = n - 1" by (intro floor_unique) auto
    with * False show ?thesis by (simp add: rne_def Let_def)
  qed
qed

lemma rne_error: "\<bar>of_int (rne x) - x\<bar> \<le> 1 / 2"
proof -
  define f where "f = \<lfloor>x\<rfloor>"
  have "of_int f \<le> x" "x < of_int f + 1" using floor_correct [of x] by (auto simp: f_def)
  then show ?thesis
    unfolding rne_def Let_def abs_le_iff f_def [symmetric] by (auto split: if_splits)
qed

lemma rne_minus: "rne (- x) = - rne x"
proof (cases "\<bar>x - of_int \<lfloor>x\<rfloor> - 1/2\<bar> = 0")
  case True
  then have h: "x = of_int \<lfloor>x\<rfloor> + 1/2" by simp
  have "\<lfloor>- x\<rfloor> = - \<lfloor>x\<rfloor> - 1"
    using h by (intro floor_unique) (auto)
  with h show ?thesis by (auto simp: rne_def Let_def)
next
  case False
  have "\<bar>of_int (rne x) - x\<bar> < 1/2"
  proof -
    define f where "f = \<lfloor>x\<rfloor>"
    have "of_int f \<le> x" "x < of_int f + 1" using floor_correct [of x] by (auto simp: f_def)
    with False show ?thesis
      unfolding rne_def Let_def abs_less_iff f_def [symmetric] by (auto split: if_splits)
  qed
  then have "\<bar>- x - of_int (- rne x)\<bar> < 1/2" by simp
  then show ?thesis by (rule rne_near)
qed

lemma dbl_lim_pos: "0 < dbl_lim"
  by (simp add: dbl_lim_def)

lemma fl_minus: "fl (- x) = jneg (fl x)"
  using dbl_lim_pos by (auto simp: fl_def quantum_exp_def rne_minus Let_def)

lemma fl_not_NaN [simp]: "fl x \<noteq> NaN"
  by (auto simp: fl_def Let_def)

lemma powi_le_iff: "(2::rat) powi a \<le> 2 powi b \<longleftrightarrow> a \<le> b"
  using power_int_increasing [of a b "2::rat"] power_int_strict_increasing [of b a "2::rat"]
  by (cases "a \<le> b") auto

lemma powi_split: "(2::rat) powi (a + b) = 2 powi a * 2 powi b"
  by (simp add: power_int_add)

text \<open>A double bounds what rounds to it from above.\<close>

lemma rounded_le:
  fixes x v :: rat
  assumes "rep v" and "x \<le> v" and "x \<noteq> 0"
  defines "e \<equiv> quantum_exp x"
  shows "of_int (rne (x / 2 powi e)) * 2 powi e \<le> v"
proof -
  obtain m k where v: "v = of_int m * 2 powi k" and m: "\<bar>m\<bar> \<le> 2 ^ 53" and k: "- 1074 \<le> k"
    using assms(1) by (auto simp: rep_def)
  have pos: "(0::rat) < 2 powi e" by simp
  show ?thesis
  proof (cases "e \<le> k")
    case True
    have "v / 2 powi e = of_int m * 2 powi (k - e)"
      by (simp add: v power_int_diff)
    also have "\<dots> = of_int (m * 2 ^ nat (k - e))"
      using True by (simp add: powi_nat)
    finally have q: "v / 2 powi e = of_int (m * 2 ^ nat (k - e))" .
    have "x / 2 powi e \<le> v / 2 powi e" using assms(2) pos by (simp add: divide_right_mono)
    then have "rne (x / 2 powi e) \<le> m * 2 ^ nat (k - e)"
      unfolding q by (rule rne_le_iff_int)
    then have "of_int (rne (x / 2 powi e)) \<le> v / 2 powi e"
      unfolding q by (simp only: of_int_le_iff)
    then show ?thesis using pos by (simp add: le_divide_eq)
  next
    case False
    then have e: "e = bexp \<bar>x\<bar> - 52" using k by (simp add: e_def quantum_exp_def max_def split: if_splits)
    have "2 powi (52 + e) \<le> \<bar>x\<bar>" using bexp_bounds(1) [of "\<bar>x\<bar>"] assms(3) e by simp
    have "of_int \<bar>m\<bar> \<le> (of_int (2 ^ 53) :: rat)" using m by (simp only: of_int_le_iff)
    then have "\<bar>v\<bar> \<le> 2 ^ 53 * 2 powi k" by (simp add: v abs_mult)
    also have "\<dots> = 2 powi (53 + k)" by (simp add: power_int_add)
    also have "\<dots> \<le> 2 powi (52 + e)" using False by (simp add: power_int_increasing)
    finally have vb: "\<bar>v\<bar> \<le> 2 powi (52 + e)" .
    have split: "2 powi (52 + e) = (of_int (2 ^ 52) :: rat) * 2 powi e" by (simp add: power_int_add)
    show ?thesis
    proof (cases "0 < x")
      case True
      then have "x = v" and "v = 2 powi (52 + e)"
        using \<open>2 powi (52 + e) \<le> \<bar>x\<bar>\<close> vb assms(2) by auto
      then have "x / 2 powi e = of_int (2 ^ 52)" using split by simp
      then have "rne (x / 2 powi e) = 2 ^ 52" by (metis rne_of_int)
      then show ?thesis using \<open>v = 2 powi (52 + e)\<close> split by simp
    next
      case False
      then have "x \<le> - (2 powi (52 + e))" using \<open>2 powi (52 + e) \<le> \<bar>x\<bar>\<close> assms(3) by auto
      then have "x / 2 powi e \<le> of_int (- (2 ^ 52))"
        using split pos by (simp add: divide_le_eq)
      then have "rne (x / 2 powi e) \<le> - (2 ^ 52)" by (rule rne_le_iff_int)
      then have "(of_int (rne (x / 2 powi e)) :: rat) \<le> of_int (- (2 ^ 52))"
        by (simp only: of_int_le_iff)
      then have "of_int (rne (x / 2 powi e)) * 2 powi e \<le> (of_int (- (2 ^ 52)) :: rat) * 2 powi e"
        using pos by (intro mult_right_mono) auto
      also have "\<dots> = - (2 powi (52 + e))" using split by simp
      also have "\<dots> \<le> v" using vb by linarith
      finally show ?thesis .
    qed
  qed
qed

lemma rep_uminus: "rep v \<Longrightarrow> rep (- v)"
proof -
  assume "rep v"
  then obtain m e where "v = of_int m * 2 powi e" "\<bar>m\<bar> \<le> 2 ^ 53" "- 1074 \<le> e" "\<bar>v\<bar> < dbl_lim"
    unfolding rep_def by blast
  then show "rep (- v)"
    unfolding rep_def by (intro conjI exI [of _ "- m"] exI [of _ e]) auto
qed

lemma jlt_irrefl [simp]: "\<not> jlt x x"
  by (cases x) auto

lemma jle_Num [simp]: "jle (Num a) (Num b) = (a \<le> b)"
  by (auto simp: jle_def)

lemma jle_refl: "x \<noteq> NaN \<Longrightarrow> jle x x"
  by (simp add: jle_def)

lemma fl_le:
  assumes "rep v" and "x \<le> v"
  shows "jle (fl x) (Num v)"
proof (cases "x = 0")
  case True
  then show ?thesis using assms by (simp add: fl_def)
next
  case False
  let ?y = "of_int (rne (x / 2 powi quantum_exp x)) * 2 powi quantum_exp x"
  have y: "?y \<le> v" using rounded_le [OF assms False] .
  have "v < dbl_lim" using assms(1) unfolding rep_def by linarith
  with y False show ?thesis by (auto simp: fl_def Let_def jle_def)
qed

lemma jle_jneg: "jle (jneg x) (jneg y) = jle y x"
  by (cases x; cases y) (auto simp: jle_def)

lemma fl_ge:
  assumes "rep v" and "v \<le> x"
  shows "jle (Num v) (fl x)"
proof -
  have "jle (fl (- x)) (Num (- v))" using assms by (intro fl_le rep_uminus) auto
  then have "jle (jneg (fl x)) (jneg (Num v))" by (simp add: fl_minus)
  then show ?thesis by (simp only: jle_jneg)
qed

lemma fl_rep: "rep v \<Longrightarrow> fl v = Num v"
  using fl_le [of v v] fl_ge [of v v] by (cases "fl v") (auto simp: jle_def)

lemma small_lt_dbl_lim: "x \<le> 2 ^ 53 \<Longrightarrow> x < dbl_lim"
proof -
  have "(2::rat) ^ 53 < 2 ^ 1024" by (rule power_strict_increasing) simp_all
  moreover assume "x \<le> 2 ^ 53"
  ultimately show "x < dbl_lim" unfolding dbl_lim_def by (rule le_less_trans [rotated])
qed

lemma rep_int: "\<bar>i\<bar> \<le> 2 ^ 53 \<Longrightarrow> rep (of_int i)"
proof -
  assume *: "\<bar>i\<bar> \<le> 2 ^ 53"
  then have "of_int \<bar>i\<bar> \<le> (of_int (2 ^ 53) :: rat)" by (simp only: of_int_le_iff)
  then have "\<bar>of_int i :: rat\<bar> < dbl_lim" using small_lt_dbl_lim by simp
  with * show "rep (of_int i)"
    unfolding rep_def by (intro conjI exI [of _ i] exI [of _ 0]) auto
qed

lemma fl_int: "\<bar>i\<bar> \<le> 2 ^ 53 \<Longrightarrow> fl (of_int i) = Num (of_int i)"
  by (intro fl_rep rep_int)

lemma rep_dyadic: "\<bar>m\<bar> \<le> 2 ^ 53 \<Longrightarrow> - 1074 \<le> e \<Longrightarrow> e \<le> 0 \<Longrightarrow> rep (of_int m * 2 powi e)"
proof -
  assume *: "\<bar>m\<bar> \<le> 2 ^ 53" "- 1074 \<le> e" "e \<le> 0"
  have "\<bar>of_int m :: rat\<bar> < dbl_lim"
    using rep_int [OF *(1)] by (simp add: rep_def)
  moreover have "2 powi e \<le> (1::rat)"
    using *(3) power_int_increasing [of e 0 "2::rat"] by simp
  ultimately have "\<bar>of_int m * 2 powi e :: rat\<bar> < dbl_lim * 1"
    by (simp only: abs_mult) (intro mult_less_le_imp_less, auto)
  with * show "rep (of_int m * 2 powi e)" by (auto simp: rep_def)
qed

text \<open>How a concrete rounding is computed: the quantum, and the integer within half of it.\<close>

lemma fl_eqI:
  assumes "2 powi (e + 52) \<le> \<bar>x\<bar>" and "\<bar>x\<bar> < 2 powi (e + 53)" and "- 1074 \<le> e"
    and "\<bar>x / 2 powi e - of_int n\<bar> < 1 / 2" and "\<bar>of_int n * 2 powi e\<bar> < dbl_lim"
  shows "fl x = Num (of_int n * 2 powi e)"
proof -
  have "0 < (2::rat) powi (e + 52)" by simp
  with assms(1) have x: "0 < \<bar>x\<bar>" by linarith
  have "bexp \<bar>x\<bar> \<le> e + 52"
  proof (rule ccontr)
    assume "\<not> bexp \<bar>x\<bar> \<le> e + 52"
    then have "(2::rat) powi (e + 53) \<le> 2 powi bexp \<bar>x\<bar>" by (simp add: powi_le_iff)
    with bexp_bounds(1) [OF x] assms(2) show False by linarith
  qed
  moreover have "e + 52 \<le> bexp \<bar>x\<bar>"
  proof (rule ccontr)
    assume "\<not> e + 52 \<le> bexp \<bar>x\<bar>"
    then have "(2::rat) powi (bexp \<bar>x\<bar> + 1) \<le> 2 powi (e + 52)" by (simp add: powi_le_iff)
    with bexp_bounds(2) [OF x] assms(1) show False by linarith
  qed
  ultimately have q: "quantum_exp x = e" using assms(3) by (simp add: quantum_exp_def)
  have "rne (x / 2 powi e) = n" using assms(4) by (rule rne_near)
  with q x assms(5) show ?thesis by (auto simp: fl_def Let_def)
qed

lemma jadd_int: "\<bar>a + b\<bar> \<le> 2 ^ 53 \<Longrightarrow> jadd (num a) (num b) = num (a + b)"
  using fl_int [of "a + b"] by simp

lemma jsub_int: "\<bar>a - b\<bar> \<le> 2 ^ 53 \<Longrightarrow> jsub (num a) (num b) = num (a - b)"
  using fl_int [of "a - b"] by (simp add: jsub_def)

lemma jmul_int: "\<bar>a * b\<bar> \<le> 2 ^ 53 \<Longrightarrow> jmul (num a) (num b) = num (a * b)"
  using fl_int [of "a * b"] by simp

section \<open>Clamping\<close>

text \<open>A number inside an interval, or NaN: what a clamped expression is, whatever its input.\<close>

definition nan_or_in :: "rat \<Rightarrow> rat \<Rightarrow> jsnum \<Rightarrow> bool" where
  "nan_or_in lo hi x \<longleftrightarrow> x = NaN \<or> (\<exists>r. x = Num r \<and> lo \<le> r \<and> r \<le> hi)"

lemma nan_or_inI [intro]: "lo \<le> r \<Longrightarrow> r \<le> hi \<Longrightarrow> nan_or_in lo hi (Num r)"
  by (simp add: nan_or_in_def)

lemma nan_or_in_NaN [simp]: "nan_or_in lo hi NaN"
  by (simp add: nan_or_in_def)

lemma jmin_jmax_range:
  "lo \<le> hi \<Longrightarrow> nan_or_in lo hi (jmin (jmax v (Num lo)) (Num hi))"
  by (cases v) (auto simp: jmin_def jmax_def nan_or_in_def)

lemma jmin_jmax_NaN_iff: "jmin (jmax v (Num lo)) (Num hi) = NaN \<longleftrightarrow> v = NaN"
  by (cases v) (auto simp: jmin_def jmax_def)

lemma jmin_Num [simp]: "jmin (Num a) (Num b) = Num (min a b)"
  by (auto simp: jmin_def)

lemma jmax_Num [simp]: "jmax (Num a) (Num b) = Num (max a b)"
  by (auto simp: jmax_def)

lemma jmin_NaN [simp]: "jmin NaN x = NaN" "jmin x NaN = NaN"
  by (simp_all add: jmin_def)

lemma jmax_NaN [simp]: "jmax NaN x = NaN" "jmax x NaN = NaN"
  by (simp_all add: jmax_def)

lemma jadd_NaN [simp]: "jadd x NaN = NaN"
  by (cases x) auto

lemma jmul_NaN [simp]: "jmul x NaN = NaN"
  by (cases x) auto

lemma jdiv_NaN [simp]: "jdiv x NaN = NaN"
  by (cases x) auto

lemma jlt_NaN [simp]: "\<not> jlt x NaN"
  by (cases x) auto

end
