(* ===== verification/JsString.thy ===== *)
theory JsString
  imports Prelude "HOL-Library.Char_ord" "HOL-Library.List_Lexorder"
begin

text \<open>
  JavaScript strings as HOL strings, one character per code unit below 256. On these texts the
  normal form NFC is the text itself and lower case stays inside the range. The order of strings
  is the library's lexicographic order of character codes, as \<^verbatim>\<open><\<close> compares strings.
\<close>

section \<open>Characters\<close>

definition is_digit :: "char \<Rightarrow> bool" where
  "is_digit c \<longleftrightarrow> 48 \<le> (of_char c :: nat) \<and> (of_char c :: nat) \<le> 57"

definition digit_val :: "char \<Rightarrow> nat" where
  "digit_val c = of_char c - 48"

definition digit_char :: "nat \<Rightarrow> char" where
  "digit_char k = char_of (48 + k)"

text \<open>White space as \<open>trim\<close> and the class \<open>\s\<close> know it, inside the first 256 code units.\<close>

definition is_space :: "char \<Rightarrow> bool" where
  "is_space c \<longleftrightarrow> (of_char c :: nat) \<in> {9, 10, 11, 12, 13, 32, 160}"

definition lower_char :: "char \<Rightarrow> char" where
  "lower_char c = (let n = (of_char c :: nat) in
     if 65 \<le> n \<and> n \<le> 90 \<or> 192 \<le> n \<and> n \<le> 222 \<and> n \<noteq> 215 then char_of (n + 32) else c)"

definition to_lower :: "string \<Rightarrow> string" where
  "to_lower = map lower_char"

lemma of_char_digit_char [simp]: "k \<le> 9 \<Longrightarrow> (of_char (digit_char k) :: nat) = 48 + k"
  by (simp add: digit_char_def)

lemma is_digit_digit_char [simp]: "k \<le> 9 \<Longrightarrow> is_digit (digit_char k)"
  by (simp add: is_digit_def)

lemma digit_val_digit_char [simp]: "k \<le> 9 \<Longrightarrow> digit_val (digit_char k) = k"
  by (simp add: digit_val_def)

lemma digit_char_digit_val: "is_digit c \<Longrightarrow> digit_char (digit_val c) = c"
  by (simp add: is_digit_def digit_char_def digit_val_def)

lemma digit_val_le: "is_digit c \<Longrightarrow> digit_val c \<le> 9"
  unfolding is_digit_def digit_val_def by linarith

lemma digit_char_inject: "j \<le> 9 \<Longrightarrow> k \<le> 9 \<Longrightarrow> digit_char j = digit_char k \<longleftrightarrow> j = k"
  by (metis digit_val_digit_char)

lemma digit_char_less: "j \<le> 9 \<Longrightarrow> k \<le> 9 \<Longrightarrow> digit_char j < digit_char k \<longleftrightarrow> j < k"
  by (simp add: less_char_def)

section \<open>Trimming, prefixes, replacement\<close>

definition trim_start :: "string \<Rightarrow> string" where
  "trim_start s = dropWhile is_space s"

definition trim :: "string \<Rightarrow> string" where
  "trim s = rev (trim_start (rev (trim_start s)))"

definition starts_with :: "string \<Rightarrow> string \<Rightarrow> bool" where
  "starts_with s p \<longleftrightarrow> take (length p) s = p"

definition ends_with :: "string \<Rightarrow> string \<Rightarrow> bool" where
  "ends_with s p \<longleftrightarrow> starts_with (rev s) (rev p)"

text \<open>\<open>s.includes(p)\<close>.\<close>

fun includes_str :: "string \<Rightarrow> string \<Rightarrow> bool" where
  "includes_str [] p = (p = [])"
| "includes_str (c # s) p = (starts_with (c # s) p \<or> includes_str s p)"

text \<open>\<open>xs.join(sep)\<close>.\<close>

fun join :: "string \<Rightarrow> string list \<Rightarrow> string" where
  "join sep [] = []"
| "join sep [x] = x"
| "join sep (x # y # ys) = x @ sep @ join sep (y # ys)"

text \<open>\<open>s.slice(i, -j)\<close> with both ends inside the string, as \<open>slice(1, -1)\<close> strips two characters.\<close>

definition strip :: "nat \<Rightarrow> nat \<Rightarrow> string \<Rightarrow> string" where
  "strip i j s = take (length s - i - j) (drop i s)"

lemma trim_start_le: "length (trim_start s) \<le> length s"
  by (simp add: trim_start_def length_dropWhile_le)

lemma trim_le: "length (trim s) \<le> length s"
  unfolding trim_def by (metis trim_start_le length_rev le_trans)

lemma set_trim_start: "set (trim_start s) \<subseteq> set s"
  unfolding trim_start_def by (auto dest: set_dropWhileD)

lemma set_trim: "set (trim s) \<subseteq> set s"
  using set_trim_start [of s] set_trim_start [of "rev (trim_start s)"] by (auto simp: trim_def)

lemma trim_start_idem [simp]: "trim_start (trim_start s) = trim_start s"
  by (simp add: trim_start_def)

lemma trim_start_fixed: "trim_start s = s \<longleftrightarrow> s = [] \<or> \<not> is_space (hd s)"
  unfolding trim_start_def by (cases s) (auto, metis impossible_Cons length_dropWhile_le)

lemma trim_fixedI: "s = [] \<or> \<not> is_space (hd s) \<and> \<not> is_space (last s) \<Longrightarrow> trim s = s"
proof -
  assume *: "s = [] \<or> \<not> is_space (hd s) \<and> \<not> is_space (last s)"
  then have "trim_start s = s" by (auto simp: trim_start_fixed)
  moreover have "trim_start (rev s) = rev s" using * by (auto simp: trim_start_fixed hd_rev)
  ultimately show "trim s = s" by (simp add: trim_def)
qed

section \<open>Decimal numbers\<close>

text \<open>\<open>String(n)\<close> of a natural number.\<close>

fun digits :: "nat \<Rightarrow> string" where
  "digits n = (if n < 10 then [digit_char n] else digits (n div 10) @ [digit_char (n mod 10)])"

declare digits.simps [simp del]

fun dec_val :: "nat \<Rightarrow> string \<Rightarrow> nat" where
  "dec_val acc [] = acc"
| "dec_val acc (c # s) = dec_val (10 * acc + digit_val c) s"

text \<open>\<open>Number.parseInt(s, 10)\<close>: white space, a sign, the longest run of digits; no digit is NaN.\<close>

definition parse_int :: "string \<Rightarrow> int option" where
  "parse_int s = (let t = trim_start s;
     neg = (case t of c # _ \<Rightarrow> c = CHR ''-'' | [] \<Rightarrow> False);
     u = (case t of c # r \<Rightarrow> if c = CHR ''-'' \<or> c = CHR ''+'' then r else t | [] \<Rightarrow> []);
     ds = takeWhile is_digit u
     in if ds = [] then None
        else Some (if neg then - int (dec_val 0 ds) else int (dec_val 0 ds)))"

text \<open>\<open>String(n).padStart(w, "0")\<close> for a natural number that fits.\<close>

fun pad :: "nat \<Rightarrow> nat \<Rightarrow> string" where
  "pad 0 n = []"
| "pad (Suc w) n = pad w (n div 10) @ [digit_char (n mod 10)]"

lemma dec_val_append: "dec_val acc (s @ t) = dec_val (dec_val acc s) t"
  by (induction s arbitrary: acc) auto

lemma length_pad [simp]: "length (pad w n) = w"
  by (induction w arbitrary: n) auto

lemma pad_digits: "c \<in> set (pad w n) \<Longrightarrow> is_digit c"
  by (induction w arbitrary: n) auto

lemma dec_val_pad: "n < 10 ^ w \<Longrightarrow> dec_val 0 (pad w n) = n"
proof (induction w arbitrary: n)
  case 0
  then show ?case by simp
next
  case (Suc w)
  then have "n div 10 < 10 ^ w" by (simp add: less_mult_imp_div_less mult.commute)
  with Suc show ?case by (simp add: dec_val_append)
qed

lemma parse_int_digits:
  assumes "s \<noteq> []" and "\<And>c. c \<in> set s \<Longrightarrow> is_digit c"
  shows "parse_int s = Some (int (dec_val 0 s))"
proof -
  obtain c r where s: "s = c # r" using assms(1) by (cases s) auto
  have c: "is_digit c" using assms(2) by (simp add: s)
  then have "\<not> is_space c" "c \<noteq> CHR ''-''" "c \<noteq> CHR ''+''"
    by (auto simp: is_digit_def is_space_def)
  moreover have "takeWhile is_digit s = s" using assms(2) by (simp add: takeWhile_eq_all_conv)
  ultimately show ?thesis using assms(1) by (simp add: parse_int_def trim_start_def s Let_def)
qed

lemma parse_int_pad: "0 < w \<Longrightarrow> n < 10 ^ w \<Longrightarrow> parse_int (pad w n) = Some (int n)"
  by (subst parse_int_digits) (auto simp: dec_val_pad dest: pad_digits simp flip: length_greater_0_conv)

lemma pad_inject: "m < 10 ^ w \<Longrightarrow> n < 10 ^ w \<Longrightarrow> pad w m = pad w n \<longleftrightarrow> m = n"
  by (metis dec_val_pad)

text \<open>Padded numbers of one width are ordered as the numbers are.\<close>

lemma list_less_append_left:
  fixes xs ys :: "'a::linorder list"
  assumes "length xs = length ys"
  shows "xs @ us < ys @ vs \<longleftrightarrow> xs < ys \<or> xs = ys \<and> us < vs"
  using assms by (induction xs ys rule: list_induct2) auto

lemma pad_less: "m < 10 ^ w \<Longrightarrow> n < 10 ^ w \<Longrightarrow> pad w m < pad w n \<longleftrightarrow> m < n"
proof (induction w arbitrary: m n)
  case 0
  then show ?case by simp
next
  case (Suc w)
  have d: "m div 10 < 10 ^ w" "n div 10 < 10 ^ w"
    using Suc.prems by (simp_all add: less_mult_imp_div_less mult.commute)
  have "pad (Suc w) m < pad (Suc w) n \<longleftrightarrow>
      m div 10 < n div 10 \<or> m div 10 = n div 10 \<and> m mod 10 < n mod 10"
    using d by (simp add: list_less_append_left Suc.IH pad_inject digit_char_less)
  also have "\<dots> \<longleftrightarrow> m < n"
  proof -
    define a b c d where "a = m div 10" and "b = m mod 10" and "c = n div 10" and "d = n mod 10"
    have "m = 10 * a + b" "n = 10 * c + d" "b < 10" "d < 10"
      by (simp_all add: a_def b_def c_def d_def)
    then have "(a < c \<or> a = c \<and> b < d) \<longleftrightarrow> m < n" by arith
    then show ?thesis by (simp only: a_def b_def c_def d_def)
  qed
  finally show ?case .
qed

lemma dec_val_bound: "(\<And>c. c \<in> set s \<Longrightarrow> is_digit c) \<Longrightarrow> dec_val 0 s < 10 ^ length s"
proof (induction s rule: rev_induct)
  case Nil
  then show ?case by simp
next
  case (snoc c s)
  have "dec_val 0 s < 10 ^ length s" by (rule snoc.IH) (simp add: snoc.prems)
  moreover have "digit_val c \<le> 9" by (rule digit_val_le) (simp add: snoc.prems)
  ultimately have "10 * dec_val 0 s + digit_val c < 10 * 10 ^ length s" by linarith
  then show ?case by (simp add: dec_val_append)
qed

lemma pad_dec_val: "(\<And>c. c \<in> set s \<Longrightarrow> is_digit c) \<Longrightarrow> pad (length s) (dec_val 0 s) = s"
proof (induction s rule: rev_induct)
  case Nil
  then show ?case by simp
next
  case (snoc c s)
  then have "digit_val c \<le> 9" "digit_char (digit_val c) = c"
    by (simp_all add: digit_val_le digit_char_digit_val)
  with snoc show ?case by (simp add: dec_val_append)
qed

end
