(* ===== verification/Alea.thy ===== *)
theory Alea
  imports JsNumber JsString
begin

text \<open>
  The seeded pseudo random generator of the scheduler's interval fuzz
  (\<open>class Alea\<close> and \<open>createMash\<close> of \<open>scheduling/index.ts\<close>), on doubles as the code computes it.
  The closure variable \<open>n\<close> of \<open>createMash\<close> is passed explicitly.

  What is shown: whatever the seed, the generator's registers are multiples of \<open>2 ^ -32\<close> in
  \<open>[0, 1)\<close> and its carry is a small integer, every operation of \<open>next\<close> is exact in doubles, and so
  every number it draws is a multiple of \<open>2 ^ -32\<close> in \<open>[0, 1)\<close>.
\<close>

definition inv_2_32 :: jsnum where
  "inv_2_32 = fl (2.3283064365386963 / 10 ^ 10)"

text \<open>One iteration of the loop over the characters of \<open>data\<close>.\<close>

definition mash_char :: "jsnum \<Rightarrow> char \<Rightarrow> jsnum" where
  "mash_char next ch = (let
     next = jadd next (num (int (of_char ch)));
     h = jmul (fl 0.02519603282416938) next;
     next = num (to_uint32 h);
     h = jsub h next;
     h = jmul h next;
     next = num (to_uint32 h);
     h = jsub h next
   in jadd next (jmul h (num 4294967296)))"

definition mash :: "jsnum \<Rightarrow> string \<Rightarrow> jsnum \<times> jsnum" where
  "mash n data = (let next = foldl mash_char n data
     in (next, jmul (num (to_uint32 next)) inv_2_32))"

record alea =
  al_c :: jsnum
  al_s0 :: jsnum
  al_s1 :: jsnum
  al_s2 :: jsnum

text \<open>\<open>s -= mash(seed); if (s < 0) s += 1\<close>.\<close>

definition sub_mash :: "jsnum \<Rightarrow> jsnum \<Rightarrow> jsnum" where
  "sub_mash s r = (let s = jsub s r in if jlt s (num 0) then jadd s (num 1) else s)"

definition new_Alea :: "string \<Rightarrow> alea" where
  "new_Alea seed = (let
     (n, s0) = mash (num 4022871197) '' '';
     (n, s1) = mash n '' '';
     (n, s2) = mash n '' '';
     (n, r0) = mash n seed;
     s0 = sub_mash s0 r0;
     (n, r1) = mash n seed;
     s1 = sub_mash s1 r1;
     (n, r2) = mash n seed;
     s2 = sub_mash s2 r2
   in \<lparr>al_c = num 1, al_s0 = s0, al_s1 = s1, al_s2 = s2\<rparr>)"

definition alea_next :: "alea \<Rightarrow> jsnum \<times> alea" where
  "alea_next a = (let
     t = jadd (jmul (num 2091639) (al_s0 a)) (jmul (al_c a) inv_2_32);
     c = num (to_int32 t);
     s2 = jsub t c
   in (s2, \<lparr>al_c = c, al_s0 = al_s1 a, al_s1 = al_s2 a, al_s2 = s2\<rparr>))"

section \<open>The range of the generator\<close>

text \<open>A multiple of \<open>2 ^ -32\<close>.\<close>

abbreviation frac32 :: "int \<Rightarrow> jsnum" where
  "frac32 k \<equiv> Num (of_int k / 2 ^ 32)"

lemma inv_2_32: "inv_2_32 = frac32 1"
proof -
  have "fl (2.3283064365386963 / 10 ^ 10) = Num (of_int 4503599627370496 * 2 powi (- 84))"
    by (rule fl_eqI) (simp_all add: power_int_def dbl_lim_def power_divide)
  then show ?thesis by (simp add: inv_2_32_def power_int_def power_divide)
qed

lemma rep_frac32: "\<bar>k\<bar> \<le> 2 ^ 53 \<Longrightarrow> rep (of_int k / 2 ^ 32)"
proof -
  assume "\<bar>k\<bar> \<le> 2 ^ 53"
  then have "rep (of_int k * 2 powi (- 32))" by (rule rep_dyadic) simp_all
  moreover have "(2::rat) powi (- 32) = 1 / 2 ^ 32"
    using power_int_minus_divide [of "2::rat" 32] by (simp only: power_int_numeral)
  ultimately show "rep (of_int k / 2 ^ 32)" by simp
qed

lemma fl_frac32: "\<bar>k\<bar> \<le> 2 ^ 53 \<Longrightarrow> fl (of_int k / 2 ^ 32) = frac32 k"
  by (intro fl_rep rep_frac32)

lemma jmul_inv_2_32: "\<bar>k\<bar> \<le> 2 ^ 53 \<Longrightarrow> jmul (num k) inv_2_32 = frac32 k"
  using fl_frac32 [of k] by (simp add: inv_2_32)

lemma jadd_frac32: "\<bar>j + k\<bar> \<le> 2 ^ 53 \<Longrightarrow> jadd (frac32 j) (frac32 k) = frac32 (j + k)"
  using fl_frac32 [of "j + k"] by (simp add: add_divide_distrib)

lemma jsub_frac32: "\<bar>j - k\<bar> \<le> 2 ^ 53 \<Longrightarrow> jsub (frac32 j) (frac32 k) = frac32 (j - k)"
  using fl_frac32 [of "j - k"] by (simp add: jsub_def diff_divide_distrib)

lemma jmul_frac32: "\<bar>i * k\<bar> \<le> 2 ^ 53 \<Longrightarrow> jmul (num i) (frac32 k) = frac32 (i * k)"
  using fl_frac32 [of "i * k"] by simp

lemma num_frac32: "num i = frac32 (i * 2 ^ 32)"
  by simp

definition unit32 :: "jsnum \<Rightarrow> bool" where
  "unit32 x \<longleftrightarrow> (\<exists>k. x = frac32 k \<and> 0 \<le> k \<and> k < 2 ^ 32)"

lemma to_uint32_range: "0 \<le> to_uint32 x \<and> to_uint32 x < 2 ^ 32"
  by (cases x) simp_all

lemma mash_unit32: "unit32 (snd (mash n data))"
proof -
  let ?u = "to_uint32 (foldl mash_char n data)"
  have "jmul (num ?u) inv_2_32 = frac32 ?u"
    using to_uint32_range [of "foldl mash_char n data"] by (intro jmul_inv_2_32) simp
  then show ?thesis
    using to_uint32_range [of "foldl mash_char n data"]
    by (auto simp: mash_def Let_def unit32_def)
qed

lemma sub_mash_unit32:
  assumes "unit32 s" and "unit32 r"
  shows "unit32 (sub_mash s r)"
proof -
  obtain j k where s: "s = frac32 j" "0 \<le> j" "j < 2 ^ 32" and r: "r = frac32 k" "0 \<le> k" "k < 2 ^ 32"
    using assms by (auto simp: unit32_def)
  have d: "jsub s r = frac32 (j - k)" unfolding s r using s r by (intro jsub_frac32) auto
  have lt: "jlt (frac32 (j - k)) (num 0) \<longleftrightarrow> j < k" by (simp add: divide_less_0_iff)
  have "jadd (frac32 (j - k)) (num 1) = frac32 (j - k + 2 ^ 32)"
    using jadd_frac32 [of "j - k" "2 ^ 32"] s r by simp
  then have "sub_mash s r = frac32 (if j < k then j - k + 2 ^ 32 else j - k)"
    by (simp only: sub_mash_def d lt Let_def if_distrib [of frac32] cong: if_cong)
  with s r show ?thesis
    unfolding unit32_def by (intro exI [of _ "if j < k then j - k + 2 ^ 32 else j - k"]) auto
qed

text \<open>The invariant of the generator's state.\<close>

definition alea_inv :: "alea \<Rightarrow> bool" where
  "alea_inv a \<longleftrightarrow> unit32 (al_s0 a) \<and> unit32 (al_s1 a) \<and> unit32 (al_s2 a) \<and>
     (\<exists>c. al_c a = num c \<and> 0 \<le> c \<and> c < 2 ^ 21)"

lemma new_Alea_inv: "alea_inv (new_Alea seed)"
proof -
  have "unit32 x" if "mash n data = (n', x)" for n data n' x
    using mash_unit32 [of n data] that by simp
  then show ?thesis
    by (auto simp: new_Alea_def alea_inv_def Let_def split: prod.splits intro!: sub_mash_unit32)
qed

lemma alea_next_inv:
  assumes "alea_inv a"
  shows "unit32 (fst (alea_next a))" and "alea_inv (snd (alea_next a))"
proof -
  obtain k c where s0: "al_s0 a = frac32 k" "0 \<le> k" "k < 2 ^ 32"
    and c: "al_c a = num c" "0 \<le> c" "c < 2 ^ 21"
    using assms by (auto simp: alea_inv_def unit32_def)
  let ?t = "2091639 * k + c"
  have t: "0 \<le> ?t" "?t < 2 ^ 53" using s0 c by auto
  have "jadd (jmul (num 2091639) (al_s0 a)) (jmul (al_c a) inv_2_32) = frac32 ?t"
    using s0 c jmul_frac32 [of 2091639 k] jmul_inv_2_32 [of c] jadd_frac32 [of "2091639 * k" c]
    by simp
  moreover have "to_int32 (frac32 ?t) = ?t div 2 ^ 32"
  proof -
    have f: "\<lfloor>of_int ?t / (2 ^ 32 :: rat)\<rfloor> = ?t div 2 ^ 32"
      using floor_divide_of_int_eq [of ?t "2 ^ 32", where ?'a = rat] by simp
    have q: "0 \<le> ?t div 2 ^ 32" "?t div 2 ^ 32 < 2 ^ 21" using t by auto
    have "to_uint32 (frac32 ?t) = ?t div 2 ^ 32"
      using f q t by (simp add: trunc_int_def)
    with q show ?thesis by (simp add: to_int32_def)
  qed
  moreover have "jsub (frac32 ?t) (num (?t div 2 ^ 32)) = frac32 (?t mod 2 ^ 32)"
  proof -
    have "?t - ?t div 2 ^ 32 * 2 ^ 32 = ?t mod 2 ^ 32" by (simp add: minus_div_mult_eq_mod)
    moreover have "\<bar>?t mod 2 ^ 32\<bar> \<le> 2 ^ 53" by (simp add: abs_le_iff)
    ultimately show ?thesis
      using jsub_frac32 [of ?t "?t div 2 ^ 32 * 2 ^ 32"] by (simp only: num_frac32)
  qed
  ultimately have n: "alea_next a = (frac32 (?t mod 2 ^ 32),
      \<lparr>al_c = num (?t div 2 ^ 32), al_s0 = al_s1 a, al_s1 = al_s2 a, al_s2 = frac32 (?t mod 2 ^ 32)\<rparr>)"
    by (simp only: alea_next_def Let_def)
  have u: "unit32 (frac32 (?t mod 2 ^ 32))"
    unfolding unit32_def by (intro exI [of _ "?t mod 2 ^ 32"]) simp
  have "0 \<le> ?t div 2 ^ 32" "?t div 2 ^ 32 < 2 ^ 21" using t by auto
  with u n assms show "unit32 (fst (alea_next a))" and "alea_inv (snd (alea_next a))"
    by (auto simp: alea_inv_def)
qed

text \<open>Any number of draws: each lies in the unit interval.\<close>

fun alea_draws :: "nat \<Rightarrow> alea \<Rightarrow> jsnum list" where
  "alea_draws 0 a = []"
| "alea_draws (Suc k) a = (case alea_next a of (x, a') \<Rightarrow> x # alea_draws k a')"

lemma alea_draws_unit32: "alea_inv a \<Longrightarrow> x \<in> set (alea_draws k a) \<Longrightarrow> unit32 x"
proof (induction k arbitrary: a)
  case 0
  then show ?case by simp
next
  case (Suc k)
  obtain y a' where n: "alea_next a = (y, a')" by force
  with alea_next_inv [OF Suc.prems(1)] have "unit32 y" "alea_inv a'" by simp_all
  with Suc n show ?case by auto
qed

end
