(* ===== verification/JsDate.thy ===== *)
theory JsDate
  imports JsNumber JsString
begin

text \<open>
  \<open>Date\<close> as the language specification defines it: a time value is an integral number of
  milliseconds since the epoch inside the clipping range, or invalid; the UTC calendar functions
  are the specification's proleptic Gregorian arithmetic, with months counted from 0. The lemmas
  show that the calendar arithmetic is a bijection between day numbers and calendar dates that
  preserves their order.
\<close>

section \<open>The UTC calendar\<close>

definition ms_per_day :: int where
  "ms_per_day = 86400000"

definition leap_year :: "int \<Rightarrow> bool" where
  "leap_year y \<longleftrightarrow> 4 dvd y \<and> (\<not> 100 dvd y \<or> 400 dvd y)"

definition day_from_year :: "int \<Rightarrow> int" where
  "day_from_year y =
     365 * (y - 1970) + (y - 1969) div 4 - (y - 1901) div 100 + (y - 1601) div 400"

text \<open>The year of a day number: a 400 year cycle, then an estimate that is at most one too big.\<close>

definition year_from_day :: "int \<Rightarrow> int" where
  "year_from_day n = (let q = n div 146097; r = n mod 146097; y = r div 365 in
     1970 + 400 * q + (if r < day_from_year (1970 + y) then y - 1 else y))"

definition month_offset :: "bool \<Rightarrow> int \<Rightarrow> int" where
  "month_offset leap m = (let l = (if leap then 1 else 0) in
     if m = 0 then 0 else if m = 1 then 31 else if m = 2 then 59 + l else if m = 3 then 90 + l
     else if m = 4 then 120 + l else if m = 5 then 151 + l else if m = 6 then 181 + l
     else if m = 7 then 212 + l else if m = 8 then 243 + l else if m = 9 then 273 + l
     else if m = 10 then 304 + l else if m = 11 then 334 + l else 365 + l)"

definition month_of_yday :: "bool \<Rightarrow> int \<Rightarrow> int" where
  "month_of_yday leap k = (let l = (if leap then 1 else 0) in
     if k < 31 then 0 else if k < 59 + l then 1 else if k < 90 + l then 2
     else if k < 120 + l then 3 else if k < 151 + l then 4 else if k < 181 + l then 5
     else if k < 212 + l then 6 else if k < 243 + l then 7 else if k < 273 + l then 8
     else if k < 304 + l then 9 else if k < 334 + l then 10 else 11)"

definition civil_of_day :: "int \<Rightarrow> int \<times> int \<times> int" where
  "civil_of_day n = (let y = year_from_day n; k = n - day_from_year y;
     m = month_of_yday (leap_year y) k in (y, m, k - month_offset (leap_year y) m + 1))"

text \<open>\<open>MakeDay\<close>: months outside \<open>0..11\<close> move the year.\<close>

definition make_day :: "int \<Rightarrow> int \<Rightarrow> int \<Rightarrow> int" where
  "make_day y m d = (let y' = y + m div 12; m' = m mod 12 in
     day_from_year y' + month_offset (leap_year y') m' + d - 1)"

definition days_in_month :: "int \<Rightarrow> int \<Rightarrow> int" where
  "days_in_month y m = month_offset (leap_year y) (m + 1) - month_offset (leap_year y) m"

definition valid_civil :: "int \<Rightarrow> int \<Rightarrow> int \<Rightarrow> bool" where
  "valid_civil y m d \<longleftrightarrow> 0 \<le> m \<and> m \<le> 11 \<and> 1 \<le> d \<and> d \<le> days_in_month y m"

subsection \<open>Correctness of the calendar\<close>

lemma div_step:
  fixes x k :: int
  assumes "0 < k"
  shows "(x + 1) div k = x div k + (if k dvd (x + 1) then 1 else 0)"
proof -
  define q r where "q = x div k" and "r = x mod k"
  have x: "x = k * q + r" and r: "0 \<le> r" "r < k"
    using assms by (simp_all add: q_def r_def)
  show ?thesis
  proof (cases "r + 1 = k")
    case True
    then have "x + 1 = k * (q + 1)" by (simp add: x algebra_simps)
    with assms show ?thesis by (simp add: q_def)
  next
    case False
    then have "r + 1 < k" using r by simp
    then have "(x + 1) div k = q" and "(x + 1) mod k = r + 1"
      using r by (simp_all add: x add.assoc)
    with r show ?thesis by (simp add: q_def dvd_eq_mod_eq_0)
  qed
qed

lemma dvd_shift: "(k::int) dvd c \<Longrightarrow> k dvd (y - c) \<longleftrightarrow> k dvd y"
  by (metis diff_add_cancel dvd_add_left_iff)

lemma day_from_year_step:
  "day_from_year (y + 1) = day_from_year y + 365 + (if leap_year y then 1 else 0)"
proof -
  have d4: "4 dvd (y - 1968) \<longleftrightarrow> 4 dvd y" by (rule dvd_shift) simp
  have d100: "100 dvd (y - 1900) \<longleftrightarrow> 100 dvd y" by (rule dvd_shift) simp
  have d400: "400 dvd (y - 1600) \<longleftrightarrow> 400 dvd y" by (rule dvd_shift) simp
  have s4: "(y - 1968) div 4 = (y - 1969) div 4 + (if 4 dvd y then 1 else 0)"
    using div_step [of 4 "y - 1969"] d4 by simp
  have s100: "(y - 1900) div 100 = (y - 1901) div 100 + (if 100 dvd y then 1 else 0)"
    using div_step [of 100 "y - 1901"] d100 by simp
  have s400: "(y - 1600) div 400 = (y - 1601) div 400 + (if 400 dvd y then 1 else 0)"
    using div_step [of 400 "y - 1601"] d400 by simp
  have "day_from_year (y + 1) = 365 * (y - 1970) + 365 + (y - 1968) div 4
      - (y - 1900) div 100 + (y - 1600) div 400"
    by (simp add: day_from_year_def)
  also have "\<dots> = day_from_year y + 365 + (if 4 dvd y then 1 else 0)
      - (if 100 dvd y then 1 else 0) + (if 400 dvd y then 1 else 0)"
    unfolding s4 s100 s400 day_from_year_def by simp
  finally have "day_from_year (y + 1) = day_from_year y + 365 + (if 4 dvd y then 1 else 0)
      - (if 100 dvd y then 1 else 0) + (if 400 dvd y then 1 else 0)" .
  moreover have "100 dvd y" if "400 dvd y" using that by (rule dvd_trans [rotated]) simp
  moreover have "4 dvd y" if "100 dvd y" using that by (rule dvd_trans [rotated]) simp
  ultimately show ?thesis
    unfolding leap_year_def by (cases "4 dvd y"; cases "100 dvd y"; cases "400 dvd y") simp_all
qed

lemma day_from_year_mono: "y \<le> z \<Longrightarrow> day_from_year y + 365 * (z - y) \<le> day_from_year z"
proof (induction z rule: int_ge_induct)
  case base
  then show ?case by simp
next
  case (step z)
  then show ?case using day_from_year_step [of z] by (simp add: algebra_simps split: if_splits)
qed

lemma day_from_year_less: "y < z \<Longrightarrow> day_from_year (y + 1) \<le> day_from_year z"
  using day_from_year_mono [of "y + 1" z] by simp

lemma day_from_year_cycle: "day_from_year (y + 400 * q) = day_from_year y + 146097 * q"
proof -
  have "(y + 400 * q - c) div 4 = (y - c) div 4 + 100 * q" for c
    using div_mult_self4 [of 4 "100 * q" "y - c"] by (simp add: algebra_simps)
  moreover have "(y + 400 * q - c) div 100 = (y - c) div 100 + 4 * q" for c
    using div_mult_self4 [of 100 "4 * q" "y - c"] by (simp add: algebra_simps)
  moreover have "(y + 400 * q - c) div 400 = (y - c) div 400 + q" for c
    using div_mult_self4 [of 400 q "y - c"] by (simp add: algebra_simps)
  ultimately show ?thesis by (simp add: day_from_year_def algebra_simps)
qed

text \<open>The year of a day is the year whose days contain it, and there is only one.\<close>

lemma year_from_day_bounds:
  "day_from_year (year_from_day n) \<le> n" "n < day_from_year (year_from_day n + 1)"
proof -
  define q r where "q = n div 146097" and "r = n mod 146097"
  define y where "y = r div 365"
  have n: "n = 146097 * q + r" and r: "0 \<le> r" "r < 146097" by (simp_all add: q_def r_def)
  have ry: "365 * y \<le> r" "r < 365 * y + 365" "0 \<le> y" "y \<le> 400" using r by (auto simp: y_def)
  have up: "r < day_from_year (1970 + y + 1)"
    using day_from_year_mono [of 1970 "1970 + y + 1"] ry by (simp add: day_from_year_def)
  have low: "day_from_year (1970 + y - 1) \<le> r"
    using ry by (simp add: day_from_year_def)
  let ?y = "1970 + (if r < day_from_year (1970 + y) then y - 1 else y)"
  have "day_from_year ?y \<le> r \<and> r < day_from_year (?y + 1)"
    using up low by auto
  moreover have "year_from_day n = ?y + 400 * q"
    by (simp add: year_from_day_def q_def r_def y_def Let_def)
  moreover have "day_from_year (?y + 400 * q + 1) = day_from_year (?y + 1) + 146097 * q"
    using day_from_year_cycle [of "?y + 1" q] by (simp only: add.commute add.left_commute)
  ultimately show "day_from_year (year_from_day n) \<le> n" "n < day_from_year (year_from_day n + 1)"
    using n day_from_year_cycle [of ?y q] by auto
qed

lemma year_from_day_unique:
  assumes "day_from_year y \<le> n" and "n < day_from_year (y + 1)"
  shows "year_from_day n = y"
  using assms year_from_day_bounds [of n] day_from_year_less [of y "year_from_day n"]
    day_from_year_less [of "year_from_day n" y]
  by (cases "year_from_day n" y rule: linorder_cases) auto

lemma month_cases:
  fixes m :: int
  assumes "0 \<le> m" and "m \<le> 11"
  shows "m = 0 \<or> m = 1 \<or> m = 2 \<or> m = 3 \<or> m = 4 \<or> m = 5 \<or> m = 6 \<or> m = 7 \<or> m = 8 \<or> m = 9 \<or>
    m = 10 \<or> m = 11"
  using assms by arith

lemma month_of_yday_bounds:
  assumes "0 \<le> k" and "k < 365 + (if leap then 1 else 0)"
  shows "0 \<le> month_of_yday leap k" and "month_of_yday leap k \<le> 11"
    and "month_offset leap (month_of_yday leap k) \<le> k"
    and "k < month_offset leap (month_of_yday leap k + 1)"
  using assms by (cases leap; simp add: month_of_yday_def month_offset_def Let_def)+

lemma month_of_yday_unique:
  assumes "0 \<le> m" and "m \<le> 11" and "month_offset leap m \<le> k" and "k < month_offset leap (m + 1)"
  shows "month_of_yday leap k = m"
proof -
  from month_cases [OF assms(1,2)] assms(3,4) show ?thesis
    by (auto simp: month_of_yday_def month_offset_def Let_def split: if_splits)
qed

lemma month_offset_range:
  "0 \<le> m \<Longrightarrow> m \<le> 11 \<Longrightarrow> 0 \<le> month_offset leap m \<and>
   month_offset leap (m + 1) \<le> 365 + (if leap then 1 else 0)"
  by (auto simp: month_offset_def Let_def)

lemma civil_of_day_valid:
  assumes "civil_of_day n = (y, m, d)"
  shows "valid_civil y m d" and "make_day y m d = n"
proof -
  define k where "k = n - day_from_year y"
  have y: "y = year_from_day n" and m: "m = month_of_yday (leap_year y) k"
    and d: "d = k - month_offset (leap_year y) m + 1"
    using assms by (auto simp: civil_of_day_def Let_def k_def)
  have k: "0 \<le> k" "k < 365 + (if leap_year y then 1 else 0)"
    using year_from_day_bounds [of n] by (auto simp: k_def y day_from_year_step)
  note b = month_of_yday_bounds [OF k, folded m]
  show "valid_civil y m d" using b by (auto simp: valid_civil_def days_in_month_def d)
  show "make_day y m d = n" using b by (simp add: make_day_def Let_def d k_def)
qed

lemma civil_of_make_day:
  assumes "valid_civil y m d"
  shows "civil_of_day (make_day y m d) = (y, m, d)"
proof -
  from assms have m: "0 \<le> m" "m \<le> 11" and d: "1 \<le> d" "d \<le> days_in_month y m"
    by (auto simp: valid_civil_def)
  let ?k = "month_offset (leap_year y) m + d - 1"
  have n: "make_day y m d = day_from_year y + ?k" using m by (simp add: make_day_def Let_def)
  have k: "month_offset (leap_year y) m \<le> ?k" "?k < month_offset (leap_year y) (m + 1)"
    using d by (auto simp: days_in_month_def)
  have "year_from_day (make_day y m d) = y"
    using k month_offset_range [OF m, of "leap_year y"]
    by (intro year_from_day_unique) (auto simp: n day_from_year_step)
  with month_of_yday_unique [OF m k] show ?thesis
    by (simp add: civil_of_day_def Let_def n)
qed

lemma civil_of_day_inject: "civil_of_day m = civil_of_day n \<longleftrightarrow> m = n"
  by (metis civil_of_day_valid(2) prod_cases3)

text \<open>Calendar dates are ordered by year, month and day as their day numbers are.\<close>

definition civil_less :: "int \<times> int \<times> int \<Rightarrow> int \<times> int \<times> int \<Rightarrow> bool" where
  "civil_less p q = (case p of (y, m, d) \<Rightarrow> case q of (y', m', d') \<Rightarrow>
     y < y' \<or> y = y' \<and> (m < m' \<or> m = m' \<and> d < d'))"

lemma month_offset_mono:
  assumes "0 \<le> m" and "m < m'" and "m' \<le> 11"
  shows "month_offset leap (m + 1) \<le> month_offset leap m'"
proof -
  have "m \<le> 11" using assms by simp
  from month_cases [OF assms(1) this] assms(2,3) show ?thesis
    by (elim disjE) (simp_all add: month_offset_def Let_def)
qed

lemma valid_civil_range:
  assumes "valid_civil y m d"
  shows "day_from_year y \<le> make_day y m d" and "make_day y m d < day_from_year (y + 1)"
  using assms month_offset_range [of m "leap_year y"]
  by (auto simp: valid_civil_def days_in_month_def make_day_def Let_def day_from_year_step)

lemma make_day_less:
  assumes "valid_civil y m d" and "valid_civil y' m' d'" and "civil_less (y, m, d) (y', m', d')"
  shows "make_day y m d < make_day y' m' d'"
proof -
  consider "y < y'" | "y = y'" "m < m'" | "y = y'" "m = m'" "d < d'"
    using assms(3) by (auto simp: civil_less_def)
  then show ?thesis
  proof cases
    case 1
    then show ?thesis
      using day_from_year_less [OF 1] valid_civil_range [OF assms(1)] valid_civil_range [OF assms(2)]
      by linarith
  next
    case 2
    then show ?thesis
      using assms(1,2) month_offset_mono [of m m' "leap_year y"]
      by (auto simp: make_day_def Let_def valid_civil_def days_in_month_def)
  next
    case 3
    then show ?thesis by (simp add: make_day_def Let_def)
  qed
qed

lemma civil_less_total: "civil_less p q \<or> p = q \<or> civil_less q p"
  by (cases p; cases q) (auto simp: civil_less_def)

lemma civil_less_iff: "civil_less (civil_of_day m) (civil_of_day n) \<longleftrightarrow> m < n"
proof -
  have imp: "a < b" if "civil_less (civil_of_day a) (civil_of_day b)" for a b
    using that civil_of_day_valid make_day_less by (metis prod_cases3)
  show ?thesis
    using imp [of m n] imp [of n m] civil_less_total [of "civil_of_day m" "civil_of_day n"]
    by (auto simp: civil_of_day_inject)
qed

lemma days_in_month_le: "days_in_month y m \<le> 31"
  by (auto simp: days_in_month_def month_offset_def Let_def)

section \<open>Dates\<close>

text \<open>An object of class \<open>Date\<close>: its time value. \<open>TimeClip\<close> bounds it by 8.64e15 milliseconds.\<close>

datatype js_date = InvalidDate | Date int

definition max_time :: int where
  "max_time = 8640000000000000"

definition time_clip :: "int \<Rightarrow> js_date" where
  "time_clip t = (if \<bar>t\<bar> \<le> max_time then Date t else InvalidDate)"

text \<open>\<open>new Date(value)\<close> for a number, and \<open>date.getTime()\<close>.\<close>

fun new_date :: "jsnum \<Rightarrow> js_date" where
  "new_date (Num a) = time_clip (trunc_int a)"
| "new_date _ = InvalidDate"

fun get_time :: "js_date \<Rightarrow> jsnum" where
  "get_time InvalidDate = NaN"
| "get_time (Date t) = num t"

definition utc_day :: "int \<Rightarrow> int" where
  "utc_day t = t div ms_per_day"

text \<open>\<open>Date.UTC(year, month, day)\<close>: years 0 to 99 mean 1900 to 1999.\<close>

definition full_year :: "int \<Rightarrow> int" where
  "full_year y = (if 0 \<le> y \<and> y \<le> 99 then 1900 + y else y)"

definition date_UTC :: "int \<Rightarrow> int \<Rightarrow> int \<Rightarrow> js_date" where
  "date_UTC y m d = time_clip (make_day (full_year y) m d * ms_per_day)"

text \<open>The date part of \<open>toISOString\<close>: four digits for the years 0 to 9999, else sign and six.\<close>

definition iso_year :: "int \<Rightarrow> string" where
  "iso_year y = (if 0 \<le> y \<and> y \<le> 9999 then pad 4 (nat y)
     else (if y < 0 then CHR ''-'' else CHR ''+'') # pad 6 (nat \<bar>y\<bar>))"

definition iso_date :: "int \<Rightarrow> string" where
  "iso_date n = (case civil_of_day n of (y, m, d) \<Rightarrow>
     iso_year y @ ''-'' @ pad 2 (nat (m + 1)) @ ''-'' @ pad 2 (nat d))"

definition iso_time :: "int \<Rightarrow> string" where
  "iso_time ms = pad 2 (nat (ms div 3600000)) @ '':'' @ pad 2 (nat (ms div 60000 mod 60)) @ '':''
     @ pad 2 (nat (ms div 1000 mod 60)) @ ''.'' @ pad 3 (nat (ms mod 1000)) @ ''Z''"

fun to_iso_string :: "js_date \<Rightarrow> string result" where
  "to_iso_string InvalidDate = Inl (RangeError ''Invalid time value'')"
| "to_iso_string (Date t) =
     Inr (iso_date (utc_day t) @ ''T'' @ iso_time (t mod ms_per_day))"

lemma iso_date_parts:
  assumes "civil_of_day n = (y, m, d)"
  shows "0 \<le> m" "m \<le> 11" "1 \<le> d" "d \<le> 31"
  using civil_of_day_valid(1) [OF assms] days_in_month_le [of y m] by (auto simp: valid_civil_def)

text \<open>Printed dates of the years 0 to 9999 have ten characters and are ordered as the days are.\<close>

definition iso_day :: "int \<Rightarrow> bool" where
  "iso_day n \<longleftrightarrow> 0 \<le> year_from_day n \<and> year_from_day n \<le> 9999"

lemma year_of_civil: "civil_of_day n = (y, m, d) \<Longrightarrow> y = year_from_day n"
  by (simp add: civil_of_day_def Let_def)

lemma length_iso_date: "iso_day n \<Longrightarrow> length (iso_date n) = 10"
  by (auto simp: iso_date_def iso_day_def iso_year_def dest: year_of_civil split: prod.splits)

lemma iso_date_less:
  assumes "iso_day m" and "iso_day n"
  shows "iso_date m < iso_date n \<longleftrightarrow> m < n"
proof -
  obtain y a d where m: "civil_of_day m = (y, a, d)" using prod_cases3 by blast
  obtain y' a' d' where n: "civil_of_day n = (y', a', d')" using prod_cases3 by blast
  have y: "0 \<le> y" "y \<le> 9999" "0 \<le> y'" "y' \<le> 9999"
    using assms year_of_civil [OF m] year_of_civil [OF n] by (auto simp: iso_day_def)
  note pm = iso_date_parts [OF m] and pn = iso_date_parts [OF n]
  have "iso_date m < iso_date n \<longleftrightarrow> civil_less (y, a, d) (y', a', d')"
    using y pm pn
    by (auto simp: iso_date_def m n iso_year_def list_less_append_left pad_less pad_inject
        civil_less_def nat_less_iff)
  then show ?thesis using civil_less_iff [of m n] by (simp add: m n)
qed

lemma iso_date_inject: "iso_day m \<Longrightarrow> iso_day n \<Longrightarrow> iso_date m = iso_date n \<longleftrightarrow> m = n"
  by (metis iso_date_less less_irrefl linorder_less_linear)

end
