(* ===== verification/JsNumText.thy ===== *)
theory JsNumText
  imports JsNumber JsString
begin

text \<open>
  \<open>String(value)\<close> for a JavaScript number (the algorithm \<open>Number::toString\<close> of the language): the
  shortest decimal digits that round to the value, laid out with a point or an exponent.
\<close>

text \<open>The decimal exponent: \<open>10 ^ (n - 1) \<le> v < 10 ^ n\<close> for positive \<open>v\<close>.\<close>

definition dec_exp :: "rat \<Rightarrow> int" where
  "dec_exp v = (if 1 \<le> v then int (length (digits (nat \<lfloor>v\<rfloor>)))
     else 1 - int (length (digits (nat (\<lceil>1 / v\<rceil> - 1)))))"

text \<open>
  The significand with \<open>k\<close> digits that reads back as \<open>v\<close>, the closer one when both neighbours do.
\<close>

definition digits_at :: "rat \<Rightarrow> int \<Rightarrow> nat \<Rightarrow> int option" where
  "digits_at v n k = (let
     u = (10::rat) powi (n - int k);
     lo = \<lfloor>v / u\<rfloor>; hi = lo + 1;
     ok_lo = fl (of_int lo * u) = Num v; ok_hi = fl (of_int hi * u) = Num v
   in if ok_lo \<and> (\<not> ok_hi \<or> v - of_int lo * u \<le> of_int hi * u - v) then Some lo
      else if ok_hi then Some hi else None)"

fun shortest_digits :: "rat \<Rightarrow> int \<Rightarrow> nat list \<Rightarrow> int \<times> nat" where
  "shortest_digits v n [] = (\<lfloor>v / 10 powi (n - 17)\<rfloor>, 17)"
| "shortest_digits v n (k # ks) = (case digits_at v n k of
     Some s \<Rightarrow> (s, k)
   | None \<Rightarrow> shortest_digits v n ks)"

definition layout_digits :: "string \<Rightarrow> int \<Rightarrow> string" where
  "layout_digits ds n = (let k = int (length ds) in
     if k \<le> n \<and> n \<le> 21 then ds @ replicate (nat (n - k)) (CHR ''0'')
     else if 0 < n \<and> n \<le> 21 then take (nat n) ds @ ''.'' @ drop (nat n) ds
     else if -6 < n \<and> n \<le> 0 then ''0.'' @ replicate (nat (- n)) (CHR ''0'') @ ds
     else let e = n - 1; sign = (if e < 0 then ''-'' else ''+'');
            mant = (if k = 1 then ds else take 1 ds @ ''.'' @ drop 1 ds)
       in mant @ ''e'' @ sign @ digits (nat \<bar>e\<bar>))"

definition positive_to_string :: "rat \<Rightarrow> string" where
  "positive_to_string v = (let n = dec_exp v in
     case shortest_digits v n [1..<18] of (s, k) \<Rightarrow>
       if s = 10 ^ k then layout_digits ''1'' (n + 1) else layout_digits (digits (nat s)) n)"

fun number_to_string :: "jsnum \<Rightarrow> string" where
  "number_to_string NaN = ''NaN''"
| "number_to_string PosInf = ''Infinity''"
| "number_to_string NegInf = ''-Infinity''"
| "number_to_string (Num v) = (if v = 0 then ''0''
     else if v < 0 then ''-'' @ positive_to_string (- v) else positive_to_string v)"

end
