(* ===== verification/WorkspaceConfig.thy ===== *)
theory WorkspaceConfig
  imports JsNumber
begin

text \<open>
  The workspace level scheduler configuration (\<open>scheduling/workspaceConfig.ts\<close>) and its defaults.
  Every \<open>number\<close> of the source is a \<open>jsnum\<close>: nothing here says that a step is an integer, that is
  what the validation of \<open>WorkspaceSettings\<close> establishes.
\<close>

datatype scheduler_algorithm = Fsrs6

record scheduler_config =
  algorithm :: scheduler_algorithm
  desiredRetention :: jsnum
  learningStepsMinutes :: "jsnum list"
  relearningStepsMinutes :: "jsnum list"
  maximumIntervalDays :: jsnum
  enableFuzz :: bool

definition defaultWorkspaceSchedulerConfig :: scheduler_config where
  "defaultWorkspaceSchedulerConfig = \<lparr>
     algorithm = Fsrs6,
     desiredRetention = fl 0.9,
     learningStepsMinutes = [num 1, num 10],
     relearningStepsMinutes = [num 10],
     maximumIntervalDays = num 36500,
     enableFuzz = True\<rparr>"

end
