(* ===== verification/FsrsScheduler.thy ===== *)
theory FsrsScheduler
  imports Alea JsDate JsNumText WorkspaceConfig
begin

text \<open>
  The FSRS-6 scheduler (\<open>scheduling/index.ts\<close>), function by function: learning steps, the memory
  formulas, the interval with its fuzz, the schedules of the four review_card states, and the rebuild of
  a card's state from its review history. \<open>m\<close> is the host's \<open>Math.exp\<close>, \<open>Math.log\<close> and
  \<open>Math.pow\<close>. This theory holds the definitions; \<open>FsrsMemory\<close>, \<open>FsrsInterval\<close> and
  \<open>FsrsTransitions\<close> hold the lemmas.
\<close>

section \<open>Data\<close>

datatype ReviewRating = Again | Hard | Good | Easy

datatype FsrsCardState = New | Learning | Review | Relearning

text \<open>The rating as the number the source uses (\<open>0 | 1 | 2 | 3\<close>).\<close>

fun rating_number :: "ReviewRating \<Rightarrow> int" where
  "rating_number Again = 0"
| "rating_number Hard = 1"
| "rating_number Good = 2"
| "rating_number Easy = 3"

record ReviewableCardScheduleState =
  c_cardId :: string
  c_reps :: int
  c_lapses :: int
  c_state :: FsrsCardState
  c_stepIndex :: "int option"
  c_stability :: "jsnum option"
  c_difficulty :: "jsnum option"
  c_lastReviewedAt :: "js_date option"
  c_scheduledDays :: "jsnum option"

record ReviewHistoryEvent =
  e_rating :: ReviewRating
  e_reviewedAt :: js_date

record ReviewSchedule =
  s_dueAt :: js_date
  s_reps :: int
  s_lapses :: int
  s_state :: FsrsCardState
  s_stepIndex :: "int option"
  s_stability :: jsnum
  s_difficulty :: jsnum
  s_lastReviewedAt :: js_date
  s_scheduledDays :: jsnum

record RebuiltCardScheduleState =
  b_dueAt :: "js_date option"
  b_reps :: int
  b_lapses :: int
  b_state :: FsrsCardState
  b_stepIndex :: "int option"
  b_stability :: "jsnum option"
  b_difficulty :: "jsnum option"
  b_lastReviewedAt :: "js_date option"
  b_scheduledDays :: "jsnum option"

record FsrsMemoryState =
  m_difficulty :: jsnum
  m_stability :: jsnum

record FuzzRange =
  minInterval :: jsnum
  maxInterval :: jsnum

record LearningStepResult =
  scheduledMinutes :: "jsnum option"
  nextStepIndex :: int

section \<open>Constants\<close>

definition DEFAULT_W :: "jsnum list" where
  "DEFAULT_W = [fl 0.212, fl 1.2931, fl 2.3065, fl 8.2956, fl 6.4133, fl 0.8334, fl 3.0194,
     fl 0.001, fl 1.8722, fl 0.1666, fl 0.796, fl 1.4835, fl 0.0614, fl 0.2629, fl 1.6483,
     fl 0.6014, fl 1.8729, fl 0.5425, fl 0.0912, fl 0.0658, fl 0.1542]"

definition S_MIN :: jsnum where
  "S_MIN = fl 0.001"

definition W17_W18_CEILING :: jsnum where
  "W17_W18_CEILING = num 2"

text \<open>The entries \<open>{ start, end, factor }\<close>.\<close>

definition FUZZ_RANGES :: "(jsnum \<times> jsnum \<times> jsnum) list" where
  "FUZZ_RANGES = [(fl 2.5, num 7, fl 0.15), (num 7, num 20, fl 0.1), (num 20, PosInf, fl 0.05)]"

definition DECAY :: jsnum where
  "DECAY = jneg (DEFAULT_W ! 20)"

definition FACTOR :: "js_math \<Rightarrow> jsnum" where
  "FACTOR m = round_fixed8 (jsub (m_exp m (jmul (m_pow m DECAY (num (- 1))) (m_log m (fl 0.9)))) (num 1))"

section \<open>Helpers\<close>

definition addMinutes :: "js_date \<Rightarrow> jsnum \<Rightarrow> js_date" where
  "addMinutes date minutes = new_date (jadd (get_time date) (jmul minutes (num 60000)))"

definition addDays :: "js_date \<Rightarrow> jsnum \<Rightarrow> js_date" where
  "addDays date days = new_date (jadd (get_time date) (jmul days (num 86400000)))"

definition clamp :: "jsnum \<Rightarrow> jsnum \<Rightarrow> jsnum \<Rightarrow> jsnum" where
  "clamp value lo hi = jmin (jmax value lo) hi"

definition roundTo8 :: "jsnum \<Rightarrow> jsnum" where
  "roundTo8 value = round_fixed8 value"

text \<open>\<open>Date.UTC(d.getUTCFullYear(), d.getUTCMonth(), d.getUTCDate())\<close>.\<close>

fun utc_midnight :: "js_date \<Rightarrow> jsnum" where
  "utc_midnight InvalidDate = NaN"
| "utc_midnight (Date t) = (case civil_of_day (utc_day t) of (y, mo, d) \<Rightarrow> get_time (date_UTC y mo d))"

definition dateDiffInDays :: "js_date \<Rightarrow> js_date \<Rightarrow> jsnum result" where
  "dateDiffInDays lastReviewedAt now =
     (if jlt (get_time now) (get_time lastReviewedAt)
      then rbind (to_iso_string lastReviewedAt) (\<lambda>l. rbind (to_iso_string now) (\<lambda>n.
        Inl (Error (''Review timestamp moved backwards: lastReviewedAt='' @ l @ '', now='' @ n))))
      else Inr (jfloor (jdiv (jsub (utc_midnight now) (utc_midnight lastReviewedAt)) (num 86400000))))"

definition stateRequiresMemory :: "FsrsCardState \<Rightarrow> bool" where
  "stateRequiresMemory state \<longleftrightarrow> state \<noteq> New"

definition getIntervalModifier :: "js_math \<Rightarrow> jsnum \<Rightarrow> jsnum" where
  "getIntervalModifier m requestRetention =
     roundTo8 (jdiv (jsub (m_pow m requestRetention (jdiv (num 1) DECAY)) (num 1)) (FACTOR m))"

definition formatSeedNumber :: "jsnum \<Rightarrow> string" where
  "formatSeedNumber value = (if value = Num 0 then ''0'' else number_to_string value)"

definition mapRatingToFsrsGrade :: "ReviewRating \<Rightarrow> int" where
  "mapRatingToFsrsGrade rating = rating_number rating + 1"

definition getStepsForState :: "scheduler_config \<Rightarrow> FsrsCardState \<Rightarrow> jsnum list" where
  "getStepsForState settings state =
     (if state = Relearning \<or> state = Review then relearningStepsMinutes settings
      else learningStepsMinutes settings)"

definition getCurrentStepIndex :: "ReviewableCardScheduleState \<Rightarrow> int" where
  "getCurrentStepIndex review_card = (case c_stepIndex review_card of None \<Rightarrow> 0 | Some i \<Rightarrow> i)"

definition getLearningStrategyStepIndex :: "ReviewableCardScheduleState \<Rightarrow> int \<Rightarrow> int" where
  "getLearningStrategyStepIndex review_card grade = (let currentStepIndex = getCurrentStepIndex review_card in
     if c_state review_card = Learning \<and> grade \<noteq> 1 \<and> grade \<noteq> 2 then currentStepIndex + 1
     else currentStepIndex)"

text \<open>\<open>xs[i]\<close>: \<open>undefined\<close> outside the array.\<close>

definition elem_at :: "'a list \<Rightarrow> int \<Rightarrow> 'a option" where
  "elem_at xs i = (if 0 \<le> i \<and> i < int (length xs) then Some (xs ! nat i) else None)"

text \<open>\<open>undefined\<close> in an arithmetic operation is NaN.\<close>

definition num_at :: "jsnum list \<Rightarrow> int \<Rightarrow> jsnum" where
  "num_at xs i = (case elem_at xs i of None \<Rightarrow> NaN | Some x \<Rightarrow> x)"

definition getHardStepMinutes :: "jsnum list \<Rightarrow> jsnum" where
  "getHardStepMinutes steps =
     (if length steps = 1 then jround (jmul (num_at steps 0) (Num (3 / 2)))
      else jround (jdiv (jadd (num_at steps 0) (num_at steps 1)) (num 2)))"

definition getLearningStepResult ::
    "scheduler_config \<Rightarrow> ReviewableCardScheduleState \<Rightarrow> int \<Rightarrow> LearningStepResult result" where
  "getLearningStepResult settings review_card grade = (let
     steps = getStepsForState settings (c_state review_card);
     strategyStepIndex = getLearningStrategyStepIndex review_card grade
   in
     if length steps = 0 then Inl (Error ''Workspace scheduler steps must not be empty'')
     else if c_state review_card = Review then Inr \<lparr>scheduledMinutes = elem_at steps 0, nextStepIndex = 0\<rparr>
     else if grade = 1 then Inr \<lparr>scheduledMinutes = elem_at steps 0, nextStepIndex = 0\<rparr>
     else if grade = 2 then
       Inr \<lparr>scheduledMinutes = Some (getHardStepMinutes steps), nextStepIndex = strategyStepIndex\<rparr>
     else if grade = 4 then Inr \<lparr>scheduledMinutes = None, nextStepIndex = 0\<rparr>
     else (let next = strategyStepIndex + 1 in
       case elem_at steps next of
         None \<Rightarrow> Inr \<lparr>scheduledMinutes = None, nextStepIndex = 0\<rparr>
       | Some nextStepMinutes \<Rightarrow>
           Inr \<lparr>scheduledMinutes = Some nextStepMinutes, nextStepIndex = next\<rparr>))"

section \<open>Memory formulas\<close>

definition initStability :: "int \<Rightarrow> jsnum" where
  "initStability grade = jmax (DEFAULT_W ! nat (grade - 1)) (fl 0.1)"

definition initDifficulty :: "js_math \<Rightarrow> int \<Rightarrow> jsnum" where
  "initDifficulty m grade = roundTo8 (jadd
     (jsub (DEFAULT_W ! 4) (m_exp m (jmul (num (grade - 1)) (DEFAULT_W ! 5)))) (num 1))"

definition meanReversion :: "jsnum \<Rightarrow> jsnum \<Rightarrow> jsnum" where
  "meanReversion initialDifficulty currentDifficulty = roundTo8 (jadd
     (jmul (DEFAULT_W ! 7) initialDifficulty)
     (jmul (jsub (num 1) (DEFAULT_W ! 7)) currentDifficulty))"

definition linearDamping :: "jsnum \<Rightarrow> jsnum \<Rightarrow> jsnum" where
  "linearDamping deltaDifficulty difficulty =
     roundTo8 (jdiv (jmul deltaDifficulty (jsub (num 10) difficulty)) (num 9))"

definition nextDifficulty :: "js_math \<Rightarrow> jsnum \<Rightarrow> int \<Rightarrow> jsnum" where
  "nextDifficulty m difficulty grade = (let
     deltaDifficulty = jmul (jneg (DEFAULT_W ! 6)) (num (grade - 3));
     nextDifficultyValue = jadd difficulty (linearDamping deltaDifficulty difficulty)
   in clamp (meanReversion (initDifficulty m 4) nextDifficultyValue) (num 1) (num 10))"

definition forgettingCurve :: "js_math \<Rightarrow> jsnum \<Rightarrow> jsnum \<Rightarrow> jsnum" where
  "forgettingCurve m elapsedDays stability = roundTo8 (m_pow m
     (jadd (num 1) (jdiv (jmul (FACTOR m) elapsedDays) stability)) DECAY)"

definition nextRecallStability :: "js_math \<Rightarrow> jsnum \<Rightarrow> jsnum \<Rightarrow> jsnum \<Rightarrow> int \<Rightarrow> jsnum" where
  "nextRecallStability m difficulty stability retrievability grade = (let
     hardPenalty = (if grade = 2 then DEFAULT_W ! 15 else num 1);
     easyBound = (if grade = 4 then DEFAULT_W ! 16 else num 1);
     product = jmul (jmul (jmul (jmul (jmul
       (m_exp m (DEFAULT_W ! 8))
       (jsub (num 11) difficulty))
       (m_pow m stability (jneg (DEFAULT_W ! 9))))
       (jsub (m_exp m (jmul (jsub (num 1) retrievability) (DEFAULT_W ! 10))) (num 1)))
       hardPenalty)
       easyBound
   in roundTo8 (clamp (jmul stability (jadd (num 1) product)) S_MIN (num 36500)))"

definition nextForgetStability :: "js_math \<Rightarrow> jsnum \<Rightarrow> jsnum \<Rightarrow> jsnum \<Rightarrow> jsnum" where
  "nextForgetStability m difficulty stability retrievability = roundTo8 (clamp
     (jmul (jmul (jmul
       (DEFAULT_W ! 11)
       (m_pow m difficulty (jneg (DEFAULT_W ! 12))))
       (jsub (m_pow m (jadd stability (num 1)) (DEFAULT_W ! 13)) (num 1)))
       (m_exp m (jmul (jsub (num 1) retrievability) (DEFAULT_W ! 14))))
     S_MIN (num 36500))"

text \<open>The pair \<open>{ w17, w18 }\<close>.\<close>

definition getShortTermWeights :: "js_math \<Rightarrow> scheduler_config \<Rightarrow> jsnum \<times> jsnum" where
  "getShortTermWeights m settings =
     (if length (relearningStepsMinutes settings) \<le> 1 then (DEFAULT_W ! 17, DEFAULT_W ! 18)
      else let
        value = jdiv (jneg (jadd (jadd
            (m_log m (DEFAULT_W ! 11))
            (m_log m (jsub (m_pow m (num 2) (DEFAULT_W ! 13)) (num 1))))
            (jmul (DEFAULT_W ! 14) (fl 0.3))))
          (num (int (length (relearningStepsMinutes settings))));
        ceiling = clamp (roundTo8 value) (fl 0.01) W17_W18_CEILING
      in (clamp (DEFAULT_W ! 17) (num 0) ceiling, clamp (DEFAULT_W ! 18) (num 0) ceiling))"

definition nextShortTermStability :: "js_math \<Rightarrow> jsnum \<Rightarrow> int \<Rightarrow> scheduler_config \<Rightarrow> jsnum" where
  "nextShortTermStability m stability grade settings = (case getShortTermWeights m settings of
     (w17, w18) \<Rightarrow> let
       sinc = jmul (m_pow m stability (jneg (DEFAULT_W ! 19)))
         (m_exp m (jmul w17 (jadd (num (grade - 3)) w18)));
       maskedSinc = (if 3 \<le> grade then jmax sinc (num 1) else sinc)
     in roundTo8 (clamp (jmul stability maskedSinc) S_MIN (num 36500)))"

definition createInitialMemoryState :: "js_math \<Rightarrow> int \<Rightarrow> FsrsMemoryState" where
  "createInitialMemoryState m grade = \<lparr>
     m_difficulty = clamp (initDifficulty m grade) (num 1) (num 10),
     m_stability = initStability grade\<rparr>"

definition computeNextShortTermMemoryState ::
    "js_math \<Rightarrow> FsrsMemoryState \<Rightarrow> int \<Rightarrow> scheduler_config \<Rightarrow> FsrsMemoryState" where
  "computeNextShortTermMemoryState m memoryState grade settings = \<lparr>
     m_difficulty = nextDifficulty m (m_difficulty memoryState) grade,
     m_stability = nextShortTermStability m (m_stability memoryState) grade settings\<rparr>"

definition computeNextReviewMemoryState ::
    "js_math \<Rightarrow> FsrsMemoryState \<Rightarrow> jsnum \<Rightarrow> int \<Rightarrow> scheduler_config \<Rightarrow> FsrsMemoryState" where
  "computeNextReviewMemoryState m memoryState elapsedDays grade settings = (let
     retrievability = forgettingCurve m elapsedDays (m_stability memoryState);
     stabilityAfterSuccess = nextRecallStability m (m_difficulty memoryState)
       (m_stability memoryState) retrievability grade;
     stabilityAfterFailure = nextForgetStability m (m_difficulty memoryState)
       (m_stability memoryState) retrievability;
     nextStability = (if grade = 1 then
       (case getShortTermWeights m settings of (w17, w18) \<Rightarrow>
          let nextStabilityMin = jdiv (m_stability memoryState) (m_exp m (jmul w17 w18))
          in clamp (roundTo8 nextStabilityMin) S_MIN stabilityAfterFailure)
       else stabilityAfterSuccess)
   in \<lparr>m_difficulty = nextDifficulty m (m_difficulty memoryState) grade,
       m_stability = nextStability\<rparr>)"

section \<open>Intervals\<close>

definition fuzz_delta :: "jsnum \<Rightarrow> jsnum" where
  "fuzz_delta interval = foldl (\<lambda>delta (start, stop, factor).
     jadd delta (jmul factor (jmax (jsub (jmin interval stop) start) (num 0)))) (num 1) FUZZ_RANGES"

definition getFuzzRange :: "jsnum \<Rightarrow> jsnum \<Rightarrow> jsnum \<Rightarrow> FuzzRange" where
  "getFuzzRange interval elapsedDays maximumInterval = (let
     delta = fuzz_delta interval;
     clampedInterval = jmin interval maximumInterval;
     minI = jmax (num 2) (jround (jsub clampedInterval delta));
     maxI = jmin (jround (jadd clampedInterval delta)) maximumInterval;
     minI = (if jlt elapsedDays clampedInterval then jmax minI (jadd elapsedDays (num 1)) else minI)
   in \<lparr>minInterval = jmin minI maxI, maxInterval = maxI\<rparr>)"

definition getIntervalSeed :: "js_date \<Rightarrow> int \<Rightarrow> FsrsMemoryState option \<Rightarrow> string" where
  "getIntervalSeed now reps memoryState = (let
     memoryProduct = (case memoryState of None \<Rightarrow> num 0
       | Some ms \<Rightarrow> jmul (m_difficulty ms) (m_stability ms))
   in number_to_string (get_time now) @ ''_'' @ number_to_string (num reps) @ ''_''
        @ formatSeedNumber memoryProduct)"

definition nextInterval :: "js_math \<Rightarrow> jsnum \<Rightarrow> jsnum \<Rightarrow> scheduler_config \<Rightarrow> string \<Rightarrow> jsnum" where
  "nextInterval m stability elapsedDays settings intervalSeed = (let
     intervalModifier = getIntervalModifier m (desiredRetention settings);
     nextRawInterval = clamp (jround (jmul stability intervalModifier)) (num 1)
       (maximumIntervalDays settings)
   in if \<not> enableFuzz settings \<or> jlt nextRawInterval (num 3) then nextRawInterval
      else let
        prng = new_Alea intervalSeed;
        fuzzFactor = fst (alea_next prng);
        fuzzRange = getFuzzRange nextRawInterval elapsedDays (maximumIntervalDays settings)
      in jfloor (jadd (jmul fuzzFactor
           (jadd (jsub (maxInterval fuzzRange) (minInterval fuzzRange)) (num 1)))
           (minInterval fuzzRange)))"

section \<open>Schedules\<close>

definition getMemoryState :: "ReviewableCardScheduleState \<Rightarrow> FsrsMemoryState option result" where
  "getMemoryState review_card =
     (if \<not> stateRequiresMemory (c_state review_card) then
        (if c_stability review_card \<noteq> None \<or> c_difficulty review_card \<noteq> None \<or> c_lastReviewedAt review_card \<noteq> None
            \<or> c_scheduledDays review_card \<noteq> None \<or> c_stepIndex review_card \<noteq> None
         then Inl (Error ''New review_card must not have persisted FSRS state'')
         else Inr None)
      else (case (c_stability review_card, c_difficulty review_card, c_lastReviewedAt review_card, c_scheduledDays review_card) of
        (Some stability, Some difficulty, Some _, Some _) \<Rightarrow>
          (if c_state review_card = Review \<and> c_stepIndex review_card \<noteq> None
           then Inl (Error ''Review review_card must not persist fsrsStepIndex'')
           else if (c_state review_card = Learning \<or> c_state review_card = Relearning) \<and> c_stepIndex review_card = None
           then Inl (Error ''Learning or relearning review_card is missing fsrsStepIndex'')
           else Inr (Some \<lparr>m_difficulty = difficulty, m_stability = stability\<rparr>))
      | _ \<Rightarrow> Inl (Error ''Persisted FSRS review_card state is incomplete'')))"

definition buildGraduatedReviewSchedule ::
    "js_math \<Rightarrow> FsrsMemoryState \<Rightarrow> js_date \<Rightarrow> int \<Rightarrow> int \<Rightarrow> scheduler_config \<Rightarrow> jsnum \<Rightarrow> string
     \<Rightarrow> ReviewSchedule" where
  "buildGraduatedReviewSchedule m nextMemoryState now reps lapses settings elapsedDays intervalSeed =
     (let scheduledDays = nextInterval m (m_stability nextMemoryState) elapsedDays settings intervalSeed
      in \<lparr>s_dueAt = addDays now scheduledDays, s_reps = reps, s_lapses = lapses, s_state = Review,
          s_stepIndex = None, s_stability = m_stability nextMemoryState,
          s_difficulty = m_difficulty nextMemoryState, s_lastReviewedAt = now,
          s_scheduledDays = scheduledDays\<rparr>)"

definition buildShortTermSchedule ::
    "js_math \<Rightarrow> ReviewableCardScheduleState \<Rightarrow> FsrsMemoryState \<Rightarrow> ReviewRating \<Rightarrow> js_date \<Rightarrow> int
     \<Rightarrow> int \<Rightarrow> scheduler_config \<Rightarrow> FsrsCardState \<Rightarrow> jsnum \<Rightarrow> string \<Rightarrow> ReviewSchedule result" where
  "buildShortTermSchedule m review_card nextMemoryState rating now reps lapses settings nextState
     elapsedDays intervalSeed =
     rbind (getLearningStepResult settings review_card (mapRatingToFsrsGrade rating)) (\<lambda>learningStep.
       case scheduledMinutes learningStep of
         None \<Rightarrow> Inr (buildGraduatedReviewSchedule m nextMemoryState now reps lapses settings
           elapsedDays intervalSeed)
       | Some minutes \<Rightarrow> Inr \<lparr>s_dueAt = addMinutes now (jround minutes), s_reps = reps,
           s_lapses = lapses, s_state = nextState, s_stepIndex = Some (nextStepIndex learningStep),
           s_stability = m_stability nextMemoryState, s_difficulty = m_difficulty nextMemoryState,
           s_lastReviewedAt = now, s_scheduledDays = num 0\<rparr>)"

text \<open>The three intervals of \<open>buildReviewSuccessSchedule\<close>, in the order hard, good, easy.\<close>

definition success_intervals ::
    "js_math \<Rightarrow> scheduler_config \<Rightarrow> jsnum \<Rightarrow> jsnum \<Rightarrow> jsnum \<Rightarrow> jsnum \<Rightarrow> string \<Rightarrow> jsnum \<times> jsnum \<times> jsnum"
  where
  "success_intervals m settings elapsedDays hardStability goodStability easyStability intervalSeed =
     (let hardInterval = nextInterval m hardStability elapsedDays settings intervalSeed;
          goodInterval = nextInterval m goodStability elapsedDays settings intervalSeed;
          hardInterval = jmin hardInterval goodInterval;
          goodInterval = jmax goodInterval (jadd hardInterval (num 1));
          easyInterval = jmax (nextInterval m easyStability elapsedDays settings intervalSeed)
            (jadd goodInterval (num 1))
      in (hardInterval, goodInterval, easyInterval))"

definition review_schedule_of ::
    "FsrsMemoryState \<Rightarrow> jsnum \<Rightarrow> js_date \<Rightarrow> int \<Rightarrow> int \<Rightarrow> ReviewSchedule" where
  "review_schedule_of memoryState interval now reps lapses =
     \<lparr>s_dueAt = addDays now interval, s_reps = reps, s_lapses = lapses, s_state = Review,
      s_stepIndex = None, s_stability = m_stability memoryState,
      s_difficulty = m_difficulty memoryState, s_lastReviewedAt = now, s_scheduledDays = interval\<rparr>"

definition buildReviewSuccessSchedule ::
    "js_math \<Rightarrow> js_date \<Rightarrow> int \<Rightarrow> int \<Rightarrow> scheduler_config \<Rightarrow> jsnum \<Rightarrow> FsrsMemoryState \<Rightarrow> FsrsMemoryState
     \<Rightarrow> FsrsMemoryState \<Rightarrow> ReviewRating \<Rightarrow> string \<Rightarrow> ReviewSchedule" where
  "buildReviewSuccessSchedule m now reps lapses settings elapsedDays hardMemoryState
     goodMemoryState easyMemoryState rating intervalSeed =
     (case success_intervals m settings elapsedDays (m_stability hardMemoryState)
         (m_stability goodMemoryState) (m_stability easyMemoryState) intervalSeed of
       (hardInterval, goodInterval, easyInterval) \<Rightarrow>
         if rating = Hard then review_schedule_of hardMemoryState hardInterval now reps lapses
         else if rating = Good then review_schedule_of goodMemoryState goodInterval now reps lapses
         else review_schedule_of easyMemoryState easyInterval now reps lapses)"

definition createEmptyReviewableCardScheduleState :: "string \<Rightarrow> ReviewableCardScheduleState" where
  "createEmptyReviewableCardScheduleState cardId = \<lparr>c_cardId = cardId, c_reps = 0, c_lapses = 0,
     c_state = New, c_stepIndex = None, c_stability = None, c_difficulty = None,
     c_lastReviewedAt = None, c_scheduledDays = None\<rparr>"

definition computeReviewSchedule ::
    "js_math \<Rightarrow> ReviewableCardScheduleState \<Rightarrow> scheduler_config \<Rightarrow> ReviewRating \<Rightarrow> js_date
     \<Rightarrow> ReviewSchedule result" where
  "computeReviewSchedule m review_card settings rating now =
     rbind (getMemoryState review_card) (\<lambda>memoryState.
     let grade = mapRatingToFsrsGrade rating in
     rbind (case c_lastReviewedAt review_card of None \<Rightarrow> Inr (num 0)
       | Some lastReviewedAt \<Rightarrow> dateDiffInDays lastReviewedAt now) (\<lambda>elapsedDays.
     let reps = c_reps review_card + 1;
         lapses = (if rating = Again \<and> c_state review_card = Review then c_lapses review_card + 1 else c_lapses review_card);
         intervalSeed = getIntervalSeed now reps memoryState
     in
     if c_state review_card = New then
       buildShortTermSchedule m review_card (createInitialMemoryState m grade) rating now reps lapses
         settings Learning (num 0) intervalSeed
     else (case memoryState of
       None \<Rightarrow> Inl (Error ''Persisted FSRS review_card state is incomplete'')
     | Some ms \<Rightarrow>
         if c_state review_card = Learning \<or> c_state review_card = Relearning then
           buildShortTermSchedule m review_card (computeNextShortTermMemoryState m ms grade settings)
             rating now reps lapses settings (c_state review_card) elapsedDays intervalSeed
         else let
           nextAgain = computeNextReviewMemoryState m ms elapsedDays 1 settings;
           nextHard = computeNextReviewMemoryState m ms elapsedDays 2 settings;
           nextGood = computeNextReviewMemoryState m ms elapsedDays 3 settings;
           nextEasy = computeNextReviewMemoryState m ms elapsedDays 4 settings
         in if rating = Again then
              buildShortTermSchedule m review_card nextAgain rating now reps lapses settings Relearning
                elapsedDays intervalSeed
            else Inr (buildReviewSuccessSchedule m now reps lapses settings elapsedDays
                nextHard nextGood nextEasy rating intervalSeed))))"

section \<open>Rebuilding a review_card from its history\<close>

text \<open>The body of the loop of \<open>rebuildCardScheduleState\<close>: the card state and \<open>dueAt\<close>.\<close>

definition card_of_schedule :: "string \<Rightarrow> ReviewSchedule \<Rightarrow> ReviewableCardScheduleState" where
  "card_of_schedule cardId next = \<lparr>c_cardId = cardId, c_reps = s_reps next, c_lapses = s_lapses next,
     c_state = s_state next, c_stepIndex = s_stepIndex next, c_stability = Some (s_stability next),
     c_difficulty = Some (s_difficulty next), c_lastReviewedAt = Some (s_lastReviewedAt next),
     c_scheduledDays = Some (s_scheduledDays next)\<rparr>"

definition rebuild_step ::
    "js_math \<Rightarrow> scheduler_config \<Rightarrow> ReviewableCardScheduleState \<times> js_date option \<Rightarrow> ReviewHistoryEvent
     \<Rightarrow> (ReviewableCardScheduleState \<times> js_date option) result" where
  "rebuild_step m settings st reviewEvent =
     rbind (computeReviewSchedule m (fst st) settings (e_rating reviewEvent) (e_reviewedAt reviewEvent))
       (\<lambda>next. Inr (card_of_schedule (c_cardId (fst st)) next, Some (s_dueAt next)))"

definition rebuildCardScheduleState ::
    "js_math \<Rightarrow> string \<Rightarrow> scheduler_config \<Rightarrow> ReviewHistoryEvent list \<Rightarrow> RebuiltCardScheduleState result"
  where
  "rebuildCardScheduleState m cardId settings reviewEvents =
     (if length reviewEvents = 0 then Inr \<lparr>b_dueAt = None, b_reps = 0, b_lapses = 0, b_state = New,
        b_stepIndex = None, b_stability = None, b_difficulty = None, b_lastReviewedAt = None,
        b_scheduledDays = None\<rparr>
      else rbind (fold_r (rebuild_step m settings)
          (createEmptyReviewableCardScheduleState cardId, None) reviewEvents) (\<lambda>(state, dueAt).
        Inr \<lparr>b_dueAt = dueAt, b_reps = c_reps state, b_lapses = c_lapses state,
          b_state = c_state state, b_stepIndex = c_stepIndex state, b_stability = c_stability state,
          b_difficulty = c_difficulty state, b_lastReviewedAt = c_lastReviewedAt state,
          b_scheduledDays = c_scheduledDays state\<rparr>))"

end
