(* ===== verification/JsBounds.thy ===== *)
theory JsBounds
  imports JsNumber
begin

text \<open>
  Interval bounds of floating point expressions: \<open>inb lo hi x\<close> says that \<open>x\<close> is finite and between
  \<open>lo\<close> and \<open>hi\<close>. Rounding is monotone and fixes the doubles, so a bound that is a double itself
  survives every operation; the scheduler's formulas are bounded with these rules.
\<close>

named_theorems inb_rules \<open>introduction rules for bounds of arithmetic expressions\<close>
named_theorems rep_rules \<open>rationals that are doubles\<close>

definition inb :: "rat \<Rightarrow> rat \<Rightarrow> jsnum \<Rightarrow> bool" where
  "inb lo hi x \<longleftrightarrow> (\<exists>r. x = Num r \<and> lo \<le> r \<and> r \<le> hi)"

lemma inb_Num [simp]: "inb lo hi (Num r) \<longleftrightarrow> lo \<le> r \<and> r \<le> hi"
  by (simp add: inb_def)

lemma inb_nonnum [simp]: "\<not> inb lo hi NaN" "\<not> inb lo hi PosInf" "\<not> inb lo hi NegInf"
  by (simp_all add: inb_def)

lemma inbE: "inb lo hi x \<Longrightarrow> (\<And>r. x = Num r \<Longrightarrow> lo \<le> r \<Longrightarrow> r \<le> hi \<Longrightarrow> P) \<Longrightarrow> P"
  by (auto simp: inb_def)

lemma inb_mono: "inb a b x \<Longrightarrow> lo \<le> a \<Longrightarrow> b \<le> hi \<Longrightarrow> inb lo hi x"
  by (auto simp: inb_def)

lemma inb_imp_nan_or_in: "inb lo hi x \<Longrightarrow> nan_or_in lo hi x"
  by (auto simp: inb_def nan_or_in_def)

section \<open>Rationals that are doubles\<close>

lemma rep_0 [rep_rules]: "rep 0" using rep_int [of 0] by simp

lemma rep_1 [rep_rules]: "rep 1" using rep_int [of 1] by simp

lemma rep_numeral [rep_rules]: "(numeral k :: int) \<le> 2 ^ 53 \<Longrightarrow> rep (numeral k)"
  using rep_int [of "numeral k"] by simp

lemma rep_minus [rep_rules]: "rep v \<Longrightarrow> rep (- v)"
  by (rule rep_uminus)

lemma rep_pow2 [rep_rules]: "k < 1024 \<Longrightarrow> rep (2 ^ k)"
proof -
  assume "k < 1024"
  then have "(2::rat) ^ k < dbl_lim"
    unfolding dbl_lim_def by (rule power_strict_increasing) simp
  moreover have "(2::rat) ^ k = of_int 1 * 2 powi int k" by simp
  moreover have "\<bar>1::int\<bar> \<le> 2 ^ 53" "- 1074 \<le> int k" by simp_all
  ultimately show "rep (2 ^ k)" unfolding rep_def by (metis abs_of_pos zero_less_numeral zero_less_power)
qed

lemma rep_frac [rep_rules]: "\<bar>i\<bar> \<le> 2 ^ 53 \<Longrightarrow> k \<le> 1074 \<Longrightarrow> rep (of_int i / 2 ^ k)"
  using rep_dyadic [of i "- int k"] by (simp add: power_int_minus divide_inverse)

lemma rep_fl: "fl x = Num v \<Longrightarrow> v = of_int n * 2 powi e \<Longrightarrow> \<bar>n\<bar> \<le> 2 ^ 53 \<Longrightarrow> - 1074 \<le> e \<Longrightarrow> e \<le> 0 \<Longrightarrow> rep v"
  using rep_dyadic [of n e] by simp

section \<open>Arithmetic\<close>

lemma inb_fl: "lo \<le> x \<Longrightarrow> x \<le> hi \<Longrightarrow> rep lo \<Longrightarrow> rep hi \<Longrightarrow> inb lo hi (fl x)"
  using fl_le [of hi x] fl_ge [of lo x] by (cases "fl x") (auto simp: jle_def)

lemma fl_inb_Num: "fl x = Num v \<Longrightarrow> lo \<le> x \<Longrightarrow> x \<le> hi \<Longrightarrow> rep lo \<Longrightarrow> rep hi \<Longrightarrow> lo \<le> v \<and> v \<le> hi"
  using inb_fl [of lo x hi] by simp

lemma inb_add:
  "inb a b x \<Longrightarrow> inb c d y \<Longrightarrow> lo \<le> a + c \<Longrightarrow> b + d \<le> hi \<Longrightarrow> rep lo \<Longrightarrow> rep hi \<Longrightarrow>
   inb lo hi (jadd x y)"
  by (auto elim!: inbE intro!: inb_fl)

lemma inb_neg: "inb a b x \<Longrightarrow> inb (- b) (- a) (jneg x)"
  by (auto elim!: inbE)

lemma inb_sub:
  "inb a b x \<Longrightarrow> inb c d y \<Longrightarrow> lo \<le> a - d \<Longrightarrow> b - c \<le> hi \<Longrightarrow> rep lo \<Longrightarrow> rep hi \<Longrightarrow>
   inb lo hi (jsub x y)"
  by (auto simp: jsub_def elim!: inbE intro!: inb_fl)

lemma mul_le_corners:
  fixes x y :: rat
  assumes "a \<le> x" "x \<le> b" "c \<le> y" "y \<le> d" "a * c \<le> hi" "a * d \<le> hi" "b * c \<le> hi" "b * d \<le> hi"
  shows "x * y \<le> hi"
proof (cases "0 \<le> x")
  case True
  then have "x * y \<le> x * d" using assms by (simp add: mult_left_mono)
  also have "x * d \<le> (if 0 \<le> d then b * d else a * d)"
    using assms by (simp add: mult_right_mono mult_right_mono_neg)
  finally show ?thesis using assms by (simp split: if_splits)
next
  case False
  then have "x * y \<le> x * c" using assms by (simp add: mult_left_mono_neg)
  also have "x * c \<le> (if 0 \<le> c then b * c else a * c)"
    using assms by (simp add: mult_right_mono mult_right_mono_neg)
  finally show ?thesis using assms by (simp split: if_splits)
qed

lemma inb_mul:
  assumes "inb a b x" and "inb c d y"
    and "a * c \<le> hi" "a * d \<le> hi" "b * c \<le> hi" "b * d \<le> hi"
    and "lo \<le> a * c" "lo \<le> a * d" "lo \<le> b * c" "lo \<le> b * d" and "rep lo" and "rep hi"
  shows "inb lo hi (jmul x y)"
proof -
  obtain r s where x: "x = Num r" "a \<le> r" "r \<le> b" and y: "y = Num s" "c \<le> s" "s \<le> d"
    using assms(1,2) by (auto simp: inb_def)
  have "r * s \<le> hi" using x y assms by (intro mul_le_corners [of a r b c s d])
  moreover have "r * - s \<le> - lo" using x y assms by (intro mul_le_corners [of a r b "- d" "- s" "- c"]) auto
  ultimately show ?thesis using x y assms by (auto intro!: inb_fl)
qed

text \<open>Products and quotients of non-negative values.\<close>

lemma inb_mul_pos:
  "inb a b x \<Longrightarrow> inb c d y \<Longrightarrow> 0 \<le> a \<Longrightarrow> 0 \<le> c \<Longrightarrow> lo \<le> a * c \<Longrightarrow> b * d \<le> hi \<Longrightarrow> rep lo \<Longrightarrow> rep hi \<Longrightarrow>
   inb lo hi (jmul x y)"
proof -
  assume *: "inb a b x" "inb c d y" "0 \<le> a" "0 \<le> c" "lo \<le> a * c" "b * d \<le> hi" "rep lo" "rep hi"
  then obtain r s where x: "x = Num r" "a \<le> r" "r \<le> b" and y: "y = Num s" "c \<le> s" "s \<le> d"
    by (auto simp: inb_def)
  have "a * c \<le> r * s" using x y * by (intro mult_mono) auto
  moreover have "r * s \<le> b * d" using x y * by (intro mult_mono) auto
  ultimately show ?thesis using x y * by (auto intro!: inb_fl)
qed

lemma inb_div_pos:
  assumes "inb a b x" and "inb c d y" and "0 \<le> a" and "0 < c"
    and "lo \<le> a / d" and "b / c \<le> hi" and "rep lo" and "rep hi"
  shows "inb lo hi (jdiv x y)"
proof -
  obtain r s where x: "x = Num r" "a \<le> r" "r \<le> b" and y: "y = Num s" "c \<le> s" "s \<le> d"
    using assms(1,2) by (auto simp: inb_def)
  have "a / d \<le> r / s" using x y assms by (intro frac_le) auto
  moreover have "r / s \<le> b / c" using x y assms by (intro frac_le) auto
  ultimately show ?thesis using x y assms by (auto intro!: inb_fl)
qed

lemma inb_min: "inb a b x \<Longrightarrow> inb c d y \<Longrightarrow> lo \<le> a \<Longrightarrow> lo \<le> c \<Longrightarrow> b \<le> hi \<or> d \<le> hi \<Longrightarrow> inb lo hi (jmin x y)"
  by (auto elim!: inbE)

lemma inb_max: "inb a b x \<Longrightarrow> inb c d y \<Longrightarrow> lo \<le> a \<or> lo \<le> c \<Longrightarrow> b \<le> hi \<Longrightarrow> d \<le> hi \<Longrightarrow> inb lo hi (jmax x y)"
  by (auto elim!: inbE)

text \<open>Rounding to eight decimals keeps bounds that are multiples of \<open>10 ^ -8\<close>.\<close>

lemma inb_round8:
  assumes "inb lo hi x" and lo: "lo = of_int l / 10 ^ 8" and hi: "hi = of_int h / 10 ^ 8"
    and "rep lo'" and "rep hi'" and "lo' \<le> lo" and "hi \<le> hi'"
  shows "inb lo' hi' (round_fixed8 x)"
proof -
  obtain r where r: "x = Num r" "lo \<le> r" "r \<le> hi" using assms(1) by (auto simp: inb_def)
  consider (big) "10 ^ 21 \<le> \<bar>r\<bar>" | (neg) "\<not> 10 ^ 21 \<le> \<bar>r\<bar>" "r < 0" | (pos) "\<not> 10 ^ 21 \<le> \<bar>r\<bar>" "0 \<le> r" by linarith
  then show ?thesis
  proof cases
    case big
    with r assms show ?thesis by auto
  next
    case neg
    let ?k = "to_fixed8_int (- r)"
    have "of_int (- h) \<le> - r * 10 ^ 8" "- r * 10 ^ 8 \<le> of_int (- l)" using r lo hi by simp_all
    then have "- h \<le> ?k" "?k \<le> - l"
      unfolding to_fixed8_int_def by (linarith+)
    then have "(of_int (- h) :: rat) \<le> of_int ?k" "(of_int ?k :: rat) \<le> of_int (- l)"
      by (simp_all only: of_int_le_iff)
    then have "- hi \<le> of_int ?k / 10 ^ 8" "of_int ?k / 10 ^ 8 \<le> - lo" using lo hi by simp_all
    then have "inb (- hi') (- lo') (fl (of_int ?k / 10 ^ 8))"
      using assms(4-7) by (intro inb_fl rep_minus) linarith+
    from inb_neg [OF this] neg r show ?thesis by simp
  next
    case pos
    let ?k = "to_fixed8_int r"
    have "of_int l \<le> r * 10 ^ 8" "r * 10 ^ 8 \<le> of_int h" using r lo hi by simp_all
    then have "l \<le> ?k" "?k \<le> h"
      unfolding to_fixed8_int_def by (linarith+)
    then have "(of_int l :: rat) \<le> of_int ?k" "(of_int ?k :: rat) \<le> of_int h"
      by (simp_all only: of_int_le_iff)
    then have "lo \<le> of_int ?k / 10 ^ 8" "of_int ?k / 10 ^ 8 \<le> hi" using lo hi by simp_all
    then have "inb lo' hi' (fl (of_int ?k / 10 ^ 8))"
      using assms(4-7) by (intro inb_fl) linarith+
    with pos r show ?thesis by simp
  qed
qed

lemma inb_round8_int:
  assumes "inb (of_int l) (of_int h) x" and "\<bar>l\<bar> \<le> 2 ^ 53" and "\<bar>h\<bar> \<le> 2 ^ 53"
  shows "inb (of_int l) (of_int h) (round_fixed8 x)"
  using assms(1)
proof (rule inb_round8)
  show "of_int l = of_int (l * 10 ^ 8) / (10 ^ 8 :: rat)" by simp
  show "of_int h = of_int (h * 10 ^ 8) / (10 ^ 8 :: rat)" by simp
qed (use assms rep_int in auto)

lemma inb_round:
  assumes "inb (of_int l) (of_int h) x"
  shows "\<exists>k. jround x = num k \<and> l \<le> k \<and> k \<le> h"
proof -
  obtain r where x: "x = Num r" and r: "of_int l \<le> r" "r \<le> of_int h"
    using assms by (auto simp: inb_def)
  have "l \<le> \<lfloor>r + 1 / 2\<rfloor>" using r(1) by (simp add: le_floor_iff)
  moreover have "\<lfloor>r + 1 / 2\<rfloor> \<le> h" using r(2) by (simp add: floor_le_iff)
  ultimately show ?thesis using x by simp
qed

end
