(* ===== verification/FsrsMemory.thy ===== *)
theory FsrsMemory
  imports FsrsScheduler JsBounds
begin

text \<open>
  The memory state of the scheduler (\<open>initDifficulty\<close> to \<open>computeNextReviewMemoryState\<close> of
  \<open>scheduling/index.ts\<close>). The clamps alone give difficulty in \<open>[1, 10]\<close> and stability in
  \<open>[0.001, 36500]\<close>, or NaN; with the crude accuracy \<open>math_ok\<close> of the host's \<open>Math\<close> functions no
  formula of the file ever produces NaN or an infinity from a memory state in range, and a
  successful answer never lowers the stability.
\<close>

section \<open>The weights and the constants\<close>

lemmas weight_simps = DEFAULT_W_def

definition s_min :: rat where
  "s_min = of_int 4611686018427388 / 2 ^ 62"

lemma S_MIN_Num: "S_MIN = Num s_min"
proof -
  have "fl 0.001 = Num (of_int 4611686018427388 * 2 powi (- 62))"
    by (rule fl_eqI) (simp_all add: power_int_def dbl_lim_def power_divide)
  then show ?thesis by (simp add: S_MIN_def s_min_def power_int_def power_divide)
qed

lemma rep_s_min [rep_rules]: "rep s_min"
  unfolding s_min_def by (rule rep_frac) simp_all

lemma s_min_bounds: "1 / 1000 \<le> s_min" "s_min \<le> 1 / 999" "0 < s_min" "1 / 1024 \<le> s_min"
  by (simp_all add: s_min_def)

lemma rep_fracs [rep_rules]:
  "rep (1 / 2)" "rep (3 / 2)" "rep (1 / 4)" "rep (1 / 8)" "rep (9 / 8)" "rep (3 / 32)"
  "rep (1 / 16)" "rep (1 / 512)" "rep (1 / 1024)" "rep (1 / 4096)" "rep (1 / 128)" "rep (1 / 64)"
  using rep_frac [of 1 1] rep_frac [of 3 1] rep_frac [of 1 2] rep_frac [of 1 3] rep_frac [of 9 3]
    rep_frac [of 3 5] rep_frac [of 1 4] rep_frac [of 1 9] rep_frac [of 1 10] rep_frac [of 1 12]
    rep_frac [of 1 7] rep_frac [of 1 6]
  by simp_all

text \<open>Coarse bounds of the weights: all the bounds of the formulas need.\<close>

lemma weight_bounds:
  "inb (1 / 8) (1 / 4) (DEFAULT_W ! 0)" "inb 1 2 (DEFAULT_W ! 1)" "inb 2 3 (DEFAULT_W ! 2)"
  "inb 8 9 (DEFAULT_W ! 3)" "inb 6 7 (DEFAULT_W ! 4)" "inb (1 / 2) 1 (DEFAULT_W ! 5)"
  "inb 3 4 (DEFAULT_W ! 6)" "inb 0 (1 / 512) (DEFAULT_W ! 7)" "inb 1 2 (DEFAULT_W ! 8)"
  "inb 0 1 (DEFAULT_W ! 9)" "inb 0 1 (DEFAULT_W ! 10)" "inb 1 2 (DEFAULT_W ! 11)"
  "inb 0 1 (DEFAULT_W ! 12)" "inb 0 1 (DEFAULT_W ! 13)" "inb 1 2 (DEFAULT_W ! 14)"
  "inb (1 / 2) 1 (DEFAULT_W ! 15)" "inb 1 2 (DEFAULT_W ! 16)" "inb (1 / 2) 1 (DEFAULT_W ! 17)"
  "inb 0 1 (DEFAULT_W ! 18)" "inb 0 1 (DEFAULT_W ! 19)" "inb (1 / 8) (1 / 4) (DEFAULT_W ! 20)"
  unfolding weight_simps by (simp_all, (rule inb_fl; simp add: rep_rules)+)

lemma DECAY_bounds: "inb (- 1 / 4) (- 1 / 8) DECAY"
  using inb_neg [OF weight_bounds(21)] by (simp add: DECAY_def)

section \<open>The host's mathematical functions\<close>

text \<open>
  What the code relies on: \<open>Math.exp\<close>, \<open>Math.log\<close> and \<open>Math.pow\<close> are accurate to about a factor
  of two on the ranges the scheduler uses, and respect the values at one. The true functions
  satisfy every line with room to spare.
\<close>

definition exp_ok :: "js_math \<Rightarrow> bool" where
  "exp_ok m \<longleftrightarrow> (\<forall>x. (inb 0 8 x \<longrightarrow> inb 1 4096 (m_exp m x))
     \<and> (inb (- 8) 0 x \<longrightarrow> inb (1 / 4096) 1 (m_exp m x))
     \<and> (inb (1 / 2) 1 x \<longrightarrow> inb (3 / 2) 3 (m_exp m x)))"

definition log_ok :: "js_math \<Rightarrow> bool" where
  "log_ok m \<longleftrightarrow> inb (- (1 / 8)) (- (3 / 32)) (m_log m (fl 0.9))
     \<and> (\<forall>x. inb (1 / 16) 2 x \<longrightarrow> inb (- 4) 1 (m_log m x))"

definition pow_ok :: "js_math \<Rightarrow> bool" where
  "pow_ok m \<longleftrightarrow> inb (- 7) (- 6) (m_pow m DECAY (num (- 1)))
     \<and> inb (9 / 8) 2 (m_pow m (num 2) (DEFAULT_W ! 13))
     \<and> (\<forall>b e. (inb 1 (2 ^ 64) b \<longrightarrow> inb (- 1) 0 e \<longrightarrow> inb 0 1 (m_pow m b e))
       \<and> (inb (1 / 1024) 65536 b \<longrightarrow> inb (- 1) 0 e \<longrightarrow> inb 0 1024 (m_pow m b e))
       \<and> (inb 1 65536 b \<longrightarrow> inb 0 1 e \<longrightarrow> inb 1 65536 (m_pow m b e))
       \<and> (inb 0 1 b \<longrightarrow> b \<noteq> Num 0 \<longrightarrow> inb (- 8) (- 4) e \<longrightarrow> jle (num 1) (m_pow m b e)))"

definition math_ok :: "js_math \<Rightarrow> bool" where
  "math_ok m \<longleftrightarrow> exp_ok m \<and> log_ok m \<and> pow_ok m"

lemma exp_bounds:
  assumes "math_ok m"
  shows "inb 0 8 x \<Longrightarrow> inb 1 4096 (m_exp m x)"
    and "inb (- 8) 0 x \<Longrightarrow> inb (1 / 4096) 1 (m_exp m x)"
    and "inb (1 / 2) 1 x \<Longrightarrow> inb (3 / 2) 3 (m_exp m x)"
    and "inb (- 8) 8 x \<Longrightarrow> inb (1 / 4096) 4096 (m_exp m x)"
proof -
  note e = assms [unfolded math_ok_def exp_ok_def]
  from e show "inb 0 8 x \<Longrightarrow> inb 1 4096 (m_exp m x)"
    and "inb (- 8) 0 x \<Longrightarrow> inb (1 / 4096) 1 (m_exp m x)"
    and "inb (1 / 2) 1 x \<Longrightarrow> inb (3 / 2) 3 (m_exp m x)" by blast+
  assume "inb (- 8) 8 x"
  then have "inb 0 8 x \<or> inb (- 8) 0 x" by (auto simp: inb_def)
  then consider "inb 0 8 x" | "inb (- 8) 0 x" by blast
  then show "inb (1 / 4096) 4096 (m_exp m x)"
  proof cases
    case 1
    with e have "inb 1 4096 (m_exp m x)" by blast
    then show ?thesis by (rule inb_mono) simp_all
  next
    case 2
    with e have "inb (1 / 4096) 1 (m_exp m x)" by blast
    then show ?thesis by (rule inb_mono) simp_all
  qed
qed

lemma log_bounds:
  assumes "math_ok m"
  shows "inb (- (1 / 8)) (- (3 / 32)) (m_log m (fl 0.9))"
    and "inb (1 / 16) 2 x \<Longrightarrow> inb (- 4) 1 (m_log m x)"
  using assms [unfolded math_ok_def log_ok_def] by blast+

lemma pow_bounds:
  assumes "math_ok m"
  shows "inb (- 7) (- 6) (m_pow m DECAY (num (- 1)))"
    and "inb (9 / 8) 2 (m_pow m (num 2) (DEFAULT_W ! 13))"
    and "inb 1 (2 ^ 64) b \<Longrightarrow> inb (- 1) 0 e \<Longrightarrow> inb 0 1 (m_pow m b e)"
    and "inb (1 / 1024) 65536 b \<Longrightarrow> inb (- 1) 0 e \<Longrightarrow> inb 0 1024 (m_pow m b e)"
    and "inb 1 65536 b \<Longrightarrow> inb 0 1 e \<Longrightarrow> inb 1 65536 (m_pow m b e)"
    and "inb 0 1 b \<Longrightarrow> b \<noteq> Num 0 \<Longrightarrow> inb (- 8) (- 4) e \<Longrightarrow> jle (num 1) (m_pow m b e)"
  using assms [unfolded math_ok_def pow_ok_def] by blast+

lemma FACTOR_bounds:
  assumes "math_ok m"
  shows "inb (1 / 2) 2 (FACTOR m)"
proof -
  have "inb (1 / 2) 1 (jmul (m_pow m DECAY (num (- 1))) (m_log m (fl 0.9)))"
    by (rule inb_mul [OF pow_bounds(1) log_bounds(1)]) (simp_all add: assms rep_rules)
  then have e: "inb (3 / 2) 3 (m_exp m (jmul (m_pow m DECAY (num (- 1))) (m_log m (fl 0.9))))"
    by (rule exp_bounds(3) [OF assms])
  have one: "inb 1 1 (num 1)" by simp
  have "inb (1 / 2) 2 (jsub (m_exp m (jmul (m_pow m DECAY (num (- 1))) (m_log m (fl 0.9)))) (num 1))"
    by (rule inb_sub [OF e one]) (simp_all add: rep_rules)
  then show ?thesis
    unfolding FACTOR_def
    by (rule inb_round8 [where l = 50000000 and h = 200000000]) (simp_all add: rep_rules)
qed

section \<open>Ranges that need no assumption\<close>

abbreviation "stability_range x \<equiv> nan_or_in s_min 36500 x"
abbreviation "difficulty_range x \<equiv> nan_or_in 1 10 x"

lemma clamp_nan_or_in: "lo \<le> hi \<Longrightarrow> nan_or_in lo hi (clamp v (Num lo) (Num hi))"
  unfolding clamp_def by (rule jmin_jmax_range)

lemma clamp_inb: "lo \<le> hi \<Longrightarrow> v \<noteq> NaN \<Longrightarrow> inb lo hi (clamp v (Num lo) (Num hi))"
  using clamp_nan_or_in [of lo hi v] jmin_jmax_NaN_iff [of v lo hi]
  by (auto simp: clamp_def nan_or_in_def inb_def)

lemma nan_or_in_cases: "nan_or_in lo hi x \<longleftrightarrow> x = NaN \<or> inb lo hi x"
  by (auto simp: nan_or_in_def inb_def)

lemma inb_not_NaN: "inb lo hi x \<Longrightarrow> x \<noteq> NaN"
  by auto

lemma roundTo8_stability_inb: "inb s_min 36500 x \<Longrightarrow> inb s_min 36500 (roundTo8 x)"
proof -
  assume "inb s_min 36500 x"
  then obtain r where x: "x = Num r" "s_min \<le> r" "r \<le> 36500" by (auto simp: inb_def)
  then have r: "0 \<le> r" "\<not> 10 ^ 21 \<le> \<bar>r\<bar>" using s_min_bounds by auto
  let ?k = "to_fixed8_int r"
  have "100000 \<le> ?k" "?k \<le> 3650000000000"
    using x s_min_bounds unfolding to_fixed8_int_def by (simp_all add: le_floor_iff floor_le_iff)
  then have k: "(of_int 100000 :: rat) \<le> of_int ?k" "(of_int ?k :: rat) \<le> of_int 3650000000000"
    by (simp_all only: of_int_le_iff)
  have s: "Num s_min = fl 0.001" using S_MIN_Num by (simp add: S_MIN_def)
  show "inb s_min 36500 (roundTo8 x)"
  proof (cases "?k = 100000")
    case True
    then have "roundTo8 x = Num s_min" unfolding s using x r by (simp add: roundTo8_def)
    then show ?thesis using s_min_bounds by simp
  next
    case False
    with \<open>100000 \<le> ?k\<close> have "(of_int 100001 :: rat) \<le> of_int ?k" by (simp only: of_int_le_iff)
    with k have "s_min \<le> of_int ?k / 10 ^ 8" "of_int ?k / 10 ^ 8 \<le> (36500::rat)" by (simp_all add: s_min_def)
    then have "inb s_min 36500 (fl (of_int ?k / 10 ^ 8))"
      by (rule inb_fl) (simp_all add: rep_rules)
    with x r show ?thesis by (simp add: roundTo8_def)
  qed
qed

lemma roundTo8_stability: "stability_range x \<Longrightarrow> stability_range (roundTo8 x)"
  by (auto simp: nan_or_in_cases roundTo8_stability_inb) (simp add: roundTo8_def)

lemma clamp_stability: "stability_range (clamp v S_MIN (Num 36500))"
  using clamp_nan_or_in [of s_min 36500 v] s_min_bounds by (simp add: S_MIN_Num)

lemma nextDifficulty_range: "difficulty_range (nextDifficulty m d g)"
  using clamp_nan_or_in [of 1 10] by (simp add: nextDifficulty_def Let_def)

lemma nextRecallStability_range: "stability_range (nextRecallStability m d s r g)"
  by (simp add: nextRecallStability_def Let_def roundTo8_stability clamp_stability)

lemma nextForgetStability_range: "stability_range (nextForgetStability m d s r)"
  by (simp add: nextForgetStability_def Let_def roundTo8_stability clamp_stability)

lemma nextShortTermStability_range: "stability_range (nextShortTermStability m s g settings)"
  by (simp add: nextShortTermStability_def Let_def roundTo8_stability clamp_stability split: prod.split)

lemma clamp_to_range:
  assumes "nan_or_in lo hi u"
  shows "nan_or_in lo hi (clamp v (Num lo) u)"
proof (cases "u = NaN")
  case True
  then show ?thesis by (simp add: clamp_def)
next
  case False
  with assms obtain b where u: "u = Num b" "lo \<le> b" "b \<le> hi" by (auto simp: nan_or_in_def)
  then show ?thesis using clamp_nan_or_in [of lo b v] by (auto simp: nan_or_in_def)
qed

text \<open>The range of a memory state.\<close>

definition memory_range :: "FsrsMemoryState \<Rightarrow> bool" where
  "memory_range ms \<longleftrightarrow> difficulty_range (m_difficulty ms) \<and> stability_range (m_stability ms)"

lemma initStability_bounds: "1 \<le> g \<Longrightarrow> g \<le> 4 \<Longrightarrow> inb (1 / 16) 9 (initStability g)"
proof -
  assume g: "1 \<le> g" "g \<le> 4"
  have t: "inb (1 / 16) (1 / 8) (fl 0.1)" by (rule inb_fl) (simp_all add: rep_rules)
  have w: "inb (1 / 8) 9 (DEFAULT_W ! i)" if "i < 4" for i
  proof -
    from that have "i = 0 \<or> i = 1 \<or> i = 2 \<or> i = 3" by presburger
    then show ?thesis using weight_bounds(1-4) by (auto elim: inb_mono)
  qed
  have "inb (1 / 8) 9 (DEFAULT_W ! nat (g - 1))" using g by (intro w) linarith
  then show "inb (1 / 16) 9 (initStability g)"
    unfolding initStability_def by (rule inb_max [OF _ t]) simp_all
qed

lemma createInitialMemoryState_range:
  "1 \<le> g \<Longrightarrow> g \<le> 4 \<Longrightarrow> memory_range (createInitialMemoryState m g)"
  using clamp_nan_or_in [of 1 10] inb_imp_nan_or_in [OF inb_mono [OF initStability_bounds [of g]]]
    s_min_bounds
  by (simp add: memory_range_def createInitialMemoryState_def)

lemma computeNextShortTermMemoryState_range:
  "memory_range (computeNextShortTermMemoryState m ms g settings)"
  by (simp add: memory_range_def computeNextShortTermMemoryState_def nextDifficulty_range
      nextShortTermStability_range)

lemma computeNextReviewMemoryState_range:
  "memory_range (computeNextReviewMemoryState m ms elapsed g settings)"
  by (simp add: memory_range_def computeNextReviewMemoryState_def Let_def nextDifficulty_range
      nextRecallStability_range nextForgetStability_range clamp_to_range S_MIN_Num split: prod.split)

section \<open>Ranges with accurate mathematical functions\<close>

lemma inb_const: "inb c c (Num c)"
  by simp

lemma inb_div_const:
  assumes "inb a b x" and "0 < c" and "lo \<le> a / c" and "b / c \<le> hi" and "rep lo" and "rep hi"
  shows "inb lo hi (jdiv x (Num c))"
proof -
  obtain r where x: "x = Num r" "a \<le> r" "r \<le> b" using assms(1) by (auto simp: inb_def)
  have "a / c \<le> r / c" "r / c \<le> b / c" using x assms by (simp_all add: divide_right_mono)
  with x assms show ?thesis by (auto intro!: inb_fl)
qed

lemma roundTo8_inb: "inb (of_int l) (of_int h) x \<Longrightarrow> \<bar>l\<bar> \<le> 2 ^ 53 \<Longrightarrow> \<bar>h\<bar> \<le> 2 ^ 53 \<Longrightarrow>
    inb (of_int l) (of_int h) (roundTo8 x)"
  unfolding roundTo8_def by (rule inb_round8_int)

lemma clamp_ok: "inb a b v \<Longrightarrow> lo \<le> hi \<Longrightarrow> inb lo hi (clamp v (Num lo) (Num hi))"
  by (rule clamp_inb) auto

lemma clamp_S_MIN: "v \<noteq> NaN \<Longrightarrow> inb s_min 36500 (clamp v S_MIN (Num 36500))"
  using clamp_inb [of s_min 36500 v] s_min_bounds by (simp add: S_MIN_Num)

lemma initDifficulty_bounds:
  assumes "math_ok m" and "1 \<le> g" and "g \<le> 4"
  shows "inb (- 4096) 8 (initDifficulty m g)"
proof -
  have g: "inb 0 3 (num (g - 1))" using assms(2,3) by simp
  have "inb 0 8 (jmul (num (g - 1)) (DEFAULT_W ! 5))"
    by (rule inb_mul_pos [OF g weight_bounds(6)]) (simp_all add: rep_rules)
  then have e: "inb 1 4096 (m_exp m (jmul (num (g - 1)) (DEFAULT_W ! 5)))"
    by (rule exp_bounds(1) [OF assms(1)])
  have d: "inb (- 4095) 7 (jsub (DEFAULT_W ! 4) (m_exp m (jmul (num (g - 1)) (DEFAULT_W ! 5))))"
    by (rule inb_sub [OF weight_bounds(5) e]) (simp_all add: rep_rules)
  have "inb (- 4096) 8 (jadd (jsub (DEFAULT_W ! 4) (m_exp m (jmul (num (g - 1)) (DEFAULT_W ! 5)))) (num 1))"
    by (rule inb_add [OF d, of 1 1]) (simp_all add: rep_rules)
  then show ?thesis using roundTo8_inb [of "- 4096" 8] by (simp add: initDifficulty_def)
qed

lemma linearDamping_bounds:
  assumes "inb (- 8) 8 delta" and "inb 1 10 d"
  shows "inb (- 8) 8 (linearDamping delta d)"
proof -
  have s: "inb 0 9 (jsub (num 10) d)"
    using inb_sub [OF inb_const assms(2), of 0 10 9] by (simp add: rep_rules)
  have p: "inb (- 72) 72 (jmul delta (jsub (num 10) d))"
    by (rule inb_mul [OF assms(1) s]) (simp_all add: rep_rules)
  have "inb (- 8) 8 (jdiv (jmul delta (jsub (num 10) d)) (num 9))"
    using inb_div_const [OF p, of 9 "- 8" 8] by (simp add: rep_rules)
  then show ?thesis using roundTo8_inb [of "- 8" 8] by (simp add: linearDamping_def)
qed

lemma meanReversion_bounds:
  assumes "inb (- 4096) 8 i" and "inb (- 7) 18 c"
  shows "inb (- 15) 19 (meanReversion i c)"
proof -
  have a: "inb (- 8) 1 (jmul (DEFAULT_W ! 7) i)"
    by (rule inb_mul [OF weight_bounds(8) assms(1)]) (simp_all add: rep_rules)
  have "inb 0 1 (jsub (num 1) (DEFAULT_W ! 7))"
    using inb_sub [OF inb_const weight_bounds(8), of 0 1 1] by (simp add: rep_rules)
  from inb_mul [OF this assms(2), of 18 "- 7"]
  have b: "inb (- 7) 18 (jmul (jsub (num 1) (DEFAULT_W ! 7)) c)" by (simp add: rep_rules)
  have "inb (- 15) 19 (jadd (jmul (DEFAULT_W ! 7) i) (jmul (jsub (num 1) (DEFAULT_W ! 7)) c))"
    by (rule inb_add [OF a b]) (simp_all add: rep_rules)
  then show ?thesis using roundTo8_inb [of "- 15" 19] by (simp add: meanReversion_def)
qed

lemma nextDifficulty_ok:
  assumes "math_ok m" and "inb 1 10 d" and "1 \<le> g" and "g \<le> 4"
  shows "inb 1 10 (nextDifficulty m d g)"
proof -
  let ?delta = "jmul (jneg (DEFAULT_W ! 6)) (num (g - 3))"
  have w: "inb (- 4) (- 3) (jneg (DEFAULT_W ! 6))" using inb_neg [OF weight_bounds(7)] by simp
  have g: "inb (- 2) 1 (num (g - 3))" using assms(3,4) by simp
  have dl: "inb (- 8) 8 ?delta" by (rule inb_mul [OF w g]) (simp_all add: rep_rules)
  have n: "inb (- 7) 18 (jadd d (linearDamping ?delta d))"
    by (rule inb_add [OF assms(2) linearDamping_bounds [OF dl assms(2)]]) (simp_all add: rep_rules)
  have i: "inb (- 4096) 8 (initDifficulty m 4)"
    by (rule initDifficulty_bounds [OF assms(1)]) simp_all
  from clamp_ok [OF meanReversion_bounds [OF i n], of 1 10] show ?thesis
    by (simp add: nextDifficulty_def Let_def)
qed

lemma forgettingCurve_bounds:
  assumes "math_ok m" and "inb 0 (2 ^ 40) elapsed" and "inb s_min 36500 s"
  shows "inb 0 1 (forgettingCurve m elapsed s)"
proof -
  have a: "inb 0 (2 ^ 41) (jmul (FACTOR m) elapsed)"
    by (rule inb_mul_pos [OF FACTOR_bounds [OF assms(1)] assms(2)]) (simp_all add: rep_rules)
  have b: "inb 0 (2 ^ 52) (jdiv (jmul (FACTOR m) elapsed) s)"
    by (rule inb_div_pos [OF a assms(3)]) (simp_all add: rep_rules s_min_def)
  have "inb 1 (2 ^ 53) (jadd (num 1) (jdiv (jmul (FACTOR m) elapsed) s))"
    using inb_add [OF inb_const b, of 1 1 "2 ^ 53"] by (simp add: rep_rules)
  then have "inb 1 (2 ^ 64) (jadd (num 1) (jdiv (jmul (FACTOR m) elapsed) s))"
    by (rule inb_mono) simp_all
  then have "inb 0 1 (m_pow m (jadd (num 1) (jdiv (jmul (FACTOR m) elapsed) s)) DECAY)"
    using inb_mono [OF DECAY_bounds, of "- 1" 0] by (intro pow_bounds(3) [OF assms(1)]) auto
  then show ?thesis using roundTo8_inb [of 0 1] by (simp add: forgettingCurve_def)
qed

text \<open>A successful answer multiplies the stability by at least one.\<close>

lemma jmul_ge:
  assumes "inb a b s" and "0 < a" and "rep r" and "s = Num r" and "jle (num 1) k" and "k \<noteq> NaN"
  shows "jle s (jmul s k)"
proof (cases k)
  case (Num q)
  with assms have "r * 1 \<le> r * q" by (intro mult_left_mono) auto
  with Num assms show ?thesis using fl_ge [of r "r * q"] by simp
next
  case PosInf
  with assms show ?thesis by (auto simp: signed_inf_def jle_def)
qed (use assms in \<open>auto simp: jle_def\<close>)

lemma recall_product_bounds:
  assumes "math_ok m" and "inb 1 10 d" and "inb s_min 36500 s" and "inb 0 1 r"
    and "inb (1 / 2) 2 hp" and "inb (1 / 2) 2 eb"
  shows "inb 0 (2 ^ 50) (jmul (jmul (jmul (jmul (jmul (m_exp m (DEFAULT_W ! 8)) (jsub (num 11) d))
     (m_pow m s (jneg (DEFAULT_W ! 9)))) (jsub (m_exp m (jmul (jsub (num 1) r) (DEFAULT_W ! 10))) (num 1)))
     hp) eb)"
proof -
  note m = assms(1)
  have "inb 0 8 (DEFAULT_W ! 8)" by (rule inb_mono [OF weight_bounds(9)]) simp_all
  then have e8: "inb 1 4096 (m_exp m (DEFAULT_W ! 8))" by (rule exp_bounds(1) [OF m])
  have "inb 1 10 (jsub (num 11) d)"
    using inb_sub [OF inb_const assms(2), of 1 11 10] by (simp add: rep_rules)
  from inb_mul_pos [OF e8 this, of 0 "2 ^ 16"]
  have a: "inb 0 (2 ^ 16) (jmul (m_exp m (DEFAULT_W ! 8)) (jsub (num 11) d))" by (simp add: rep_rules)
  have "inb (- 1) 0 (jneg (DEFAULT_W ! 9))" using inb_neg [OF weight_bounds(10)] by simp
  moreover have "inb (1 / 1024) 65536 s" using assms(3) s_min_bounds by (auto elim: inb_mono)
  ultimately have "inb 0 1024 (m_pow m s (jneg (DEFAULT_W ! 9)))" by (intro pow_bounds(4) [OF m])
  from inb_mul_pos [OF a this, of 0 "2 ^ 26"]
  have b: "inb 0 (2 ^ 26) (jmul (jmul (m_exp m (DEFAULT_W ! 8)) (jsub (num 11) d))
     (m_pow m s (jneg (DEFAULT_W ! 9))))" by (simp add: rep_rules)
  have "inb 0 1 (jsub (num 1) r)"
    using inb_sub [OF inb_const assms(4), of 0 1 1] by (simp add: rep_rules)
  from inb_mul_pos [OF this weight_bounds(11), of 0 8]
  have "inb 0 8 (jmul (jsub (num 1) r) (DEFAULT_W ! 10))" by (simp add: rep_rules)
  from exp_bounds(1) [OF m this]
  have "inb 0 4095 (jsub (m_exp m (jmul (jsub (num 1) r) (DEFAULT_W ! 10))) (num 1))"
    using inb_sub [OF _ inb_const, of 1 4096 _ 0 1 4095] by (simp add: rep_rules)
  from inb_mul_pos [OF b this, of 0 "2 ^ 38"]
  have c: "inb 0 (2 ^ 38) (jmul (jmul (jmul (m_exp m (DEFAULT_W ! 8)) (jsub (num 11) d))
     (m_pow m s (jneg (DEFAULT_W ! 9)))) (jsub (m_exp m (jmul (jsub (num 1) r) (DEFAULT_W ! 10))) (num 1)))"
    by (simp add: rep_rules)
  show ?thesis
    by (rule inb_mul_pos [OF inb_mul_pos [OF c assms(5), of 0 "2 ^ 39"] assms(6)])
      (simp_all add: rep_rules)
qed

section \<open>Stabilities are fixed points of the rounding\<close>

lemma fl_Num_rep:
  assumes "fl x = Num a"
  shows "rep a"
proof (cases "x = 0")
  case True
  with assms show ?thesis by (simp add: fl_def rep_rules)
next
  case False
  let ?e = "quantum_exp x"
  let ?n = "rne (x / 2 powi ?e)"
  have a: "a = of_int ?n * 2 powi ?e" "\<bar>a\<bar> < dbl_lim"
    using assms False by (auto simp: fl_def Let_def split: if_splits)
  have "\<bar>x\<bar> < 2 powi (bexp \<bar>x\<bar> + 1)" using bexp_bounds(2) [of "\<bar>x\<bar>"] False by simp
  also have "\<dots> \<le> 2 powi (53 + ?e)" by (simp add: powi_le_iff quantum_exp_def)
  also have "\<dots> = 2 ^ 53 * 2 powi ?e" by (subst powi_split) simp
  finally have "\<bar>x / 2 powi ?e\<bar> \<le> 2 ^ 53" by (simp add: abs_divide divide_le_eq)
  then have "x / 2 powi ?e \<le> of_int (2 ^ 53)" and "of_int (- (2 ^ 53)) \<le> x / 2 powi ?e"
    unfolding abs_le_iff by simp_all
  then have "?n \<le> 2 ^ 53" and "- (2 ^ 53) \<le> ?n"
    by (simp_all only: rne_le_iff_int rne_ge_iff_int)
  then have "\<bar>?n\<bar> \<le> 2 ^ 53" by (simp add: abs_le_iff)
  moreover have "- 1074 \<le> ?e" by (simp add: quantum_exp_def)
  ultimately show ?thesis using a unfolding rep_def by blast
qed

lemma fl_error:
  assumes "\<bar>x\<bar> < 2 ^ 16" and "fl x = Num a"
  shows "\<bar>a - x\<bar> \<le> 1 / 2 ^ 38"
proof (cases "x = 0")
  case True
  with assms show ?thesis by (simp add: fl_def)
next
  case False
  let ?e = "quantum_exp x"
  have a: "a = of_int (rne (x / 2 powi ?e)) * 2 powi ?e"
    using assms(2) False by (auto simp: fl_def Let_def split: if_splits)
  have "bexp \<bar>x\<bar> \<le> 15"
  proof (rule ccontr)
    assume "\<not> bexp \<bar>x\<bar> \<le> 15"
    then have "(2::rat) powi 16 \<le> 2 powi bexp \<bar>x\<bar>" by (simp only: powi_le_iff)
    with bexp_bounds(1) [of "\<bar>x\<bar>"] False assms(1) show False by (simp add: power_int_def)
  qed
  then have "?e \<le> - 37" by (simp add: quantum_exp_def)
  then have "(2::rat) powi ?e \<le> 2 powi (- 37)" by (simp only: powi_le_iff)
  then have q: "(2::rat) powi ?e \<le> 1 / 2 ^ 37" by (simp add: power_int_def power_divide)
  have "a - x = (of_int (rne (x / 2 powi ?e)) - x / 2 powi ?e) * 2 powi ?e"
    by (simp add: a left_diff_distrib)
  then have "\<bar>a - x\<bar> = \<bar>of_int (rne (x / 2 powi ?e)) - x / 2 powi ?e\<bar> * 2 powi ?e"
    by (simp add: abs_mult)
  also have "\<dots> \<le> 1 / 2 * (1 / 2 ^ 37)"
    using q rne_error [of "x / 2 powi ?e"] by (intro mult_mono) auto
  finally show ?thesis by simp
qed

text \<open>The invariant of every stability the code stores: rounding it again changes nothing.\<close>

definition rounded8 :: "jsnum \<Rightarrow> bool" where
  "rounded8 x \<longleftrightarrow> roundTo8 x = x"

lemma rounded8_fl:
  assumes "0 \<le> k" and "k \<le> 3650000000000"
  shows "rounded8 (fl (of_int k / 10 ^ 8))"
proof -
  let ?x = "of_int k / 10 ^ 8 :: rat"
  have k: "(of_int 0 :: rat) \<le> of_int k" "(of_int k :: rat) \<le> of_int 3650000000000"
    using assms by (simp_all only: of_int_le_iff)
  then have x: "0 \<le> ?x" "?x \<le> 36500" by simp_all
  then have "inb 0 36500 (fl ?x)" by (intro inb_fl) (simp_all add: rep_rules)
  then obtain a where a: "fl ?x = Num a" "0 \<le> a" "a \<le> 36500" by (auto simp: inb_def)
  have "\<bar>a - ?x\<bar> \<le> 1 / 2 ^ 38" using x a by (intro fl_error) auto
  then have "\<bar>a * 10 ^ 8 - of_int k\<bar> < 1 / 2" by (simp add: abs_le_iff abs_less_iff field_simps)
  then have "to_fixed8_int a = k"
    unfolding to_fixed8_int_def by (intro floor_unique; linarith)
  with a show ?thesis by (simp add: rounded8_def roundTo8_def)
qed

lemma rounded8_roundTo8:
  assumes "inb 0 36500 x"
  shows "rounded8 (roundTo8 x)"
proof -
  obtain r where r: "x = Num r" "0 \<le> r" "r \<le> 36500" using assms by (auto simp: inb_def)
  have "0 \<le> to_fixed8_int r" "to_fixed8_int r \<le> 3650000000000"
    using r unfolding to_fixed8_int_def by (simp_all add: floor_le_iff)
  with rounded8_fl r show ?thesis by (simp add: roundTo8_def)
qed

lemma roundTo8_ge:
  assumes "rounded8 (Num a)" and "0 \<le> a" and "rep a" and "a \<le> b" and "b \<le> 36500"
  shows "jle (Num a) (roundTo8 (Num b))"
proof -
  let ?j = "to_fixed8_int a" and ?k = "to_fixed8_int b"
  have b: "roundTo8 (Num b) = fl (of_int ?k / 10 ^ 8)" and a: "fl (of_int ?j / 10 ^ 8) = Num a"
    using assms by (simp_all add: roundTo8_def rounded8_def)
  have "?j \<le> ?k" using assms(4) unfolding to_fixed8_int_def by (intro floor_mono) simp
  then consider "?j = ?k" | "?j + 1 \<le> ?k" by linarith
  then show ?thesis
  proof cases
    case 1
    with a b show ?thesis by (simp add: jle_def)
  next
    case 2
    have "a * 10 ^ 8 + 1 / 2 < of_int ?j + 1" unfolding to_fixed8_int_def by linarith
    also have "\<dots> = of_int (?j + 1)" by simp
    also have "\<dots> \<le> (of_int ?k :: rat)" using 2 by (simp only: of_int_le_iff)
    finally have "a \<le> of_int ?k / 10 ^ 8" by simp
    then show ?thesis unfolding b by (rule fl_ge [OF assms(3)])
  qed
qed

lemma roundTo8_le:
  assumes "rounded8 (Num a)" and "0 \<le> b" and "rep a" and "b \<le> a" and "a \<le> 36500"
  shows "jle (roundTo8 (Num b)) (Num a)"
proof -
  let ?j = "to_fixed8_int a" and ?k = "to_fixed8_int b"
  have b: "roundTo8 (Num b) = fl (of_int ?k / 10 ^ 8)" and a: "fl (of_int ?j / 10 ^ 8) = Num a"
    using assms by (simp_all add: roundTo8_def rounded8_def)
  have "?k \<le> ?j" using assms(4) unfolding to_fixed8_int_def by (intro floor_mono) simp
  then consider "?j = ?k" | "?k + 1 \<le> ?j" by linarith
  then show ?thesis
  proof cases
    case 1
    with a b show ?thesis by (simp add: jle_def)
  next
    case 2
    have "of_int (?k + 1) \<le> (of_int ?j :: rat)" using 2 by (simp only: of_int_le_iff)
    also have "of_int ?j \<le> a * 10 ^ 8 + 1 / 2" unfolding to_fixed8_int_def by linarith
    finally have "of_int ?k / 10 ^ 8 \<le> a" by simp
    then show ?thesis unfolding b by (rule fl_le [OF assms(3)])
  qed
qed

section \<open>The invariant of the stored memory state\<close>

text \<open>A stability as the code stores it: in range, finite, and printed with eight decimals.\<close>

definition stability_ok :: "jsnum \<Rightarrow> bool" where
  "stability_ok s \<longleftrightarrow> inb s_min 36500 s \<and> rounded8 s"

definition memory_ok :: "FsrsMemoryState \<Rightarrow> bool" where
  "memory_ok ms \<longleftrightarrow> inb 1 10 (m_difficulty ms) \<and> stability_ok (m_stability ms)"

lemma stability_ok_inb: "stability_ok s \<Longrightarrow> inb s_min 36500 s"
  by (simp add: stability_ok_def)

lemma inb_0_stability: "inb s_min 36500 x \<Longrightarrow> inb 0 36500 x"
  using s_min_bounds by (auto elim!: inb_mono)

lemma stability_ok_roundTo8: "inb s_min 36500 x \<Longrightarrow> stability_ok (roundTo8 x)"
  by (simp add: stability_ok_def roundTo8_stability_inb rounded8_roundTo8 inb_0_stability)

lemma stability_ok_clamp: "v \<noteq> NaN \<Longrightarrow> stability_ok (roundTo8 (clamp v S_MIN (num 36500)))"
  using clamp_S_MIN [of v] by (simp add: stability_ok_roundTo8)

lemma stability_ok_S_MIN: "stability_ok S_MIN"
proof -
  have "rounded8 (fl (of_int 100000 / 10 ^ 8))" by (rule rounded8_fl) simp_all
  then have "rounded8 S_MIN" by (simp add: S_MIN_def)
  then show ?thesis using s_min_bounds by (simp add: stability_ok_def S_MIN_Num)
qed

lemma stability_ok_E:
  assumes "stability_ok s"
  obtains a where "s = Num a" "s_min \<le> a" "a \<le> 36500" "rep a" "rounded8 (Num a)"
proof -
  obtain a where a: "s = Num a" "s_min \<le> a" "a \<le> 36500" "rounded8 (Num a)"
    using assms by (auto simp: stability_ok_def inb_def)
  then have "fl (of_int (to_fixed8_int a) / 10 ^ 8) = Num a"
    using s_min_bounds by (simp add: rounded8_def roundTo8_def split: if_splits)
  then have "rep a" by (rule fl_Num_rep)
  with a that show ?thesis by blast
qed

text \<open>Clamping and rounding keep the order with a stored stability.\<close>

lemma clamp_roundTo8_ge:
  assumes "stability_ok s" and "jle s v"
  shows "jle s (roundTo8 (clamp v S_MIN (num 36500)))"
proof -
  obtain a where a: "s = Num a" "s_min \<le> a" "a \<le> 36500" "rep a" "rounded8 (Num a)"
    using assms(1) by (rule stability_ok_E)
  have "v \<noteq> NaN" using assms(2) by (simp add: jle_def)
  then have "inb s_min 36500 (clamp v S_MIN (Num 36500))" by (rule clamp_S_MIN)
  then obtain b where b: "clamp v S_MIN (Num 36500) = Num b" "s_min \<le> b" "b \<le> 36500"
    by (auto simp: inb_def)
  have "a \<le> b" using assms(2) a b by (cases v) (auto simp: clamp_def S_MIN_Num jmin_def jmax_def jle_def split: if_splits)
  with roundTo8_ge [of a b] a b s_min_bounds show ?thesis by simp
qed

lemma nextRecallStability_ok:
  assumes "math_ok m" and "inb 1 10 d" and "stability_ok s" and "inb 0 1 r"
  shows "stability_ok (nextRecallStability m d s r g)" and "jle s (nextRecallStability m d s r g)"
proof -
  let ?hp = "if g = 2 then DEFAULT_W ! 15 else num 1"
  let ?eb = "if g = 4 then DEFAULT_W ! 16 else num 1"
  obtain k where k: "k = jmul (jmul (jmul (jmul (jmul (m_exp m (DEFAULT_W ! 8)) (jsub (num 11) d))
     (m_pow m s (jneg (DEFAULT_W ! 9)))) (jsub (m_exp m (jmul (jsub (num 1) r) (DEFAULT_W ! 10))) (num 1)))
     ?hp) ?eb" by simp
  have hp: "inb (1 / 2) 2 ?hp" and eb: "inb (1 / 2) 2 ?eb"
    using inb_mono [OF weight_bounds(16)] inb_mono [OF weight_bounds(17)] by auto
  have kb: "inb 0 (2 ^ 50) k"
    unfolding k by (rule recall_product_bounds [OF assms(1,2) stability_ok_inb [OF assms(3)] assms(4) hp eb])
  have "inb 1 (2 ^ 51) (jadd (num 1) k)"
    using inb_add [OF inb_const kb, of 1 1 "2 ^ 51"] by (simp add: rep_rules)
  then have f: "jle (num 1) (jadd (num 1) k)" "jadd (num 1) k \<noteq> NaN" by (auto elim!: inbE)
  obtain a where a: "s = Num a" "s_min \<le> a" "a \<le> 36500" "rep a" "rounded8 (Num a)"
    using assms(3) by (rule stability_ok_E)
  have "inb s_min 36500 s" using a by simp
  then have ge: "jle s (jmul s (jadd (num 1) k))"
    by (rule jmul_ge) (use a f s_min_bounds in auto)
  have n: "nextRecallStability m d s r g = roundTo8 (clamp (jmul s (jadd (num 1) k)) S_MIN (num 36500))"
    by (simp add: nextRecallStability_def Let_def k)
  show "stability_ok (nextRecallStability m d s r g)"
    unfolding n using ge by (intro stability_ok_clamp) (auto simp: jle_def)
  show "jle s (nextRecallStability m d s r g)"
    unfolding n using clamp_roundTo8_ge [OF assms(3) ge] .
qed

lemma retrievability_factor_bounds:
  assumes "inb 0 1 r" and "inb 0 2 w"
  shows "inb 0 8 (jmul (jsub (num 1) r) w)"
proof -
  have "inb 0 1 (jsub (num 1) r)"
    using inb_sub [OF inb_const assms(1), of 0 1 1] by (simp add: rep_rules)
  from inb_mul_pos [OF this assms(2), of 0 8] show ?thesis by (simp add: rep_rules)
qed

lemma nextForgetStability_ok:
  assumes "math_ok m" and "inb 1 10 d" and "inb s_min 36500 s" and "inb 0 1 r"
  shows "stability_ok (nextForgetStability m d s r)"
proof -
  note m = assms(1)
  have "inb (1 / 1024) 65536 d" by (rule inb_mono [OF assms(2)]) simp_all
  moreover have "inb (- 1) 0 (jneg (DEFAULT_W ! 12))" using inb_neg [OF weight_bounds(13)] by simp
  ultimately have "inb 0 1024 (m_pow m d (jneg (DEFAULT_W ! 12)))" by (rule pow_bounds(4) [OF m])
  from inb_mul_pos [OF weight_bounds(12) this, of 0 2048]
  have a: "inb 0 2048 (jmul (DEFAULT_W ! 11) (m_pow m d (jneg (DEFAULT_W ! 12))))" by (simp add: rep_rules)
  have "inb 1 65536 (jadd s (num 1))"
    using inb_add [OF inb_0_stability [OF assms(3)] inb_const, of 1 1 65536] by (simp add: rep_rules)
  from pow_bounds(5) [OF m this weight_bounds(14)]
  have "inb 0 65535 (jsub (m_pow m (jadd s (num 1)) (DEFAULT_W ! 13)) (num 1))"
    using inb_sub [OF _ inb_const, of 1 65536 _ 0 1 65535] by (simp add: rep_rules)
  from inb_mul_pos [OF a this, of 0 "2 ^ 27"]
  have b: "inb 0 (2 ^ 27) (jmul (jmul (DEFAULT_W ! 11) (m_pow m d (jneg (DEFAULT_W ! 12))))
     (jsub (m_pow m (jadd s (num 1)) (DEFAULT_W ! 13)) (num 1)))" by (simp add: rep_rules)
  have "inb 0 2 (DEFAULT_W ! 14)" by (rule inb_mono [OF weight_bounds(15)]) simp_all
  from exp_bounds(1) [OF m retrievability_factor_bounds [OF assms(4) this]]
  have "inb 1 4096 (m_exp m (jmul (jsub (num 1) r) (DEFAULT_W ! 14)))" .
  from inb_mul_pos [OF b this, of 0 "2 ^ 39"] show ?thesis
    unfolding nextForgetStability_def by (intro stability_ok_clamp) (simp add: rep_rules inb_not_NaN)
qed

lemma getShortTermWeights_bounds:
  assumes "math_ok m" and "getShortTermWeights m settings = (w17, w18)"
    and "length (relearningStepsMinutes settings) < 2 ^ 32"
  shows "inb 0 2 w17" and "inb 0 2 w18"
proof -
  note m = assms(1)
  let ?n = "length (relearningStepsMinutes settings)"
  have w: "inb 0 2 (DEFAULT_W ! 17)" "inb 0 2 (DEFAULT_W ! 18)"
    using inb_mono [OF weight_bounds(18), of 0 2] inb_mono [OF weight_bounds(19), of 0 2] by simp_all
  have "inb 0 2 w17 \<and> inb 0 2 w18"
  proof (cases "?n \<le> 1")
    case True
    with assms(2) w show ?thesis by (auto simp: getShortTermWeights_def)
  next
    case False
    have l11: "inb (- 4) 1 (m_log m (DEFAULT_W ! 11))"
      by (rule log_bounds(2) [OF m], rule inb_mono [OF weight_bounds(12)]) simp_all
    have "inb (1 / 8) 1 (jsub (m_pow m (num 2) (DEFAULT_W ! 13)) (num 1))"
      using inb_sub [OF pow_bounds(2) [OF m] inb_const, of "1 / 8" 1 1] by (simp add: rep_rules)
    then have "inb (1 / 16) 2 (jsub (m_pow m (num 2) (DEFAULT_W ! 13)) (num 1))"
      by (rule inb_mono) simp_all
    from inb_add [OF l11 log_bounds(2) [OF m this], of "- 8" 2]
    have s: "inb (- 8) 2 (jadd (m_log m (DEFAULT_W ! 11))
        (m_log m (jsub (m_pow m (num 2) (DEFAULT_W ! 13)) (num 1))))" by (simp add: rep_rules)
    have "inb 0 1 (fl 0.3)" by (rule inb_fl) (simp_all add: rep_rules)
    from inb_mul_pos [OF weight_bounds(15) this, of 0 2]
    have "inb 0 2 (jmul (DEFAULT_W ! 14) (fl 0.3))" by (simp add: rep_rules)
    from inb_neg [OF inb_add [OF s this, of "- 8" 4]]
    have v: "inb (- 4) 8 (jneg (jadd (jadd (m_log m (DEFAULT_W ! 11))
        (m_log m (jsub (m_pow m (num 2) (DEFAULT_W ! 13)) (num 1)))) (jmul (DEFAULT_W ! 14) (fl 0.3))))"
      (is "inb _ _ ?v") by (simp add: rep_rules)
    have "inb 1 (2 ^ 32) (num (int ?n))" using False assms(3) by simp
    moreover have "inb (- 4) 8 (jdiv ?v (num (int ?n)))"
    proof -
      have n: "1 \<le> (of_nat ?n :: rat)" using False by simp
      obtain q where q: "?v = Num q" "- 4 \<le> q" "q \<le> 8" using v by (auto simp: inb_def)
      have "- 4 * of_nat ?n \<le> q" using q n by linarith
      moreover have "q \<le> 8 * of_nat ?n" using q n by linarith
      ultimately have "- 4 \<le> q / of_nat ?n" "q / of_nat ?n \<le> 8"
        using n by (simp_all add: le_divide_eq divide_le_eq)
      moreover have "rep (- 4)" "rep 8" by (simp_all add: rep_rules)
      ultimately show ?thesis using q n by (auto intro!: inb_fl)
    qed
    ultimately have "roundTo8 (jdiv ?v (num (int ?n))) \<noteq> NaN"
      using roundTo8_inb [of "- 4" 8 "jdiv ?v (num (int ?n))"] by auto
    moreover obtain c where c: "fl 0.01 = Num c" "0 \<le> c" "c \<le> 2"
      using inb_fl [of 0 "0.01" 2] by (auto simp: rep_rules inb_def)
    ultimately have "inb c 2 (clamp (roundTo8 (jdiv ?v (num (int ?n)))) (fl 0.01) W17_W18_CEILING)"
      unfolding c(1) W17_W18_CEILING_def using clamp_inb [of c 2] c by simp
    then obtain u where u: "clamp (roundTo8 (jdiv ?v (num (int ?n)))) (fl 0.01) W17_W18_CEILING = Num u"
      "0 \<le> u" "u \<le> 2" using c by (auto simp: inb_def)
    have "inb 0 2 (clamp x (num 0) (Num u))" if "inb 0 2 x" for x
      using clamp_ok [OF that u(2)] u(3) by (auto elim: inb_mono)
    with w u(1) False assms(2) show ?thesis by (auto simp: getShortTermWeights_def Let_def)
  qed
  then show "inb 0 2 w17" "inb 0 2 w18" by simp_all
qed

lemma nextShortTermStability_ok:
  assumes "math_ok m" and "stability_ok s" and "1 \<le> g" and "g \<le> 4"
    and "length (relearningStepsMinutes settings) < 2 ^ 32"
  shows "stability_ok (nextShortTermStability m s g settings)"
    and "3 \<le> g \<Longrightarrow> jle s (nextShortTermStability m s g settings)"
proof -
  note m = assms(1)
  obtain w17 w18 where w: "getShortTermWeights m settings = (w17, w18)" by force
  note wb = getShortTermWeights_bounds [OF m w assms(5)]
  have "inb (- 2) 1 (num (g - 3))" using assms(3,4) by simp
  from inb_add [OF this wb(2), of "- 2" 3]
  have "inb (- 2) 3 (jadd (num (g - 3)) w18)" by (simp add: rep_rules)
  from inb_mul [OF wb(1) this, of 8 "- 8"]
  have "inb (- 8) 8 (jmul w17 (jadd (num (g - 3)) w18))" by (simp add: rep_rules)
  from exp_bounds(4) [OF m this]
  have e: "inb (1 / 4096) 4096 (m_exp m (jmul w17 (jadd (num (g - 3)) w18)))" .
  have "inb (- 1) 0 (jneg (DEFAULT_W ! 19))" using inb_neg [OF weight_bounds(20)] by simp
  moreover have "inb (1 / 1024) 65536 s"
    using stability_ok_inb [OF assms(2)] s_min_bounds by (auto elim: inb_mono)
  ultimately have "inb 0 1024 (m_pow m s (jneg (DEFAULT_W ! 19)))" by (intro pow_bounds(4) [OF m])
  from inb_mul_pos [OF this e, of 0 "2 ^ 22"]
  have sinc: "inb 0 (2 ^ 22) (jmul (m_pow m s (jneg (DEFAULT_W ! 19)))
     (m_exp m (jmul w17 (jadd (num (g - 3)) w18))))" (is "inb _ _ ?sinc") by (simp add: rep_rules)
  let ?k = "if 3 \<le> g then jmax ?sinc (num 1) else ?sinc"
  have k: "inb 0 (2 ^ 22) ?k" using inb_max [OF sinc inb_const, of 0 1 "2 ^ 22"] sinc by simp
  have n: "nextShortTermStability m s g settings = roundTo8 (clamp (jmul s ?k) S_MIN (num 36500))"
    by (simp add: nextShortTermStability_def w Let_def)
  from inb_mul_pos [OF inb_0_stability [OF stability_ok_inb [OF assms(2)]] k, of 0 "2 ^ 40"]
  have "inb 0 (2 ^ 40) (jmul s ?k)" by (simp add: rep_rules)
  then show "stability_ok (nextShortTermStability m s g settings)"
    unfolding n by (intro stability_ok_clamp inb_not_NaN)
  assume "3 \<le> g"
  then have "jle (num 1) ?k" "?k \<noteq> NaN" using sinc by (auto elim!: inbE)
  moreover obtain a where a: "s = Num a" "s_min \<le> a" "a \<le> 36500" "rep a" "rounded8 (Num a)"
    using assms(2) by (rule stability_ok_E)
  ultimately have "jle s (jmul s ?k)"
    by (intro jmul_ge [OF stability_ok_inb [OF assms(2)]]) (use s_min_bounds in auto)
  with assms(2) show "jle s (nextShortTermStability m s g settings)"
    unfolding n by (rule clamp_roundTo8_ge)
qed

text \<open>The stability after a lapse: never above the old one.\<close>

lemma lapse_stability_ok:
  assumes "stability_ok s" and "stability_ok f" and "inb 1 4096 e"
  shows "stability_ok (clamp (roundTo8 (jdiv s e)) S_MIN f)"
    and "jle (clamp (roundTo8 (jdiv s e)) S_MIN f) s"
proof -
  obtain a where a: "s = Num a" "s_min \<le> a" "a \<le> 36500" "rep a" "rounded8 (Num a)"
    using assms(1) by (rule stability_ok_E)
  obtain b where b: "f = Num b" "s_min \<le> b" "b \<le> 36500" "rep b" "rounded8 (Num b)"
    using assms(2) by (rule stability_ok_E)
  obtain q where q: "e = Num q" "1 \<le> q" using assms(3) by (auto simp: inb_def)
  have "0 \<le> a / q" using a q s_min_bounds by simp
  moreover have "a / q \<le> a" using a q s_min_bounds by (simp add: divide_le_eq mult_le_cancel_left1)
  ultimately have "inb 0 a (fl (a / q))" using a by (intro inb_fl) (simp_all add: rep_rules)
  then obtain d where d: "fl (a / q) = Num d" "0 \<le> d" "d \<le> a" by (auto simp: inb_def)
  have j: "jdiv s e = Num d" using a q d by simp
  have le: "jle (roundTo8 (Num d)) (Num a)"
    using roundTo8_le [of a d] a d by simp
  have rd: "rounded8 (roundTo8 (Num d))" using rounded8_roundTo8 [of "Num d"] a d by simp
  have "roundTo8 (Num d) \<noteq> NegInf"
    using roundTo8_inb [of 0 36500 "Num d"] a d by auto
  with le obtain r where r: "roundTo8 (Num d) = Num r" "r \<le> a"
    by (cases "roundTo8 (Num d)") (auto simp: jle_def)
  have c: "clamp (roundTo8 (jdiv s e)) S_MIN f = Num (min (max r s_min) b)"
    by (simp add: clamp_def j r b S_MIN_Num)
  have "rounded8 (Num r)" "rounded8 (Num s_min)"
    using rd r stability_ok_S_MIN by (simp_all add: stability_ok_def S_MIN_Num)
  then have "rounded8 (Num (min (max r s_min) b))" using b by (simp add: min_def max_def)
  then show "stability_ok (clamp (roundTo8 (jdiv s e)) S_MIN f)"
    unfolding c stability_ok_def using r a b by auto
  show "jle (clamp (roundTo8 (jdiv s e)) S_MIN f) s" unfolding c using r a by auto
qed

section \<open>Preservation by the three updates\<close>

lemma initStability_ok: "1 \<le> g \<Longrightarrow> g \<le> 4 \<Longrightarrow> stability_ok (initStability g)"
proof -
  assume g: "1 \<le> g" "g \<le> 4"
  have w: "stability_ok (fl (of_int k / 10 ^ 8))" if "k \<in> {21200000, 129310000, 230650000, 829560000, 10000000}" for k
  proof -
    have "inb s_min 36500 (fl (of_int k / 10 ^ 8))"
      using that by (intro inb_fl rep_s_min) (auto simp: rep_rules s_min_def)
    moreover have "rounded8 (fl (of_int k / 10 ^ 8))" using that by (intro rounded8_fl) auto
    ultimately show ?thesis by (simp add: stability_ok_def)
  qed
  have t: "stability_ok (fl 0.1)" using w [of 10000000] by simp
  have d: "stability_ok (DEFAULT_W ! i)" if "i < 4" for i
  proof -
    from that have "i = 0 \<or> i = 1 \<or> i = 2 \<or> i = 3" by presburger
    then show ?thesis
      using w [of 21200000] w [of 129310000] w [of 230650000] w [of 829560000]
      by (auto simp: weight_simps)
  qed
  have "stability_ok (DEFAULT_W ! nat (g - 1))" using g by (intro d) linarith
  with t show ?thesis by (auto simp: initStability_def jmax_def stability_ok_def split: if_splits)
qed

lemma createInitialMemoryState_ok:
  assumes "math_ok m" and "1 \<le> g" and "g \<le> 4"
  shows "memory_ok (createInitialMemoryState m g)"
  using clamp_ok [OF initDifficulty_bounds [OF assms], of 1 10] initStability_ok [OF assms(2,3)]
  by (simp add: memory_ok_def createInitialMemoryState_def)

lemma computeNextShortTermMemoryState_ok:
  assumes "math_ok m" and "memory_ok ms" and "1 \<le> g" and "g \<le> 4"
    and "length (relearningStepsMinutes settings) < 2 ^ 32"
  shows "memory_ok (computeNextShortTermMemoryState m ms g settings)"
  using assms nextDifficulty_ok nextShortTermStability_ok(1)
  by (simp add: memory_ok_def computeNextShortTermMemoryState_def)

lemma computeNextReviewMemoryState_ok:
  assumes "math_ok m" and "memory_ok ms" and "1 \<le> g" and "g \<le> 4"
    and "length (relearningStepsMinutes settings) < 2 ^ 32" and "inb 0 (2 ^ 40) elapsed"
  shows "memory_ok (computeNextReviewMemoryState m ms elapsed g settings)"
    and "2 \<le> g \<Longrightarrow> jle (m_stability ms) (m_stability (computeNextReviewMemoryState m ms elapsed g settings))"
    and "g = 1 \<Longrightarrow> jle (m_stability (computeNextReviewMemoryState m ms elapsed g settings)) (m_stability ms)"
proof -
  note m = assms(1)
  have d: "inb 1 10 (m_difficulty ms)" and s: "stability_ok (m_stability ms)"
    using assms(2) by (simp_all add: memory_ok_def)
  let ?r = "forgettingCurve m elapsed (m_stability ms)"
  have r: "inb 0 1 ?r" by (rule forgettingCurve_bounds [OF m assms(6) stability_ok_inb [OF s]])
  note rec = nextRecallStability_ok [OF m d s r, of g]
  note fgt = nextForgetStability_ok [OF m d stability_ok_inb [OF s] r]
  obtain w17 w18 where w: "getShortTermWeights m settings = (w17, w18)" by force
  from inb_mul_pos [OF getShortTermWeights_bounds [OF m w assms(5)], of 0 8]
  have "inb 0 8 (jmul w17 w18)" by (simp add: rep_rules)
  note lap = lapse_stability_ok [OF s fgt exp_bounds(1) [OF m this]]
  show "memory_ok (computeNextReviewMemoryState m ms elapsed g settings)"
    using nextDifficulty_ok [OF m d assms(3,4)] rec(1) lap(1)
    by (simp add: memory_ok_def computeNextReviewMemoryState_def Let_def w)
  show "2 \<le> g \<Longrightarrow> jle (m_stability ms) (m_stability (computeNextReviewMemoryState m ms elapsed g settings))"
    using rec(2) by (simp add: computeNextReviewMemoryState_def Let_def)
  show "g = 1 \<Longrightarrow> jle (m_stability (computeNextReviewMemoryState m ms elapsed g settings)) (m_stability ms)"
    using lap(2) by (simp add: computeNextReviewMemoryState_def Let_def w)
qed

section \<open>A concrete host\<close>

text \<open>
  The hypotheses on \<open>Math\<close> are satisfiable: a step function for each. The witnesses of the
  properties that assume \<open>math_ok\<close> run on it.
\<close>

fun coarse_exp :: "jsnum \<Rightarrow> jsnum" where
  "coarse_exp (Num r) = (if 1 / 2 \<le> r then Num 2 else Num 1)"
| "coarse_exp x = x"

fun coarse_log :: "jsnum \<Rightarrow> jsnum" where
  "coarse_log (Num r) = Num (- 7 / 64)"
| "coarse_log x = x"

definition coarse_pow :: "jsnum \<Rightarrow> jsnum \<Rightarrow> jsnum" where
  "coarse_pow b e = (if b = DECAY \<and> e = num (- 1) then Num (- 13 / 2)
     else if b = num 2 \<and> e = DEFAULT_W ! 13 then Num (9 / 8) else num 1)"

definition coarse_math :: js_math where
  "coarse_math = \<lparr>m_exp = coarse_exp, m_log = coarse_log, m_pow = coarse_pow\<rparr>"

lemma coarse_math_ok: "math_ok coarse_math"
proof -
  obtain r where nine: "fl 0.9 = Num r" using inb_fl [of 0 "0.9" 1] by (auto simp: rep_rules inb_def)
  have dec: "d < 0" if "DECAY = Num d" for d using DECAY_bounds unfolding that by simp
  have "inb (1 / 8) 1 (fl 0.2629)" by (rule inb_fl) (simp_all add: rep_rules)
  then have w13: "DEFAULT_W ! 13 = Num w \<Longrightarrow> 0 < w" for w by (simp add: weight_simps)
  have "exp_ok coarse_math" by (auto simp: exp_ok_def coarse_math_def elim!: inbE)
  moreover have "log_ok coarse_math" by (auto simp: log_ok_def coarse_math_def nine elim!: inbE)
  moreover have "pow_ok coarse_math"
    using dec w13 by (fastforce simp: pow_ok_def coarse_math_def coarse_pow_def elim!: inbE)
  ultimately show ?thesis by (simp add: math_ok_def)
qed

end
