(* ===== verification/FsrsInterval.thy ===== *)
theory FsrsInterval
  imports FsrsMemory
begin

text \<open>
  The interval of a review card (\<open>getIntervalModifier\<close>, \<open>getFuzzRange\<close>, \<open>nextInterval\<close> and the three
  intervals of \<open>buildReviewSuccessSchedule\<close> in \<open>scheduling/index.ts\<close>): always a whole number of
  days between 1 and the workspace's maximum, inside the fuzz range around the unfuzzed interval,
  and strictly increasing from hard to good to easy.
\<close>

text \<open>
  The settings the validation of the workspace settings lets through, as far as intervals depend
  on them. The bound on the maximum (more than 5000 years) keeps the products of the fuzz with a
  32 bit fraction exact in doubles; the product's own default is 36500 days.
\<close>

definition interval_settings :: "scheduler_config \<Rightarrow> int \<Rightarrow> bool" where
  "interval_settings settings M \<longleftrightarrow> inb 0 1 (desiredRetention settings)
     \<and> desiredRetention settings \<noteq> Num 0 \<and> maximumIntervalDays settings = num M
     \<and> 1 \<le> M \<and> M \<le> 2000000"

definition raw_interval :: "js_math \<Rightarrow> jsnum \<Rightarrow> scheduler_config \<Rightarrow> jsnum" where
  "raw_interval m stability settings =
     clamp (jround (jmul stability (getIntervalModifier m (desiredRetention settings)))) (num 1)
       (maximumIntervalDays settings)"

lemma jdiv_ge_0:
  assumes "jle (num 0) x" and "inb (1 / 2) 2 f"
  shows "jle (num 0) (jdiv x f)"
proof -
  obtain q where q: "f = Num q" "1 / 2 \<le> q" using assms(2) by (auto simp: inb_def)
  show ?thesis
  proof (cases x)
    case (Num r)
    with assms q have "0 \<le> r / q" by simp
    with fl_ge [of 0 "r / q"] Num q show ?thesis by (simp add: rep_rules)
  qed (use assms q in \<open>auto simp: jle_def\<close>)
qed

lemma roundTo8_ge_0: "jle (num 0) x \<Longrightarrow> jle (num 0) (roundTo8 x)"
proof (cases x)
  case (Num r)
  assume "jle (num 0) x"
  with Num have "0 \<le> r" by simp
  then have "0 \<le> to_fixed8_int r" by (simp add: to_fixed8_int_def)
  then have "(0::rat) \<le> of_int (to_fixed8_int r) / 10 ^ 8" by simp
  from fl_ge [OF _ this] Num \<open>0 \<le> r\<close> show ?thesis by (simp add: roundTo8_def rep_rules)
qed (auto simp: roundTo8_def jle_def)

lemma getIntervalModifier_ge_0:
  assumes "math_ok m" and "inb 0 1 p" and "p \<noteq> Num 0"
  shows "jle (num 0) (getIntervalModifier m p)"
proof -
  have one: "inb 1 1 (num 1)" by simp
  have "inb (- 8) (- 4) (jdiv (num 1) DECAY)"
  proof -
    obtain d where d: "DECAY = Num d" "- 1 / 4 \<le> d" "d \<le> - 1 / 8" using DECAY_bounds by (auto simp: inb_def)
    have "- 8 \<le> 1 / d" "1 / d \<le> - 4" using d by (simp_all add: le_divide_eq divide_le_eq)
    then have "inb (- 8) (- 4) (fl (1 / d))" by (rule inb_fl) (simp_all add: rep_rules)
    then show ?thesis unfolding d(1) using d(2,3) by simp
  qed
  from pow_bounds(6) [OF assms(1-3) this]
  have "jle (num 1) (m_pow m p (jdiv (num 1) DECAY))" .
  then have "jle (num 0) (jsub (m_pow m p (jdiv (num 1) DECAY)) (num 1))"
  proof (cases "m_pow m p (jdiv (num 1) DECAY)")
    case (Num x)
    assume "jle (num 1) (m_pow m p (jdiv (num 1) DECAY))"
    with Num have "0 \<le> x - 1" by simp
    then have "jle (Num 0) (fl (x - 1))" by (rule fl_ge [OF rep_0])
    with Num show ?thesis by (simp add: jsub_def)
  qed (auto simp: jsub_def jle_def)
  from roundTo8_ge_0 [OF jdiv_ge_0 [OF this FACTOR_bounds [OF assms(1)]]]
  show ?thesis by (simp add: getIntervalModifier_def)
qed

lemma raw_interval_bounds:
  assumes "math_ok m" and "inb s_min 36500 s" and "interval_settings settings M"
  shows "\<exists>R. raw_interval m s settings = num R \<and> 1 \<le> R \<and> R \<le> M"
proof -
  let ?mod = "getIntervalModifier m (desiredRetention settings)"
  have M: "maximumIntervalDays settings = num M" "1 \<le> M"
    using assms(3) by (simp_all add: interval_settings_def)
  have "jle (num 0) ?mod"
    using assms(3) by (intro getIntervalModifier_ge_0 [OF assms(1)]) (auto simp: interval_settings_def)
  moreover obtain a where "s = Num a" "s_min \<le> a" using assms(2) by (auto simp: inb_def)
  ultimately have "jmul s ?mod \<noteq> NaN"
    using s_min_bounds by (cases ?mod) (auto simp: signed_inf_def jle_def)
  then have "jround (jmul s ?mod) \<noteq> NaN" by (cases "jmul s ?mod") auto
  then show ?thesis
  proof (cases "jround (jmul s ?mod)")
    case (Num r)
    then obtain k where "r = of_int k" by (cases "jmul s ?mod") auto
    with Num M show ?thesis
      by (intro exI [of _ "min (max k 1) M"])
        (auto simp: raw_interval_def clamp_def of_int_min of_int_max)
  next
    case PosInf
    with M show ?thesis
      by (intro exI [of _ M]) (auto simp: raw_interval_def clamp_def jmax_def jmin_def)
  next
    case NegInf
    with M show ?thesis
      by (intro exI [of _ 1]) (auto simp: raw_interval_def clamp_def jmax_def jmin_def)
  qed simp
qed

section \<open>The fuzz range\<close>

lemma fuzz_term_bounds:
  assumes "inb 3 2000000 i" and "inb 0 1 f" and "inb 2 20 st"
    and "jle st en" and "en = PosInf \<or> inb 7 20 en"
  shows "inb 0 2000000 (jmul f (jmax (jsub (jmin i en) st) (num 0)))"
proof -
  have "inb 3 2000000 (jmin i en)" using assms(1,5) by (auto simp: jmin_def elim!: inbE)
  from inb_sub [OF this assms(3), of "- 20" 2000000]
  have "inb (- 20) 2000000 (jsub (jmin i en) st)" by (simp add: rep_rules)
  from inb_max [OF this inb_const, of 0 0 2000000]
  have "inb 0 2000000 (jmax (jsub (jmin i en) st) (num 0))" by simp
  from inb_mul_pos [OF assms(2) this, of 0 2000000] show ?thesis by (simp add: rep_rules)
qed

lemma fuzz_delta_bounds:
  assumes "inb 3 2000000 i"
  shows "inb 1 (2 ^ 23) (fuzz_delta i)"
proof -
  have f: "inb 0 1 (fl 0.15)" "inb 0 1 (fl 0.1)" "inb 0 1 (fl 0.05)" and s: "inb 2 3 (fl 2.5)"
    by (rule inb_fl; simp add: rep_rules)+
  have s': "inb 2 20 (fl 2.5)" "jle (fl 2.5) (num 7)"
    using s by (auto elim!: inbE)
  have t: "inb 0 2000000 (jmul (fl 0.15) (jmax (jsub (jmin i (num 7)) (fl 2.5)) (num 0)))"
    "inb 0 2000000 (jmul (fl 0.1) (jmax (jsub (jmin i (num 20)) (num 7)) (num 0)))"
    "inb 0 2000000 (jmul (fl 0.05) (jmax (jsub (jmin i PosInf) (num 20)) (num 0)))"
    subgoal by (rule fuzz_term_bounds [OF assms f(1)]) (use s' in simp_all)
    subgoal by (rule fuzz_term_bounds [OF assms f(2)]) simp_all
    subgoal by (rule fuzz_term_bounds [OF assms f(3)]) (simp_all add: jle_def)
    done
  from inb_add [OF inb_const t(1), of 1 1 2000001]
  have a: "inb 1 2000001 (jadd (num 1) (jmul (fl 0.15) (jmax (jsub (jmin i (num 7)) (fl 2.5)) (num 0))))"
    by (simp add: rep_rules)
  from inb_add [OF inb_add [OF a t(2), of 1 4000001] t(3), of 1 "2 ^ 23"] show ?thesis
    by (simp add: fuzz_delta_def FUZZ_RANGES_def rep_rules)
qed

lemma getFuzzRange_bounds:
  assumes "3 \<le> R" and "R \<le> M" and "M \<le> 2000000" and "0 \<le> E" and "E \<le> 2 ^ 40"
  obtains lo hi where "getFuzzRange (num R) (num E) (num M) = \<lparr>minInterval = num lo, maxInterval = num hi\<rparr>"
    and "2 \<le> lo" and "lo \<le> R" and "R \<le> hi" and "hi \<le> M" and "E < R \<Longrightarrow> E < lo"
proof -
  let ?d = "fuzz_delta (num R)"
  have i: "inb (of_int R) (of_int R) (num R)" by simp
  have d: "inb 1 (2 ^ 23) ?d" by (rule fuzz_delta_bounds) (use assms in simp)
  have rep_R: "rep (of_int (R - 1))" "rep (of_int (R + 1))" using assms by (intro rep_int; simp)+
  have RM: "(3::rat) \<le> of_int R" "of_int R \<le> (2000000::rat)" using assms by simp_all
  have "inb (of_int (- (2 ^ 23))) (of_int (R - 1)) (jsub (num R) ?d)"
    by (rule inb_sub [OF i d]) (use rep_R RM in \<open>simp_all add: rep_rules\<close>)
  then obtain a where a: "jround (jsub (num R) ?d) = num a" "a \<le> R - 1" using inb_round by blast
  have "inb (of_int (R + 1)) (of_int (2 ^ 24)) (jadd (num R) ?d)"
    by (rule inb_add [OF i d]) (use rep_R RM in \<open>simp_all add: rep_rules\<close>)
  then obtain b where b: "jround (jadd (num R) ?d) = num b" "R + 1 \<le> b" using inb_round by blast
  have mm: "jmin (num R) (num M) = num R" using assms by simp
  define lo0 where "lo0 = max 2 a"
  define lo where "lo = (if E < R then max lo0 (E + 1) else lo0)"
  define hi where "hi = min b M"
  have e1: "jadd (num E) (num 1) = num (E + 1)"
    using jadd_int [of E 1] assms by simp
  have "getFuzzRange (num R) (num E) (num M)
      = \<lparr>minInterval = jmin (num lo) (num hi), maxInterval = num hi\<rparr>"
    unfolding getFuzzRange_def mm Let_def a b e1 lo_def lo0_def hi_def
    by (simp add: of_int_max of_int_min)
  moreover have bounds: "2 \<le> lo" "lo \<le> R" "R \<le> hi" "hi \<le> M" "E < R \<Longrightarrow> E < lo"
    using a b assms by (auto simp: lo_def lo0_def hi_def)
  moreover from bounds have "jmin (num lo) (num hi) = num lo" by simp
  ultimately show ?thesis using that by metis
qed

section \<open>The interval\<close>

lemma fuzzed_interval:
  assumes "unit32 f" and "0 \<le> lo" and "lo \<le> hi" and "hi \<le> 2000000"
  obtains n where "jfloor (jadd (jmul f (jadd (jsub (num hi) (num lo)) (num 1))) (num lo)) = num n"
    and "lo \<le> n" and "n \<le> hi"
proof -
  obtain k where k: "f = frac32 k" "0 \<le> k" "k < 2 ^ 32" using assms(1) by (auto simp: unit32_def)
  let ?w = "hi - lo + 1"
  have w: "jadd (jsub (num hi) (num lo)) (num 1) = num ?w"
    using jsub_int [of hi lo] jadd_int [of "hi - lo" 1] assms by simp
  have kw: "0 \<le> k * ?w" using k assms by simp
  have kw': "k * ?w \<le> (2 ^ 32 - 1) * ?w" using k assms by (intro mult_right_mono) auto
  have "jmul f (num ?w) = frac32 (k * ?w)"
    using fl_frac32 [of "k * ?w"] kw kw' assms by (simp add: k)
  moreover have "jadd (frac32 (k * ?w)) (num lo) = frac32 (k * ?w + lo * 2 ^ 32)"
    using jadd_frac32 [of "k * ?w" "lo * 2 ^ 32"] kw kw' assms by simp
  moreover have "jfloor (frac32 (k * ?w + lo * 2 ^ 32)) = num ((k * ?w + lo * 2 ^ 32) div 2 ^ 32)"
    using floor_divide_of_int_eq [of "k * ?w + lo * 2 ^ 32" "2 ^ 32", where ?'a = rat] by simp
  moreover have "(k * ?w + lo * 2 ^ 32) div 2 ^ 32 = k * ?w div 2 ^ 32 + lo" by simp
  moreover have "0 \<le> k * ?w div 2 ^ 32" "k * ?w div 2 ^ 32 \<le> hi - lo"
  proof -
    show "0 \<le> k * ?w div 2 ^ 32" using kw by simp
    have "k * ?w < 2 ^ 32 * ?w" using k assms by (intro mult_strict_right_mono) auto
    then have "k * ?w \<le> - 1 + 2 ^ 32 * ?w" by linarith
    then have "k * ?w div 2 ^ 32 \<le> (- 1 + 2 ^ 32 * ?w) div 2 ^ 32" by (rule zdiv_mono1) simp
    also have "\<dots> = ?w + - 1 div 2 ^ 32" by (rule div_mult_self2) simp
    finally have "k * ?w div 2 ^ 32 < ?w" by simp
    then show "k * ?w div 2 ^ 32 \<le> hi - lo" by simp
  qed
  ultimately show ?thesis using that [of "k * ?w div 2 ^ 32 + lo"] w by simp
qed

lemma nextInterval_raw:
  "nextInterval m s E settings seed = (let raw = raw_interval m s settings in
     if \<not> enableFuzz settings \<or> jlt raw (num 3) then raw
     else let r = getFuzzRange raw E (maximumIntervalDays settings) in
       jfloor (jadd (jmul (fst (alea_next (new_Alea seed)))
         (jadd (jsub (maxInterval r) (minInterval r)) (num 1))) (minInterval r)))"
  by (simp add: nextInterval_def raw_interval_def Let_def)

text \<open>A next interval is a whole number of days in \<open>[1, M]\<close>, around the unfuzzed one.\<close>

lemma nextInterval_cases:
  assumes "math_ok m" and "inb s_min 36500 s" and "interval_settings settings M"
    and "0 \<le> E" and "E \<le> 2 ^ 40"
  obtains R where "raw_interval m s settings = num R" and "1 \<le> R" and "R \<le> M"
    and "nextInterval m s (num E) settings seed = num R" and "\<not> enableFuzz settings \<or> R < 3"
  | R lo hi n where "raw_interval m s settings = num R" and "3 \<le> R" and "R \<le> M" and "enableFuzz settings"
    and "getFuzzRange (num R) (num E) (num M) = \<lparr>minInterval = num lo, maxInterval = num hi\<rparr>"
    and "2 \<le> lo" and "lo \<le> R" and "R \<le> hi" and "hi \<le> M" and "E < R \<Longrightarrow> E < lo"
    and "nextInterval m s (num E) settings seed = num n" and "lo \<le> n" and "n \<le> hi"
proof -
  obtain R where R: "raw_interval m s settings = num R" "1 \<le> R" "R \<le> M"
    using raw_interval_bounds [OF assms(1-3)] by blast
  have M: "maximumIntervalDays settings = num M" "M \<le> 2000000"
    using assms(3) by (simp_all add: interval_settings_def)
  show ?thesis
  proof (cases "\<not> enableFuzz settings \<or> R < 3")
    case True
    with R have "nextInterval m s (num E) settings seed = num R"
      unfolding nextInterval_raw R(1) Let_def by auto
    with that(1) R True show ?thesis by blast
  next
    case False
    then have f: "enableFuzz settings" "3 \<le> R" by simp_all
    from getFuzzRange_bounds [OF f(2) R(3) M(2) assms(4,5)] obtain lo hi
      where r: "getFuzzRange (num R) (num E) (num M) = \<lparr>minInterval = num lo, maxInterval = num hi\<rparr>"
        "2 \<le> lo" "lo \<le> R" "R \<le> hi" "hi \<le> M" "E < R \<Longrightarrow> E < lo" by metis
    have u: "unit32 (fst (alea_next (new_Alea seed)))"
      by (rule alea_next_inv(1) [OF new_Alea_inv])
    obtain n where n: "jfloor (jadd (jmul (fst (alea_next (new_Alea seed)))
        (jadd (jsub (num hi) (num lo)) (num 1))) (num lo)) = num n" "lo \<le> n" "n \<le> hi"
    proof (rule fuzzed_interval [OF u])
      show "0 \<le> lo" "lo \<le> hi" "hi \<le> 2000000" using r M by linarith+
    qed
    have "\<not> jlt (num R) (num 3)" using f(2) by simp
    then have "nextInterval m s (num E) settings seed = num n"
      unfolding nextInterval_raw R(1) M(1) Let_def r(1) using f n by simp
    with that(2) R f r n show ?thesis by blast
  qed
qed

lemma nextInterval_bounds:
  assumes "math_ok m" and "inb s_min 36500 s" and "interval_settings settings M"
    and "0 \<le> E" and "E \<le> 2 ^ 40"
  obtains n where "nextInterval m s (num E) settings seed = num n" and "1 \<le> n" and "n \<le> M"
  by (rule nextInterval_cases [OF assms, of seed]) (use that in auto)

section \<open>The three intervals of a successful review\<close>

lemma success_intervals_ordered:
  assumes "math_ok m" and "interval_settings settings M" and "0 \<le> E" and "E \<le> 2 ^ 40"
    and "inb s_min 36500 sh" and "inb s_min 36500 sg" and "inb s_min 36500 se"
  obtains h g e where "success_intervals m settings (num E) sh sg se seed = (num h, num g, num e)"
    and "1 \<le> h" and "h < g" and "g < e" and "h \<le> M" and "g \<le> M + 1" and "e \<le> M + 2"
proof -
  obtain h where h: "nextInterval m sh (num E) settings seed = num h" "1 \<le> h" "h \<le> M"
    using nextInterval_bounds [OF assms(1,5,2-4)] by blast
  obtain g where g: "nextInterval m sg (num E) settings seed = num g" "1 \<le> g" "g \<le> M"
    using nextInterval_bounds [OF assms(1,6,2-4)] by blast
  obtain e where e: "nextInterval m se (num E) settings seed = num e" "1 \<le> e" "e \<le> M"
    using nextInterval_bounds [OF assms(1,7,2-4)] by blast
  have M: "M \<le> 2000000" using assms(2) by (simp add: interval_settings_def)
  define h' where "h' = min h g"
  define g' where "g' = max g (h' + 1)"
  have mh: "jmin (num h) (num g) = num h'" by (simp add: h'_def of_int_min)
  have ah: "jadd (num h') (num 1) = num (h' + 1)"
    using jadd_int [of h' 1] h g M by (simp add: h'_def)
  have mg: "jmax (num g) (num (h' + 1)) = num g'" by (simp add: g'_def of_int_max)
  have ag: "jadd (num g') (num 1) = num (g' + 1)"
    using jadd_int [of g' 1] h g M by (simp add: h'_def g'_def)
  have "success_intervals m settings (num E) sh sg se seed = (num h', num g', num (max e (g' + 1)))"
    unfolding success_intervals_def Let_def h(1) g(1) e(1) mh ah mg ag by (simp add: of_int_max)
  moreover have "1 \<le> h'" "h' < g'" "g' < max e (g' + 1)" "h' \<le> M" "g' \<le> M + 1" "max e (g' + 1) \<le> M + 2"
    using h g e by (auto simp: h'_def g'_def)
  ultimately show ?thesis using that by blast
qed

end
