(* ===== verification/FsrsTransitions.thy ===== *)
theory FsrsTransitions
  imports FsrsInterval
begin

text \<open>
  The state machine of a card (\<open>computeReviewSchedule\<close>, \<open>rebuildCardScheduleState\<close> of
  \<open>scheduling/index.ts\<close>) against an abstract specification: the phase of the card, its number of
  reviews and its number of lapses. Further: when a review is accepted, what an accepted review
  leaves behind (a consistent state, a memory state in range, a due date after the review), and
  the same for a history replayed from the empty card.
\<close>

section \<open>Days between two dates\<close>

text \<open>
  A date a client can send: valid, and after the year 99, since \<open>Date.UTC\<close> reads the years 0 to 99
  as 1900 to 1999.
\<close>

definition modern :: "js_date \<Rightarrow> bool" where
  "modern d \<longleftrightarrow> (\<exists>t. d = Date t \<and> \<bar>t\<bar> \<le> max_time \<and> 100 \<le> year_from_day (utc_day t))"

lemma make_day_civil: "civil_of_day n = (y, mo, d) \<Longrightarrow> make_day y mo d = n"
  using civil_of_make_day civil_of_day_valid civil_of_day_inject by metis

lemma utc_midnight_modern:
  assumes "modern (Date t)"
  shows "utc_midnight (Date t) = num (utc_day t * ms_per_day)"
proof -
  obtain y mo d where c: "civil_of_day (utc_day t) = (y, mo, d)" using prod_cases3 by blast
  have y: "100 \<le> y" using assms year_of_civil [OF c] by (simp add: modern_def)
  have t: "\<bar>t\<bar> \<le> max_time" using assms by (simp add: modern_def)
  have "- 100000000 \<le> utc_day t" "utc_day t \<le> 100000000"
    using t unfolding utc_day_def ms_per_day_def max_time_def by auto
  then have "\<bar>utc_day t * ms_per_day\<bar> \<le> max_time"
    unfolding abs_le_iff ms_per_day_def max_time_def by linarith
  then show ?thesis
    using y by (simp add: c date_UTC_def full_year_def make_day_civil [OF c] time_clip_def)
qed

lemma rep_day_multiple: "\<bar>k\<bar> \<le> 2 ^ 36 \<Longrightarrow> rep (of_int (k * ms_per_day))"
proof -
  assume k: "\<bar>k\<bar> \<le> 2 ^ 36"
  then have m: "\<bar>k * 84375\<bar> \<le> 2 ^ 53" by (simp add: abs_mult)
  have v: "(of_int (k * ms_per_day) :: rat) = of_int (k * 84375) * 2 powi 10"
    by (simp add: ms_per_day_def)
  have b: "\<bar>of_int (k * ms_per_day) :: rat\<bar> < dbl_lim"
  proof -
    have "\<bar>of_int (k * ms_per_day) :: rat\<bar> = of_int \<bar>k * ms_per_day\<bar>" by simp
    also have "\<dots> \<le> of_int (2 ^ 63)"
      using k unfolding of_int_le_iff ms_per_day_def by (simp add: abs_mult)
    also have "\<dots> < dbl_lim"
      unfolding dbl_lim_def of_int_power of_int_numeral by (rule power_strict_increasing) simp_all
    finally show ?thesis .
  qed
  show "rep (of_int (k * ms_per_day))"
    unfolding rep_def using v m b by (intro conjI exI [of _ "k * 84375"] exI [of _ 10]) simp_all
qed

lemma dateDiffInDays_modern:
  assumes "modern (Date a)" and "modern (Date b)" and "a \<le> b"
  shows "dateDiffInDays (Date a) (Date b) = Inr (num (utc_day b - utc_day a))"
proof -
  let ?k = "utc_day b - utc_day a"
  have k: "\<bar>?k\<bar> \<le> 2 ^ 36" "\<bar>?k\<bar> \<le> 2 ^ 53"
    using assms(1,2) unfolding modern_def utc_day_def ms_per_day_def max_time_def by auto
  have "jsub (num (utc_day b * ms_per_day)) (num (utc_day a * ms_per_day)) = num (?k * ms_per_day)"
    using fl_rep [OF rep_day_multiple [OF k(1)]] by (simp add: jsub_def left_diff_distrib)
  moreover have "jdiv (num (?k * ms_per_day)) (num 86400000) = num ?k"
  proof -
    have "(of_int (?k * ms_per_day) :: rat) / of_int 86400000 = of_int ?k"
      unfolding of_int_mult ms_per_day_def by simp
    then show ?thesis using fl_int [OF k(2)] by (simp only: jdiv.simps) simp
  qed
  ultimately show ?thesis
    using assms by (simp add: dateDiffInDays_def utc_midnight_modern del: utc_midnight.simps)
qed

section \<open>The abstract machine\<close>

datatype phase = PNew | PLearning int | PReview | PRelearning int

text \<open>The phase after a rating, with \<open>nl\<close> learning steps and \<open>nr\<close> relearning steps.\<close>

fun phase_step :: "int \<Rightarrow> int \<Rightarrow> ReviewRating \<Rightarrow> phase \<Rightarrow> phase" where
  "phase_step nl nr Again PReview = PRelearning 0"
| "phase_step nl nr Again (PRelearning i) = PRelearning 0"
| "phase_step nl nr Again _ = PLearning 0"
| "phase_step nl nr Hard PNew = PLearning 0"
| "phase_step nl nr Hard p = p"
| "phase_step nl nr Good PNew = (if 1 < nl then PLearning 1 else PReview)"
| "phase_step nl nr Good (PLearning i) = (if i + 2 < nl then PLearning (i + 2) else PReview)"
| "phase_step nl nr Good (PRelearning i) = (if i + 1 < nr then PRelearning (i + 1) else PReview)"
| "phase_step nl nr Good PReview = PReview"
| "phase_step nl nr Easy _ = PReview"

record progress =
  p_phase :: phase
  p_reps :: int
  p_lapses :: int

definition progress_step :: "scheduler_config \<Rightarrow> ReviewRating \<Rightarrow> progress \<Rightarrow> progress" where
  "progress_step settings rating p = \<lparr>
     p_phase = phase_step (int (length (learningStepsMinutes settings)))
       (int (length (relearningStepsMinutes settings))) rating (p_phase p),
     p_reps = p_reps p + 1,
     p_lapses = p_lapses p + (if rating = Again \<and> p_phase p = PReview then 1 else 0)\<rparr>"

fun phase_of :: "FsrsCardState \<Rightarrow> int option \<Rightarrow> phase" where
  "phase_of New _ = PNew"
| "phase_of Learning i = PLearning (case i of None \<Rightarrow> 0 | Some k \<Rightarrow> k)"
| "phase_of Review _ = PReview"
| "phase_of Relearning i = PRelearning (case i of None \<Rightarrow> 0 | Some k \<Rightarrow> k)"

definition progress_of_card :: "ReviewableCardScheduleState \<Rightarrow> progress" where
  "progress_of_card crd = \<lparr>p_phase = phase_of (c_state crd) (c_stepIndex crd), p_reps = c_reps crd,
     p_lapses = c_lapses crd\<rparr>"

definition progress_of_schedule :: "ReviewSchedule \<Rightarrow> progress" where
  "progress_of_schedule s = \<lparr>p_phase = phase_of (s_state s) (s_stepIndex s), p_reps = s_reps s,
     p_lapses = s_lapses s\<rparr>"

text \<open>Step indexes are never negative.\<close>

definition step_index_ok :: "int option \<Rightarrow> bool" where
  "step_index_ok i \<longleftrightarrow> (case i of None \<Rightarrow> True | Some k \<Rightarrow> 0 \<le> k)"

text \<open>
  The state \<open>getMemoryState\<close> accepts: nothing stored for a new card, everything for the others, and
  a step index exactly while learning or relearning.
\<close>

definition consistent :: "ReviewableCardScheduleState \<Rightarrow> bool" where
  "consistent crd \<longleftrightarrow> (if c_state crd = New
     then c_stability crd = None \<and> c_difficulty crd = None \<and> c_lastReviewedAt crd = None
       \<and> c_scheduledDays crd = None \<and> c_stepIndex crd = None
     else c_stability crd \<noteq> None \<and> c_difficulty crd \<noteq> None \<and> c_lastReviewedAt crd \<noteq> None
       \<and> c_scheduledDays crd \<noteq> None \<and> (c_stepIndex crd = None \<longleftrightarrow> c_state crd = Review))"

lemma getMemoryState_Inr_iff: "(\<exists>ms. getMemoryState crd = Inr ms) \<longleftrightarrow> consistent crd"
  by (cases "c_state crd")
    (auto simp: getMemoryState_def consistent_def stateRequiresMemory_def split: option.splits)

lemma getMemoryState_consistent:
  assumes "consistent crd"
  shows "getMemoryState crd = Inr (if c_state crd = New then None
    else Some \<lparr>m_difficulty = the (c_difficulty crd), m_stability = the (c_stability crd)\<rparr>)"
  using assms
  by (cases "c_state crd")
    (auto simp: getMemoryState_def consistent_def stateRequiresMemory_def split: option.splits)

section \<open>Acceptance of a review\<close>

text \<open>The time of a review may not lie before the last one.\<close>

definition backwards :: "ReviewableCardScheduleState \<Rightarrow> js_date \<Rightarrow> bool" where
  "backwards crd now \<longleftrightarrow> (case c_lastReviewedAt crd of None \<Rightarrow> False
     | Some l \<Rightarrow> jlt (get_time now) (get_time l))"

lemma dateDiffInDays_Inr_iff: "(\<exists>e. dateDiffInDays l now = Inr e) \<longleftrightarrow> \<not> jlt (get_time now) (get_time l)"
  by (cases l; cases now) (auto simp: dateDiffInDays_def)

lemma getLearningStepResult_Inr_iff:
  "(\<exists>r. getLearningStepResult settings crd g = Inr r) \<longleftrightarrow> getStepsForState settings (c_state crd) \<noteq> []"
  by (auto simp: getLearningStepResult_def Let_def split: option.splits)

lemma buildShortTermSchedule_Inr_iff:
  "(\<exists>s. buildShortTermSchedule m crd ms rating now reps lapses settings st e seed = Inr s)
   \<longleftrightarrow> getStepsForState settings (c_state crd) \<noteq> []"
  unfolding getLearningStepResult_Inr_iff [of settings crd "mapRatingToFsrsGrade rating", symmetric]
  by (cases "getLearningStepResult settings crd (mapRatingToFsrsGrade rating)")
    (auto simp: buildShortTermSchedule_def split: option.splits)

lemma buildShortTermSchedule_steps:
  "buildShortTermSchedule m crd ms rating now reps lapses settings st e seed = Inr s \<Longrightarrow>
   getStepsForState settings (c_state crd) \<noteq> []"
  using buildShortTermSchedule_Inr_iff by blast

text \<open>Every field of an accepted review, by the branch that produced it.\<close>

lemma computeReviewSchedule_cases:
  assumes "computeReviewSchedule m crd settings rating now = Inr s"
  obtains (first) "c_state crd = New" and "consistent crd"
    and "buildShortTermSchedule m crd (createInitialMemoryState m (mapRatingToFsrsGrade rating)) rating now
      (c_reps crd + 1) (c_lapses crd) settings Learning (num 0) (getIntervalSeed now (c_reps crd + 1) None) = Inr s"
  | (short) ms l e where "c_state crd = Learning \<or> c_state crd = Relearning" and "consistent crd"
    and "ms = \<lparr>m_difficulty = the (c_difficulty crd), m_stability = the (c_stability crd)\<rparr>"
    and "c_lastReviewedAt crd = Some l" and "dateDiffInDays l now = Inr e"
    and "buildShortTermSchedule m crd (computeNextShortTermMemoryState m ms (mapRatingToFsrsGrade rating) settings)
      rating now (c_reps crd + 1) (c_lapses crd) settings (c_state crd) e
      (getIntervalSeed now (c_reps crd + 1) (Some ms)) = Inr s"
  | (lapse) ms l e where "c_state crd = Review" and "rating = Again" and "consistent crd"
    and "ms = \<lparr>m_difficulty = the (c_difficulty crd), m_stability = the (c_stability crd)\<rparr>"
    and "c_lastReviewedAt crd = Some l" and "dateDiffInDays l now = Inr e"
    and "buildShortTermSchedule m crd (computeNextReviewMemoryState m ms e 1 settings)
      Again now (c_reps crd + 1) (c_lapses crd + 1) settings Relearning e
      (getIntervalSeed now (c_reps crd + 1) (Some ms)) = Inr s"
  | (success) ms l e where "c_state crd = Review" and "rating \<noteq> Again" and "consistent crd"
    and "ms = \<lparr>m_difficulty = the (c_difficulty crd), m_stability = the (c_stability crd)\<rparr>"
    and "c_lastReviewedAt crd = Some l" and "dateDiffInDays l now = Inr e"
    and "s = buildReviewSuccessSchedule m now (c_reps crd + 1) (c_lapses crd) settings e
      (computeNextReviewMemoryState m ms e 2 settings) (computeNextReviewMemoryState m ms e 3 settings)
      (computeNextReviewMemoryState m ms e 4 settings) rating
      (getIntervalSeed now (c_reps crd + 1) (Some ms))"
proof -
  have c: "consistent crd"
    using assms getMemoryState_Inr_iff [of crd]
    by (auto simp: computeReviewSchedule_def res_simps)
  note d = assms [unfolded computeReviewSchedule_def getMemoryState_consistent [OF c] rbind_simps Let_def]
  show ?thesis
  proof (cases "c_state crd")
    case New
    with c have "c_lastReviewedAt crd = None" by (simp add: consistent_def)
    with New d c show ?thesis by (intro first) simp_all
  next
    case Review
    with c obtain l where l: "c_lastReviewedAt crd = Some l" by (auto simp: consistent_def)
    with d obtain e where e: "dateDiffInDays l now = Inr e" by (auto simp: res_simps)
    show ?thesis
      using d l e Review c
      by (cases "rating = Again") (rule lapse [OF _ _ c refl l e], simp_all, rule success [OF _ _ c refl l e], simp_all)
  next
    case Learning
    with c obtain l where l: "c_lastReviewedAt crd = Some l" by (auto simp: consistent_def)
    with d obtain e where e: "dateDiffInDays l now = Inr e" by (auto simp: res_simps)
    with d l Learning show ?thesis by (intro short [OF _ c refl l e]) simp_all
  next
    case Relearning
    with c obtain l where l: "c_lastReviewedAt crd = Some l" by (auto simp: consistent_def)
    with d obtain e where e: "dateDiffInDays l now = Inr e" by (auto simp: res_simps)
    with d l Relearning show ?thesis by (intro short [OF _ c refl l e]) simp_all
  qed
qed

lemma computeReviewSchedule_Inr_iff:
  "(\<exists>s. computeReviewSchedule m crd settings rating now = Inr s) \<longleftrightarrow>
     consistent crd \<and> \<not> backwards crd now
     \<and> (getStepsForState settings (c_state crd) \<noteq> [] \<or> c_state crd = Review \<and> rating \<noteq> Again)"
    (is "?L \<longleftrightarrow> ?R")
proof
  assume ?L
  then obtain s where s: "computeReviewSchedule m crd settings rating now = Inr s" ..
  then show ?R
  proof (cases rule: computeReviewSchedule_cases)
    case first
    with buildShortTermSchedule_steps [OF first(3)] show ?thesis by (simp add: backwards_def consistent_def)
  next
    case (short ms l e)
    with buildShortTermSchedule_steps [OF short(6)] dateDiffInDays_Inr_iff [of l now] show ?thesis
      by (auto simp: backwards_def)
  next
    case (lapse ms l e)
    with buildShortTermSchedule_steps [OF lapse(7)] dateDiffInDays_Inr_iff [of l now] show ?thesis
      by (auto simp: backwards_def)
  next
    case (success ms l e)
    with dateDiffInDays_Inr_iff [of l now] show ?thesis by (auto simp: backwards_def)
  qed
next
  assume R: ?R
  then have c: "consistent crd" by simp
  obtain e where e: "(case c_lastReviewedAt crd of None \<Rightarrow> Inr (num 0)
       | Some l \<Rightarrow> dateDiffInDays l now) = Inr e"
    using R dateDiffInDays_Inr_iff by (cases "c_lastReviewedAt crd") (auto simp: backwards_def)
  show ?L
    unfolding computeReviewSchedule_def getMemoryState_consistent [OF c] rbind_simps Let_def e
    using R by (auto simp: buildShortTermSchedule_Inr_iff)
qed

section \<open>Refinement of one review\<close>

text \<open>The state a short-term step stays in.\<close>

fun short_state :: "FsrsCardState \<Rightarrow> FsrsCardState" where
  "short_state New = Learning"
| "short_state Learning = Learning"
| "short_state Review = Relearning"
| "short_state Relearning = Relearning"

definition learning_phase :: "FsrsCardState \<Rightarrow> LearningStepResult \<Rightarrow> phase" where
  "learning_phase st r = (case scheduledMinutes r of None \<Rightarrow> PReview
     | Some _ \<Rightarrow> phase_of st (Some (nextStepIndex r)))"

lemmas learning_defs = getLearningStepResult_def getLearningStrategyStepIndex_def
  getCurrentStepIndex_def getStepsForState_def mapRatingToFsrsGrade_def elem_at_def learning_phase_def

lemma getLearningStepResult_phase:
  assumes "getLearningStepResult settings crd (mapRatingToFsrsGrade rating) = Inr r"
    and "c_state crd = Review \<Longrightarrow> rating = Again" and "c_state crd = New \<Longrightarrow> c_stepIndex crd = None"
    and "step_index_ok (c_stepIndex crd)"
  shows "learning_phase (short_state (c_state crd)) r =
      phase_step (int (length (learningStepsMinutes settings))) (int (length (relearningStepsMinutes settings)))
        rating (phase_of (c_state crd) (c_stepIndex crd))"
    and "0 \<le> nextStepIndex r"
proof -
  have i: "0 \<le> (case c_stepIndex crd of None \<Rightarrow> 0 | Some k \<Rightarrow> k)"
    using assms(4) by (simp add: step_index_ok_def split: option.splits)
  show "learning_phase (short_state (c_state crd)) r =
      phase_step (int (length (learningStepsMinutes settings))) (int (length (relearningStepsMinutes settings)))
        rating (phase_of (c_state crd) (c_stepIndex crd))"
    using assms(1-3) i
    by (cases "c_state crd"; cases rating)
      (auto simp: learning_defs Let_def split: if_splits)
  show "0 \<le> nextStepIndex r"
    using assms(1) i
    by (cases "c_state crd"; cases rating) (auto simp: learning_defs Let_def split: if_splits)
qed

text \<open>What every accepted review leaves: the next abstract state, and a state to review again.\<close>

definition well_formed :: "ReviewableCardScheduleState \<Rightarrow> bool" where
  "well_formed crd \<longleftrightarrow> consistent crd \<and> step_index_ok (c_stepIndex crd)"

lemma buildShortTermSchedule_output:
  assumes "buildShortTermSchedule m crd ms rating now reps lapses settings (short_state (c_state crd)) e seed = Inr s"
    and "c_state crd = Review \<Longrightarrow> rating = Again" and "well_formed crd"
  shows "progress_of_schedule s = \<lparr>
      p_phase = phase_step (int (length (learningStepsMinutes settings)))
        (int (length (relearningStepsMinutes settings))) rating (phase_of (c_state crd) (c_stepIndex crd)),
      p_reps = reps, p_lapses = lapses\<rparr>"
    and "well_formed (card_of_schedule i s)"
    and "s_lastReviewedAt s = now" and "s_stability s = m_stability ms" and "s_difficulty s = m_difficulty ms"
proof -
  from assms(1) obtain r where r: "getLearningStepResult settings crd (mapRatingToFsrsGrade rating) = Inr r"
    by (auto simp: buildShortTermSchedule_def res_simps)
  have n: "c_state crd = New \<Longrightarrow> c_stepIndex crd = None" and ok: "step_index_ok (c_stepIndex crd)"
    using assms(3) by (simp_all add: well_formed_def consistent_def)
  note ph = getLearningStepResult_phase [OF r assms(2) n ok]
  have st: "short_state (c_state crd) = Learning \<or> short_state (c_state crd) = Relearning"
    by (cases "c_state crd") simp_all
  show "progress_of_schedule s = \<lparr>
      p_phase = phase_step (int (length (learningStepsMinutes settings)))
        (int (length (relearningStepsMinutes settings))) rating (phase_of (c_state crd) (c_stepIndex crd)),
      p_reps = reps, p_lapses = lapses\<rparr>"
    using assms(1) ph(1)
    by (auto simp: buildShortTermSchedule_def r buildGraduatedReviewSchedule_def Let_def
        progress_of_schedule_def learning_phase_def split: option.splits)
  show "well_formed (card_of_schedule i s)"
    using assms(1) st ph(2)
    by (auto simp: buildShortTermSchedule_def r buildGraduatedReviewSchedule_def Let_def well_formed_def
        consistent_def card_of_schedule_def step_index_ok_def split: option.splits)
  show "s_lastReviewedAt s = now" and "s_stability s = m_stability ms" and "s_difficulty s = m_difficulty ms"
    using assms(1)
    by (auto simp: buildShortTermSchedule_def r buildGraduatedReviewSchedule_def Let_def split: option.splits)
qed

lemma buildReviewSuccessSchedule_output:
  assumes "rating \<noteq> Again"
  shows "progress_of_schedule (buildReviewSuccessSchedule m now reps lapses settings e h g y rating seed) =
      \<lparr>p_phase = PReview, p_reps = reps, p_lapses = lapses\<rparr>"
    and "well_formed (card_of_schedule i (buildReviewSuccessSchedule m now reps lapses settings e h g y rating seed))"
    and "s_lastReviewedAt (buildReviewSuccessSchedule m now reps lapses settings e h g y rating seed) = now"
  by (auto simp: buildReviewSuccessSchedule_def review_schedule_of_def progress_of_schedule_def
      well_formed_def consistent_def card_of_schedule_def step_index_ok_def split: prod.split)

lemma computeReviewSchedule_output:
  assumes "computeReviewSchedule m crd settings rating now = Inr s" and "well_formed crd"
  shows "progress_of_schedule s = progress_step settings rating (progress_of_card crd)"
    and "well_formed (card_of_schedule i s)" and "s_lastReviewedAt s = now"
  using assms(1)
proof (atomize (full), cases rule: computeReviewSchedule_cases)
  case first
  then have b: "buildShortTermSchedule m crd (createInitialMemoryState m (mapRatingToFsrsGrade rating)) rating now
      (c_reps crd + 1) (c_lapses crd) settings (short_state (c_state crd)) (num 0)
      (getIntervalSeed now (c_reps crd + 1) None) = Inr s" by simp
  show "progress_of_schedule s = progress_step settings rating (progress_of_card crd) \<and>
      well_formed (card_of_schedule i s) \<and> s_lastReviewedAt s = now"
    using first(1) buildShortTermSchedule_output(1-3) [OF b _ assms(2)]
    by (simp add: progress_step_def progress_of_card_def)
next
  case (short ms l e)
  then have b: "buildShortTermSchedule m crd (computeNextShortTermMemoryState m ms (mapRatingToFsrsGrade rating) settings)
      rating now (c_reps crd + 1) (c_lapses crd) settings (short_state (c_state crd)) e
      (getIntervalSeed now (c_reps crd + 1) (Some ms)) = Inr s" by (cases "c_state crd") auto
  show "progress_of_schedule s = progress_step settings rating (progress_of_card crd) \<and>
      well_formed (card_of_schedule i s) \<and> s_lastReviewedAt s = now"
    using short(1) buildShortTermSchedule_output(1-3) [OF b _ assms(2)]
    by (auto simp: progress_step_def progress_of_card_def)
next
  case (lapse ms l e)
  then have b: "buildShortTermSchedule m crd (computeNextReviewMemoryState m ms e 1 settings)
      Again now (c_reps crd + 1) (c_lapses crd + 1) settings (short_state (c_state crd)) e
      (getIntervalSeed now (c_reps crd + 1) (Some ms)) = Inr s" by simp
  show "progress_of_schedule s = progress_step settings rating (progress_of_card crd) \<and>
      well_formed (card_of_schedule i s) \<and> s_lastReviewedAt s = now"
    using lapse(1,2) buildShortTermSchedule_output(1-3) [OF b _ assms(2)]
    by (simp add: progress_step_def progress_of_card_def)
next
  case (success ms l e)
  have "phase_step nl nr rating PReview = PReview" for nl nr using success(2) by (cases rating) simp_all
  with success(1,2,7) buildReviewSuccessSchedule_output [OF success(2)]
  show "progress_of_schedule s = progress_step settings rating (progress_of_card crd) \<and>
      well_formed (card_of_schedule i s) \<and> s_lastReviewedAt s = now"
    by (simp add: progress_step_def progress_of_card_def)
qed

lemma card_of_schedule_progress: "progress_of_card (card_of_schedule i s) = progress_of_schedule s"
  by (simp add: progress_of_card_def card_of_schedule_def progress_of_schedule_def)

section \<open>Replaying a history\<close>

lemma fold_rebuild_Cons:
  "fold_r (rebuild_step m settings) (crd, d) (ev # evs) =
     rbind (computeReviewSchedule m crd settings (e_rating ev) (e_reviewedAt ev)) (\<lambda>s.
       fold_r (rebuild_step m settings) (card_of_schedule (c_cardId crd) s, Some (s_dueAt s)) evs)"
  by (cases "computeReviewSchedule m crd settings (e_rating ev) (e_reviewedAt ev)")
    (simp_all add: rebuild_step_def)

lemma fold_rebuild_invariant:
  assumes "fold_r (rebuild_step m settings) (crd, d) evs = Inr (crd', d')" and "well_formed crd"
  shows "well_formed crd'"
    and "progress_of_card crd' = foldl (\<lambda>p ev. progress_step settings (e_rating ev) p) (progress_of_card crd) evs"
    and "evs \<noteq> [] \<Longrightarrow> c_lastReviewedAt crd' = Some (e_reviewedAt (last evs))"
    and "c_cardId crd' = c_cardId crd"
  using assms
proof (atomize (full), induction evs arbitrary: crd d)
  case Nil
  then show ?case by simp
next
  case (Cons ev evs)
  from Cons.prems(1) obtain s where s: "computeReviewSchedule m crd settings (e_rating ev) (e_reviewedAt ev) = Inr s"
    and f: "fold_r (rebuild_step m settings) (card_of_schedule (c_cardId crd) s, Some (s_dueAt s)) evs = Inr (crd', d')"
    unfolding fold_rebuild_Cons by (auto simp: res_simps)
  note out = computeReviewSchedule_output [OF s Cons.prems(2)]
  have "c_lastReviewedAt (card_of_schedule (c_cardId crd) s) = Some (e_reviewedAt ev)"
    "c_cardId (card_of_schedule (c_cardId crd) s) = c_cardId crd"
    using out(3) by (simp_all add: card_of_schedule_def)
  with Cons.IH [OF f out(2)] f out(1) show ?case
    by (auto simp: card_of_schedule_progress)
qed

text \<open>A replay is accepted exactly when no event lies before its predecessor.\<close>

definition in_order :: "js_date option \<Rightarrow> ReviewHistoryEvent list \<Rightarrow> bool" where
  "in_order l evs \<longleftrightarrow> (\<forall>d. l = Some d \<longrightarrow> evs \<noteq> [] \<longrightarrow> \<not> jlt (get_time (e_reviewedAt (hd evs))) (get_time d))
     \<and> successively (\<lambda>a b. \<not> jlt (get_time (e_reviewedAt b)) (get_time (e_reviewedAt a))) evs"

lemma in_order_Cons:
  "in_order l (ev # evs) \<longleftrightarrow> (\<forall>d. l = Some d \<longrightarrow> \<not> jlt (get_time (e_reviewedAt ev)) (get_time d))
     \<and> in_order (Some (e_reviewedAt ev)) evs"
  by (cases evs) (auto simp: in_order_def)

lemma fold_rebuild_Inr_iff:
  assumes "learningStepsMinutes settings \<noteq> []" and "relearningStepsMinutes settings \<noteq> []" and "well_formed crd"
  shows "(\<exists>r. fold_r (rebuild_step m settings) (crd, d) evs = Inr r) \<longleftrightarrow> in_order (c_lastReviewedAt crd) evs"
  using assms(3)
proof (induction evs arbitrary: crd d)
  case Nil
  then show ?case by (simp add: in_order_def)
next
  case (Cons ev evs)
  have steps: "getStepsForState settings st \<noteq> []" for st using assms(1,2) by (simp add: getStepsForState_def)
  have acc: "(\<exists>s. computeReviewSchedule m crd settings (e_rating ev) (e_reviewedAt ev) = Inr s)
      \<longleftrightarrow> \<not> backwards crd (e_reviewedAt ev)"
    using Cons.prems steps by (simp add: computeReviewSchedule_Inr_iff well_formed_def)
  have bw: "\<not> backwards crd (e_reviewedAt ev) \<longleftrightarrow>
      (\<forall>d. c_lastReviewedAt crd = Some d \<longrightarrow> \<not> jlt (get_time (e_reviewedAt ev)) (get_time d))"
    by (simp add: backwards_def split: option.split)
  show ?case
  proof (cases "computeReviewSchedule m crd settings (e_rating ev) (e_reviewedAt ev)")
    case (Inl x)
    with acc have "backwards crd (e_reviewedAt ev)" by auto
    with bw Inl show ?thesis unfolding fold_rebuild_Cons by (auto simp: in_order_Cons)
  next
    case (Inr s)
    with acc bw have "\<forall>d. c_lastReviewedAt crd = Some d \<longrightarrow> \<not> jlt (get_time (e_reviewedAt ev)) (get_time d)"
      by auto
    moreover note out = computeReviewSchedule_output [OF Inr Cons.prems]
    ultimately show ?thesis
      using Cons.IH [OF out(2)] Inr out(3)
      unfolding fold_rebuild_Cons by (simp add: in_order_Cons card_of_schedule_def)
  qed
qed

lemma well_formed_empty: "well_formed (createEmptyReviewableCardScheduleState i)"
  by (simp add: well_formed_def consistent_def createEmptyReviewableCardScheduleState_def step_index_ok_def)

section \<open>A replay is the last review of a shorter replay\<close>

text \<open>The card a rebuilt state describes, and the rebuilt state a schedule describes.\<close>

definition card_of_rebuilt :: "string \<Rightarrow> RebuiltCardScheduleState \<Rightarrow> ReviewableCardScheduleState" where
  "card_of_rebuilt i b = \<lparr>c_cardId = i, c_reps = b_reps b, c_lapses = b_lapses b, c_state = b_state b,
     c_stepIndex = b_stepIndex b, c_stability = b_stability b, c_difficulty = b_difficulty b,
     c_lastReviewedAt = b_lastReviewedAt b, c_scheduledDays = b_scheduledDays b\<rparr>"

definition rebuilt_of_schedule :: "ReviewSchedule \<Rightarrow> RebuiltCardScheduleState" where
  "rebuilt_of_schedule s = \<lparr>b_dueAt = Some (s_dueAt s), b_reps = s_reps s, b_lapses = s_lapses s,
     b_state = s_state s, b_stepIndex = s_stepIndex s, b_stability = Some (s_stability s),
     b_difficulty = Some (s_difficulty s), b_lastReviewedAt = Some (s_lastReviewedAt s),
     b_scheduledDays = Some (s_scheduledDays s)\<rparr>"

definition rebuilt_of_state :: "ReviewableCardScheduleState \<times> js_date option \<Rightarrow> RebuiltCardScheduleState" where
  "rebuilt_of_state st = \<lparr>b_dueAt = snd st, b_reps = c_reps (fst st), b_lapses = c_lapses (fst st),
     b_state = c_state (fst st), b_stepIndex = c_stepIndex (fst st), b_stability = c_stability (fst st),
     b_difficulty = c_difficulty (fst st), b_lastReviewedAt = c_lastReviewedAt (fst st),
     b_scheduledDays = c_scheduledDays (fst st)\<rparr>"

lemma rebuild_fold:
  "rebuildCardScheduleState m i settings evs =
     rbind (fold_r (rebuild_step m settings) (createEmptyReviewableCardScheduleState i, None) evs)
       (\<lambda>st. Inr (rebuilt_of_state st))"
  by (cases evs)
    (simp_all add: rebuildCardScheduleState_def rebuilt_of_state_def createEmptyReviewableCardScheduleState_def
      case_prod_unfold)

lemma card_of_rebuilt_state: "card_of_rebuilt (c_cardId (fst st)) (rebuilt_of_state st) = fst st"
  by (cases st, cases "fst st") (simp add: card_of_rebuilt_def rebuilt_of_state_def)

lemma rebuild_step_schedule:
  "rebuild_step m settings st ev = rbind (computeReviewSchedule m (fst st) settings (e_rating ev) (e_reviewedAt ev))
     (\<lambda>s. Inr (card_of_schedule (c_cardId (fst st)) s, Some (s_dueAt s)))"
  by (simp add: rebuild_step_def)

lemma rebuilt_of_schedule_state: "rebuilt_of_state (card_of_schedule i s, Some (s_dueAt s)) = rebuilt_of_schedule s"
  by (simp add: rebuilt_of_state_def rebuilt_of_schedule_def card_of_schedule_def)

lemma rebuild_snoc:
  "rebuildCardScheduleState m i settings (evs @ [ev]) =
     rbind (rebuildCardScheduleState m i settings evs) (\<lambda>b.
       rbind (computeReviewSchedule m (card_of_rebuilt i b) settings (e_rating ev) (e_reviewedAt ev))
         (\<lambda>s. Inr (rebuilt_of_schedule s)))"
proof (cases "fold_r (rebuild_step m settings) (createEmptyReviewableCardScheduleState i, None) evs")
  case (Inl x)
  then show ?thesis by (simp add: rebuild_fold fold_r_append)
next
  case (Inr st)
  have "c_cardId (fst st) = i"
    using fold_rebuild_invariant(4) [of m settings _ _ evs "fst st" "snd st"] Inr well_formed_empty [of i]
    by (simp add: createEmptyReviewableCardScheduleState_def)
  with card_of_rebuilt_state [of st] have c: "card_of_rebuilt i (rebuilt_of_state st) = fst st" by simp
  show ?thesis
    using Inr \<open>c_cardId (fst st) = i\<close>
    by (cases "computeReviewSchedule m (fst st) settings (e_rating ev) (e_reviewedAt ev)")
      (simp_all add: rebuild_fold fold_r_append c rebuild_step_schedule rebuilt_of_schedule_state)
qed

definition progress_of_rebuilt :: "RebuiltCardScheduleState \<Rightarrow> progress" where
  "progress_of_rebuilt b = \<lparr>p_phase = phase_of (b_state b) (b_stepIndex b), p_reps = b_reps b,
     p_lapses = b_lapses b\<rparr>"

definition initial_progress :: progress where
  "initial_progress = \<lparr>p_phase = PNew, p_reps = 0, p_lapses = 0\<rparr>"

lemma progress_of_rebuilt_state: "progress_of_rebuilt (rebuilt_of_state st) = progress_of_card (fst st)"
  by (simp add: progress_of_rebuilt_def rebuilt_of_state_def progress_of_card_def)

lemma progress_of_empty: "progress_of_card (createEmptyReviewableCardScheduleState i) = initial_progress"
  by (simp add: progress_of_card_def createEmptyReviewableCardScheduleState_def initial_progress_def)

lemma rebuild_Inr:
  assumes "rebuildCardScheduleState m i settings evs = Inr b"
  obtains st where "b = rebuilt_of_state st" and "well_formed (fst st)" and "c_cardId (fst st) = i"
    and "fold_r (rebuild_step m settings) (createEmptyReviewableCardScheduleState i, None) evs = Inr st"
    and "progress_of_card (fst st) = foldl (\<lambda>p ev. progress_step settings (e_rating ev) p) initial_progress evs"
    and "evs \<noteq> [] \<Longrightarrow> c_lastReviewedAt (fst st) = Some (e_reviewedAt (last evs))"
proof -
  obtain st where st: "b = rebuilt_of_state st"
    "fold_r (rebuild_step m settings) (createEmptyReviewableCardScheduleState i, None) evs = Inr st"
    using assms by (auto simp: rebuild_fold res_simps)
  from st(2) have f: "fold_r (rebuild_step m settings) (createEmptyReviewableCardScheduleState i, None) evs
      = Inr (fst st, snd st)" by simp
  note inv = fold_rebuild_invariant [OF f well_formed_empty]
  show ?thesis
    using that [OF st(1) inv(1) _ st(2)] inv(2-4) progress_of_empty [of i]
    by (simp add: createEmptyReviewableCardScheduleState_def)
qed

lemma progress_step_counters:
  "p_reps (progress_step settings r p) = p_reps p + 1"
  "p_lapses (progress_step settings r p) = p_lapses p + (if r = Again \<and> p_phase p = PReview then 1 else 0)"
  by (simp_all add: progress_step_def)

lemma progress_foldl:
  "p_reps (foldl (\<lambda>p ev. progress_step settings (e_rating ev) p) p evs) = p_reps p + int (length evs)"
  "p_lapses (foldl (\<lambda>p ev. progress_step settings (e_rating ev) p) p evs)
     \<le> p_lapses p + int (length (filter (\<lambda>ev. e_rating ev = Again) evs))"
proof (induction evs arbitrary: p)
  case (Cons ev evs)
  { case 1 from Cons(1) show ?case by (simp add: progress_step_counters) }
  { case 2 from Cons(2) [of "progress_step settings (e_rating ev) p"] show ?case
      by (cases "e_rating ev = Again") (auto simp: progress_step_counters split: if_splits) }
qed simp_all

end
