(* ===== verification/FsrsSafety.thy ===== *)
theory FsrsSafety
  imports FsrsTransitions
begin

text \<open>
  What an accepted review computes, for settings that passed validation and a card whose stored
  memory state is in range: the new memory state is in range and finite, the scheduled days are a
  whole number between 1 and the maximum plus two, and the due date lies that many days (or a
  positive number of minutes) after the review.
\<close>

definition minutes_ok :: "jsnum \<Rightarrow> bool" where
  "minutes_ok x \<longleftrightarrow> (\<exists>k. x = num k \<and> 1 \<le> k \<and> k < 1440)"

definition steps_ok :: "jsnum list \<Rightarrow> bool" where
  "steps_ok xs \<longleftrightarrow> xs \<noteq> [] \<and> length xs < 2 ^ 32 \<and> (\<forall>x \<in> set xs. minutes_ok x)"

definition valid_settings :: "scheduler_config \<Rightarrow> int \<Rightarrow> bool" where
  "valid_settings settings M \<longleftrightarrow> interval_settings settings M
     \<and> steps_ok (learningStepsMinutes settings) \<and> steps_ok (relearningStepsMinutes settings)"

definition card_ok :: "ReviewableCardScheduleState \<Rightarrow> bool" where
  "card_ok crd \<longleftrightarrow> well_formed crd \<and> (c_state crd \<noteq> New \<longrightarrow>
     memory_ok \<lparr>m_difficulty = the (c_difficulty crd), m_stability = the (c_stability crd)\<rparr>
     \<and> modern (the (c_lastReviewedAt crd)))"

definition schedule_memory :: "ReviewSchedule \<Rightarrow> FsrsMemoryState" where
  "schedule_memory s = \<lparr>m_difficulty = s_difficulty s, m_stability = s_stability s\<rparr>"

lemma memory_ok_eta [simp]:
  "memory_ok \<lparr>m_difficulty = m_difficulty ms, m_stability = m_stability ms\<rparr> = memory_ok ms"
  by (cases ms) simp

text \<open>When the next review is due, as a distance in milliseconds from the review.\<close>

definition due_ok :: "int \<Rightarrow> int \<Rightarrow> ReviewSchedule \<Rightarrow> bool" where
  "due_ok M t s \<longleftrightarrow> (if s_state s = Review
     then \<exists>n. s_scheduledDays s = num n \<and> 1 \<le> n \<and> n \<le> M + 2 \<and> s_dueAt s = time_clip (t + n * 86400000)
     else s_scheduledDays s = num 0 \<and> (\<exists>j. 1 \<le> j \<and> j \<le> 2160 \<and> s_dueAt s = time_clip (t + j * 60000)))"

lemma trunc_int_of_int [simp]: "trunc_int (of_int i) = i"
  unfolding trunc_int_def by (simp flip: of_int_minus)

lemma new_date_num: "new_date (num i) = time_clip i"
  by simp

lemma add_units:
  assumes "\<bar>t\<bar> \<le> max_time" and "0 \<le> n" and "0 \<le> u" and "n * u \<le> 200000000000000"
  shows "new_date (jadd (get_time (Date t)) (jmul (num n) (num u))) = time_clip (t + n * u)"
proof -
  have "0 \<le> n * u" using assms by simp
  then have a: "\<bar>n * u\<bar> \<le> 2 ^ 53" using assms(4) by simp
  have b: "\<bar>t + n * u\<bar> \<le> 2 ^ 53"
    using assms(1,4) \<open>0 \<le> n * u\<close> unfolding max_time_def by (simp add: abs_le_iff)
  show ?thesis
    unfolding jmul_int [OF a] get_time.simps jadd_int [OF b] new_date_num ..
qed

lemma minutes_ok_inb: "minutes_ok x \<Longrightarrow> inb 1 1439 x"
  by (auto simp: minutes_ok_def)

lemma getHardStepMinutes_ok:
  assumes "steps_ok xs"
  shows "\<exists>j. getHardStepMinutes xs = num j \<and> 1 \<le> j \<and> j \<le> 2160"
proof -
  obtain x ys where xs: "xs = x # ys" using assms by (cases xs) (auto simp: steps_ok_def)
  have x: "inb 1 1439 x" using assms xs by (simp add: steps_ok_def minutes_ok_inb)
  have n0: "num_at xs 0 = x" by (simp add: num_at_def elem_at_def xs)
  show ?thesis
  proof (cases ys)
    case Nil
    have "inb (of_int 1) (of_int 2160) (jmul x (Num (3 / 2)))"
      using inb_mul_pos [OF x inb_const, of "3 / 2" 1 2160] by (simp add: rep_rules)
    from inb_round [OF this] show ?thesis
      using xs Nil n0 by (simp add: getHardStepMinutes_def)
  next
    case (Cons y zs)
    have y: "inb 1 1439 y" using assms xs Cons by (simp add: steps_ok_def minutes_ok_inb)
    have n1: "num_at xs 1 = y" by (simp add: num_at_def elem_at_def xs Cons)
    have "inb 2 2878 (jadd x y)" by (rule inb_add [OF x y]) (simp_all add: rep_rules)
    from inb_div_const [OF this, of 2 1 2160]
    have "inb (of_int 1) (of_int 2160) (jdiv (jadd x y) (num 2))" by (simp add: rep_rules)
    from inb_round [OF this] show ?thesis
      using xs Cons n0 n1 by (simp add: getHardStepMinutes_def)
  qed
qed

lemma elem_at_set: "elem_at xs i = Some x \<Longrightarrow> x \<in> set xs"
  by (auto simp: elem_at_def split: if_splits)

lemma getLearningStepResult_minutes:
  assumes "getLearningStepResult settings crd g = Inr r" and "steps_ok (getStepsForState settings (c_state crd))"
    and "scheduledMinutes r = Some mins"
  shows "\<exists>j. mins = num j \<and> 1 \<le> j \<and> j \<le> 2160"
proof -
  have "minutes_ok mins \<or> mins = getHardStepMinutes (getStepsForState settings (c_state crd))"
  proof -
    define steps where "steps = getStepsForState settings (c_state crd)"
    have el: "minutes_ok x" if "elem_at steps i = Some x" for x i
      using elem_at_set [OF that] assms(2) by (simp add: steps_ok_def steps_def)
    show ?thesis
      using assms(1,3) el unfolding getLearningStepResult_def Let_def steps_def [symmetric]
      by (auto split: if_splits option.splits)
  qed
  then show ?thesis
  proof
    assume "minutes_ok mins"
    then obtain k where "mins = num k" "1 \<le> k" "k < 1440" by (auto simp: minutes_ok_def)
    then show ?thesis by (intro exI [of _ k]) simp
  qed (use getHardStepMinutes_ok [OF assms(2)] in simp)
qed

lemma jround_num [simp]: "jround (num j) = num j"
proof -
  have "\<lfloor>(of_int j :: rat) + 1 / 2\<rfloor> = j" by (rule floor_unique) simp_all
  then show ?thesis by simp
qed

lemma addDays_ok:
  assumes "\<bar>t\<bar> \<le> max_time" and "0 \<le> n" and "n \<le> 2000002"
  shows "addDays (Date t) (num n) = time_clip (t + n * 86400000)"
  unfolding addDays_def by (rule add_units [OF assms(1,2)]) (use assms(3) in simp_all)

lemma buildGraduated_due:
  assumes "math_ok m" and "interval_settings settings M" and "memory_ok ms" and "0 \<le> E" and "E \<le> 2 ^ 40"
    and "\<bar>t\<bar> \<le> max_time"
  shows "due_ok M t (buildGraduatedReviewSchedule m ms (Date t) reps lapses settings (num E) seed)"
proof -
  have s: "inb s_min 36500 (m_stability ms)" using assms(3) by (simp add: memory_ok_def stability_ok_inb)
  obtain n where n: "nextInterval m (m_stability ms) (num E) settings seed = num n" "1 \<le> n" "n \<le> M"
    using nextInterval_bounds [OF assms(1) s assms(2,4,5)] by blast
  have "M \<le> 2000000" using assms(2) by (simp add: interval_settings_def)
  with n have "addDays (Date t) (num n) = time_clip (t + n * 86400000)" by (intro addDays_ok assms(6)) auto
  with n show ?thesis
    unfolding due_ok_def buildGraduatedReviewSchedule_def Let_def n(1) by auto
qed

lemma buildShortTerm_due:
  assumes "math_ok m" and "valid_settings settings M" and "memory_ok ms" and "0 \<le> E" and "E \<le> 2 ^ 40"
    and "\<bar>t\<bar> \<le> max_time" and "st \<noteq> Review"
    and "buildShortTermSchedule m crd ms rating (Date t) reps lapses settings st (num E) seed = Inr s"
  shows "due_ok M t s"
proof -
  from assms(8) obtain r where r: "getLearningStepResult settings crd (mapRatingToFsrsGrade rating) = Inr r"
    by (auto simp: buildShortTermSchedule_def res_simps)
  have so: "steps_ok (getStepsForState settings (c_state crd))"
    using assms(2) by (simp add: getStepsForState_def valid_settings_def)
  show ?thesis
  proof (cases "scheduledMinutes r")
    case None
    with assms(8) r have "s = buildGraduatedReviewSchedule m ms (Date t) reps lapses settings (num E) seed"
      by (simp add: buildShortTermSchedule_def)
    with buildGraduated_due [OF assms(1) _ assms(3-6)] assms(2) show ?thesis by (simp add: valid_settings_def)
  next
    case (Some mins)
    obtain j where j: "mins = num j" "1 \<le> j" "j \<le> 2160"
      using getLearningStepResult_minutes [OF r so Some] by blast
    have "addMinutes (Date t) (num j) = time_clip (t + j * 60000)"
      unfolding addMinutes_def by (rule add_units [OF assms(6)]) (use j in simp_all)
    with assms(7,8) Some r j show ?thesis
      by (auto simp: buildShortTermSchedule_def due_ok_def simp del: jround.simps)
  qed
qed

lemma dateDiff_elapsed:
  assumes "modern l" and "modern now" and "dateDiffInDays l now = Inr e"
  obtains E where "e = num E" and "0 \<le> E" and "E \<le> 2 ^ 40"
proof -
  obtain a b where d: "l = Date a" "now = Date b" using assms(1,2) by (auto simp: modern_def)
  have le: "a \<le> b" using assms(3) d by (auto simp: dateDiffInDays_def split: if_splits)
  have "e = num (utc_day b - utc_day a)"
    using dateDiffInDays_modern [OF _ _ le] assms d by simp
  moreover have "0 \<le> utc_day b - utc_day a"
    using le unfolding utc_day_def ms_per_day_def by (simp add: zdiv_mono1)
  moreover have "utc_day b - utc_day a \<le> 2 ^ 40"
    using assms(1,2) d unfolding modern_def utc_day_def ms_per_day_def max_time_def by auto
  ultimately show ?thesis using that by blast
qed

lemma grade_range: "1 \<le> mapRatingToFsrsGrade r" "mapRatingToFsrsGrade r \<le> 4"
  by (cases r; simp add: mapRatingToFsrsGrade_def)+

lemma buildSuccess_ok:
  assumes "math_ok m" and "interval_settings settings M" and "memory_ok h" and "memory_ok g" and "memory_ok y"
    and "0 \<le> E" and "E \<le> 2 ^ 40" and "\<bar>t\<bar> \<le> max_time"
  shows "due_ok M t (buildReviewSuccessSchedule m (Date t) reps lapses settings (num E) h g y rating seed)"
    and "memory_ok (schedule_memory (buildReviewSuccessSchedule m (Date t) reps lapses settings (num E) h g y rating seed))"
proof -
  have s: "inb s_min 36500 (m_stability h)" "inb s_min 36500 (m_stability g)" "inb s_min 36500 (m_stability y)"
    using assms(3-5) by (simp_all add: memory_ok_def stability_ok_inb)
  obtain a b c where i: "success_intervals m settings (num E) (m_stability h) (m_stability g) (m_stability y) seed
      = (num a, num b, num c)" "1 \<le> a" "a < b" "b < c" "a \<le> M" "b \<le> M + 1" "c \<le> M + 2"
    by (rule success_intervals_ordered [OF assms(1,2,6,7) s])
  have M: "M \<le> 2000000" using assms(2) by (simp add: interval_settings_def)
  have d: "addDays (Date t) (num k) = time_clip (t + k * 86400000)" if "k = a \<or> k = b \<or> k = c" for k
    using that i M by (intro addDays_ok assms(8)) auto
  show "due_ok M t (buildReviewSuccessSchedule m (Date t) reps lapses settings (num E) h g y rating seed)"
    unfolding buildReviewSuccessSchedule_def i(1) due_ok_def
    using i(2-7) d by (auto simp: review_schedule_of_def)
  show "memory_ok (schedule_memory (buildReviewSuccessSchedule m (Date t) reps lapses settings (num E) h g y rating seed))"
    unfolding buildReviewSuccessSchedule_def i(1)
    using assms(3-5) by (auto simp: review_schedule_of_def schedule_memory_def)
qed

lemma computeReviewSchedule_safe:
  assumes "math_ok m" and "valid_settings settings M" and "card_ok crd" and "modern (Date t)"
    and "computeReviewSchedule m crd settings rating (Date t) = Inr s"
  shows "memory_ok (schedule_memory s)" and "due_ok M t s" and "card_ok (card_of_schedule i s)"
proof -
  have wf: "well_formed crd" using assms(3) by (simp add: card_ok_def)
  have iv: "interval_settings settings M" and rl: "length (relearningStepsMinutes settings) < 2 ^ 32"
    using assms(2) by (simp_all add: valid_settings_def steps_ok_def)
  have t: "\<bar>t\<bar> \<le> max_time" using assms(4) by (simp add: modern_def)
  note g = grade_range [of rating]
  have old: "memory_ok ms" "modern l"
    if "c_state crd \<noteq> New" "c_lastReviewedAt crd = Some l"
      "ms = \<lparr>m_difficulty = the (c_difficulty crd), m_stability = the (c_stability crd)\<rparr>" for ms l
    using that assms(3) by (auto simp: card_ok_def)
  have "memory_ok (schedule_memory s) \<and> due_ok M t s"
    using assms(5)
  proof (cases rule: computeReviewSchedule_cases)
    case first
    then have b: "buildShortTermSchedule m crd (createInitialMemoryState m (mapRatingToFsrsGrade rating)) rating (Date t)
        (c_reps crd + 1) (c_lapses crd) settings (short_state (c_state crd)) (num 0)
        (getIntervalSeed (Date t) (c_reps crd + 1) None) = Inr s" by simp
    note ok = createInitialMemoryState_ok [OF assms(1) g]
    show ?thesis
      using buildShortTermSchedule_output(4,5) [OF b _ wf] buildShortTerm_due [OF assms(1,2) ok _ _ t _ first(3)] ok first(1)
      by (simp add: schedule_memory_def)
  next
    case (short ms l e)
    then have b: "buildShortTermSchedule m crd (computeNextShortTermMemoryState m ms (mapRatingToFsrsGrade rating) settings)
        rating (Date t) (c_reps crd + 1) (c_lapses crd) settings (short_state (c_state crd)) e
        (getIntervalSeed (Date t) (c_reps crd + 1) (Some ms)) = Inr s" by (cases "c_state crd") auto
    have o: "memory_ok ms" "modern l" using old [OF _ short(4,3)] short(1) by auto
    obtain E where E: "e = num E" "0 \<le> E" "E \<le> 2 ^ 40" by (rule dateDiff_elapsed [OF o(2) assms(4) short(5)])
    note ok = computeNextShortTermMemoryState_ok [OF assms(1) o(1) g rl]
    show ?thesis
      using buildShortTermSchedule_output(4,5) [OF b _ wf] ok short(1)
        buildShortTerm_due [OF assms(1,2) ok E(2,3) t _ short(6) [unfolded E(1)]]
      by (auto simp: schedule_memory_def)
  next
    case (lapse ms l e)
    then have b: "buildShortTermSchedule m crd (computeNextReviewMemoryState m ms e 1 settings)
        Again (Date t) (c_reps crd + 1) (c_lapses crd + 1) settings (short_state (c_state crd)) e
        (getIntervalSeed (Date t) (c_reps crd + 1) (Some ms)) = Inr s" by simp
    have o: "memory_ok ms" "modern l" using old [OF _ lapse(5,4)] lapse(1) by auto
    obtain E where E: "e = num E" "0 \<le> E" "E \<le> 2 ^ 40" by (rule dateDiff_elapsed [OF o(2) assms(4) lapse(6)])
    have ie: "inb 0 (2 ^ 40) e" using E by (simp add: E(1))
    note ok = computeNextReviewMemoryState_ok(1) [OF assms(1) o(1) _ _ rl ie, of 1]
    show ?thesis
      using buildShortTermSchedule_output(4,5) [OF b _ wf] ok
        buildShortTerm_due [OF assms(1,2) _ E(2,3) t _ lapse(7) [unfolded E(1)]] E(1)
      by (simp add: schedule_memory_def)
  next
    case (success ms l e)
    have o: "memory_ok ms" "modern l" using old [OF _ success(5,4)] success(1) by auto
    obtain E where E: "e = num E" "0 \<le> E" "E \<le> 2 ^ 40" by (rule dateDiff_elapsed [OF o(2) assms(4) success(6)])
    have ie: "inb 0 (2 ^ 40) e" using E by (simp add: E(1))
    note ok = computeNextReviewMemoryState_ok(1) [OF assms(1) o(1) _ _ rl ie]
    show ?thesis
      unfolding success(7) E(1)
      using buildSuccess_ok [OF assms(1) iv ok ok ok E(2,3) t] E(1) by simp
  qed
  then show "memory_ok (schedule_memory s)" and "due_ok M t s" by simp_all
  then show "card_ok (card_of_schedule i s)"
    using computeReviewSchedule_output(2,3) [OF assms(5) wf] assms(4)
    by (simp add: card_ok_def card_of_schedule_def schedule_memory_def)
qed

section \<open>Whole histories\<close>

lemma card_ok_empty: "card_ok (createEmptyReviewableCardScheduleState i)"
  by (simp add: card_ok_def well_formed_empty) (simp add: createEmptyReviewableCardScheduleState_def)

lemma fold_rebuild_card_ok:
  assumes "math_ok m" and "valid_settings settings M" and "\<forall>ev \<in> set evs. modern (e_reviewedAt ev)"
    and "fold_r (rebuild_step m settings) (crd, d) evs = Inr st" and "card_ok crd"
  shows "card_ok (fst st)"
proof -
  have "card_ok (fst (crd, d))" using assms(5) by simp
  with assms(4) show ?thesis
  proof (rule fold_r_invariant [where P = "\<lambda>st. card_ok (fst st)"])
    fix u ev v
    assume u: "card_ok (fst u)" and "ev \<in> set evs" and v: "rebuild_step m settings u ev = Inr v"
    then have "modern (e_reviewedAt ev)" using assms(3) by simp
    moreover from this obtain t where "e_reviewedAt ev = Date t" by (auto simp: modern_def)
    ultimately show "card_ok (fst v)"
      using v computeReviewSchedule_safe(3) [OF assms(1,2) u] by (auto simp: rebuild_step_def res_simps)
  qed
qed

lemma rebuild_safe:
  assumes "math_ok m" and "valid_settings settings M" and "\<forall>ev \<in> set evs. modern (e_reviewedAt ev)"
    and "rebuildCardScheduleState m i settings evs = Inr b"
  shows "card_ok (card_of_rebuilt i b)"
proof -
  obtain st where st: "b = rebuilt_of_state st" "c_cardId (fst st) = i"
    "fold_r (rebuild_step m settings) (createEmptyReviewableCardScheduleState i, None) evs = Inr st"
    by (rule rebuild_Inr [OF assms(4)])
  have "card_ok (fst st)" by (rule fold_rebuild_card_ok [OF assms(1-3) st(3) card_ok_empty])
  with card_of_rebuilt_state [of st] st show ?thesis by simp
qed

end
