(* ===== verification/JsDateText.thy ===== *)
theory JsDateText
  imports JsDate
begin

text \<open>
  Reading dates: the shape of a text against a template, the local dates \<open>YYYY-MM-DD\<close>, and
  \<open>new Date(text)\<close>. The language specifies the format \<open>toISOString\<close> prints; every other text is left
  to the host, a function \<open>p\<close> of the model.
\<close>

section \<open>Templates\<close>

text \<open>A template has a \<open>9\<close> for every digit; the other characters stand for themselves.\<close>

definition fits :: "string \<Rightarrow> string \<Rightarrow> bool" where
  "fits tmpl s = list_all2 (\<lambda>t c. if t = CHR ''9'' then is_digit c else c = t) tmpl s"

lemma fits_append: "length a = length c \<Longrightarrow> fits (a @ b) (c @ d) \<longleftrightarrow> fits a c \<and> fits b d"
  by (simp add: fits_def list_all2_append)

lemma fits_Nil [simp]: "fits [] s \<longleftrightarrow> s = []"
  by (simp add: fits_def)

lemma fits_length: "fits t s \<Longrightarrow> length s = length t"
  by (simp add: fits_def list_all2_lengthD)

lemma fits_pad: "fits (replicate w (CHR ''9'')) (pad w n)"
  using pad_digits [OF nth_mem, of _ w n] by (simp add: fits_def list_all2_conv_all_nth)

definition field :: "nat \<Rightarrow> nat \<Rightarrow> string \<Rightarrow> int" where
  "field i j s = int (dec_val 0 (slice i j s))"

lemma slice_prefix: "length a = i \<Longrightarrow> length b = j - i \<Longrightarrow> slice i j (a @ b @ c) = b"
  by (simp add: slice_def)

lemma slice_skip: "length a = k \<Longrightarrow> k \<le> i \<Longrightarrow> i \<le> j \<Longrightarrow> slice i j (a @ c) = slice (i - k) (j - k) c"
  by (simp add: slice_def)

lemma field_pad: "n < 10 ^ w \<Longrightarrow> w = j \<Longrightarrow> field 0 j (pad w n @ c) = int n"
  by (simp add: field_def slice_def dec_val_pad)

lemma field_skip: "length a = k \<Longrightarrow> k \<le> i \<Longrightarrow> i \<le> j \<Longrightarrow> field i j (a @ c) = field (i - k) (j - k) c"
  by (simp add: field_def slice_skip)

lemma field_sep:
  "length a = k \<Longrightarrow> k + 1 \<le> i \<Longrightarrow> i \<le> j \<Longrightarrow> field i j (a @ [x] @ c) = field (i - k - 1) (j - k - 1) c"
  using field_skip [of "a @ [x]" "k + 1" i j c] by simp

section \<open>Local dates\<close>

definition local_date_template :: string where
  "local_date_template = ''9999-99-99''"

text \<open>A local date of a four digit year: what \<open>toISOString().slice(0, 10)\<close> prints of a day.\<close>

lemma iso_date_layout:
  assumes "iso_day n" and "civil_of_day n = (y, mo, d)"
  shows "iso_date n = pad 4 (nat y) @ ''-'' @ pad 2 (nat (mo + 1)) @ ''-'' @ pad 2 (nat d)"
    and "nat y < 10 ^ 4" and "nat (mo + 1) < 10 ^ 2" and "nat d < 10 ^ 2"
    and "0 \<le> y" and "0 \<le> mo" and "1 \<le> d"
  using assms iso_date_parts [OF assms(2)] year_of_civil [OF assms(2)]
  by (auto simp: iso_date_def iso_year_def iso_day_def nat_less_iff)

lemma iso_date_fits: "iso_day n \<Longrightarrow> fits local_date_template (iso_date n)"
proof -
  assume n: "iso_day n"
  obtain y mo d where c: "civil_of_day n = (y, mo, d)" using prod_cases3 by blast
  have t: "local_date_template = replicate 4 (CHR ''9'') @ ''-'' @ replicate 2 (CHR ''9'') @ ''-'' @ replicate 2 (CHR ''9'')"
    by (simp add: local_date_template_def numeral_eq_Suc)
  show ?thesis
    unfolding t iso_date_layout(1) [OF n c] by (simp only: fits_append length_replicate length_pad fits_pad list.size) (simp add: fits_def)
qed

lemma iso_date_fields:
  assumes "iso_day n" and "civil_of_day n = (y, mo, d)"
  shows "field 0 4 (iso_date n @ c) = y" and "field 5 7 (iso_date n @ c) = mo + 1" and "field 8 10 (iso_date n @ c) = d"
  unfolding iso_date_layout(1) [OF assms] append_assoc
  using iso_date_layout(2-7) [OF assms]
  by (simp_all add: field_pad field_skip [of _ 4] field_skip [of "[x]" 1 for x] field_skip [of "pad 2 k" 2 for k]
      del: pad.simps append_Cons)

section \<open>Timestamps\<close>

definition iso_template :: string where
  "iso_template = ''9999-99-99T99:99:99.999Z''"

text \<open>The fields of a text of that shape, when they name a moment.\<close>

definition parse_iso :: "string \<Rightarrow> int option" where
  "parse_iso s = (if fits iso_template s then (let
     y = field 0 4 s; mo = field 5 7 s; d = field 8 10 s;
     h = field 11 13 s; mi = field 14 16 s; sec = field 17 19 s; ms = field 20 23 s
   in if valid_civil y (mo - 1) d \<and> h \<le> 23 \<and> mi \<le> 59 \<and> sec \<le> 59
      then Some (make_day y (mo - 1) d * ms_per_day + ((h * 60 + mi) * 60 + sec) * 1000 + ms)
      else None) else None)"

text \<open>\<open>new Date(text)\<close>.\<close>

definition new_date_text :: "(string \<Rightarrow> js_date) \<Rightarrow> string \<Rightarrow> js_date" where
  "new_date_text p s = (case parse_iso s of Some t \<Rightarrow> Date t | None \<Rightarrow> p s)"

lemma time_layout_fields:
  assumes "a < 10 ^ 2" and "b < 10 ^ 2" and "c < 10 ^ 2" and "d < 10 ^ 3"
    and "s = pad 2 a @ '':'' @ pad 2 b @ '':'' @ pad 2 c @ ''.'' @ pad 3 d @ ''Z''"
  shows "field 0 2 s = int a" and "field 3 5 s = int b" and "field 6 8 s = int c" and "field 9 12 s = int d"
proof -
  note sep = field_sep [OF length_pad]
  show "field 0 2 s = int a" unfolding assms(5) by (rule field_pad [OF assms(1) refl])
  have "field 3 5 s = field 0 2 (pad 2 b @ '':'' @ pad 2 c @ ''.'' @ pad 3 d @ ''Z'')"
    unfolding assms(5) by (subst sep) simp_all
  then show "field 3 5 s = int b" unfolding field_pad [OF assms(2) refl] .
  have "field 6 8 s = field 0 2 (pad 2 c @ ''.'' @ pad 3 d @ ''Z'')"
    unfolding assms(5) by (subst sep, simp, simp, subst sep) simp_all
  then show "field 6 8 s = int c" unfolding field_pad [OF assms(3) refl] .
  have "field 9 12 s = field 0 3 (pad 3 d @ ''Z'')"
    unfolding assms(5) by (subst sep, simp, simp, subst sep, simp, simp, subst sep) simp_all
  then show "field 9 12 s = int d" unfolding field_pad [OF assms(4) refl] .
qed

lemma hours_le: "(ms::int) < ms_per_day \<Longrightarrow> ms div 3600000 \<le> 23"
  using zdiv_mono1 [of ms 86399999 3600000] by (simp add: ms_per_day_def)

lemma iso_time_fields:
  assumes "0 \<le> ms" and "ms < ms_per_day"
  shows "field 0 2 (iso_time ms) = ms div 3600000" and "field 3 5 (iso_time ms) = ms div 60000 mod 60"
    and "field 6 8 (iso_time ms) = ms div 1000 mod 60" and "field 9 12 (iso_time ms) = ms mod 1000"
proof -
  have small: "nat k < n" if "k < int n" "0 < n" for k n using that by linarith
  have h: "ms div 3600000 \<le> 23" by (rule hours_le [OF assms(2)])
  have b: "nat (ms div 3600000) < 10 ^ 2" "nat (ms div 60000 mod 60) < 10 ^ 2" "nat (ms div 1000 mod 60) < 10 ^ 2"
    "nat (ms mod 1000) < 10 ^ 3"
    using h by (auto intro!: small order_less_le_trans [OF pos_mod_bound])
  have p: "0 \<le> ms div 3600000" using zdiv_mono1 [OF assms(1), of 3600000] by simp
  note f = time_layout_fields [OF b iso_time_def]
  show "field 0 2 (iso_time ms) = ms div 3600000" using f(1) p by simp
  show "field 3 5 (iso_time ms) = ms div 60000 mod 60" using f(2) by simp
  show "field 6 8 (iso_time ms) = ms div 1000 mod 60" using f(3) by simp
  show "field 9 12 (iso_time ms) = ms mod 1000" using f(4) by simp
qed

lemma iso_time_fits: "fits ''99:99:99.999Z'' (iso_time ms)"
proof -
  have t: "''99:99:99.999Z'' = replicate 2 (CHR ''9'') @ '':'' @ replicate 2 (CHR ''9'') @ '':'' @
      replicate 2 (CHR ''9'') @ ''.'' @ replicate 3 (CHR ''9'') @ ''Z''"
    by (simp add: numeral_eq_Suc)
  show ?thesis
    unfolding t iso_time_def
    by (simp only: fits_append length_replicate length_pad fits_pad list.size) (simp add: fits_def)
qed

lemma mixed_radix:
  fixes q3 q2 q1 r2 r1 r0 n :: int
  assumes "q3 * 60 + r2 = q2" and "q2 * 60 + r1 = q1" and "q1 * 1000 + r0 = n"
  shows "((q3 * 60 + r2) * 60 + r1) * 1000 + r0 = n"
  using assms by simp

lemma time_of_day_parts:
  fixes ms :: int
  shows "((ms div 3600000 * 60 + ms div 60000 mod 60) * 60 + ms div 1000 mod 60) * 1000 + ms mod 1000 = ms"
proof (rule mixed_radix)
  have "ms div 3600000 = ms div 60000 div 60" by (simp add: zdiv_zmult2_eq [symmetric])
  then show "ms div 3600000 * 60 + ms div 60000 mod 60 = ms div 60000" by (simp only: div_mult_mod_eq)
  have "ms div 60000 = ms div 1000 div 60" by (simp add: zdiv_zmult2_eq [symmetric])
  then show "ms div 60000 * 60 + ms div 1000 mod 60 = ms div 1000" by (simp only: div_mult_mod_eq)
qed (rule div_mult_mod_eq)

lemma parse_isoI:
  assumes "fits iso_template s" and "field 0 4 s = y" and "field 5 7 s = mo + 1" and "field 8 10 s = d"
    and "field 11 13 s = h" and "field 14 16 s = mi" and "field 17 19 s = sec" and "field 20 23 s = ms"
    and "valid_civil y mo d" and "h \<le> 23" and "mi \<le> 59" and "sec \<le> 59"
  shows "parse_iso s = Some (make_day y mo d * ms_per_day + (((h * 60 + mi) * 60 + sec) * 1000 + ms))"
  using assms by (simp add: parse_iso_def)

lemma parse_iso_printed:
  assumes "iso_day (utc_day t)" and "to_iso_string (Date t) = Inr s"
  shows "parse_iso s = Some t"
proof -
  let ?n = "utc_day t" and ?ms = "t mod ms_per_day"
  obtain y mo d where c: "civil_of_day ?n = (y, mo, d)" using prod_cases3 by blast
  have s: "s = iso_date ?n @ ''T'' @ iso_time ?ms" using assms(2) by simp
  have ms: "0 \<le> ?ms" "?ms < ms_per_day" by (simp_all add: ms_per_day_def)
  have t: "iso_template = local_date_template @ ''T'' @ ''99:99:99.999Z''"
    by (simp add: iso_template_def local_date_template_def)
  have len: "length (iso_date ?n) = 10" by (rule length_iso_date [OF assms(1)])
  have f: "fits iso_template s"
  proof -
    have l: "length local_date_template = length (iso_date ?n)" using len by (simp add: local_date_template_def)
    have "fits ''T'' ''T''" by (simp add: fits_def)
    then have "fits (''T'' @ ''99:99:99.999Z'') (''T'' @ iso_time ?ms)"
      using fits_append [of "''T''" "''T''"] iso_time_fits by blast
    with fits_append [OF l] iso_date_fits [OF assms(1)] show ?thesis unfolding s t by blast
  qed
  note df = iso_date_fields [OF assms(1) c]
  have len': "length (iso_date ?n @ ''T'') = 11" using len by simp
  have tf: "field i j s = field (i - 11) (j - 11) (iso_time ?ms)" if "11 \<le> i" "i \<le> j" for i j
    using field_skip [OF len' that, of "iso_time ?ms"] by (simp add: s)
  have h: "?ms div 3600000 \<le> 23" by (rule hours_le [OF ms(2)])
  have v: "valid_civil y mo d" using civil_of_day_valid [OF c] by simp
  have day: "make_day y mo d = ?n"
    using civil_of_make_day civil_of_day_valid c civil_of_day_inject by metis
  have sd: "field 0 4 s = y" "field 5 7 s = mo + 1" "field 8 10 s = d"
    unfolding s by (rule df)+
  have st: "field 11 13 s = ?ms div 3600000" "field 14 16 s = ?ms div 60000 mod 60"
    "field 17 19 s = ?ms div 1000 mod 60" "field 20 23 s = ?ms mod 1000"
  proof -
    have "field 11 13 s = field 0 2 (iso_time ?ms)" "field 14 16 s = field 3 5 (iso_time ?ms)"
      "field 17 19 s = field 6 8 (iso_time ?ms)" "field 20 23 s = field 9 12 (iso_time ?ms)"
      using tf [of 11 13] tf [of 14 16] tf [of 17 19] tf [of 20 23] by simp_all
    then show "field 11 13 s = ?ms div 3600000" "field 14 16 s = ?ms div 60000 mod 60"
      "field 17 19 s = ?ms div 1000 mod 60" "field 20 23 s = ?ms mod 1000"
      unfolding iso_time_fields [OF ms] .
  qed
  have m: "?ms div 60000 mod 60 \<le> 59" "?ms div 1000 mod 60 \<le> 59" by simp_all
  have "?n * ms_per_day + ?ms = t" by (simp add: utc_day_def)
  with parse_isoI [OF f sd st v h m] show ?thesis unfolding time_of_day_parts day by metis
qed

text \<open>Reading back what \<open>toISOString\<close> printed gives the date again.\<close>

lemma new_date_text_printed:
  "iso_day (utc_day t) \<Longrightarrow> to_iso_string (Date t) = Inr s \<Longrightarrow> new_date_text p s = Date t"
  by (simp add: new_date_text_def parse_iso_printed)

end
