(* ===== verification/Lww.thy ===== *)
theory Lww
  imports JsDateText JsBounds "HOL-Library.Product_Lexorder"
begin

text \<open>
  Last-writer-wins metadata (\<open>sync/conflicts/lww.ts\<close>): the comparison of two writes by client
  time, then replica, then operation, and the abstract register it implements. UTF-8 keeps
  the order of code units below 256 (\<open>compareUtf8Strings_sign\<close> of \<open>WebLww\<close>), so \<open>Buffer.compare\<close> is the
  lexicographic order of the texts.
\<close>

record LwwMetadata =
  clientUpdatedAt :: string
  lastModifiedByReplicaId :: string
  lastOperationId :: string

definition normalizeIsoTimestamp :: "(string \<Rightarrow> js_date) \<Rightarrow> string \<Rightarrow> string \<Rightarrow> string result" where
  "normalizeIsoTimestamp p value fieldName = (let parsedValue = new_date_text p value in
     if get_time parsedValue = NaN then Inl (Error (fieldName @ '' must be a valid ISO timestamp''))
     else to_iso_string parsedValue)"

definition buffer_compare :: "string \<Rightarrow> string \<Rightarrow> int" where
  "buffer_compare a b = (if a < b then -1 else if b < a then 1 else 0)"

definition compareLwwMetadata :: "(string \<Rightarrow> js_date) \<Rightarrow> LwwMetadata \<Rightarrow> LwwMetadata \<Rightarrow> jsnum" where
  "compareLwwMetadata p left right = (let
     timestampDifference = jsub (get_time (new_date_text p (clientUpdatedAt left)))
       (get_time (new_date_text p (clientUpdatedAt right)))
   in if timestampDifference \<noteq> num 0 then timestampDifference
      else let deviceComparison = buffer_compare (lastModifiedByReplicaId left) (lastModifiedByReplicaId right)
      in if deviceComparison \<noteq> 0 then num deviceComparison
         else num (buffer_compare (lastOperationId left) (lastOperationId right)))"

definition incomingLwwMetadataWins :: "(string \<Rightarrow> js_date) \<Rightarrow> LwwMetadata \<Rightarrow> LwwMetadata \<Rightarrow> bool" where
  "incomingLwwMetadataWins p incoming stored \<longleftrightarrow> jlt (num 0) (compareLwwMetadata p incoming stored)"

section \<open>The order of writes\<close>

text \<open>The key of a write whose client time is the valid date \<open>t\<close>.\<close>

definition lww_key :: "(string \<Rightarrow> js_date) \<Rightarrow> LwwMetadata \<Rightarrow> int \<times> string \<times> string" where
  "lww_key p x = ((case new_date_text p (clientUpdatedAt x) of InvalidDate \<Rightarrow> 0 | Date t \<Rightarrow> t),
     lastModifiedByReplicaId x, lastOperationId x)"

definition dated :: "(string \<Rightarrow> js_date) \<Rightarrow> LwwMetadata \<Rightarrow> bool" where
  "dated p x \<longleftrightarrow> (\<exists>t. new_date_text p (clientUpdatedAt x) = Date t)"

text \<open>The difference of two integers never rounds to another sign.\<close>

lemma jsub_int_sign:
  "jlt (Num 0) (jsub (num a) (num b)) \<longleftrightarrow> b < a"
  "jsub (num a) (num b) = Num 0 \<longleftrightarrow> a = b"
proof -
  consider "a < b" | "a = b" | "b < a" by linarith
  then have "jlt (Num 0) (jsub (num a) (num b)) = (b < a) \<and> (jsub (num a) (num b) = Num 0) = (a = b)"
  proof cases
    case 1
    then have "(of_int (a - b) :: rat) \<le> of_int (- 1)" by (simp only: of_int_le_iff)
    then have "jle (fl (of_int a - of_int b)) (Num (- 1))" by (intro fl_le) (simp_all add: rep_rules)
    with 1 show ?thesis by (cases "fl (of_int a - of_int b)") (auto simp: jsub_def jle_def)
  next
    case 2
    then show ?thesis by (simp add: jsub_def fl_def)
  next
    case 3
    then have "(of_int 1 :: rat) \<le> of_int (a - b)" by (simp only: of_int_le_iff)
    then have "jle (Num 1) (fl (of_int a - of_int b))" by (intro fl_ge) (simp_all add: rep_rules)
    with 3 show ?thesis by (cases "fl (of_int a - of_int b)") (auto simp: jsub_def jle_def)
  qed
  then show "jlt (Num 0) (jsub (num a) (num b)) \<longleftrightarrow> b < a" "jsub (num a) (num b) = Num 0 \<longleftrightarrow> a = b"
    by simp_all
qed

lemma incoming_wins_iff:
  assumes "dated p x" and "dated p y"
  shows "incomingLwwMetadataWins p x y \<longleftrightarrow> lww_key p y < lww_key p x"
proof -
  obtain s t where d: "new_date_text p (clientUpdatedAt x) = Date s" "new_date_text p (clientUpdatedAt y) = Date t"
    using assms by (auto simp: dated_def)
  show ?thesis
    by (simp add: incomingLwwMetadataWins_def compareLwwMetadata_def Let_def d lww_key_def buffer_compare_def
        less_prod_def jsub_int_sign) (use jsub_int_sign(2) [of s t] in auto)
qed

section \<open>The register\<close>

text \<open>
  A last-writer-wins register: a write replaces the stored value when its key is greater. Any
  sequence of writes leaves the value with the greatest key, so replicas that apply the same
  writes agree whatever the order in which they arrive.
\<close>

locale lww_register =
  fixes key :: "'a \<Rightarrow> 'k :: linorder" and put :: "'a \<Rightarrow> 'a \<Rightarrow> 'a" and valid :: "'a \<Rightarrow> bool"
  assumes put_def: "valid s \<Longrightarrow> valid x \<Longrightarrow> put s x = (if key s < key x then x else s)"
begin

lemma put_valid: "valid s \<Longrightarrow> valid x \<Longrightarrow> valid (put s x)"
  by (simp add: put_def)

lemma put_key: "valid s \<Longrightarrow> valid x \<Longrightarrow> key (put s x) = max (key s) (key x)"
  by (auto simp: put_def max_def)

lemma puts_valid: "valid s \<Longrightarrow> \<forall>x \<in> set xs. valid x \<Longrightarrow> valid (foldl put s xs)"
  by (induction xs arbitrary: s) (simp_all add: put_valid)

lemma puts_key:
  "valid s \<Longrightarrow> \<forall>x \<in> set xs. valid x \<Longrightarrow> key (foldl put s xs) = Max (insert (key s) (key ` set xs))"
proof (induction xs arbitrary: s)
  case Nil
  then show ?case by simp
next
  case (Cons x xs)
  have "Max (insert (max (key s) (key x)) (key ` set xs)) = Max (insert (key s) (insert (key x) (key ` set xs)))"
    by (cases "xs = []") (simp_all add: max.assoc)
  with Cons show ?case by (simp add: put_valid put_key)
qed

lemma puts_mem: "valid s \<Longrightarrow> \<forall>x \<in> set xs. valid x \<Longrightarrow> foldl put s xs \<in> insert s (set xs)"
proof (induction xs arbitrary: s)
  case Nil
  then show ?case by simp
next
  case (Cons x xs)
  then have "foldl put (put s x) xs \<in> insert (put s x) (set xs)" by (simp add: put_valid)
  moreover have "put s x = s \<or> put s x = x" using Cons.prems by (simp add: put_def)
  ultimately show ?case by auto
qed

text \<open>Convergence, for writes that a key identifies.\<close>

lemma puts_converge:
  assumes "valid s" and "\<forall>x \<in> set xs. valid x" and "set xs = set ys" and "inj_on key (insert s (set xs))"
  shows "foldl put s xs = foldl put s ys"
proof -
  have v: "\<forall>y \<in> set ys. valid y" using assms(2,3) by simp
  have "key (foldl put s xs) = key (foldl put s ys)"
    using puts_key [OF assms(1,2)] puts_key [OF assms(1) v] assms(3) by simp
  with assms(3,4) puts_mem [OF assms(1,2)] puts_mem [OF assms(1) v] show ?thesis
    by (metis inj_onD)
qed

lemma put_idempotent: "valid s \<Longrightarrow> valid x \<Longrightarrow> put (put s x) x = put s x"
  by (auto simp: put_def)

end

text \<open>The metadata alone is such a register.\<close>

definition lww_write :: "(string \<Rightarrow> js_date) \<Rightarrow> LwwMetadata \<Rightarrow> LwwMetadata \<Rightarrow> LwwMetadata" where
  "lww_write p stored incoming = (if incomingLwwMetadataWins p incoming stored then incoming else stored)"

interpretation metadata: lww_register "lww_key p" "lww_write p" "dated p" for p
  by unfold_locales (simp add: lww_write_def incoming_wins_iff)

end
