(* ===== verification/SyncChanges.thy ===== *)
theory SyncChanges
  imports Lww
begin

text \<open>
  The hot change log (\<open>sync/replication/changes.ts\<close>). The two tables the statements of the file
  read and write are an explicit state: \<open>sync.hot_changes\<close> with its identity sequence and
  \<open>sync.workspace_sync_metadata\<close>. The write lock is the workspace it was taken for.
\<close>

datatype SyncEntityType = CardEntity | DeckEntity | WorkspaceSchedulerSettingsEntity | MediaAssetEntity

datatype SyncChangeAction = Upsert

record hot_change =
  change_id :: int
  hc_workspace_id :: string
  hc_entity_type :: SyncEntityType
  hc_entity_id :: string
  hc_action :: SyncChangeAction
  hc_replica_id :: string
  hc_operation_id :: string
  hc_client_updated_at :: string

record sync_store =
  hot_changes :: "hot_change list"
  next_change_id :: int
  sync_metadata :: "(string \<times> int) list"

record HotChangeWriteLock =
  lock_workspaceId :: string

definition ensureWorkspaceSyncMetadataInExecutor :: "sync_store \<Rightarrow> string \<Rightarrow> sync_store" where
  "ensureWorkspaceSyncMetadataInExecutor st workspaceId =
     (case map_of (sync_metadata st) workspaceId of
        None \<Rightarrow> st\<lparr>sync_metadata := sync_metadata st @ [(workspaceId, 0)]\<rparr>
      | Some _ \<Rightarrow> st)"

definition lockWorkspaceSyncMetadataForHotChangesInExecutor ::
    "sync_store \<Rightarrow> string \<Rightarrow> (HotChangeWriteLock \<times> sync_store) result" where
  "lockWorkspaceSyncMetadataForHotChangesInExecutor st workspaceId = (let
     st = ensureWorkspaceSyncMetadataInExecutor st workspaceId
   in case map_of (sync_metadata st) workspaceId of
        None \<Rightarrow> Inl (Error ''Workspace sync metadata row is missing'')
      | Some _ \<Rightarrow> Inr (\<lparr>lock_workspaceId = workspaceId\<rparr>, st))"

definition insertSyncChange ::
    "(string \<Rightarrow> js_date) \<Rightarrow> sync_store \<Rightarrow> string \<Rightarrow> HotChangeWriteLock \<Rightarrow> SyncEntityType \<Rightarrow> string
     \<Rightarrow> SyncChangeAction \<Rightarrow> string \<Rightarrow> string \<Rightarrow> string \<Rightarrow> (int \<times> sync_store) result" where
  "insertSyncChange p st workspaceId hotChangeWriteLock entityType entityId action replicaId
     operationId updatedAt =
     (if lock_workspaceId hotChangeWriteLock \<noteq> workspaceId
      then Inl (Error ''Hot sync change lock does not match workspace'')
      else rbind (normalizeIsoTimestamp p updatedAt ''clientUpdatedAt'') (\<lambda>stamp.
        Inr (next_change_id st, st\<lparr>
          hot_changes := hot_changes st @ [\<lparr>change_id = next_change_id st, hc_workspace_id = workspaceId,
            hc_entity_type = entityType, hc_entity_id = entityId, hc_action = action,
            hc_replica_id = replicaId, hc_operation_id = operationId, hc_client_updated_at = stamp\<rparr>],
          next_change_id := next_change_id st + 1\<rparr>)))"

definition max_change_id :: "hot_change list \<Rightarrow> int option" where
  "max_change_id rows = (case rows of [] \<Rightarrow> None
     | r # rs \<Rightarrow> Some (foldl max (change_id r) (map change_id rs)))"

definition about_entity :: "string \<Rightarrow> SyncEntityType \<Rightarrow> string \<Rightarrow> hot_change \<Rightarrow> bool" where
  "about_entity workspaceId entityType entityId r \<longleftrightarrow>
     hc_workspace_id r = workspaceId \<and> hc_entity_type r = entityType \<and> hc_entity_id r = entityId"

text \<open>\<open>ORDER BY change_id DESC LIMIT 1\<close>.\<close>

definition findLatestSyncChangeId :: "sync_store \<Rightarrow> string \<Rightarrow> SyncEntityType \<Rightarrow> string \<Rightarrow> int option" where
  "findLatestSyncChangeId st workspaceId entityType entityId =
     max_change_id (filter (about_entity workspaceId entityType entityId) (hot_changes st))"

definition loadMinAvailableHotChangeId :: "sync_store \<Rightarrow> string \<Rightarrow> (int \<times> sync_store) result" where
  "loadMinAvailableHotChangeId st workspaceId = (let
     st = ensureWorkspaceSyncMetadataInExecutor st workspaceId
   in case map_of (sync_metadata st) workspaceId of
        None \<Rightarrow> Inl (Error ''Workspace sync metadata row is missing'')
      | Some m \<Rightarrow> Inr (m, st))"

section \<open>The log\<close>

text \<open>The invariant of the log: the ids increase and the sequence is ahead of them.\<close>

definition change_log_ok :: "sync_store \<Rightarrow> bool" where
  "change_log_ok st \<longleftrightarrow> sorted_wrt (<) (map change_id (hot_changes st))
     \<and> (\<forall>r \<in> set (hot_changes st). change_id r < next_change_id st)"

lemma ensure_total: "\<exists>m. map_of (sync_metadata (ensureWorkspaceSyncMetadataInExecutor st w)) w = Some m"
  by (cases "map_of (sync_metadata st) w")
    (auto simp: ensureWorkspaceSyncMetadataInExecutor_def map_add_def)

lemma ensure_fields [simp]:
  "hot_changes (ensureWorkspaceSyncMetadataInExecutor st w) = hot_changes st"
  "next_change_id (ensureWorkspaceSyncMetadataInExecutor st w) = next_change_id st"
  by (simp_all add: ensureWorkspaceSyncMetadataInExecutor_def split: option.split)

lemma lock_returns:
  "lockWorkspaceSyncMetadataForHotChangesInExecutor st w =
     Inr (\<lparr>lock_workspaceId = w\<rparr>, ensureWorkspaceSyncMetadataInExecutor st w)"
  using ensure_total [of st w]
  by (auto simp: lockWorkspaceSyncMetadataForHotChangesInExecutor_def Let_def)

lemma log_ok_ensure: "change_log_ok (ensureWorkspaceSyncMetadataInExecutor st w) = change_log_ok st"
  by (simp add: change_log_ok_def)

lemma insertSyncChange_log_ok:
  "insertSyncChange p st w l et i a replica op stamp = Inr (c, st') \<Longrightarrow> change_log_ok st \<Longrightarrow> change_log_ok st'"
  by (fastforce simp: insertSyncChange_def change_log_ok_def res_simps sorted_wrt_append split: if_splits)

lemma foldl_max: "foldl max (a::int) xs = Max (insert a (set xs))"
proof (induction xs arbitrary: a)
  case Nil
  then show ?case by simp
next
  case (Cons x xs)
  then show ?case by (cases "xs = []") (simp_all add: max.assoc)
qed

lemma max_change_id_Some:
  assumes "r \<in> set rows" and "\<forall>q \<in> set rows. change_id q \<le> change_id r"
  shows "max_change_id rows = Some (change_id r)"
proof (cases rows)
  case Nil
  with assms show ?thesis by simp
next
  case (Cons q qs)
  have "Max (change_id ` set rows) = change_id r" using assms by (intro Max_eqI) auto
  with Cons show ?thesis by (simp add: max_change_id_def foldl_max)
qed

text \<open>The latest change of an entity is the one just recorded; other entities keep theirs.\<close>

lemma findLatest_insert:
  assumes "insertSyncChange p st w l et i a replica op stamp = Inr (c, st')" and "change_log_ok st"
  shows "findLatestSyncChangeId st' w' et' i' =
    (if (w', et', i') = (w, et, i) then Some c else findLatestSyncChangeId st w' et' i')"
proof -
  obtain stamp' where st': "hot_changes st' = hot_changes st @ [\<lparr>change_id = c, hc_workspace_id = w,
      hc_entity_type = et, hc_entity_id = i, hc_action = a, hc_replica_id = replica, hc_operation_id = op,
      hc_client_updated_at = stamp'\<rparr>]" and c: "c = next_change_id st"
    using assms(1) by (auto simp: insertSyncChange_def res_simps split: if_splits)
  let ?r = "\<lparr>change_id = c, hc_workspace_id = w, hc_entity_type = et, hc_entity_id = i, hc_action = a,
      hc_replica_id = replica, hc_operation_id = op, hc_client_updated_at = stamp'\<rparr>"
  show ?thesis
  proof (cases "(w', et', i') = (w, et, i)")
    case True
    have "max_change_id (filter (about_entity w et i) (hot_changes st @ [?r])) = Some (change_id ?r)"
      using assms(2) c by (intro max_change_id_Some) (auto simp: change_log_ok_def about_entity_def order_less_imp_le)
    with True st' show ?thesis by (simp add: findLatestSyncChangeId_def)
  next
    case False
    then have "\<not> about_entity w' et' i' ?r" by (auto simp: about_entity_def)
    with False st' show ?thesis by (auto simp: findLatestSyncChangeId_def)
  qed
qed

end
