(* ===== verification/JsValue.thy ===== *)
theory JsValue
  imports JsNumber
begin

text \<open>
  JSON values: what a request body, a \<open>jsonb\<close> column or a tool argument of type \<open>unknown\<close> can
  hold. The properties of an object are kept in insertion order.
\<close>

datatype js_value =
    JNull
  | JBool bool
  | JNum jsnum
  | JStr string
  | JArr "js_value list"
  | JObj "(string \<times> js_value) list"

end
