(* ===== verification/WorkspaceSettings.thy ===== *)
theory WorkspaceSettings
  imports SyncChanges JsValue FsrsSafety
begin

text \<open>
  The scheduler settings of a workspace (\<open>scheduling/workspaceSettings.ts\<close>): their validation, the
  row that stores them, and the last-writer-wins application of a snapshot inside a transaction.
  The database is an explicit state (the rows of \<open>org.workspaces\<close> by workspace id, and the change
  log); an error leaves the transaction, so it returns no state. \<open>p\<close> reads dates the host's way,
  \<open>now\<close> is the database's \<open>now()\<close>.
\<close>

section \<open>Validation\<close>

definition is_positive_minute :: "js_value \<Rightarrow> bool" where
  "is_positive_minute item = (case item of JNum x \<Rightarrow>
     is_integer x \<and> \<not> jle x (num 0) \<and> \<not> jle (num 1440) x | _ \<Rightarrow> False)"

definition parse_step :: "string \<Rightarrow> js_value \<Rightarrow> jsnum result" where
  "parse_step fieldName item = (case item of
     JNum x \<Rightarrow> (if is_positive_minute item then Inr x
       else Inl (Error (fieldName @ '' must contain positive integer minutes under 1440'')))
   | _ \<Rightarrow> Inl (Error (fieldName @ '' must contain positive integer minutes under 1440'')))"

text \<open>The loop \<open>for (let index = 1; ...)\<close> that compares neighbours.\<close>

fun check_increasing :: "string \<Rightarrow> jsnum list \<Rightarrow> unit result" where
  "check_increasing fieldName (a # b # rest) =
     (if jle b a then Inl (Error (fieldName @ '' must be strictly increasing''))
      else check_increasing fieldName (b # rest))"
| "check_increasing fieldName _ = Inr ()"

definition parseSteps :: "js_value \<Rightarrow> string \<Rightarrow> jsnum list result" where
  "parseSteps value fieldName = (case value of
     JArr items \<Rightarrow>
       (if length items = 0 then Inl (Error (fieldName @ '' must not be empty''))
        else rbind (map_r (parse_step fieldName) items) (\<lambda>steps.
          rbind (check_increasing fieldName steps) (\<lambda>_. Inr steps)))
   | _ \<Rightarrow> Inl (Error (fieldName @ '' must be an array'')))"

record UpdateWorkspaceSchedulerSettingsInput =
  i_desiredRetention :: jsnum
  i_learningStepsMinutes :: js_value
  i_relearningStepsMinutes :: js_value
  i_maximumIntervalDays :: jsnum
  i_enableFuzz :: js_value

text \<open>The \<open>catch\<close> of the validation: an error becomes a bad request with its message.\<close>

fun error_message :: "js_error \<Rightarrow> string" where
  "error_message (Error msg) = msg"
| "error_message (HttpError _ msg _) = msg"
| "error_message (RangeError msg) = msg"

definition as_bad_request :: "'a result \<Rightarrow> 'a result" where
  "as_bad_request r = (case r of Inl e \<Rightarrow> Inl (HttpError 400 (error_message e) None) | Inr x \<Rightarrow> Inr x)"

definition validateWorkspaceSchedulerSettingsInput ::
    "UpdateWorkspaceSchedulerSettingsInput \<Rightarrow> scheduler_config result" where
  "validateWorkspaceSchedulerSettingsInput input =
     (if jle (i_desiredRetention input) (num 0) \<or> jle (num 1) (i_desiredRetention input)
      then Inl (HttpError 400 ''desiredRetention must be greater than 0 and less than 1'' None)
      else if \<not> is_integer (i_maximumIntervalDays input) \<or> jlt (i_maximumIntervalDays input) (num 1)
      then Inl (HttpError 400 ''maximumIntervalDays must be a positive integer'' None)
      else (case i_enableFuzz input of
        JBool fuzz \<Rightarrow> as_bad_request (
          rbind (parseSteps (i_learningStepsMinutes input) ''learningStepsMinutes'') (\<lambda>learning.
          rbind (parseSteps (i_relearningStepsMinutes input) ''relearningStepsMinutes'') (\<lambda>relearning.
          Inr \<lparr>algorithm = Fsrs6, desiredRetention = i_desiredRetention input,
            learningStepsMinutes = learning, relearningStepsMinutes = relearning,
            maximumIntervalDays = i_maximumIntervalDays input, enableFuzz = fuzz\<rparr>)))
      | _ \<Rightarrow> Inl (HttpError 400 ''enableFuzz must be a boolean'' None)))"

section \<open>Rows and settings\<close>

record WorkspaceSchedulerSettingsRow =
  fsrs_algorithm :: string
  fsrs_desired_retention :: jsnum
  fsrs_learning_steps_minutes :: js_value
  fsrs_relearning_steps_minutes :: js_value
  fsrs_maximum_interval_days :: jsnum
  fsrs_enable_fuzz :: bool
  fsrs_client_updated_at :: js_date
  fsrs_last_modified_by_replica_id :: string
  fsrs_last_operation_id :: string
  fsrs_updated_at :: js_date

record WorkspaceSchedulerSettings = scheduler_config +
  ws_clientUpdatedAt :: string
  ws_lastModifiedByReplicaId :: string
  ws_lastOperationId :: string
  ws_updatedAt :: string

definition mapWorkspaceSchedulerSettings ::
    "WorkspaceSchedulerSettingsRow \<Rightarrow> WorkspaceSchedulerSettings result" where
  "mapWorkspaceSchedulerSettings row =
     (if fsrs_algorithm row \<noteq> ''fsrs-6''
      then Inl (Error (''Unsupported scheduler algorithm: '' @ fsrs_algorithm row))
      else
        rbind (parseSteps (fsrs_learning_steps_minutes row) ''fsrs_learning_steps_minutes'') (\<lambda>learning.
        rbind (parseSteps (fsrs_relearning_steps_minutes row) ''fsrs_relearning_steps_minutes'') (\<lambda>relearning.
        rbind (to_iso_string (fsrs_client_updated_at row)) (\<lambda>client.
        rbind (to_iso_string (fsrs_updated_at row)) (\<lambda>updated.
        Inr \<lparr>algorithm = Fsrs6, desiredRetention = fsrs_desired_retention row,
          learningStepsMinutes = learning, relearningStepsMinutes = relearning,
          maximumIntervalDays = fsrs_maximum_interval_days row, enableFuzz = fsrs_enable_fuzz row,
          ws_clientUpdatedAt = client,
          ws_lastModifiedByReplicaId = fsrs_last_modified_by_replica_id row,
          ws_lastOperationId = fsrs_last_operation_id row, ws_updatedAt = updated\<rparr>)))))"

definition toWorkspaceSchedulerConfig :: "WorkspaceSchedulerSettings \<Rightarrow> scheduler_config" where
  "toWorkspaceSchedulerConfig settings = scheduler_config.truncate settings"

text \<open>\<open>JSON.stringify([...steps])\<close> into a \<open>jsonb\<close> column, as the column holds it.\<close>

definition toStorageSteps :: "jsnum list \<Rightarrow> js_value" where
  "toStorageSteps steps = JArr (map JNum steps)"

definition toWorkspaceSchedulerLwwMetadata :: "WorkspaceSchedulerSettings \<Rightarrow> LwwMetadata" where
  "toWorkspaceSchedulerLwwMetadata settings = \<lparr>clientUpdatedAt = ws_clientUpdatedAt settings,
     lastModifiedByReplicaId = ws_lastModifiedByReplicaId settings,
     lastOperationId = ws_lastOperationId settings\<rparr>"

definition normalizeWorkspaceSchedulerMutationMetadata ::
    "(string \<Rightarrow> js_date) \<Rightarrow> LwwMetadata \<Rightarrow> LwwMetadata result" where
  "normalizeWorkspaceSchedulerMutationMetadata p metadata =
     rbind (normalizeIsoTimestamp p (clientUpdatedAt metadata) ''clientUpdatedAt'') (\<lambda>stamp.
       Inr \<lparr>clientUpdatedAt = stamp, lastModifiedByReplicaId = lastModifiedByReplicaId metadata,
         lastOperationId = lastOperationId metadata\<rparr>)"

section \<open>The transaction\<close>

record settings_db =
  db_workspaces :: "(string \<times> WorkspaceSchedulerSettingsRow) list"
  db_sync :: sync_store

record WorkspaceSchedulerSettingsSnapshotInput = UpdateWorkspaceSchedulerSettingsInput +
  i_algorithm :: string

record WorkspaceSchedulerSettingsMutationResult =
  r_settings :: WorkspaceSchedulerSettings
  r_applied :: bool
  r_changeId :: "int option"

definition getWorkspaceSchedulerSettings :: "settings_db \<Rightarrow> string \<Rightarrow> WorkspaceSchedulerSettings result" where
  "getWorkspaceSchedulerSettings db workspaceId = (case map_of (db_workspaces db) workspaceId of
     None \<Rightarrow> Inl (Error ''Workspace row is missing'')
   | Some row \<Rightarrow> mapWorkspaceSchedulerSettings row)"

definition getWorkspaceSchedulerConfig :: "settings_db \<Rightarrow> string \<Rightarrow> scheduler_config result" where
  "getWorkspaceSchedulerConfig db workspaceId = (case map_of (db_workspaces db) workspaceId of
     None \<Rightarrow> Inl (Error ''Workspace row is missing'')
   | Some row \<Rightarrow> rbind (mapWorkspaceSchedulerSettings row) (\<lambda>s. Inr (toWorkspaceSchedulerConfig s)))"

definition recordWorkspaceSchedulerSyncChange ::
    "(string \<Rightarrow> js_date) \<Rightarrow> sync_store \<Rightarrow> string \<Rightarrow> HotChangeWriteLock \<Rightarrow> WorkspaceSchedulerSettings
     \<Rightarrow> (int \<times> sync_store) result" where
  "recordWorkspaceSchedulerSyncChange p st workspaceId hotChangeWriteLock settings =
     insertSyncChange p st workspaceId hotChangeWriteLock WorkspaceSchedulerSettingsEntity workspaceId
       Upsert (ws_lastModifiedByReplicaId settings) (ws_lastOperationId settings) (ws_clientUpdatedAt settings)"

text \<open>The row the \<open>UPDATE org.workspaces SET ...\<close> statement leaves.\<close>

definition updated_settings_row ::
    "(string \<Rightarrow> js_date) \<Rightarrow> js_date \<Rightarrow> WorkspaceSchedulerSettingsRow \<Rightarrow> scheduler_config \<Rightarrow> LwwMetadata
     \<Rightarrow> WorkspaceSchedulerSettingsRow" where
  "updated_settings_row p now row validatedInput metadata = row\<lparr>
     fsrs_desired_retention := desiredRetention validatedInput,
     fsrs_learning_steps_minutes := toStorageSteps (learningStepsMinutes validatedInput),
     fsrs_relearning_steps_minutes := toStorageSteps (relearningStepsMinutes validatedInput),
     fsrs_maximum_interval_days := maximumIntervalDays validatedInput,
     fsrs_enable_fuzz := enableFuzz validatedInput,
     fsrs_client_updated_at := new_date_text p (clientUpdatedAt metadata),
     fsrs_last_modified_by_replica_id := lastModifiedByReplicaId metadata,
     fsrs_last_operation_id := lastOperationId metadata,
     fsrs_updated_at := now\<rparr>"

definition applyWorkspaceSchedulerSettingsSnapshotInExecutor ::
    "(string \<Rightarrow> js_date) \<Rightarrow> js_date \<Rightarrow> settings_db \<Rightarrow> string \<Rightarrow> WorkspaceSchedulerSettingsSnapshotInput
     \<Rightarrow> LwwMetadata \<Rightarrow> (WorkspaceSchedulerSettingsMutationResult \<times> settings_db) result" where
  "applyWorkspaceSchedulerSettingsSnapshotInExecutor p now db workspaceId input metadata =
     rbind (lockWorkspaceSyncMetadataForHotChangesInExecutor (db_sync db) workspaceId)
       (\<lambda>(hotChangeWriteLock, sync).
     if i_algorithm input \<noteq> ''fsrs-6'' then Inl (HttpError 400 ''algorithm must be fsrs-6'' None)
     else rbind (validateWorkspaceSchedulerSettingsInput
         (UpdateWorkspaceSchedulerSettingsInput.truncate input)) (\<lambda>validatedInput.
     rbind (normalizeWorkspaceSchedulerMutationMetadata p metadata) (\<lambda>normalizedMetadata.
     case map_of (db_workspaces db) workspaceId of
       None \<Rightarrow> Inl (Error ''Workspace row is missing'')
     | Some existingRow \<Rightarrow>
     rbind (mapWorkspaceSchedulerSettings existingRow) (\<lambda>existingSettings.
     if \<not> incomingLwwMetadataWins p normalizedMetadata (toWorkspaceSchedulerLwwMetadata existingSettings)
     then Inr (\<lparr>r_settings = existingSettings, r_applied = False,
       r_changeId = findLatestSyncChangeId sync workspaceId WorkspaceSchedulerSettingsEntity workspaceId\<rparr>,
       db\<lparr>db_sync := sync\<rparr>)
     else let updatedRow = updated_settings_row p now existingRow validatedInput normalizedMetadata
       in rbind (mapWorkspaceSchedulerSettings updatedRow) (\<lambda>updatedSettings.
          rbind (recordWorkspaceSchedulerSyncChange p sync workspaceId hotChangeWriteLock updatedSettings)
            (\<lambda>(changeId, sync).
          Inr (\<lparr>r_settings = updatedSettings, r_applied = True, r_changeId = Some changeId\<rparr>,
            db\<lparr>db_workspaces := map_set workspaceId updatedRow (db_workspaces db),
               db_sync := sync\<rparr>)))))))"

definition updateWorkspaceSchedulerSettings ::
    "(string \<Rightarrow> js_date) \<Rightarrow> js_date \<Rightarrow> settings_db \<Rightarrow> string \<Rightarrow> UpdateWorkspaceSchedulerSettingsInput
     \<Rightarrow> LwwMetadata \<Rightarrow> (WorkspaceSchedulerSettings \<times> settings_db) result" where
  "updateWorkspaceSchedulerSettings p now db workspaceId input metadata =
     rbind (applyWorkspaceSchedulerSettingsSnapshotInExecutor p now db workspaceId
       (UpdateWorkspaceSchedulerSettingsInput.extend input \<lparr>i_algorithm = ''fsrs-6''\<rparr>) metadata)
       (\<lambda>(r, db). Inr (r_settings r, db))"

section \<open>What the validation establishes\<close>

definition valid_steps :: "jsnum list \<Rightarrow> bool" where
  "valid_steps steps \<longleftrightarrow> steps \<noteq> [] \<and> (\<forall>x \<in> set steps. minutes_ok x) \<and> sorted_wrt jlt steps"

lemma is_positive_minute_iff: "is_positive_minute (JNum x) \<longleftrightarrow> minutes_ok x"
proof (cases x)
  case (Num r)
  show ?thesis
  proof
    assume "is_positive_minute (JNum x)"
    then obtain n where r: "r = of_int n" "0 < r" "r < 1440" using Num by (auto simp: is_positive_minute_def)
    with Num show "minutes_ok x" unfolding minutes_ok_def by (intro exI [of _ n]) simp
  next
    assume "minutes_ok x"
    then show "is_positive_minute (JNum x)"
      by (auto simp: minutes_ok_def is_positive_minute_def)
  qed
qed (auto simp: minutes_ok_def is_positive_minute_def)

lemma parse_step_Inr_iff: "parse_step f item = Inr x \<longleftrightarrow> item = JNum x \<and> minutes_ok x"
  by (auto simp: parse_step_def is_positive_minute_iff split: js_value.splits if_splits)

lemma jlt_trans: "jlt a b \<Longrightarrow> jlt b c \<Longrightarrow> jlt a c"
  by (cases a; cases b; cases c) auto

lemma minutes_jle: "minutes_ok a \<Longrightarrow> minutes_ok b \<Longrightarrow> \<not> jle b a \<longleftrightarrow> jlt a b"
  by (auto simp: minutes_ok_def)

lemma check_increasing_iff:
  "\<forall>x \<in> set steps. minutes_ok x \<Longrightarrow> check_increasing f steps = Inr () \<longleftrightarrow> sorted_wrt jlt steps"
proof (induction f steps rule: check_increasing.induct)
  case (1 f a b rest)
  then have "check_increasing f (a # b # rest) = Inr () \<longleftrightarrow> jlt a b \<and> sorted_wrt jlt (b # rest)"
    using minutes_jle [of a b] by auto
  then show ?case by (auto intro: jlt_trans)
qed auto

lemma parseSteps_Inr_iff: "parseSteps v f = Inr steps \<longleftrightarrow> v = JArr (map JNum steps) \<and> valid_steps steps"
proof (cases v)
  case (JArr items)
  have m: "map_r (parse_step f) items = Inr ys \<longleftrightarrow> items = map JNum ys \<and> (\<forall>x \<in> set ys. minutes_ok x)" for ys
    unfolding map_r_Inr_iff parse_step_Inr_iff
    by (fastforce simp: list_all2_conv_all_nth list_eq_iff_nth_eq in_set_conv_nth)
  show ?thesis
    using JArr check_increasing_iff [of steps f]
    by (auto simp: parseSteps_def res_simps m valid_steps_def)
qed (simp_all add: parseSteps_def)

text \<open>Storing validated steps and reading them back gives them again.\<close>

lemma parseSteps_storage: "valid_steps steps \<Longrightarrow> parseSteps (toStorageSteps steps) f = Inr steps"
  by (simp add: parseSteps_Inr_iff toStorageSteps_def)

lemma sorted_jlt_distinct: "sorted_wrt jlt xs \<Longrightarrow> distinct xs"
  by (induction xs) auto

lemma valid_steps_ok: "valid_steps steps \<Longrightarrow> steps_ok steps"
proof -
  assume v: "valid_steps steps"
  then have "set steps \<subseteq> num ` {1..<1440}" by (auto simp: valid_steps_def minutes_ok_def)
  then have "card (set steps) \<le> card (num ` {1..<1440})" by (intro card_mono) auto
  also have "\<dots> \<le> card {1..<1440::int}" by (rule card_image_le) simp
  finally have "length steps < 2 ^ 32"
    using v sorted_jlt_distinct distinct_card by (fastforce simp: valid_steps_def)
  with v show "steps_ok steps" by (simp add: valid_steps_def steps_ok_def)
qed

text \<open>A configuration that passed the validation.\<close>

definition validated :: "scheduler_config \<Rightarrow> bool" where
  "validated c \<longleftrightarrow> (desiredRetention c = NaN \<or> jlt (num 0) (desiredRetention c) \<and> jlt (desiredRetention c) (num 1))
     \<and> (\<exists>M. maximumIntervalDays c = num M \<and> 1 \<le> M)
     \<and> valid_steps (learningStepsMinutes c) \<and> valid_steps (relearningStepsMinutes c)"

lemma not_jle_jlt: "a \<noteq> NaN \<Longrightarrow> b \<noteq> NaN \<Longrightarrow> \<not> jle a b \<longleftrightarrow> jlt b a"
  by (cases a; cases b) (auto simp: jle_def)

lemma integer_ge_1: "is_integer x \<Longrightarrow> \<not> jlt x (num 1) \<Longrightarrow> \<exists>M. x = num M \<and> 1 \<le> M"
proof (cases x)
  case (Num r)
  assume i: "is_integer x" and "\<not> jlt x (num 1)"
  then obtain n where "1 \<le> r" "r = of_int n" using Num by auto
  with Num show ?thesis by (intro exI [of _ n]) simp
qed auto

lemma as_bad_request_Inr [res_simps]: "as_bad_request r = Inr x \<longleftrightarrow> r = Inr x"
  by (cases r) (simp_all add: as_bad_request_def)

lemma validate_validated:
  assumes "validateWorkspaceSchedulerSettingsInput input = Inr c"
  shows "validated c" and "desiredRetention c = i_desiredRetention input"
    and "maximumIntervalDays c = i_maximumIntervalDays input" and "i_enableFuzz input = JBool (enableFuzz c)"
    and "i_learningStepsMinutes input = JArr (map JNum (learningStepsMinutes c))"
    and "i_relearningStepsMinutes input = JArr (map JNum (relearningStepsMinutes c))"
proof -
  obtain fuzz learning relearning where c: "c = \<lparr>algorithm = Fsrs6, desiredRetention = i_desiredRetention input,
      learningStepsMinutes = learning, relearningStepsMinutes = relearning,
      maximumIntervalDays = i_maximumIntervalDays input, enableFuzz = fuzz\<rparr>"
    and g: "\<not> jle (i_desiredRetention input) (num 0)" "\<not> jle (num 1) (i_desiredRetention input)"
      "is_integer (i_maximumIntervalDays input)" "\<not> jlt (i_maximumIntervalDays input) (num 1)"
    and f: "i_enableFuzz input = JBool fuzz"
    and st: "i_learningStepsMinutes input = JArr (map JNum learning)" "valid_steps learning"
      "i_relearningStepsMinutes input = JArr (map JNum relearning)" "valid_steps relearning"
    using assms
    by (auto simp: validateWorkspaceSchedulerSettingsInput_def res_simps parseSteps_Inr_iff
        split: if_splits js_value.splits)
  then show "validated c"
    using integer_ge_1 [OF g(3,4)] not_jle_jlt [of "i_desiredRetention input" "num 0"]
      not_jle_jlt [of "num 1" "i_desiredRetention input"]
    by (auto simp: validated_def)
  show "desiredRetention c = i_desiredRetention input"
    and "maximumIntervalDays c = i_maximumIntervalDays input" and "i_enableFuzz input = JBool (enableFuzz c)"
    and "i_learningStepsMinutes input = JArr (map JNum (learningStepsMinutes c))"
    and "i_relearningStepsMinutes input = JArr (map JNum (relearningStepsMinutes c))"
    using c f st by simp_all
qed

text \<open>Validated settings are what the scheduler's guarantees need.\<close>

lemma validated_valid_settings:
  assumes "validated c" and "desiredRetention c \<noteq> NaN" and "maximumIntervalDays c = num M" and "M \<le> 2000000"
  shows "valid_settings c M"
proof -
  have "inb 0 1 (desiredRetention c)" "desiredRetention c \<noteq> Num 0"
    using assms(1,2) by (cases "desiredRetention c"; auto simp: validated_def)+
  moreover have "1 \<le> M" using assms(1,3) by (auto simp: validated_def)
  ultimately show ?thesis
    using assms valid_steps_ok by (simp add: valid_settings_def interval_settings_def validated_def)
qed

section \<open>The row as a last-writer-wins register\<close>

text \<open>The metadata a row is compared by, and the rows whose date has a four digit year.\<close>

definition row_metadata :: "WorkspaceSchedulerSettingsRow \<Rightarrow> LwwMetadata" where
  "row_metadata row = \<lparr>clientUpdatedAt = (case to_iso_string (fsrs_client_updated_at row) of Inl _ \<Rightarrow> [] | Inr s \<Rightarrow> s),
     lastModifiedByReplicaId = fsrs_last_modified_by_replica_id row,
     lastOperationId = fsrs_last_operation_id row\<rparr>"

definition row_dated :: "WorkspaceSchedulerSettingsRow \<Rightarrow> bool" where
  "row_dated row \<longleftrightarrow> (\<exists>t. fsrs_client_updated_at row = Date t \<and> iso_day (utc_day t))"

definition row_key :: "WorkspaceSchedulerSettingsRow \<Rightarrow> int \<times> string \<times> string" where
  "row_key row = ((case fsrs_client_updated_at row of InvalidDate \<Rightarrow> 0 | Date t \<Rightarrow> t),
     fsrs_last_modified_by_replica_id row, fsrs_last_operation_id row)"

text \<open>What an incoming row leaves of a stored one.\<close>

definition put_row ::
    "(string \<Rightarrow> js_date) \<Rightarrow> WorkspaceSchedulerSettingsRow \<Rightarrow> WorkspaceSchedulerSettingsRow
     \<Rightarrow> WorkspaceSchedulerSettingsRow" where
  "put_row p stored incoming =
     (if incomingLwwMetadataWins p (row_metadata incoming) (row_metadata stored) then incoming else stored)"

lemma row_dated_metadata:
  assumes "row_dated row"
  shows "dated p (row_metadata row)" and "lww_key p (row_metadata row) = row_key row"
proof -
  obtain t where t: "fsrs_client_updated_at row = Date t" "iso_day (utc_day t)"
    using assms by (auto simp: row_dated_def)
  then obtain s where s: "to_iso_string (Date t) = Inr s" by simp
  have "new_date_text p s = Date t" by (rule new_date_text_printed [OF t(2) s])
  then show "dated p (row_metadata row)" and "lww_key p (row_metadata row) = row_key row"
    using s by (simp_all add: dated_def row_metadata_def lww_key_def row_key_def t(1) del: to_iso_string.simps)
qed

interpretation settings_row: lww_register row_key "put_row p" row_dated for p
  by unfold_locales (simp add: put_row_def incoming_wins_iff row_dated_metadata)

text \<open>A request: the snapshot, its metadata, and the time the database applies it.\<close>

record settings_request =
  q_now :: js_date
  q_input :: WorkspaceSchedulerSettingsSnapshotInput
  q_metadata :: LwwMetadata

definition apply_request :: "(string \<Rightarrow> js_date) \<Rightarrow> string \<Rightarrow> settings_db \<Rightarrow> settings_request \<Rightarrow> settings_db result" where
  "apply_request p workspaceId db rq =
     rbind (applyWorkspaceSchedulerSettingsSnapshotInExecutor p (q_now rq) db workspaceId (q_input rq) (q_metadata rq))
       (\<lambda>(_, db). Inr db)"

text \<open>The row a request would store.\<close>

definition request_row :: "(string \<Rightarrow> js_date) \<Rightarrow> settings_request \<Rightarrow> WorkspaceSchedulerSettingsRow result" where
  "request_row p rq =
     rbind (validateWorkspaceSchedulerSettingsInput (UpdateWorkspaceSchedulerSettingsInput.truncate (q_input rq))) (\<lambda>v.
     rbind (normalizeWorkspaceSchedulerMutationMetadata p (q_metadata rq)) (\<lambda>n.
     Inr \<lparr>fsrs_algorithm = ''fsrs-6'', fsrs_desired_retention = desiredRetention v,
       fsrs_learning_steps_minutes = toStorageSteps (learningStepsMinutes v),
       fsrs_relearning_steps_minutes = toStorageSteps (relearningStepsMinutes v),
       fsrs_maximum_interval_days = maximumIntervalDays v, fsrs_enable_fuzz = enableFuzz v,
       fsrs_client_updated_at = new_date_text p (clientUpdatedAt n),
       fsrs_last_modified_by_replica_id = lastModifiedByReplicaId n,
       fsrs_last_operation_id = lastOperationId n, fsrs_updated_at = q_now rq\<rparr>))"

definition four_digit_year :: "(string \<Rightarrow> js_date) \<Rightarrow> LwwMetadata \<Rightarrow> bool" where
  "four_digit_year p x \<longleftrightarrow> (\<exists>t. new_date_text p (clientUpdatedAt x) = Date t \<and> iso_day (utc_day t))"

lemma normalize_four_digit:
  assumes "normalizeWorkspaceSchedulerMutationMetadata p x = Inr n" and "four_digit_year p x"
  obtains t where "new_date_text p (clientUpdatedAt x) = Date t" and "iso_day (utc_day t)"
    and "to_iso_string (Date t) = Inr (clientUpdatedAt n)" and "new_date_text p (clientUpdatedAt n) = Date t"
    and "lastModifiedByReplicaId n = lastModifiedByReplicaId x" and "lastOperationId n = lastOperationId x"
proof -
  obtain t where t: "new_date_text p (clientUpdatedAt x) = Date t" "iso_day (utc_day t)"
    using assms(2) by (auto simp: four_digit_year_def)
  have n: "to_iso_string (Date t) = Inr (clientUpdatedAt n)"
    "lastModifiedByReplicaId n = lastModifiedByReplicaId x" "lastOperationId n = lastOperationId x"
    using assms(1) t
    by (auto simp: normalizeWorkspaceSchedulerMutationMetadata_def normalizeIsoTimestamp_def res_simps
        simp del: to_iso_string.simps)
  show ?thesis using that [OF t n(1) new_date_text_printed [OF t(2) n(1)] n(2,3)] .
qed

lemma mapped_row:
  assumes "mapWorkspaceSchedulerSettings row = Inr settings"
  shows "toWorkspaceSchedulerLwwMetadata settings = row_metadata row" and "fsrs_algorithm row = ''fsrs-6''"
  using assms
  by (auto simp: mapWorkspaceSchedulerSettings_def res_simps toWorkspaceSchedulerLwwMetadata_def row_metadata_def
      split: if_splits)

text \<open>One application: what is stored, what is returned, what is logged.\<close>

lemma apply_effect:
  assumes "applyWorkspaceSchedulerSettingsSnapshotInExecutor p now db w input md = Inr (r, db')"
    and "four_digit_year p md"
  obtains row new where "map_of (db_workspaces db) w = Some row"
    and "request_row p \<lparr>q_now = now, q_input = input, q_metadata = md\<rparr> = Inr new" and "row_dated new"
    and "row_key new = lww_key p md"
    and "map_of (db_workspaces db') = (map_of (db_workspaces db))(w \<mapsto> put_row p row new)"
    and "mapWorkspaceSchedulerSettings (put_row p row new) = Inr (r_settings r)"
    and "r_applied r \<longleftrightarrow> incomingLwwMetadataWins p (row_metadata new) (row_metadata row)"
    and "r_changeId r = (if r_applied r then Some (next_change_id (db_sync db))
      else findLatestSyncChangeId (db_sync db) w WorkspaceSchedulerSettingsEntity w)"
    and "next_change_id (db_sync db') = next_change_id (db_sync db) + (if r_applied r then 1 else 0)"
proof -
  let ?sync = "ensureWorkspaceSyncMetadataInExecutor (db_sync db) w"
  obtain v n row where v: "validateWorkspaceSchedulerSettingsInput (UpdateWorkspaceSchedulerSettingsInput.truncate input) = Inr v"
    and n: "normalizeWorkspaceSchedulerMutationMetadata p md = Inr n"
    and row: "map_of (db_workspaces db) w = Some row"
    and rest: "rbind (mapWorkspaceSchedulerSettings row) (\<lambda>old.
       if \<not> incomingLwwMetadataWins p n (toWorkspaceSchedulerLwwMetadata old)
       then Inr (\<lparr>r_settings = old, r_applied = False,
         r_changeId = findLatestSyncChangeId ?sync w WorkspaceSchedulerSettingsEntity w\<rparr>, db\<lparr>db_sync := ?sync\<rparr>)
       else let u = updated_settings_row p now row v n in rbind (mapWorkspaceSchedulerSettings u) (\<lambda>s.
         rbind (recordWorkspaceSchedulerSyncChange p ?sync w \<lparr>lock_workspaceId = w\<rparr> s) (\<lambda>(c, sync).
         Inr (\<lparr>r_settings = s, r_applied = True, r_changeId = Some c\<rparr>,
           db\<lparr>db_workspaces := map_set w u (db_workspaces db), db_sync := sync\<rparr>)))) = Inr (r, db')"
    using assms(1)
    unfolding applyWorkspaceSchedulerSettingsSnapshotInExecutor_def lock_returns
    by (auto simp: rbind_Inr_iff [of "validateWorkspaceSchedulerSettingsInput _"]
        rbind_Inr_iff [of "normalizeWorkspaceSchedulerMutationMetadata _ _"] split: if_split_asm option.split_asm)
  from rest obtain old where old: "mapWorkspaceSchedulerSettings row = Inr old" by (auto simp: res_simps)
  define new where "new = updated_settings_row p now row v n"
  obtain t where t: "new_date_text p (clientUpdatedAt md) = Date t" "iso_day (utc_day t)"
    "to_iso_string (Date t) = Inr (clientUpdatedAt n)" "new_date_text p (clientUpdatedAt n) = Date t"
    "lastModifiedByReplicaId n = lastModifiedByReplicaId md" "lastOperationId n = lastOperationId md"
    by (rule normalize_four_digit [OF n assms(2)])
  have q: "request_row p \<lparr>q_now = now, q_input = input, q_metadata = md\<rparr> = Inr new"
    using v n mapped_row(2) [OF old] by (simp add: request_row_def new_def updated_settings_row_def)
  have d: "row_dated new" using t by (simp add: row_dated_def new_def updated_settings_row_def)
  have k: "row_key new = lww_key p md"
    using t by (simp add: row_key_def lww_key_def new_def updated_settings_row_def)
  have nm: "row_metadata new = n"
    using t by (simp add: row_metadata_def new_def updated_settings_row_def del: to_iso_string.simps)
  note rest' = rest [unfolded old rbind_simps mapped_row(1) [OF old] new_def [symmetric] Let_def]
  show ?thesis
  proof (cases "incomingLwwMetadataWins p n (row_metadata row)")
    case False
    then have "r = \<lparr>r_settings = old, r_applied = False,
        r_changeId = findLatestSyncChangeId ?sync w WorkspaceSchedulerSettingsEntity w\<rparr>"
      and "db' = db\<lparr>db_sync := ?sync\<rparr>" using rest' by simp_all
    moreover have "(map_of (db_workspaces db))(w \<mapsto> row) = map_of (db_workspaces db)"
      using row by (simp add: fun_upd_idem)
    ultimately show ?thesis
      using False nm old by (intro that [OF row q d k]) (simp_all add: put_row_def findLatestSyncChangeId_def)
  next
    case True
    with rest' obtain s where s: "mapWorkspaceSchedulerSettings new = Inr s"
      and c: "rbind (recordWorkspaceSchedulerSyncChange p ?sync w \<lparr>lock_workspaceId = w\<rparr> s) (\<lambda>(c, sync).
         Inr (\<lparr>r_settings = s, r_applied = True, r_changeId = Some c\<rparr>,
           db\<lparr>db_workspaces := map_set w new (db_workspaces db), db_sync := sync\<rparr>)) = Inr (r, db')"
      by (auto simp: rbind_Inr_iff [of "mapWorkspaceSchedulerSettings _"])
    from c have "r = \<lparr>r_settings = s, r_applied = True, r_changeId = Some (next_change_id (db_sync db))\<rparr>"
      and "map_of (db_workspaces db') = (map_of (db_workspaces db))(w \<mapsto> new)"
      and "next_change_id (db_sync db') = next_change_id (db_sync db) + 1"
      by (auto simp: recordWorkspaceSchedulerSyncChange_def insertSyncChange_def res_simps)
    then show ?thesis
      using True nm s by (intro that [OF row q d k]) (simp_all add: put_row_def)
  qed
qed

lemma apply_request_effect:
  assumes "apply_request p w db rq = Inr db'" and "four_digit_year p (q_metadata rq)"
  obtains row new where "map_of (db_workspaces db) w = Some row" and "request_row p rq = Inr new"
    and "row_dated new" and "row_key new = lww_key p (q_metadata rq)"
    and "map_of (db_workspaces db') w = Some (put_row p row new)"
proof -
  obtain r where r: "applyWorkspaceSchedulerSettingsSnapshotInExecutor p (q_now rq) db w (q_input rq) (q_metadata rq)
      = Inr (r, db')" using assms(1) by (auto simp: apply_request_def res_simps)
  obtain row new where e: "map_of (db_workspaces db) w = Some row"
    "request_row p \<lparr>q_now = q_now rq, q_input = q_input rq, q_metadata = q_metadata rq\<rparr> = Inr new" "row_dated new"
    "row_key new = lww_key p (q_metadata rq)"
    "map_of (db_workspaces db') = (map_of (db_workspaces db))(w \<mapsto> put_row p row new)"
    by (rule apply_effect [OF r assms(2)])
  have "\<lparr>q_now = q_now rq, q_input = q_input rq, q_metadata = q_metadata rq\<rparr> = rq" by (cases rq) simp
  with e that show ?thesis by simp
qed

text \<open>A sequence of requests folds the register.\<close>

lemma apply_requests_effect:
  assumes "fold_r (apply_request p w) db rqs = Inr db'" and "\<forall>rq \<in> set rqs. four_digit_year p (q_metadata rq)"
    and "map_of (db_workspaces db) w = Some row"
  shows "\<exists>news. map_r (request_row p) rqs = Inr news \<and> (\<forall>new \<in> set news. row_dated new)
     \<and> map row_key news = map (\<lambda>rq. lww_key p (q_metadata rq)) rqs
     \<and> map_of (db_workspaces db') w = Some (foldl (put_row p) row news)"
  using assms
proof (induction rqs arbitrary: db row)
  case Nil
  then show ?case by simp
next
  case (Cons rq rqs)
  from Cons.prems(1) obtain db1 where d: "apply_request p w db rq = Inr db1" "fold_r (apply_request p w) db1 rqs = Inr db'"
    by (auto simp: res_simps)
  have "four_digit_year p (q_metadata rq)" using Cons.prems(2) by simp
  then obtain row' new where e: "map_of (db_workspaces db) w = Some row'" "request_row p rq = Inr new" "row_dated new"
    "row_key new = lww_key p (q_metadata rq)" "map_of (db_workspaces db1) w = Some (put_row p row' new)"
    using apply_request_effect [OF d(1)] by metis
  from Cons.IH [OF d(2) _ e(5)] Cons.prems(2,3) e show ?case by auto
qed

text \<open>Convergence: the order in which the requests arrive does not matter.\<close>

lemma settings_converge:
  assumes "fold_r (apply_request p w) db rqs = Inr db1" and "fold_r (apply_request p w) db rqs' = Inr db2"
    and "set rqs = set rqs'" and "\<forall>rq \<in> set rqs. four_digit_year p (q_metadata rq)"
    and "map_of (db_workspaces db) w = Some row" and "row_dated row"
    and "inj_on (\<lambda>rq. lww_key p (q_metadata rq)) (set rqs)"
    and "\<forall>rq \<in> set rqs. lww_key p (q_metadata rq) \<noteq> row_key row"
  shows "map_of (db_workspaces db1) w = map_of (db_workspaces db2) w"
proof -
  have y': "\<forall>rq \<in> set rqs'. four_digit_year p (q_metadata rq)" using assms(3,4) by simp
  obtain ns where ns: "map_r (request_row p) rqs = Inr ns" "\<forall>new \<in> set ns. row_dated new"
    "map row_key ns = map (\<lambda>rq. lww_key p (q_metadata rq)) rqs"
    "map_of (db_workspaces db1) w = Some (foldl (put_row p) row ns)"
    using apply_requests_effect [OF assms(1,4,5)] by blast
  obtain ns' where ns': "map_r (request_row p) rqs' = Inr ns'"
    "map_of (db_workspaces db2) w = Some (foldl (put_row p) row ns')"
    using apply_requests_effect [OF assms(2) y' assms(5)] by blast
  have mem: "new \<in> set xs \<longleftrightarrow> (\<exists>rq \<in> set rs. request_row p rq = Inr new)"
    if "map_r (request_row p) rs = Inr xs" for rs xs new
    using that unfolding map_r_Inr_iff list_all2_conv_all_nth by (metis in_set_conv_nth sum.inject(2))
  have "set ns = set ns'" using mem [OF ns(1)] mem [OF ns'(1)] assms(3) by blast
  moreover have "inj_on row_key (insert row (set ns))"
  proof (rule inj_onI)
    have idx: "\<exists>rq \<in> set rqs. request_row p rq = Inr x \<and> row_key x = lww_key p (q_metadata rq)" if "x \<in> set ns" for x
    proof -
      from that obtain i where i: "i < length ns" "x = ns ! i" by (auto simp: in_set_conv_nth)
      have l: "length ns = length rqs" using map_r_Inr_length [OF ns(1)] .
      have "request_row p (rqs ! i) = Inr (ns ! i)"
        using ns(1) i unfolding map_r_Inr_iff list_all2_conv_all_nth by simp
      moreover have "row_key (ns ! i) = lww_key p (q_metadata (rqs ! i))"
        using arg_cong [OF ns(3), of "\<lambda>xs. xs ! i"] i l by simp
      ultimately show ?thesis using i l by auto
    qed
    fix x y assume "x \<in> insert row (set ns)" "y \<in> insert row (set ns)" "row_key x = row_key y"
    moreover have "row_key z \<noteq> row_key row" if "z \<in> set ns" for z
      using idx [OF that] assms(8) by auto
    moreover have "u = v" if uv: "u \<in> set ns" "v \<in> set ns" "row_key u = row_key v" for u v
    proof -
      obtain a b where a: "a \<in> set rqs" "request_row p a = Inr u" "row_key u = lww_key p (q_metadata a)"
        and b: "b \<in> set rqs" "request_row p b = Inr v" "row_key v = lww_key p (q_metadata b)"
        using idx [OF uv(1)] idx [OF uv(2)] by blast
      then have "a = b" using assms(7) uv(3) by (auto dest: inj_onD)
      with a b show ?thesis by simp
    qed
    ultimately show "x = y" by (metis insert_iff)
  qed
  ultimately show ?thesis
    using settings_row.puts_converge [OF assms(6) ns(2), of ns' p] ns(4) ns'(2) by simp
qed

section \<open>When a snapshot is accepted\<close>

lemma normalize_accepts:
  assumes "four_digit_year p md"
  shows "\<exists>n. normalizeWorkspaceSchedulerMutationMetadata p md = Inr n"
proof -
  obtain t where "new_date_text p (clientUpdatedAt md) = Date t" using assms by (auto simp: four_digit_year_def)
  then show ?thesis by (simp add: normalizeWorkspaceSchedulerMutationMetadata_def normalizeIsoTimestamp_def)
qed

lemma mapped_new_row:
  assumes "request_row p \<lparr>q_now = Date now, q_input = input, q_metadata = md\<rparr> = Inr new" and "row_dated new"
  shows "\<exists>s. mapWorkspaceSchedulerSettings new = Inr s"
proof -
  obtain t where "fsrs_client_updated_at new = Date t" using assms(2) by (auto simp: row_dated_def)
  with assms(1) show ?thesis
    by (auto simp: request_row_def res_simps mapWorkspaceSchedulerSettings_def parseSteps_storage
        dest!: validate_validated(1) simp: validated_def)
qed

lemma apply_accepts:
  assumes "map_of (db_workspaces db) w = Some row" and "mapWorkspaceSchedulerSettings row = Inr old"
    and "i_algorithm input = ''fsrs-6''"
    and "validateWorkspaceSchedulerSettingsInput (UpdateWorkspaceSchedulerSettingsInput.truncate input) = Inr v"
    and "four_digit_year p md"
  shows "\<exists>r. applyWorkspaceSchedulerSettingsSnapshotInExecutor p (Date now) db w input md = Inr r"
proof -
  obtain n where n: "normalizeWorkspaceSchedulerMutationMetadata p md = Inr n"
    using normalize_accepts [OF assms(5)] by blast
  obtain t where t: "to_iso_string (Date t) = Inr (clientUpdatedAt n)" "new_date_text p (clientUpdatedAt n) = Date t"
    "iso_day (utc_day t)"
    by (rule normalize_four_digit [OF n assms(5)]) blast
  let ?u = "updated_settings_row p (Date now) row v n"
  obtain u where u: "to_iso_string (Date now) = Inr u" by simp
  have "validated v" by (rule validate_validated(1) [OF assms(4)])
  then obtain s where s: "mapWorkspaceSchedulerSettings ?u = Inr s" "ws_clientUpdatedAt s = clientUpdatedAt n"
    using mapped_row(2) [OF assms(2)] t(1,2) u
    by (simp add: mapWorkspaceSchedulerSettings_def updated_settings_row_def parseSteps_storage validated_def
        del: to_iso_string.simps)
  have "\<exists>stamp. normalizeIsoTimestamp p (clientUpdatedAt n) ''clientUpdatedAt'' = Inr stamp"
    using t by (simp add: normalizeIsoTimestamp_def del: to_iso_string.simps)
  then have "\<exists>q. recordWorkspaceSchedulerSyncChange p sync w \<lparr>lock_workspaceId = w\<rparr> s = Inr q" for sync
    using s(2) by (auto simp: recordWorkspaceSchedulerSyncChange_def insertSyncChange_def)
  then show ?thesis
    using assms(1-4) n s(1)
    by (auto simp: applyWorkspaceSchedulerSettingsSnapshotInExecutor_def lock_returns Let_def res_simps split: if_splits)
qed

text \<open>The input a configuration comes from.\<close>

definition input_of_config :: "scheduler_config \<Rightarrow> UpdateWorkspaceSchedulerSettingsInput" where
  "input_of_config c = \<lparr>i_desiredRetention = desiredRetention c,
     i_learningStepsMinutes = JArr (map JNum (learningStepsMinutes c)),
     i_relearningStepsMinutes = JArr (map JNum (relearningStepsMinutes c)),
     i_maximumIntervalDays = maximumIntervalDays c, i_enableFuzz = JBool (enableFuzz c)\<rparr>"

lemma validate_input_of_config:
  assumes "validated c"
  shows "validateWorkspaceSchedulerSettingsInput (input_of_config c) = Inr c"
proof -
  obtain M where M: "maximumIntervalDays c = num M" "1 \<le> M" using assms by (auto simp: validated_def)
  have p: "parseSteps (JArr (map JNum (learningStepsMinutes c))) f = Inr (learningStepsMinutes c)"
    "parseSteps (JArr (map JNum (relearningStepsMinutes c))) f = Inr (relearningStepsMinutes c)" for f
    using assms by (simp_all add: parseSteps_Inr_iff validated_def)
  have "algorithm c = Fsrs6" by (cases "algorithm c")
  moreover have "\<not> jle (desiredRetention c) (num 0)" "\<not> jle (num 1) (desiredRetention c)"
    using assms by (cases "desiredRetention c"; auto simp: validated_def jle_def)+
  ultimately show ?thesis
    using M p by (simp add: validateWorkspaceSchedulerSettingsInput_def input_of_config_def as_bad_request_def
      scheduler_config.equality)
qed

end
