(* ===== verification/SettingsProperties.thy ===== *)
theory SettingsProperties
  imports WorkspaceSettings
begin

text \<open>
  The properties of the workspace settings and of the change log, with concrete witnesses: the
  default configuration, stored for one workspace, and two writes of it by two replicas.
\<close>

section \<open>Concrete inputs of the witnesses\<close>

text \<open>A host that reads every text that is no ISO timestamp as the first millisecond after the epoch.\<close>

definition host_dates :: "string \<Rightarrow> js_date" where
  "host_dates s = Date 1"

lemma host_dates_now: "new_date_text host_dates ''now'' = Date 1"
  by (simp add: new_date_text_def parse_iso_def host_dates_def iso_template_def fits_def)

definition sample_config :: scheduler_config where
  "sample_config = \<lparr>algorithm = Fsrs6, desiredRetention = Num (9 / 10), learningStepsMinutes = [num 1, num 10],
     relearningStepsMinutes = [num 10], maximumIntervalDays = num 36500, enableFuzz = True\<rparr>"

lemma sample_config_validated: "validated sample_config"
proof -
  have "minutes_ok (Num 1)" "minutes_ok (Num 10)"
    unfolding minutes_ok_def by (intro exI [of _ 1] exI [of _ 10]; simp)+
  then show ?thesis by (auto simp: validated_def sample_config_def valid_steps_def)
qed

definition sample_row :: WorkspaceSchedulerSettingsRow where
  "sample_row = \<lparr>fsrs_algorithm = ''fsrs-6'', fsrs_desired_retention = Num (9 / 10),
     fsrs_learning_steps_minutes = toStorageSteps [num 1, num 10],
     fsrs_relearning_steps_minutes = toStorageSteps [num 10], fsrs_maximum_interval_days = num 36500,
     fsrs_enable_fuzz = True, fsrs_client_updated_at = Date 0, fsrs_last_modified_by_replica_id = ''a'',
     fsrs_last_operation_id = ''0'', fsrs_updated_at = Date 0\<rparr>"

lemma sample_row_mapped: "\<exists>s. mapWorkspaceSchedulerSettings sample_row = Inr s"
  using sample_config_validated
  by (simp add: mapWorkspaceSchedulerSettings_def sample_row_def validated_def sample_config_def parseSteps_storage)

definition sample_db :: settings_db where
  "sample_db = \<lparr>db_workspaces = [(''w'', sample_row)],
     db_sync = \<lparr>hot_changes = [], next_change_id = 1, sync_metadata = []\<rparr>\<rparr>"

definition sample_request :: "string \<Rightarrow> settings_request" where
  "sample_request replica = \<lparr>q_now = Date 2,
     q_input = UpdateWorkspaceSchedulerSettingsInput.extend (input_of_config sample_config) \<lparr>i_algorithm = ''fsrs-6''\<rparr>,
     q_metadata = \<lparr>clientUpdatedAt = ''now'', lastModifiedByReplicaId = replica, lastOperationId = ''1''\<rparr>\<rparr>"

lemma sample_request_dated: "four_digit_year host_dates (q_metadata (sample_request r))"
  by (simp add: four_digit_year_def sample_request_def host_dates_now iso_day_def utc_day_def ms_per_day_def
      year_from_day_def Let_def)

lemma sample_request_valid:
  "validateWorkspaceSchedulerSettingsInput (UpdateWorkspaceSchedulerSettingsInput.truncate (q_input (sample_request r)))
     = Inr sample_config"
  "i_algorithm (q_input (sample_request r)) = ''fsrs-6''"
proof -
  have "UpdateWorkspaceSchedulerSettingsInput.truncate (q_input (sample_request r)) = input_of_config sample_config"
    by (simp add: sample_request_def UpdateWorkspaceSchedulerSettingsInput.defs input_of_config_def)
  then show "validateWorkspaceSchedulerSettingsInput (UpdateWorkspaceSchedulerSettingsInput.truncate
      (q_input (sample_request r))) = Inr sample_config"
    by (simp add: validate_input_of_config [OF sample_config_validated])
qed (simp add: sample_request_def UpdateWorkspaceSchedulerSettingsInput.defs input_of_config_def)



section \<open>Properties\<close>



text \<open>
  What applying a snapshot does: it stores the snapshot's row exactly when its metadata wins
  against the stored row's, returns the settings stored after it, reports whether it was applied,
  and reports the change it recorded (the latest recorded one when it was not applied). It touches
  no other workspace.
\<close>

theorem snapshot_effect:
  assumes "applyWorkspaceSchedulerSettingsSnapshotInExecutor p now db w input md = Inr (r, db')"
    and "four_digit_year p md"
  shows "\<exists>row new. map_of (db_workspaces db) w = Some row
     \<and> request_row p \<lparr>q_now = now, q_input = input, q_metadata = md\<rparr> = Inr new
     \<and> row_key new = lww_key p md
     \<and> map_of (db_workspaces db') = (map_of (db_workspaces db))(w \<mapsto> put_row p row new)
     \<and> mapWorkspaceSchedulerSettings (put_row p row new) = Inr (r_settings r)
     \<and> (r_applied r \<longleftrightarrow> incomingLwwMetadataWins p (row_metadata new) (row_metadata row))
     \<and> r_changeId r = (if r_applied r then Some (next_change_id (db_sync db))
         else findLatestSyncChangeId (db_sync db) w WorkspaceSchedulerSettingsEntity w)"
  by (rule apply_effect [OF assms]) blast

theorem snapshot_effect_witness:
  "\<exists>r db' row new. applyWorkspaceSchedulerSettingsSnapshotInExecutor host_dates (Date 2) sample_db ''w''
       (q_input (sample_request ''b'')) (q_metadata (sample_request ''b'')) = Inr (r, db')
     \<and> request_row host_dates \<lparr>q_now = Date 2, q_input = q_input (sample_request ''b''),
         q_metadata = q_metadata (sample_request ''b'')\<rparr> = Inr new
     \<and> map_of (db_workspaces db') ''w'' = Some (put_row host_dates row new)"
proof -
  have row: "map_of (db_workspaces sample_db) ''w'' = Some sample_row" by (simp add: sample_db_def)
  obtain s where s: "mapWorkspaceSchedulerSettings sample_row = Inr s" using sample_row_mapped by blast
  obtain r db' where a: "applyWorkspaceSchedulerSettingsSnapshotInExecutor host_dates (Date 2) sample_db ''w''
       (q_input (sample_request ''b'')) (q_metadata (sample_request ''b'')) = Inr (r, db')"
    using apply_accepts [OF row s sample_request_valid(2,1) sample_request_dated] by fastforce
  from snapshot_effect [OF a sample_request_dated] a show ?thesis by (metis fun_upd_same)
qed

text \<open>
  A snapshot whose client time has a four digit year is accepted exactly when it names the
  algorithm of the code, its input passes the validation, and the workspace has a row that can be
  read; otherwise the application throws and nothing is stored.
\<close>

theorem snapshot_accepted_iff:
  assumes "four_digit_year p md"
  shows "(\<exists>r. applyWorkspaceSchedulerSettingsSnapshotInExecutor p (Date now) db w input md = Inr r) \<longleftrightarrow>
    i_algorithm input = ''fsrs-6''
    \<and> (\<exists>v. validateWorkspaceSchedulerSettingsInput (UpdateWorkspaceSchedulerSettingsInput.truncate input) = Inr v)
    \<and> (\<exists>row s. map_of (db_workspaces db) w = Some row \<and> mapWorkspaceSchedulerSettings row = Inr s)"
    (is "?L \<longleftrightarrow> ?R")
proof
  assume ?R
  then show ?L using apply_accepts [OF _ _ _ _ assms] by blast
next
  assume ?L
  then show ?R
    unfolding applyWorkspaceSchedulerSettingsSnapshotInExecutor_def lock_returns
    by (auto simp: res_simps split: if_split_asm option.split_asm)
qed

theorem snapshot_accepted_iff_witness:
  "\<exists>r. applyWorkspaceSchedulerSettingsSnapshotInExecutor host_dates (Date 2) sample_db ''w''
     (q_input (sample_request ''b'')) (q_metadata (sample_request ''b'')) = Inr r"
proof -
  have row: "map_of (db_workspaces sample_db) ''w'' = Some sample_row" by (simp add: sample_db_def)
  show ?thesis
    unfolding snapshot_accepted_iff [OF sample_request_dated]
    using row sample_row_mapped sample_request_valid by auto
qed

text \<open>
  The validation of the settings is the inverse of writing a configuration as an input: it
  returns a configuration exactly for the inputs that are the printed form of one with a retention
  strictly between 0 and 1 (or not a number, which both comparisons let through), a positive
  integer maximum interval, and two non-empty strictly increasing lists of minutes below 1440.
\<close>

theorem validation_roundtrip:
  "validateWorkspaceSchedulerSettingsInput input = Inr c \<longleftrightarrow> input = input_of_config c \<and> validated c"
proof
  assume v: "validateWorkspaceSchedulerSettingsInput input = Inr c"
  note f = validate_validated [OF v]
  have "input = input_of_config c"
    by (rule UpdateWorkspaceSchedulerSettingsInput.equality) (use f in \<open>simp_all add: input_of_config_def\<close>)
  with f(1) show "input = input_of_config c \<and> validated c" by blast
qed (use validate_input_of_config in blast)

text \<open>
  The change log stays well-formed, and after a change is recorded it is the latest change of
  its entity, while the latest change of every other entity is what it was.
\<close>

theorem recorded_change_is_latest:
  assumes "insertSyncChange p st w l et i a replica op stamp = Inr (c, st')" and "change_log_ok st"
  shows "change_log_ok st' \<and> findLatestSyncChangeId st' w' et' i' =
    (if (w', et', i') = (w, et, i) then Some c else findLatestSyncChangeId st w' et' i')"
  using insertSyncChange_log_ok [OF assms] findLatest_insert [OF assms] by blast

theorem recorded_change_is_latest_witness:
  "\<exists>c st'. insertSyncChange host_dates (db_sync sample_db) ''w'' \<lparr>lock_workspaceId = ''w''\<rparr> DeckEntity ''d'' Upsert
       ''a'' ''1'' ''now'' = Inr (c, st') \<and> findLatestSyncChangeId st' ''w'' DeckEntity ''d'' = Some c"
proof -
  obtain c st' where a: "insertSyncChange host_dates (db_sync sample_db) ''w'' \<lparr>lock_workspaceId = ''w''\<rparr> DeckEntity
      ''d'' Upsert ''a'' ''1'' ''now'' = Inr (c, st')"
    by (simp add: insertSyncChange_def normalizeIsoTimestamp_def host_dates_now)
  have "change_log_ok (db_sync sample_db)" by (simp add: change_log_ok_def sample_db_def)
  from recorded_change_is_latest [OF a this, of "''w''" DeckEntity "''d''"] a show ?thesis by simp
qed

end
