(* ===== verification/ReviewCards.thy ===== *)
theory ReviewCards
  imports FsrsSafety Lww
begin

text \<open>
  Cards as the database stores them: the consistency check of a stored FSRS state
  (\<open>cards/review/fsrs.ts\<close>), the card side of a submitted review (\<open>cards/review/reviews.ts\<close>: load the
  card for update, schedule, update the row), and the tag normalisation of \<open>cards/shared.ts\<close>.
\<close>

record CardRow =
  card_id :: string
  due_at :: "js_date option"
  r_reps :: int
  r_lapses :: int
  fsrs_card_state :: FsrsCardState
  fsrs_step_index :: "int option"
  fsrs_stability :: "jsnum option"
  fsrs_difficulty :: "jsnum option"
  fsrs_last_reviewed_at :: "js_date option"
  fsrs_scheduled_days :: "jsnum option"
  client_updated_at :: string
  last_modified_by_replica_id :: string
  last_operation_id :: string
  deleted :: bool

section \<open>The consistency check\<close>

definition hasNewCardFsrsValues :: "CardRow \<Rightarrow> bool" where
  "hasNewCardFsrsValues row \<longleftrightarrow> fsrs_step_index row \<noteq> None \<or> fsrs_stability row \<noteq> None
     \<or> fsrs_difficulty row \<noteq> None \<or> fsrs_last_reviewed_at row \<noteq> None \<or> fsrs_scheduled_days row \<noteq> None"

definition hasMissingReviewStateFsrsValues :: "CardRow \<Rightarrow> bool" where
  "hasMissingReviewStateFsrsValues row \<longleftrightarrow> fsrs_stability row = None \<or> fsrs_difficulty row = None
     \<or> fsrs_last_reviewed_at row = None \<or> fsrs_scheduled_days row = None"

definition getInvalidFsrsStateReason :: "CardRow \<Rightarrow> string option" where
  "getInvalidFsrsStateReason row =
     (if fsrs_card_state row = New then
        (if due_at row \<noteq> None then Some ''New card must not persist due_at''
         else if hasNewCardFsrsValues row then Some ''New card has persisted FSRS state''
         else None)
      else if hasMissingReviewStateFsrsValues row then Some ''Persisted FSRS card state is incomplete''
      else if fsrs_card_state row = Review \<and> fsrs_step_index row \<noteq> None
      then Some ''Review card must not persist fsrs_step_index''
      else if (fsrs_card_state row = Learning \<or> fsrs_card_state row = Relearning) \<and> fsrs_step_index row = None
      then Some ''Learning or relearning card is missing fsrs_step_index''
      else None)"

definition assertConsistentFsrsState :: "CardRow \<Rightarrow> unit result" where
  "assertConsistentFsrsState row = (case getInvalidFsrsStateReason row of
     Some invalidReason \<Rightarrow> Inl (Error invalidReason)
   | None \<Rightarrow> Inr ())"

definition toReviewableCardScheduleState :: "CardRow \<Rightarrow> ReviewableCardScheduleState" where
  "toReviewableCardScheduleState row = \<lparr>c_cardId = card_id row, c_reps = r_reps row, c_lapses = r_lapses row,
     c_state = fsrs_card_state row, c_stepIndex = fsrs_step_index row, c_stability = fsrs_stability row,
     c_difficulty = fsrs_difficulty row, c_lastReviewedAt = fsrs_last_reviewed_at row,
     c_scheduledDays = fsrs_scheduled_days row\<rparr>"

text \<open>The check of the row and the check of the scheduler agree, except for \<open>due_at\<close>.\<close>

lemma getInvalidFsrsStateReason_None_iff:
  "getInvalidFsrsStateReason row = None \<longleftrightarrow>
     consistent (toReviewableCardScheduleState row) \<and> (fsrs_card_state row = New \<longrightarrow> due_at row = None)"
  by (cases "fsrs_card_state row")
    (auto simp: getInvalidFsrsStateReason_def consistent_def toReviewableCardScheduleState_def
      hasNewCardFsrsValues_def hasMissingReviewStateFsrsValues_def)

section \<open>Submitting a review\<close>

definition loadReviewableCardForUpdate :: "(string \<times> CardRow) list \<Rightarrow> string \<Rightarrow> CardRow result" where
  "loadReviewableCardForUpdate cards cardId = (case map_of cards cardId of
     None \<Rightarrow> Inl (HttpError 404 ''Card not found'' None)
   | Some existingCard \<Rightarrow>
       if deleted existingCard then Inl (HttpError 404 ''Card not found'' None)
       else (case assertConsistentFsrsState existingCard of
         Inl (Error msg) \<Rightarrow> Inl (HttpError 500 (''Card '' @ cardId
           @ '' has invalid persisted FSRS state and cannot be reviewed: '' @ msg)
           (Some ''CARD_FSRS_STATE_INVALID''))
       | Inl e \<Rightarrow> Inl e
       | Inr _ \<Rightarrow> Inr existingCard))"

text \<open>The row \<open>UPDATE content.cards SET ...\<close> leaves.\<close>

definition reviewed_row :: "CardRow \<Rightarrow> ReviewSchedule \<Rightarrow> LwwMetadata \<Rightarrow> CardRow" where
  "reviewed_row row schedule metadata = row\<lparr>due_at := Some (s_dueAt schedule), r_reps := s_reps schedule,
     r_lapses := s_lapses schedule, fsrs_card_state := s_state schedule,
     fsrs_step_index := s_stepIndex schedule, fsrs_stability := Some (s_stability schedule),
     fsrs_difficulty := Some (s_difficulty schedule),
     fsrs_last_reviewed_at := Some (s_lastReviewedAt schedule),
     fsrs_scheduled_days := Some (s_scheduledDays schedule),
     client_updated_at := clientUpdatedAt metadata,
     last_modified_by_replica_id := lastModifiedByReplicaId metadata,
     last_operation_id := lastOperationId metadata\<rparr>"

record SubmitReviewInput =
  sr_cardId :: string
  sr_rating :: ReviewRating
  sr_reviewedAtClient :: string

text \<open>The card side of \<open>submitReview\<close>: its checks, the schedule, and the cards of the workspace after
  the transaction. The review event and the change it also records are not part of it.\<close>

definition submit_review_card ::
    "js_math \<Rightarrow> (string \<Rightarrow> js_date) \<Rightarrow> scheduler_config \<Rightarrow> (string \<times> CardRow) list \<Rightarrow> SubmitReviewInput
     \<Rightarrow> LwwMetadata \<Rightarrow> (ReviewSchedule \<times> (string \<times> CardRow) list) result" where
  "submit_review_card m p schedulerConfig cards input metadata = (let
     reviewedAtClient = new_date_text p (sr_reviewedAtClient input)
   in if get_time reviewedAtClient = NaN
      then Inl (HttpError 400 ''reviewedAtClient must be a valid ISO timestamp'' None)
      else rbind (normalizeIsoTimestamp p (clientUpdatedAt metadata) ''clientUpdatedAt'') (\<lambda>stamp. let
        normalizedMetadata = metadata\<lparr>clientUpdatedAt := stamp\<rparr>
      in rbind (loadReviewableCardForUpdate cards (sr_cardId input)) (\<lambda>existingCard.
         rbind (computeReviewSchedule m (toReviewableCardScheduleState existingCard) schedulerConfig
             (sr_rating input) reviewedAtClient) (\<lambda>schedule.
         Inr (schedule, map_set (sr_cardId input) (reviewed_row existingCard schedule normalizedMetadata) cards)))))"

lemma reviewed_row_state:
  "toReviewableCardScheduleState (reviewed_row row s md) = card_of_schedule (card_id row) s"
  by (simp add: toReviewableCardScheduleState_def reviewed_row_def card_of_schedule_def)

lemma loadReviewableCardForUpdate_Inr_iff:
  "loadReviewableCardForUpdate cards i = Inr row \<longleftrightarrow>
     map_of cards i = Some row \<and> \<not> deleted row \<and> getInvalidFsrsStateReason row = None"
  by (auto simp: loadReviewableCardForUpdate_def assertConsistentFsrsState_def split: option.splits)

lemma submit_review_card_Inr:
  assumes "submit_review_card m p settings cards input md = Inr (s, cards')"
  obtains row md' where "map_of cards (sr_cardId input) = Some row" and "\<not> deleted row"
    and "getInvalidFsrsStateReason row = None"
    and "computeReviewSchedule m (toReviewableCardScheduleState row) settings (sr_rating input)
      (new_date_text p (sr_reviewedAtClient input)) = Inr s"
    and "map_of cards' = (map_of cards)(sr_cardId input \<mapsto> reviewed_row row s md')"
  using assms
  by (auto simp: submit_review_card_def Let_def res_simps loadReviewableCardForUpdate_Inr_iff split: if_splits)

definition step_indexes_ok :: "CardRow \<Rightarrow> bool" where
  "step_indexes_ok row \<longleftrightarrow> step_index_ok (fsrs_step_index row)"

text \<open>A submitted review leaves a row the next review accepts.\<close>

lemma submit_review_card_keeps_valid:
  assumes "submit_review_card m p settings cards input md = Inr (s, cards')"
    and "\<forall>row. map_of cards (sr_cardId input) = Some row \<longrightarrow> step_indexes_ok row"
  shows "\<exists>row'. map_of cards' (sr_cardId input) = Some row' \<and> getInvalidFsrsStateReason row' = None
    \<and> step_indexes_ok row' \<and> toReviewableCardScheduleState row' = card_of_schedule (card_id row') s
    \<and> (\<forall>i. i \<noteq> sr_cardId input \<longrightarrow> map_of cards' i = map_of cards i)"
proof -
  obtain row md' where r: "map_of cards (sr_cardId input) = Some row" "getInvalidFsrsStateReason row = None"
    "computeReviewSchedule m (toReviewableCardScheduleState row) settings (sr_rating input)
      (new_date_text p (sr_reviewedAtClient input)) = Inr s"
    "map_of cards' = (map_of cards)(sr_cardId input \<mapsto> reviewed_row row s md')"
    by (rule submit_review_card_Inr [OF assms(1)])
  have "step_index_ok (fsrs_step_index row)" using assms(2) r(1) by (simp add: step_indexes_ok_def)
  then have "well_formed (toReviewableCardScheduleState row)"
    using r(2) unfolding getInvalidFsrsStateReason_None_iff
    by (simp add: well_formed_def toReviewableCardScheduleState_def)
  from computeReviewSchedule_output(2) [OF r(3) this, of "card_id row"]
  have wf: "well_formed (toReviewableCardScheduleState (reviewed_row row s md'))" by (simp add: reviewed_row_state)
  have "fsrs_card_state (reviewed_row row s md') \<noteq> New"
  proof -
    have "p_phase (progress_of_schedule s) \<noteq> PNew"
      using computeReviewSchedule_output(1) [OF r(3) \<open>well_formed (toReviewableCardScheduleState row)\<close>]
      by (cases "sr_rating input"; cases "p_phase (progress_of_card (toReviewableCardScheduleState row))")
        (simp_all add: progress_step_def)
    then show ?thesis by (cases "s_state s") (simp_all add: progress_of_schedule_def reviewed_row_def)
  qed
  with wf have "getInvalidFsrsStateReason (reviewed_row row s md') = None"
    by (simp add: getInvalidFsrsStateReason_None_iff well_formed_def)
  moreover have "step_indexes_ok (reviewed_row row s md')"
    using wf by (simp add: well_formed_def step_indexes_ok_def toReviewableCardScheduleState_def)
  moreover have "card_id (reviewed_row row s md') = card_id row" by (simp add: reviewed_row_def)
  ultimately show ?thesis using r(4) by (auto simp: reviewed_row_state)
qed

section \<open>The stored card is the replay of its reviews\<close>

definition submit_state ::
    "js_math \<Rightarrow> (string \<Rightarrow> js_date) \<Rightarrow> scheduler_config \<Rightarrow> (string \<times> CardRow) list \<Rightarrow> SubmitReviewInput \<times> LwwMetadata
     \<Rightarrow> (string \<times> CardRow) list result" where
  "submit_state m p settings cards rq =
     rbind (submit_review_card m p settings cards (fst rq) (snd rq)) (\<lambda>(_, cards'). Inr cards')"

lemma submit_state_Inr_iff:
  "submit_state m p settings cards rq = Inr cards' \<longleftrightarrow>
     (\<exists>s. submit_review_card m p settings cards (fst rq) (snd rq) = Inr (s, cards'))"
  by (auto simp: submit_state_def res_simps)

definition event_of_input :: "(string \<Rightarrow> js_date) \<Rightarrow> SubmitReviewInput \<Rightarrow> ReviewHistoryEvent" where
  "event_of_input p input = \<lparr>e_rating = sr_rating input, e_reviewedAt = new_date_text p (sr_reviewedAtClient input)\<rparr>"

definition rebuilt_of_row :: "CardRow \<Rightarrow> RebuiltCardScheduleState" where
  "rebuilt_of_row row = \<lparr>b_dueAt = due_at row, b_reps = r_reps row, b_lapses = r_lapses row,
     b_state = fsrs_card_state row, b_stepIndex = fsrs_step_index row, b_stability = fsrs_stability row,
     b_difficulty = fsrs_difficulty row, b_lastReviewedAt = fsrs_last_reviewed_at row,
     b_scheduledDays = fsrs_scheduled_days row\<rparr>"

lemma card_of_rebuilt_row: "card_of_rebuilt (card_id row) (rebuilt_of_row row) = toReviewableCardScheduleState row"
  by (simp add: card_of_rebuilt_def rebuilt_of_row_def toReviewableCardScheduleState_def)

lemma rebuilt_of_reviewed_row: "rebuilt_of_row (reviewed_row row s md) = rebuilt_of_schedule s"
  by (simp add: rebuilt_of_row_def reviewed_row_def rebuilt_of_schedule_def)

lemma submitted_card_is_replay:
  assumes "fold_r (submit_state m p settings) cards rqs = Inr cards'"
    and "\<forall>rq \<in> set rqs. sr_cardId (fst rq) = i"
    and "map_of cards i = Some row" and "card_id row = i"
    and "rebuildCardScheduleState m i settings evs = Inr (rebuilt_of_row row)"
  shows "\<exists>row'. map_of cards' i = Some row' \<and> rebuildCardScheduleState m i settings
      (evs @ map (\<lambda>rq. event_of_input p (fst rq)) rqs) = Inr (rebuilt_of_row row')"
  using assms
proof (induction rqs arbitrary: cards row evs)
  case Nil
  then show ?case by simp
next
  case (Cons rq rqs)
  from Cons.prems(1) obtain cards1 s where f: "fold_r (submit_state m p settings) cards1 rqs = Inr cards'"
    and s: "submit_review_card m p settings cards (fst rq) (snd rq) = Inr (s, cards1)"
    by (auto simp: submit_state_Inr_iff res_simps)
  have i: "sr_cardId (fst rq) = i" using Cons.prems(2) by simp
  obtain row1 md' where r: "map_of cards i = Some row1"
    "computeReviewSchedule m (toReviewableCardScheduleState row1) settings (sr_rating (fst rq))
      (new_date_text p (sr_reviewedAtClient (fst rq))) = Inr s"
    "map_of cards1 = (map_of cards)(i \<mapsto> reviewed_row row1 s md')"
    by (rule submit_review_card_Inr [OF s, unfolded i])
  have row1: "row1 = row" using r(1) Cons.prems(3) by simp
  have "rebuildCardScheduleState m i settings (evs @ [event_of_input p (fst rq)]) = Inr (rebuilt_of_schedule s)"
    unfolding rebuild_snoc Cons.prems(5) rbind_simps
    using r(2) Cons.prems(4) card_of_rebuilt_row [of row] row1 by (simp add: event_of_input_def)
  then have "rebuildCardScheduleState m i settings (evs @ [event_of_input p (fst rq)])
      = Inr (rebuilt_of_row (reviewed_row row1 s md'))" by (simp add: rebuilt_of_reviewed_row)
  moreover have "map_of cards1 i = Some (reviewed_row row1 s md')" using r(3) by simp
  moreover have "card_id (reviewed_row row1 s md') = i" using Cons.prems(4) row1 by (simp add: reviewed_row_def)
  moreover have "\<forall>rq \<in> set rqs. sr_cardId (fst rq) = i" using Cons.prems(2) by simp
  ultimately have "\<exists>row'. map_of cards' i = Some row' \<and> rebuildCardScheduleState m i settings
      ((evs @ [event_of_input p (fst rq)]) @ map (\<lambda>rq. event_of_input p (fst rq)) rqs) = Inr (rebuilt_of_row row')"
    by (intro Cons.IH [OF f])
  then show ?case by simp
qed

text \<open>A card that was just created.\<close>

definition fresh_row :: "string \<Rightarrow> CardRow \<Rightarrow> bool" where
  "fresh_row i row \<longleftrightarrow> card_id row = i \<and> rebuilt_of_row row = \<lparr>b_dueAt = None, b_reps = 0, b_lapses = 0,
     b_state = New, b_stepIndex = None, b_stability = None, b_difficulty = None, b_lastReviewedAt = None,
     b_scheduledDays = None\<rparr>"

lemma rebuild_Nil: "fresh_row i row \<Longrightarrow> rebuildCardScheduleState m i settings [] = Inr (rebuilt_of_row row)"
  by (simp add: fresh_row_def rebuildCardScheduleState_def)

section \<open>Tags\<close>

text \<open>The loop over \<open>tags\<close> with its set of tags already kept.\<close>

fun dedupe_tags :: "string list \<Rightarrow> string list \<Rightarrow> string list" where
  "dedupe_tags kept [] = kept"
| "dedupe_tags kept (tag # tags) =
     (if tag \<in> set kept then dedupe_tags kept tags else dedupe_tags (kept @ [tag]) tags)"

datatype LegacyEffortLevel = Fast | Medium | Long

fun effort_tag :: "LegacyEffortLevel \<Rightarrow> string" where
  "effort_tag Fast = ''fast''"
| "effort_tag Medium = ''medium''"
| "effort_tag Long = ''long''"

definition appendLegacyEffortTag :: "string list \<Rightarrow> LegacyEffortLevel option \<Rightarrow> string list" where
  "appendLegacyEffortTag tags legacyEffortLevel = (let dedupedTags = dedupe_tags [] tags in
     if legacyEffortLevel \<noteq> Some Medium \<and> legacyEffortLevel \<noteq> Some Long then dedupedTags
     else let tag = effort_tag (the legacyEffortLevel) in
       if tag \<in> set dedupedTags then dedupedTags else dedupedTags @ [tag])"

lemma dedupe_tags_props:
  "distinct kept \<Longrightarrow> distinct (dedupe_tags kept tags)"
  "set (dedupe_tags kept tags) = set kept \<union> set tags"
  "\<exists>rest. dedupe_tags kept tags = kept @ rest"
proof (induction tags arbitrary: kept)
  case (Cons tag tags)
  { case 1 then show ?case using Cons(1) by simp }
  { case 2 show ?case using Cons(2) [of kept] Cons(2) [of "kept @ [tag]"] by auto }
  { case 3 show ?case using Cons(3) [of kept] Cons(3) [of "kept @ [tag]"] by auto }
qed simp_all

end
