(* ===== verification/ReviewProperties.thy ===== *)
theory ReviewProperties
  imports ReviewCards
begin

text \<open>
  The properties of stored cards under submitted reviews, with a card that was just created as the
  witness.
\<close>

section \<open>Concrete inputs of the witnesses\<close>

definition clock_host :: "string \<Rightarrow> js_date" where
  "clock_host s = Date 1700000000000"

lemma clock_host_now: "new_date_text clock_host ''now'' = Date 1700000000000"
  by (simp add: new_date_text_def parse_iso_def clock_host_def iso_template_def fits_def)

definition new_card :: CardRow where
  "new_card = \<lparr>card_id = ''c'', due_at = None, r_reps = 0, r_lapses = 0, fsrs_card_state = New,
     fsrs_step_index = None, fsrs_stability = None, fsrs_difficulty = None, fsrs_last_reviewed_at = None,
     fsrs_scheduled_days = None, client_updated_at = ''then'', last_modified_by_replica_id = ''a'',
     last_operation_id = ''0'', deleted = False\<rparr>"

definition sample_submission :: "SubmitReviewInput \<times> LwwMetadata" where
  "sample_submission = (\<lparr>sr_cardId = ''c'', sr_rating = Good, sr_reviewedAtClient = ''now''\<rparr>,
     \<lparr>clientUpdatedAt = ''now'', lastModifiedByReplicaId = ''a'', lastOperationId = ''1''\<rparr>)"


lemma sample_submission_accepted:
  "\<exists>s cards. submit_review_card m clock_host defaultWorkspaceSchedulerConfig [(''c'', new_card)] (fst sample_submission)
     (snd sample_submission) = Inr (s, cards)"
proof -
  have c: "toReviewableCardScheduleState new_card = createEmptyReviewableCardScheduleState ''c''"
    by (simp add: toReviewableCardScheduleState_def new_card_def createEmptyReviewableCardScheduleState_def)
  have ne: "learningStepsMinutes defaultWorkspaceSchedulerConfig \<noteq> []" "relearningStepsMinutes defaultWorkspaceSchedulerConfig \<noteq> []"
    by (simp_all add: defaultWorkspaceSchedulerConfig_def)
  have "\<exists>s. computeReviewSchedule m (createEmptyReviewableCardScheduleState ''c'') defaultWorkspaceSchedulerConfig Good
      (Date 1700000000000) = Inr s"
    using ne well_formed_empty [of "''c''"]
    by (simp add: computeReviewSchedule_Inr_iff well_formed_def createEmptyReviewableCardScheduleState_def
        backwards_def getStepsForState_def)
  then obtain s where "computeReviewSchedule m (toReviewableCardScheduleState new_card) defaultWorkspaceSchedulerConfig Good
      (Date 1700000000000) = Inr s" unfolding c by blast
  moreover have "loadReviewableCardForUpdate [(''c'', new_card)] ''c'' = Inr new_card"
    by (simp add: loadReviewableCardForUpdate_Inr_iff getInvalidFsrsStateReason_def new_card_def hasNewCardFsrsValues_def)
  ultimately show ?thesis
    by (simp add: submit_review_card_def sample_submission_def clock_host_now normalizeIsoTimestamp_def Let_def)
qed

section \<open>Properties\<close>



text \<open>
  C18. A submitted review leaves a row that the next review accepts: its FSRS state passes the
  consistency check, it is the card the scheduler returned, and no other card changes.
\<close>

theorem submitted_review_keeps_valid:
  assumes "submit_review_card m p settings cards input md = Inr (s, cards')"
    and "\<forall>row. map_of cards (sr_cardId input) = Some row \<longrightarrow> step_indexes_ok row"
  shows "\<exists>row'. map_of cards' (sr_cardId input) = Some row' \<and> getInvalidFsrsStateReason row' = None
    \<and> step_indexes_ok row' \<and> toReviewableCardScheduleState row' = card_of_schedule (card_id row') s
    \<and> (\<forall>i. i \<noteq> sr_cardId input \<longrightarrow> map_of cards' i = map_of cards i)"
  by (rule submit_review_card_keeps_valid [OF assms])

theorem submitted_review_keeps_valid_witness:
  "\<exists>s cards' row'. submit_review_card coarse_math clock_host defaultWorkspaceSchedulerConfig [(''c'', new_card)]
       (fst sample_submission) (snd sample_submission) = Inr (s, cards')
     \<and> map_of cards' ''c'' = Some row' \<and> getInvalidFsrsStateReason row' = None"
proof -
  obtain s cards where a: "submit_review_card coarse_math clock_host defaultWorkspaceSchedulerConfig [(''c'', new_card)]
      (fst sample_submission) (snd sample_submission) = Inr (s, cards)"
    using sample_submission_accepted by blast
  have "\<forall>row. map_of [(''c'', new_card)] (sr_cardId (fst sample_submission)) = Some row \<longrightarrow> step_indexes_ok row"
    by (simp add: sample_submission_def new_card_def step_indexes_ok_def step_index_ok_def)
  from submitted_review_keeps_valid [OF a this] a show ?thesis by (auto simp: sample_submission_def)
qed

end
