(* ===== verification/LocalDates.thy ===== *)
theory LocalDates
  imports JsDateText
begin

text \<open>
  Local dates as text (\<open>assertLocalDate\<close>, \<open>createUtcDateFromLocalDate\<close>, \<open>shiftLocalDate\<close> of
  \<open>progress/streakFreeze.ts\<close>). A text the check accepts is the printed form of one calendar day of
  the years 100 to 9999 (\<open>Date.UTC\<close> maps the years 0 to 99 to the twentieth century, so the check
  refuses them), and shifting is addition on days, up to the last day of the year 9999.
\<close>

definition parseLocalDatePart :: "string \<Rightarrow> nat \<Rightarrow> nat \<Rightarrow> int option" where
  "parseLocalDatePart value start stop = parse_int (slice start stop value)"

definition local_date_error :: "string \<Rightarrow> js_error" where
  "local_date_error fieldName = Error (fieldName @ '' must be a YYYY-MM-DD date'')"

text \<open>\<open>new Date(Date.UTC(year, month - 1, day))\<close>: invalid when a part is not a number.\<close>

definition createUtcDateFromLocalDate :: "string \<Rightarrow> js_date" where
  "createUtcDateFromLocalDate value =
     (case (parseLocalDatePart value 0 4, parseLocalDatePart value 5 7, parseLocalDatePart value 8 10) of
        (Some year, Some month, Some day) \<Rightarrow> date_UTC year (month - 1) day
      | _ \<Rightarrow> InvalidDate)"

definition assertLocalDate :: "string \<Rightarrow> string \<Rightarrow> unit result" where
  "assertLocalDate value fieldName =
     (if \<not> fits local_date_template value then Inl (local_date_error fieldName)
      else (case (parseLocalDatePart value 0 4, parseLocalDatePart value 5 7, parseLocalDatePart value 8 10) of
        (Some year, Some month, Some day) \<Rightarrow>
          (case date_UTC year (month - 1) day of
             InvalidDate \<Rightarrow> Inl (local_date_error fieldName)
           | Date t \<Rightarrow> (if civil_of_day (utc_day t) \<noteq> (year, month - 1, day)
               then Inl (local_date_error fieldName) else Inr ()))
      | _ \<Rightarrow> Inl (local_date_error fieldName)))"

definition formatUtcDateAsLocalDate :: "js_date \<Rightarrow> string result" where
  "formatUtcDateAsLocalDate value = rbind (to_iso_string value) (\<lambda>s. Inr (slice 0 10 s))"

text \<open>\<open>date.setUTCDate(date.getUTCDate() + offsetDays)\<close>: the day of the month may overflow.\<close>

definition set_utc_date_by :: "js_date \<Rightarrow> int \<Rightarrow> js_date" where
  "set_utc_date_by date offsetDays = (case date of
     InvalidDate \<Rightarrow> InvalidDate
   | Date t \<Rightarrow> (case civil_of_day (utc_day t) of (y, mo, d) \<Rightarrow>
       time_clip (make_day y mo (d + offsetDays) * ms_per_day + t mod ms_per_day)))"

definition shiftLocalDate :: "string \<Rightarrow> int \<Rightarrow> string result" where
  "shiftLocalDate value offsetDays =
     formatUtcDateAsLocalDate (set_utc_date_by (createUtcDateFromLocalDate value) offsetDays)"

section \<open>Accepted texts are days\<close>

definition local_day :: "int \<Rightarrow> bool" where
  "local_day n \<longleftrightarrow> 100 \<le> year_from_day n \<and> year_from_day n \<le> 9999"

lemma local_day_iso: "local_day n \<Longrightarrow> iso_day n"
  by (simp add: local_day_def iso_day_def)

lemma civil_day_make: "civil_of_day n = (y, mo, d) \<Longrightarrow> make_day y mo d = n"
  by (rule civil_of_day_valid(2))

lemma local_date_split:
  assumes "fits local_date_template s"
  shows "s = slice 0 4 s @ ''-'' @ slice 5 7 s @ ''-'' @ slice 8 10 s"
    and "\<And>c. c \<in> set (slice 0 4 s) \<Longrightarrow> is_digit c" and "\<And>c. c \<in> set (slice 5 7 s) \<Longrightarrow> is_digit c"
    and "\<And>c. c \<in> set (slice 8 10 s) \<Longrightarrow> is_digit c" and "length s = 10"
proof -
  obtain a b c d e f g h i j where s: "s = [a, b, c, d, e, f, g, h, i, j]"
    and p: "is_digit a" "is_digit b" "is_digit c" "is_digit d" "e = CHR ''-''" "is_digit f" "is_digit g"
      "h = CHR ''-''" "is_digit i" "is_digit j"
    using assms by (auto simp: fits_def local_date_template_def list_all2_Cons1)
  show "s = slice 0 4 s @ ''-'' @ slice 5 7 s @ ''-'' @ slice 8 10 s" using p by (simp add: s slice_def)
  show "\<And>c. c \<in> set (slice 0 4 s) \<Longrightarrow> is_digit c" "\<And>c. c \<in> set (slice 5 7 s) \<Longrightarrow> is_digit c"
    "\<And>c. c \<in> set (slice 8 10 s) \<Longrightarrow> is_digit c" "length s = 10" using p by (auto simp: s slice_def)
qed

lemma local_date_parts:
  assumes "fits local_date_template s"
  shows "parseLocalDatePart s 0 4 = Some (field 0 4 s)" and "parseLocalDatePart s 5 7 = Some (field 5 7 s)"
    and "parseLocalDatePart s 8 10 = Some (field 8 10 s)"
proof -
  have l: "length s = 10" by (rule local_date_split(5) [OF assms])
  have "slice 0 4 s \<noteq> []" "slice 5 7 s \<noteq> []" "slice 8 10 s \<noteq> []"
    using l by (auto simp: slice_def simp flip: length_0_conv)
  then show "parseLocalDatePart s 0 4 = Some (field 0 4 s)" and "parseLocalDatePart s 5 7 = Some (field 5 7 s)"
    and "parseLocalDatePart s 8 10 = Some (field 8 10 s)"
    using local_date_split(2-4) [OF assms] by (simp_all add: parseLocalDatePart_def field_def parse_int_digits)
qed

lemma local_date_rebuild:
  assumes "fits local_date_template s"
  shows "s = pad 4 (nat (field 0 4 s)) @ ''-'' @ pad 2 (nat (field 5 7 s)) @ ''-'' @ pad 2 (nat (field 8 10 s))"
proof -
  have l: "length s = 10" by (rule local_date_split(5) [OF assms])
  have "pad 4 (dec_val 0 (slice 0 4 s)) = slice 0 4 s"
    using pad_dec_val [of "slice 0 4 s"] local_date_split(2) [OF assms] l by (simp add: slice_def)
  moreover have "pad 2 (dec_val 0 (slice 5 7 s)) = slice 5 7 s"
    using pad_dec_val [of "slice 5 7 s"] local_date_split(3) [OF assms] l by (simp add: slice_def)
  moreover have "pad 2 (dec_val 0 (slice 8 10 s)) = slice 8 10 s"
    using pad_dec_val [of "slice 8 10 s"] local_date_split(4) [OF assms] l by (simp add: slice_def)
  ultimately show ?thesis using local_date_split(1) [OF assms] by (simp add: field_def)
qed

lemma day_in_time_range: "\<bar>n\<bar> \<le> 100000000 \<Longrightarrow> time_clip (n * ms_per_day) = Date (n * ms_per_day)"
  by (simp add: time_clip_def max_time_def ms_per_day_def abs_le_iff)

lemma year_bounds_day: "0 \<le> year_from_day n \<Longrightarrow> year_from_day n \<le> 10000 \<Longrightarrow> \<bar>n\<bar> \<le> 4000000"
proof -
  assume y: "0 \<le> year_from_day n" "year_from_day n \<le> 10000"
  have "day_from_year 0 \<le> day_from_year (year_from_day n)"
    using day_from_year_mono [OF y(1)] y(1) by simp
  moreover have "day_from_year (year_from_day n + 1) \<le> day_from_year 10001"
    using day_from_year_mono [of "year_from_day n + 1" 10001] y(2) by simp
  moreover have "day_from_year 0 = - 719528" "day_from_year 10001 = 2933263" by (simp_all add: day_from_year_def)
  ultimately show "\<bar>n\<bar> \<le> 4000000" using year_from_day_bounds [of n] by linarith
qed

lemma utc_day_ms [simp]: "utc_day (n * ms_per_day) = n"
  by (simp add: utc_day_def ms_per_day_def)

lemma year_from_day_ge: "day_from_year y \<le> n \<Longrightarrow> y \<le> year_from_day n"
proof (rule ccontr)
  assume "day_from_year y \<le> n" "\<not> y \<le> year_from_day n"
  then have "day_from_year (year_from_day n + 1) \<le> day_from_year y" by (intro day_from_year_less) simp
  with \<open>day_from_year y \<le> n\<close> year_from_day_bounds [of n] show False by simp
qed

lemma date_UTC_day:
  assumes "civil_of_day n = (y, mo, d)" and "local_day n"
  shows "date_UTC y mo d = Date (n * ms_per_day)"
proof -
  have "100 \<le> y" using assms year_of_civil [OF assms(1)] by (simp add: local_day_def)
  moreover have "\<bar>n\<bar> \<le> 100000000" using year_bounds_day [of n] assms(2) by (simp add: local_day_def)
  ultimately show ?thesis
    by (simp add: date_UTC_def full_year_def civil_day_make [OF assms(1)] day_in_time_range)
qed

lemma iso_date_parts_parse:
  assumes "local_day n" and "civil_of_day n = (y, mo, d)"
  shows "parseLocalDatePart (iso_date n) 0 4 = Some y" and "parseLocalDatePart (iso_date n) 5 7 = Some (mo + 1)"
    and "parseLocalDatePart (iso_date n) 8 10 = Some d"
  using local_date_parts [OF iso_date_fits [OF local_day_iso [OF assms(1)]]]
    iso_date_fields [OF local_day_iso [OF assms(1)] assms(2), of "[]"]
  by simp_all

lemma createUtcDate_day: "local_day n \<Longrightarrow> createUtcDateFromLocalDate (iso_date n) = Date (n * ms_per_day)"
proof -
  assume n: "local_day n"
  obtain y mo d where c: "civil_of_day n = (y, mo, d)" using prod_cases3 by blast
  show ?thesis
    using date_UTC_day [OF c n] by (simp add: createUtcDateFromLocalDate_def iso_date_parts_parse [OF n c])
qed

lemma assertLocalDate_iff: "assertLocalDate s f = Inr () \<longleftrightarrow> (\<exists>n. local_day n \<and> s = iso_date n)"
proof
  assume ok: "assertLocalDate s f = Inr ()"
  then have fit: "fits local_date_template s" by (auto simp: assertLocalDate_def split: if_splits)
  let ?y = "field 0 4 s" and ?m = "field 5 7 s - 1" and ?d = "field 8 10 s"
  from ok obtain t where t: "date_UTC ?y ?m ?d = Date t" "civil_of_day (utc_day t) = (?y, ?m, ?d)"
    by (auto simp: assertLocalDate_def local_date_parts [OF fit] fit split: js_date.splits if_splits)
  let ?n = "utc_day t"
  have nn: "0 \<le> ?y" "0 \<le> field 5 7 s" "0 \<le> ?d" by (simp_all add: field_def)
  have "?y < 10 ^ 4"
    using dec_val_bound [of "slice 0 4 s"] local_date_split(2,5) [OF fit]
    by (simp add: field_def slice_def)
  then have y: "year_from_day ?n = ?y" "?y \<le> 9999" using year_of_civil [OF t(2)] by simp_all
  have "100 \<le> ?y"
  proof (rule ccontr)
    assume "\<not> 100 \<le> ?y"
    then have "date_UTC ?y ?m ?d = time_clip (make_day (1900 + ?y) ?m ?d * ms_per_day)"
      using nn by (simp add: date_UTC_def full_year_def)
    with t(1) have "t = make_day (1900 + ?y) ?m ?d * ms_per_day" by (simp add: time_clip_def split: if_splits)
    then have "?n = make_day (1900 + ?y) ?m ?d" by simp
    moreover have "day_from_year (1900 + ?y) \<le> make_day (1900 + ?y) ?m ?d"
      using civil_of_day_valid(1) [OF t(2)] month_offset_range(1) [of ?m "leap_year (1900 + ?y)"]
      by (simp add: valid_civil_def make_day_def Let_def)
    ultimately have "1900 + ?y \<le> year_from_day ?n" by (metis year_from_day_ge)
    with y(1) show False by simp
  qed
  with y have l: "local_day ?n" by (simp add: local_day_def)
  have "s = iso_date ?n"
    unfolding iso_date_layout(1) [OF local_day_iso [OF l] t(2)]
    by (subst local_date_rebuild [OF fit]) simp
  with l show "\<exists>n. local_day n \<and> s = iso_date n" by blast
next
  assume "\<exists>n. local_day n \<and> s = iso_date n"
  then obtain n where n: "local_day n" "s = iso_date n" by blast
  obtain y mo d where c: "civil_of_day n = (y, mo, d)" using prod_cases3 by blast
  show "assertLocalDate s f = Inr ()"
    using iso_date_fits [OF local_day_iso [OF n(1)]]
    by (simp add: assertLocalDate_def n(2) iso_date_parts_parse [OF n(1) c] date_UTC_day [OF c n(1)] c)
qed

section \<open>Shifting\<close>

lemma make_day_add: "make_day y mo (d + k) = make_day y mo d + k"
  by (simp add: make_day_def Let_def)

lemma shift_text:
  assumes "local_day n" and "\<bar>n + k\<bar> \<le> 100000000"
  shows "shiftLocalDate (iso_date n) k = Inr (slice 0 10 (iso_date (n + k) @ ''T'' @ iso_time 0))"
proof -
  obtain y mo d where c: "civil_of_day n = (y, mo, d)" using prod_cases3 by blast
  have "set_utc_date_by (Date (n * ms_per_day)) k = Date ((n + k) * ms_per_day)"
    using day_in_time_range [OF assms(2)]
    by (simp add: set_utc_date_by_def c make_day_add civil_day_make [OF c])
  moreover have "(n + k) * ms_per_day mod ms_per_day = 0" by simp
  moreover have "utc_day ((n + k) * ms_per_day) = n + k" by (rule utc_day_ms)
  ultimately show ?thesis
    by (simp only: shiftLocalDate_def createUtcDate_day [OF assms(1)] formatUtcDateAsLocalDate_def
        to_iso_string.simps rbind_simps)
qed

lemma shift_local_day:
  assumes "local_day n" and "iso_day (n + k)"
  shows "shiftLocalDate (iso_date n) k = Inr (iso_date (n + k))"
proof -
  have "\<bar>n + k\<bar> \<le> 100000000" using year_bounds_day [of "n + k"] assms(2) by (simp add: iso_day_def)
  moreover have "slice 0 10 (iso_date (n + k) @ c) = iso_date (n + k)" for c
    using length_iso_date [OF assms(2)] by (simp add: slice_def)
  ultimately show ?thesis using shift_text [OF assms(1)] by simp
qed

text \<open>The last day of the year 9999, and what shifting past it prints.\<close>

definition last_day :: int where
  "last_day = 2932896"

lemma local_day_last: "local_day n \<Longrightarrow> n \<le> last_day"
proof -
  assume "local_day n"
  then have "day_from_year (year_from_day n + 1) \<le> day_from_year 10000"
    using day_from_year_mono [of "year_from_day n + 1" 10000] by (simp add: local_day_def)
  moreover have "day_from_year 10000 = 2932897" by (simp add: day_from_year_def)
  ultimately show ?thesis using year_from_day_bounds [of n] by (simp add: last_day_def)
qed

lemma local_day_between: "local_day a \<Longrightarrow> a \<le> n \<Longrightarrow> n \<le> last_day \<Longrightarrow> local_day n"
proof -
  assume a: "local_day a" "a \<le> n" "n \<le> last_day"
  have "day_from_year 100 \<le> day_from_year (year_from_day a)"
    using day_from_year_mono [of 100 "year_from_day a"] a(1) by (simp add: local_day_def)
  then have "day_from_year 100 \<le> n" using year_from_day_bounds(1) [of a] a(2) by linarith
  then have "100 \<le> year_from_day n" by (rule year_from_day_ge)
  moreover have "year_from_day n \<le> 9999"
  proof (rule ccontr)
    assume "\<not> year_from_day n \<le> 9999"
    then have "day_from_year 10000 \<le> day_from_year (year_from_day n)"
      using day_from_year_mono [of 10000 "year_from_day n"] by simp
    moreover have "day_from_year 10000 = 2932897" by (simp add: day_from_year_def)
    ultimately show False using year_from_day_bounds(1) [of n] a(3) by (simp add: last_day_def)
  qed
  ultimately show "local_day n" by (simp add: local_day_def)
qed

lemma shift_next_day: "local_day a \<Longrightarrow> a < last_day \<Longrightarrow> shiftLocalDate (iso_date a) 1 = Inr (iso_date (a + 1))"
  using local_day_between [of a "a + 1"] by (intro shift_local_day local_day_iso) auto

lemma local_date_less: "local_day a \<Longrightarrow> local_day b \<Longrightarrow> iso_date a < iso_date b \<longleftrightarrow> a < b"
  by (simp add: iso_date_less local_day_iso)

lemma local_date_le: "local_day a \<Longrightarrow> local_day b \<Longrightarrow> iso_date a \<le> iso_date b \<longleftrightarrow> a \<le> b"
  using local_date_less [of b a] by (simp add: not_less [symmetric])

lemma local_date_inject: "local_day a \<Longrightarrow> local_day b \<Longrightarrow> iso_date a = iso_date b \<longleftrightarrow> a = b"
  by (simp add: iso_date_inject local_day_iso)

end
