(* ===== verification/StreakFreeze.thy ===== *)
theory StreakFreeze
  imports LocalDates
begin

text \<open>
  Streaks and their freezes (\<open>progress/streakFreeze.ts\<close>). The map \<open>statesByDate\<close> the code mutates is
  passed along with the state. The two loops walk over calendar dates as text; they are partial
  functions (\<open>None\<close> is a loop that never ends), since a date past the year 9999 sorts before every
  other and a loop that reaches it starts over.
\<close>

text \<open>A policy with fields of type \<open>'n\<close>: numbers as given, integers once validated.\<close>

record 'n StreakFreezePolicy =
  startCapacity :: 'n
  maxCapacity :: 'n
  unitsPerCredit :: 'n
  earnedUnitsPerStreakDay :: 'n

definition streakFreezePolicy :: "jsnum StreakFreezePolicy" where
  "streakFreezePolicy = \<lparr>startCapacity = num 2, maxCapacity = num 2, unitsPerCredit = num 10,
     earnedUnitsPerStreakDay = num 1\<rparr>"

datatype StreakDayState = Reviewed | Frozen | Missed | Pending

record StreakFreeze =
  sf_availableCredits :: int
  sf_capacity :: int
  sf_balanceUnits :: int
  sf_unitsPerCredit :: int
  sf_earnedUnitsPerStreakDay :: int
  sf_nextCreditProgressUnits :: int
  sf_nextCreditRequiredUnits :: int

record StreakFreezeEvaluation =
  ev_currentStreakDays :: int
  ev_longestStreakDays :: int
  ev_streakFreeze :: StreakFreeze
  ev_streakDays :: "(string \<times> StreakDayState) list"

record StreakComputationState =
  balanceUnits :: int
  currentStreakDays :: int
  longestStreakDays :: int
  hasActiveSegment :: bool
  lastEvaluatedDate :: "string option"

type_synonym policy = "int StreakFreezePolicy"
type_synonym states_by_date = "(string \<times> StreakDayState) list"
type_synonym computation = "StreakComputationState \<times> states_by_date"

text \<open>The integer a number is, for a number that is one.\<close>

fun int_of_num :: "jsnum \<Rightarrow> int" where
  "int_of_num (Num r) = \<lfloor>r\<rfloor>"
| "int_of_num _ = 0"

definition validateStreakFreezePolicy :: "jsnum StreakFreezePolicy \<Rightarrow> policy result" where
  "validateStreakFreezePolicy policy =
     (if \<not> is_integer (startCapacity policy) \<or> jlt (startCapacity policy) (num 0)
      then Inl (Error ''streak freeze startCapacity must be a non-negative integer'')
      else if \<not> is_integer (maxCapacity policy) \<or> jlt (maxCapacity policy) (num 0)
      then Inl (Error ''streak freeze maxCapacity must be a non-negative integer'')
      else if \<not> is_integer (unitsPerCredit policy) \<or> jle (unitsPerCredit policy) (num 0)
      then Inl (Error ''streak freeze unitsPerCredit must be a positive integer'')
      else if \<not> is_integer (earnedUnitsPerStreakDay policy) \<or> jlt (earnedUnitsPerStreakDay policy) (num 0)
      then Inl (Error ''streak freeze earnedUnitsPerStreakDay must be a non-negative integer'')
      else Inr \<lparr>startCapacity = int_of_num (startCapacity policy), maxCapacity = int_of_num (maxCapacity policy),
        unitsPerCredit = int_of_num (unitsPerCredit policy),
        earnedUnitsPerStreakDay = int_of_num (earnedUnitsPerStreakDay policy)\<rparr>)"

fun check_sorted :: "string option \<Rightarrow> string list \<Rightarrow> unit result" where
  "check_sorted previousDate [] = Inr ()"
| "check_sorted previousDate (reviewDate # dates) =
     rbind (assertLocalDate reviewDate ''active review local date'') (\<lambda>_.
       if (case previousDate of None \<Rightarrow> False | Some prev \<Rightarrow> reviewDate \<le> prev)
       then Inl (Error ''active review local dates must be sorted ascending without duplicates'')
       else check_sorted (Some reviewDate) dates)"

definition assertSortedActiveReviewLocalDates :: "string list \<Rightarrow> unit result" where
  "assertSortedActiveReviewLocalDates dates = check_sorted None dates"

section \<open>Balance\<close>

definition getMaximumBalanceUnits :: "policy \<Rightarrow> int" where
  "getMaximumBalanceUnits policy = maxCapacity policy * unitsPerCredit policy"

definition getInitialBalanceUnits :: "policy \<Rightarrow> int" where
  "getInitialBalanceUnits policy = min (startCapacity policy) (maxCapacity policy) * unitsPerCredit policy"

definition clampBalanceUnits :: "int \<Rightarrow> policy \<Rightarrow> int" where
  "clampBalanceUnits balance policy = min balance (getMaximumBalanceUnits policy)"

definition addStreakDayEarnedUnits :: "int \<Rightarrow> policy \<Rightarrow> int" where
  "addStreakDayEarnedUnits balance policy =
     clampBalanceUnits (balance + earnedUnitsPerStreakDay policy) policy"

definition getAvailableCredits :: "int \<Rightarrow> policy \<Rightarrow> int" where
  "getAvailableCredits balance policy = min (maxCapacity policy) (balance div unitsPerCredit policy)"

definition createStreakFreeze :: "int \<Rightarrow> policy \<Rightarrow> StreakFreeze" where
  "createStreakFreeze balance policy = (let
     clamped = clampBalanceUnits balance policy;
     available = getAvailableCredits clamped policy
   in \<lparr>sf_availableCredits = available, sf_capacity = maxCapacity policy, sf_balanceUnits = clamped,
       sf_unitsPerCredit = unitsPerCredit policy,
       sf_earnedUnitsPerStreakDay = earnedUnitsPerStreakDay policy,
       sf_nextCreditProgressUnits = (if maxCapacity policy \<le> available then 0 else clamped mod unitsPerCredit policy),
       sf_nextCreditRequiredUnits = unitsPerCredit policy\<rparr>)"

section \<open>One day\<close>

definition createInitialState :: "policy \<Rightarrow> StreakComputationState" where
  "createInitialState policy = \<lparr>balanceUnits = getInitialBalanceUnits policy, currentStreakDays = 0,
     longestStreakDays = 0, hasActiveSegment = False, lastEvaluatedDate = None\<rparr>"

definition addReviewedDay :: "policy \<Rightarrow> computation \<Rightarrow> string \<Rightarrow> computation" where
  "addReviewedDay policy c date = (case c of (state, statesByDate) \<Rightarrow> let
     balance = addStreakDayEarnedUnits
       (if hasActiveSegment state then balanceUnits state else getInitialBalanceUnits policy) policy;
     current = (if hasActiveSegment state then currentStreakDays state + 1 else 1)
   in (\<lparr>balanceUnits = balance, currentStreakDays = current,
        longestStreakDays = max (longestStreakDays state) current, hasActiveSegment = True,
        lastEvaluatedDate = Some date\<rparr>, map_set date Reviewed statesByDate))"

definition addFrozenDay :: "policy \<Rightarrow> computation \<Rightarrow> string \<Rightarrow> computation" where
  "addFrozenDay policy c date = (case c of (state, statesByDate) \<Rightarrow> let
     balanceAfterSpend = balanceUnits state - unitsPerCredit policy;
     balance = addStreakDayEarnedUnits balanceAfterSpend policy;
     current = currentStreakDays state + 1
   in (\<lparr>balanceUnits = balance, currentStreakDays = current,
        longestStreakDays = max (longestStreakDays state) current, hasActiveSegment = True,
        lastEvaluatedDate = Some date\<rparr>, map_set date Frozen statesByDate))"

definition addMissedDay :: "policy \<Rightarrow> computation \<Rightarrow> string \<Rightarrow> computation" where
  "addMissedDay policy c date = (case c of (state, statesByDate) \<Rightarrow>
     (\<lparr>balanceUnits = getInitialBalanceUnits policy, currentStreakDays = 0,
       longestStreakDays = longestStreakDays state, hasActiveSegment = False,
       lastEvaluatedDate = Some date\<rparr>, map_set date Missed statesByDate))"

definition addPendingDay :: "computation \<Rightarrow> string \<Rightarrow> computation" where
  "addPendingDay c date = (case c of (state, statesByDate) \<Rightarrow>
     (state\<lparr>lastEvaluatedDate := Some date\<rparr>, map_set date Pending statesByDate))"

definition addNonReviewedCompletedDay :: "policy \<Rightarrow> computation \<Rightarrow> string \<Rightarrow> computation" where
  "addNonReviewedCompletedDay policy c date =
     (if hasActiveSegment (fst c) \<and> 0 < getAvailableCredits (balanceUnits (fst c)) policy
      then addFrozenDay policy c date else addMissedDay policy c date)"

section \<open>The loops\<close>

text \<open>\<open>while (lastEvaluatedDate !== null && currentDate < nextReviewDate)\<close>.\<close>

partial_function (option) fill_before ::
    "policy \<Rightarrow> string \<Rightarrow> computation \<Rightarrow> string \<Rightarrow> computation result option" where
  "fill_before policy nextReviewDate c currentDate =
     (if lastEvaluatedDate (fst c) \<noteq> None \<and> currentDate < nextReviewDate
      then (case shiftLocalDate currentDate 1 of
          Inl e \<Rightarrow> Some (Inl e)
        | Inr next \<Rightarrow> fill_before policy nextReviewDate (addNonReviewedCompletedDay policy c currentDate) next)
      else Some (Inr c))"

definition addNonReviewedDaysBeforeReview :: "policy \<Rightarrow> computation \<Rightarrow> string \<Rightarrow> computation result option" where
  "addNonReviewedDaysBeforeReview policy c nextReviewDate = (case lastEvaluatedDate (fst c) of
     None \<Rightarrow> fill_before policy nextReviewDate c nextReviewDate
   | Some lastDate \<Rightarrow> (case shiftLocalDate lastDate 1 of
       Inl e \<Rightarrow> Some (Inl e)
     | Inr currentDate \<Rightarrow> fill_before policy nextReviewDate c currentDate))"

text \<open>\<open>while (currentDate <= today)\<close>.\<close>

partial_function (option) fill_through ::
    "policy \<Rightarrow> string \<Rightarrow> computation \<Rightarrow> string \<Rightarrow> computation result option" where
  "fill_through policy today c currentDate =
     (if currentDate \<le> today
      then (case shiftLocalDate currentDate 1 of
          Inl e \<Rightarrow> Some (Inl e)
        | Inr next \<Rightarrow> fill_through policy today
            (if currentDate = today then addPendingDay c currentDate
             else addNonReviewedCompletedDay policy c currentDate) next)
      else Some (Inr c))"

definition addTrailingDaysThroughToday :: "policy \<Rightarrow> computation \<Rightarrow> string \<Rightarrow> computation result option" where
  "addTrailingDaysThroughToday policy c today = (case lastEvaluatedDate (fst c) of
     None \<Rightarrow> fill_through policy today c today
   | Some lastDate \<Rightarrow> (case shiftLocalDate lastDate 1 of
       Inl e \<Rightarrow> Some (Inl e)
     | Inr currentDate \<Rightarrow> fill_through policy today c currentDate))"

declare fill_before.simps [code] fill_through.simps [code]

text \<open>The \<open>reduce\<close> over the review dates.\<close>

fun add_reviews :: "policy \<Rightarrow> computation \<Rightarrow> string list \<Rightarrow> computation result option" where
  "add_reviews policy c [] = Some (Inr c)"
| "add_reviews policy c (reviewDate # dates) =
     (case addNonReviewedDaysBeforeReview policy c reviewDate of
        None \<Rightarrow> None
      | Some (Inl e) \<Rightarrow> Some (Inl e)
      | Some (Inr c') \<Rightarrow> add_reviews policy (addReviewedDay policy c' reviewDate) dates)"

text \<open>\<open>localeCompare\<close> is the host's collation \<open>lc\<close>.\<close>

definition createStreakDays :: "(string \<Rightarrow> string \<Rightarrow> int) \<Rightarrow> states_by_date \<Rightarrow> (string \<times> StreakDayState) list" where
  "createStreakDays lc statesByDate = sort_by (\<lambda>a b. lc (fst a) (fst b)) statesByDate"

definition evaluateStreakFreeze ::
    "(string \<Rightarrow> string \<Rightarrow> int) \<Rightarrow> string list \<Rightarrow> string \<Rightarrow> jsnum StreakFreezePolicy
     \<Rightarrow> StreakFreezeEvaluation result option" where
  "evaluateStreakFreeze lc sortedActiveReviewLocalDates today rawPolicy =
     (case rbind (validateStreakFreezePolicy rawPolicy) (\<lambda>policy.
        rbind (assertLocalDate today ''today'') (\<lambda>_.
        rbind (assertSortedActiveReviewLocalDates sortedActiveReviewLocalDates) (\<lambda>_. Inr policy))) of
       Inl e \<Rightarrow> Some (Inl e)
     | Inr policy \<Rightarrow>
       (case add_reviews policy (createInitialState policy, [])
           (filter (\<lambda>reviewDate. reviewDate \<le> today) sortedActiveReviewLocalDates) of
          None \<Rightarrow> None
        | Some (Inl e) \<Rightarrow> Some (Inl e)
        | Some (Inr c) \<Rightarrow>
          (case addTrailingDaysThroughToday policy c today of
             None \<Rightarrow> None
           | Some (Inl e) \<Rightarrow> Some (Inl e)
           | Some (Inr (finalState, statesByDate)) \<Rightarrow> Some (Inr \<lparr>
               ev_currentStreakDays = currentStreakDays finalState,
               ev_longestStreakDays = longestStreakDays finalState,
               ev_streakFreeze = createStreakFreeze (balanceUnits finalState) policy,
               ev_streakDays = createStreakDays lc statesByDate\<rparr>))))"

end
