(* ===== verification/StreakFreezeSpec.thy ===== *)
theory StreakFreezeSpec
  imports StreakFreeze
begin

text \<open>
  What \<open>evaluateStreakFreeze\<close> computes, on calendar days instead of their texts: one step per day
  from the first review to today. Termination for every today before the last day of the year
  9999, the meaning of the current and the longest streak as runs of days, the bounds of the
  balance, and the loop that never ends on the last day of that year.
\<close>

section \<open>The day machine\<close>

definition day_step :: "policy \<Rightarrow> int set \<Rightarrow> int \<Rightarrow> computation \<Rightarrow> int \<Rightarrow> computation" where
  "day_step policy reviewed today c d =
     (if d \<in> reviewed then addReviewedDay policy c (iso_date d)
      else if d = today then addPendingDay c (iso_date d)
      else addNonReviewedCompletedDay policy c (iso_date d))"

text \<open>What a day becomes.\<close>

definition day_kind :: "policy \<Rightarrow> int set \<Rightarrow> int \<Rightarrow> StreakComputationState \<Rightarrow> int \<Rightarrow> StreakDayState" where
  "day_kind policy reviewed today st d =
     (if d \<in> reviewed then Reviewed else if d = today then Pending
      else if hasActiveSegment st \<and> 0 < getAvailableCredits (balanceUnits st) policy then Frozen else Missed)"

lemmas day_defs = day_step_def addReviewedDay_def addPendingDay_def addNonReviewedCompletedDay_def
  addFrozenDay_def addMissedDay_def

lemma day_step_state: "fst (day_step policy R T (st, m) d) = fst (day_step policy R T (st, []) d)"
  by (simp add: day_defs Let_def)

lemma day_step_states: "snd (day_step policy R T (st, m) d) = map_set (iso_date d) (day_kind policy R T st d) m"
  by (simp add: day_defs day_kind_def Let_def)

lemma day_step_last: "lastEvaluatedDate (fst (day_step policy R T c d)) = Some (iso_date d)"
  by (cases c) (simp add: day_defs Let_def)

fun day_states :: "policy \<Rightarrow> int set \<Rightarrow> int \<Rightarrow> StreakComputationState \<Rightarrow> int list \<Rightarrow> (int \<times> StreakDayState) list" where
  "day_states policy R T st [] = []"
| "day_states policy R T st (d # ds) =
     (d, day_kind policy R T st d) # day_states policy R T (fst (day_step policy R T (st, []) d)) ds"

definition day_run :: "policy \<Rightarrow> int set \<Rightarrow> int \<Rightarrow> StreakComputationState \<Rightarrow> int list \<Rightarrow> StreakComputationState" where
  "day_run policy R T st ds = foldl (\<lambda>st d. fst (day_step policy R T (st, []) d)) st ds"

lemma map_fst_day_states [simp]: "map fst (day_states policy R T st ds) = ds"
  by (induction ds arbitrary: st) simp_all

lemma day_states_append:
  "day_states policy R T st (ds @ es) = day_states policy R T st ds @ day_states policy R T (day_run policy R T st ds) es"
  by (induction ds arbitrary: st) (simp_all add: day_run_def)

definition dated_states :: "(int \<times> StreakDayState) list \<Rightarrow> states_by_date" where
  "dated_states ks = map (\<lambda>(d, k). (iso_date d, k)) ks"

lemma fold_day_step:
  assumes "distinct ds" and "\<forall>d \<in> set ds. local_day d \<and> iso_date d \<notin> fst ` set m"
  shows "foldl (day_step policy R T) (st, m) ds =
    (day_run policy R T st ds, m @ dated_states (day_states policy R T st ds))"
  using assms
proof (induction ds arbitrary: st m)
  case Nil
  then show ?case by (simp add: day_run_def dated_states_def)
next
  case (Cons d ds)
  let ?st = "fst (day_step policy R T (st, []) d)" and ?m = "m @ [(iso_date d, day_kind policy R T st d)]"
  have s: "day_step policy R T (st, m) d = (?st, ?m)"
    using day_step_state [of policy R T st m d] day_step_states [of policy R T st m d] Cons.prems(2)
      map_set_fresh [of "iso_date d" m]
    by (metis list.set_intros(1) prod.collapse)
  have "\<forall>e \<in> set ds. local_day e \<and> iso_date e \<notin> fst ` set ?m"
    using Cons.prems local_date_inject by (auto simp: )
  with Cons show ?case by (simp add: s day_run_def dated_states_def)
qed

section \<open>The loops walk over the days\<close>

abbreviation completed_days :: "policy \<Rightarrow> computation \<Rightarrow> int list \<Rightarrow> computation" where
  "completed_days policy \<equiv> foldl (\<lambda>c d. addNonReviewedCompletedDay policy c (iso_date d))"

lemma completed_last: "lastEvaluatedDate (fst (addNonReviewedCompletedDay policy c date)) = Some date"
  by (cases c) (simp add: day_defs Let_def)

lemma fill_before_days:
  assumes "local_day d" and "local_day n" and "d \<le> n" and "lastEvaluatedDate (fst c) \<noteq> None"
  shows "fill_before policy (iso_date n) c (iso_date d) = Some (Inr (completed_days policy c [d..n - 1]))"
  using assms
proof (induction "nat (n - d)" arbitrary: d c)
  case 0
  then have "d = n" by simp
  then show ?case by (subst fill_before.simps) simp
next
  case (Suc k)
  have less: "d < n" using Suc.hyps(2) by simp
  have d1: "local_day (d + 1)"
    using local_day_between [OF Suc.prems(1), of "d + 1"] local_day_last [OF Suc.prems(2)] less by simp
  have "d < last_day" using local_day_last [OF Suc.prems(2)] less by simp
  then have s: "shiftLocalDate (iso_date d) 1 = Inr (iso_date (d + 1))" by (rule shift_next_day [OF Suc.prems(1)])
  have "iso_date d < iso_date n" using local_date_less [OF Suc.prems(1,2)] less by simp
  moreover have "[d..n - 1] = d # [d + 1..n - 1]" using less by (simp add: upto_rec1)
  ultimately show ?case
    using Suc.hyps(1) [of "d + 1" "addNonReviewedCompletedDay policy c (iso_date d)"] Suc.hyps(2) Suc.prems less d1 completed_last
    by (subst fill_before.simps) (simp add: s)
qed

lemma fill_through_days:
  assumes "local_day d" and "local_day T" and "d \<le> T + 1" and "T < last_day"
  shows "fill_through policy (iso_date T) c (iso_date d) = Some (Inr (foldl (\<lambda>c d.
     if d = T then addPendingDay c (iso_date d) else addNonReviewedCompletedDay policy c (iso_date d)) c [d..T]))"
  using assms
proof (induction "nat (T + 1 - d)" arbitrary: d c)
  case 0
  then have "d = T + 1" by simp
  moreover from this have "\<not> iso_date d \<le> iso_date T" using local_date_le [OF 0(2,3)] by simp
  ultimately show ?case by (subst fill_through.simps) simp
next
  case (Suc k)
  have le: "d \<le> T" using Suc.hyps(2) by simp
  have d1: "local_day (d + 1)" using local_day_between [OF Suc.prems(1), of "d + 1"] Suc.prems(4) le by simp
  have s: "shiftLocalDate (iso_date d) 1 = Inr (iso_date (d + 1))"
    using shift_next_day [OF Suc.prems(1)] Suc.prems(4) le by simp
  have "iso_date d \<le> iso_date T" using local_date_le [OF Suc.prems(1,2)] le by simp
  moreover have "iso_date d = iso_date T \<longleftrightarrow> d = T" using local_date_inject [OF Suc.prems(1,2)] .
  moreover have "[d..T] = d # [d + 1..T]" using le by (simp add: upto_rec1)
  ultimately show ?case
    using Suc.hyps(1) [of "d + 1"] Suc.hyps(2) Suc.prems le d1
    by (subst fill_through.simps) (simp add: s)
qed

section \<open>The whole evaluation\<close>

text \<open>
  The reviews before a given day are folded with the days between them: reviewing a sorted list
  of days is stepping over all the days up to its last.
\<close>

lemma sorted_wrt_last: "sorted_wrt (<) xs \<Longrightarrow> x \<in> set xs \<Longrightarrow> x \<le> last xs" for x :: "'a :: linorder"
  by (induction xs) (auto intro: order_less_imp_le)

lemma foldl_cong_set: "(\<And>x c. x \<in> set xs \<Longrightarrow> f c x = g c x) \<Longrightarrow> foldl f c xs = foldl g c xs"
  by (induction xs arbitrary: c) simp_all

lemma add_reviews_days:
  assumes "sorted_wrt (<) ds" and "\<forall>d \<in> set ds. local_day d \<and> l < d \<and> d \<le> T" and "local_day l"
    and "lastEvaluatedDate (fst c) = Some (iso_date l)" and "set ds \<subseteq> R" and "\<forall>d \<in> R. d \<in> set ds \<or> d \<le> l"
  shows "\<exists>e. e = (if ds = [] then l else last ds) \<and> add_reviews policy c (map iso_date ds)
      = Some (Inr (foldl (day_step policy R T) c [l + 1..e]))"
  using assms
proof (induction ds arbitrary: c l)
  case Nil
  then show ?case by simp
next
  case (Cons d ds)
  have d: "local_day d" "l < d" "d \<le> T" using Cons.prems(2) by simp_all
  have "l < last_day" using local_day_last [OF d(1)] d(2) by simp
  then have s: "shiftLocalDate (iso_date l) 1 = Inr (iso_date (l + 1))" by (rule shift_next_day [OF Cons.prems(3)])
  have l1: "local_day (l + 1)"
    using local_day_between [OF Cons.prems(3), of "l + 1"] local_day_last [OF d(1)] d(2) by simp
  let ?c = "completed_days policy c [l + 1..d - 1]"
  have f: "addNonReviewedDaysBeforeReview policy c (iso_date d) = Some (Inr ?c)"
    using fill_before_days [OF l1 d(1), of c policy] d(2) Cons.prems(4)
    by (simp add: addNonReviewedDaysBeforeReview_def s)
  have mid: "?c = foldl (day_step policy R T) c [l + 1..d - 1]"
  proof (rule foldl_cong_set)
    fix x c' assume "x \<in> set [l + 1..d - 1]"
    then have x: "l < x" "x < d" by auto
    have "x \<notin> R"
    proof
      assume "x \<in> R"
      then have "x \<in> set (d # ds)" using Cons.prems(6) x by auto
      then show False using x Cons.prems(1) by auto
    qed
    then show "addNonReviewedCompletedDay policy c' (iso_date x) = day_step policy R T c' x"
      using x d(3) by (simp add: day_step_def)
  qed
  let ?c' = "addReviewedDay policy ?c (iso_date d)"
  have rev: "?c' = foldl (day_step policy R T) c [l + 1..d]"
    using Cons.prems(5) d(2) mid upto_rec2 [of "l + 1" d] by (simp add: day_step_def)
  have last: "lastEvaluatedDate (fst ?c') = Some (iso_date d)"
    by (simp add: addReviewedDay_def Let_def split: prod.split)
  have IH: "\<exists>e. e = (if ds = [] then d else last ds) \<and> add_reviews policy ?c' (map iso_date ds)
      = Some (Inr (foldl (day_step policy R T) ?c' [d + 1..e]))"
  proof (rule Cons.IH)
    show "sorted_wrt (<) ds" using Cons.prems(1) by simp
    show "\<forall>d' \<in> set ds. local_day d' \<and> d < d' \<and> d' \<le> T" using Cons.prems(1,2) by auto
    show "\<forall>x \<in> R. x \<in> set ds \<or> x \<le> d" using Cons.prems(6) d(2) by auto
  qed (use d last Cons.prems(5) in auto)
  let ?e = "if ds = [] then d else last ds"
  have "d \<le> ?e" using Cons.prems(1) last_in_set [of ds] by (auto intro: order_less_imp_le)
  then have "[l + 1..?e] = [l + 1..d] @ [d + 1..?e]"
    using upto_split2 [of "l + 1" d ?e] d(2) by simp
  with IH rev show ?case by (auto simp: f)
qed

lemma sort_by_id: "sorted_wrt (\<lambda>a b. cmp a b \<le> 0) xs \<Longrightarrow> sort_by cmp xs = xs"
proof (induction xs)
  case (Cons x xs)
  then show ?case by (cases xs) simp_all
qed simp

text \<open>The host's collation orders local dates as the days are ordered.\<close>

definition collates_dates :: "(string \<Rightarrow> string \<Rightarrow> int) \<Rightarrow> bool" where
  "collates_dates lc \<longleftrightarrow> (\<forall>a b. local_day a \<longrightarrow> local_day b \<longrightarrow> (lc (iso_date a) (iso_date b) \<le> 0 \<longleftrightarrow> a \<le> b))"

lemma createStreakDays_days:
  assumes "collates_dates lc" and "sorted_wrt (<) (map fst ks)" and "\<forall>d \<in> fst ` set ks. local_day d"
  shows "createStreakDays lc (dated_states ks) = dated_states ks"
  unfolding createStreakDays_def
proof (rule sort_by_id)
  have "sorted_wrt (\<lambda>a b. fst a < fst b) ks" using assms(2) by (simp add: sorted_wrt_map)
  then have "sorted_wrt (\<lambda>a b. lc (iso_date (fst a)) (iso_date (fst b)) \<le> 0) ks"
    by (rule sorted_wrt_mono_rel [rotated]) (use assms in \<open>auto simp: collates_dates_def\<close>)
  then show "sorted_wrt (\<lambda>a b. lc (fst a) (fst b) \<le> 0) (dated_states ks)"
    by (simp add: dated_states_def sorted_wrt_map case_prod_unfold)
qed

text \<open>The first evaluated day, and the result, in terms of days.\<close>

definition first_day :: "int list \<Rightarrow> int \<Rightarrow> int" where
  "first_day ds T = (case filter (\<lambda>d. d \<le> T) ds of [] \<Rightarrow> T | d # _ \<Rightarrow> d)"

lemma first_day_bounds:
  assumes "\<forall>d \<in> set ds. local_day d" and "local_day T"
  shows "first_day ds T \<le> T \<and> local_day (first_day ds T)"
proof (cases "filter (\<lambda>d. d \<le> T) ds")
  case Nil
  then show ?thesis using assms(2) by (simp add: first_day_def)
next
  case (Cons d es)
  then have "d \<in> set (filter (\<lambda>d. d \<le> T) ds)" by simp
  then have "d \<in> set ds" and "d \<le> T" by simp_all
  then show ?thesis using assms(1) Cons by (simp add: first_day_def)
qed

definition evaluation_of_days :: "policy \<Rightarrow> int list \<Rightarrow> int \<Rightarrow> StreakFreezeEvaluation" where
  "evaluation_of_days policy ds T = (let
     R = {d \<in> set ds. d \<le> T}; days = [first_day ds T..T];
     st = day_run policy R T (createInitialState policy) days
   in \<lparr>ev_currentStreakDays = currentStreakDays st, ev_longestStreakDays = longestStreakDays st,
       ev_streakFreeze = createStreakFreeze (balanceUnits st) policy,
       ev_streakDays = dated_states (day_states policy R T (createInitialState policy) days)\<rparr>)"

lemma check_sorted_days:
  assumes "sorted_wrt (<) ds" and "\<forall>d \<in> set ds. local_day d"
    and "\<forall>l. prev = Some l \<longrightarrow> (\<forall>d \<in> set ds. l < iso_date d)"
  shows "check_sorted prev (map iso_date ds) = Inr ()"
  using assms
proof (induction ds arbitrary: prev)
  case Nil
  then show ?case by simp
next
  case (Cons d ds)
  have "assertLocalDate (iso_date d) f = Inr ()" for f
    using Cons.prems(2) by (auto simp: assertLocalDate_iff)
  moreover have "check_sorted (Some (iso_date d)) (map iso_date ds) = Inr ()"
    using Cons.prems by (intro Cons.IH) (auto simp: local_date_less)
  moreover have "\<not> (case prev of None \<Rightarrow> False | Some l \<Rightarrow> iso_date d \<le> l)"
    using Cons.prems(3) by (auto simp: not_le split: option.split)
  ultimately show ?case by simp
qed

lemma trailing_days:
  assumes "local_day e" and "local_day T" and "e \<le> T" and "T < last_day"
    and "lastEvaluatedDate (fst c) = Some (iso_date e)" and "\<forall>d \<in> R. d \<le> e"
  shows "addTrailingDaysThroughToday policy c (iso_date T) = Some (Inr (foldl (day_step policy R T) c [e + 1..T]))"
proof -
  have e1: "local_day (e + 1)" using local_day_between [OF assms(1), of "e + 1"] assms(3,4) by simp
  have s: "shiftLocalDate (iso_date e) 1 = Inr (iso_date (e + 1))"
    using shift_next_day [OF assms(1)] assms(3,4) by simp
  have "foldl (\<lambda>c d. if d = T then addPendingDay c (iso_date d) else addNonReviewedCompletedDay policy c (iso_date d)) c [e + 1..T]
      = foldl (day_step policy R T) c [e + 1..T]"
    using assms(6) by (intro foldl_cong_set) (auto simp: day_step_def)
  with fill_through_days [OF e1 assms(2) _ assms(4), of policy c] assms(3,5) s show ?thesis
    by (simp add: addTrailingDaysThroughToday_def)
qed

lemma foldl_day_last:
  "lastEvaluatedDate (fst c) = Some (iso_date a) \<Longrightarrow> a \<le> b \<Longrightarrow>
   lastEvaluatedDate (fst (foldl (day_step policy R T) c [a + 1..b])) = Some (iso_date b)"
  using day_step_last by (cases "a = b") (simp_all add: upto_rec2 [of "a + 1" b])

lemma add_reviews_first:
  assumes "sorted_wrt (<) (d # ds)" and "\<forall>x \<in> set (d # ds). local_day x \<and> x \<le> T" and "R = set (d # ds)"
    and "lastEvaluatedDate st0 = None"
  shows "add_reviews policy (st0, []) (map iso_date (d # ds))
    = Some (Inr (foldl (day_step policy R T) (st0, []) [d..last (d # ds)]))"
proof -
  let ?c = "addReviewedDay policy (st0, []) (iso_date d)"
  have f: "addNonReviewedDaysBeforeReview policy (st0, []) (iso_date d) = Some (Inr (st0, []))"
    using assms(4) by (simp add: addNonReviewedDaysBeforeReview_def) (subst fill_before.simps, simp)
  have last: "lastEvaluatedDate (fst ?c) = Some (iso_date d)" by (simp add: addReviewedDay_def Let_def)
  have "\<exists>e. e = (if ds = [] then d else last ds) \<and> add_reviews policy ?c (map iso_date ds)
      = Some (Inr (foldl (day_step policy R T) ?c [d + 1..e]))"
    by (rule add_reviews_days) (use assms last in auto)
  moreover have "d \<le> last (d # ds)" using assms(1) last_in_set [of ds] by (auto intro: order_less_imp_le)
  moreover have "?c = day_step policy R T (st0, []) d" using assms(3) by (simp add: day_step_def)
  ultimately show ?thesis by (simp add: f upto_rec1 split: if_splits)
qed

lemma evaluateStreakFreeze_days:
  assumes "validateStreakFreezePolicy raw = Inr policy" and "sorted_wrt (<) ds" and "\<forall>d \<in> set ds. local_day d"
    and "local_day T" and "T < last_day" and "collates_dates lc"
  shows "evaluateStreakFreeze lc (map iso_date ds) (iso_date T) raw = Some (Inr (evaluation_of_days policy ds T))"
proof -
  let ?R = "{d \<in> set ds. d \<le> T}" and ?st0 = "createInitialState policy"
  let ?es = "filter (\<lambda>d. d \<le> T) ds" and ?a = "first_day ds T"
  let ?step = "day_step policy ?R T"
  have today: "assertLocalDate (iso_date T) f = Inr ()" for f using assms(4) by (auto simp: assertLocalDate_iff)
  have srt: "assertSortedActiveReviewLocalDates (map iso_date ds) = Inr ()"
    unfolding assertSortedActiveReviewLocalDates_def by (rule check_sorted_days [OF assms(2,3)]) simp
  have flt: "filter (\<lambda>s. s \<le> iso_date T) (map iso_date ds) = map iso_date ?es"
    unfolding filter_map o_def
    by (intro arg_cong [where f = "map iso_date"] filter_cong refl local_date_le) (simp_all add: assms(3,4))
  have st0: "lastEvaluatedDate ?st0 = None" by (simp add: createInitialState_def)
  have es: "sorted_wrt (<) ?es" "\<forall>x \<in> set ?es. local_day x \<and> x \<le> T" "?R = set ?es"
    using assms(2,3) by (auto intro: sorted_wrt_filter)
  have a: "?a \<le> T" "local_day ?a" using first_day_bounds [OF assms(3,4)] by simp_all
  have run: "\<exists>c. add_reviews policy (?st0, []) (map iso_date ?es) = Some (Inr c)
      \<and> addTrailingDaysThroughToday policy c (iso_date T) = Some (Inr (foldl ?step (?st0, []) [?a..T]))"
  proof (cases ?es)
    case Nil
    then have "?R = {}" using es(3) by simp
    then have R: "T \<notin> set ds" by blast
    have ft: "fill_through policy (iso_date T) (?st0, []) (iso_date T)
        = Some (Inr (foldl ?step (?st0, []) [T..T]))"
      using fill_through_days [OF assms(4,4) _ assms(5), of policy "(?st0, [])"] R by (simp add: day_step_def)
    show ?thesis
      using Nil ft st0 by (simp add: first_day_def addTrailingDaysThroughToday_def)
  next
    case (Cons d es)
    let ?e = "last (d # es)" and ?c = "foldl ?step (?st0, []) [d..last (d # es)]"
    have r: "add_reviews policy (?st0, []) (map iso_date ?es) = Some (Inr ?c)"
      unfolding Cons by (rule add_reviews_first [OF _ _ _ st0]) (use es Cons in auto)
    have de: "d \<le> ?e" using es(1) Cons last_in_set [of es] by (auto intro: order_less_imp_le)
    have eT: "local_day ?e" "?e \<le> T" using es(2) Cons last_in_set [of "d # es"] by (metis list.distinct(1))+
    have le: "\<forall>x \<in> ?R. x \<le> ?e"
    proof
      fix x assume "x \<in> ?R"
      then have "x \<in> set (d # es)" using es(3) Cons by auto
      then show "x \<le> ?e" using sorted_wrt_last [of "d # es" x] es(1) Cons by simp
    qed
    have last: "lastEvaluatedDate (fst ?c) = Some (iso_date ?e)"
      using de day_step_last by (simp add: upto_rec2 [of d])
    have "addTrailingDaysThroughToday policy ?c (iso_date T) = Some (Inr (foldl ?step ?c [?e + 1..T]))"
      by (rule trailing_days [OF eT(1) assms(4) eT(2) assms(5) last le])
    moreover have "[d..T] = [d..?e] @ [?e + 1..T]" using upto_split2 [of d ?e T] de eT by simp
    moreover have "?a = d" by (simp add: first_day_def Cons)
    ultimately show ?thesis using r by simp
  qed
  have days: "\<forall>d \<in> set [?a..T]. local_day d" using a local_day_between [OF a(2)] assms(5) by auto
  have f: "foldl ?step (?st0, []) [?a..T]
      = (day_run policy ?R T ?st0 [?a..T], dated_states (day_states policy ?R T ?st0 [?a..T]))"
    using fold_day_step [of "[?a..T]" "[]" policy ?R T ?st0] days by simp
  have "createStreakDays lc (dated_states (day_states policy ?R T ?st0 [?a..T]))
      = dated_states (day_states policy ?R T ?st0 [?a..T])"
  proof (rule createStreakDays_days [OF assms(6)])
    show "sorted_wrt (<) (map fst (day_states policy ?R T ?st0 [?a..T]))" by simp
    show "\<forall>d \<in> fst ` set (day_states policy ?R T ?st0 [?a..T]). local_day d"
      using days by (simp flip: set_map)
  qed
  with run f show ?thesis
    by (auto simp: evaluateStreakFreeze_def assms(1) today srt flt evaluation_of_days_def Let_def)
qed

end
