(* ===== verification/StreakMeaning.thy ===== *)
theory StreakMeaning
  imports StreakFreezeSpec "HOL-Library.Sublist"
begin

text \<open>
  What the numbers of a streak evaluation mean, in terms of the states of its days: the current
  streak is the run of kept days the evaluation ends in, the longest streak is the longest run
  anywhere, and the balance stays between nothing and the capacity. Also the one day on which
  the evaluation does not end.
\<close>

section \<open>Runs\<close>

abbreviation kept :: "StreakDayState \<Rightarrow> bool" where
  "kept k \<equiv> k = Reviewed \<or> k = Frozen"

text \<open>The kept days a history ends in; a pending day does not break the run, and does not count.\<close>

definition run_length :: "StreakDayState list \<Rightarrow> int" where
  "run_length ks = int (length (takeWhile kept (rev (filter (\<lambda>k. k \<noteq> Pending) ks))))"

definition longest_run :: "StreakDayState list \<Rightarrow> int" where
  "longest_run ks = Max (set (map run_length (prefixes ks)))"

lemma run_length_Nil [simp]: "run_length [] = 0"
  by (simp add: run_length_def)

lemma run_length_snoc [simp]:
  "run_length (ks @ [k]) = (if k = Pending then run_length ks else if kept k then run_length ks + 1 else 0)"
  by (cases k) (simp_all add: run_length_def)

lemma run_length_nonneg [simp]: "0 \<le> run_length ks"
  by (simp add: run_length_def)

lemma longest_run_Nil [simp]: "longest_run [] = 0"
  by (simp add: longest_run_def)

lemma longest_run_snoc: "longest_run (ks @ [k]) = max (longest_run ks) (run_length (ks @ [k]))"
proof -
  have "set (map run_length (prefixes (ks @ [k]))) = insert (run_length (ks @ [k])) (set (map run_length (prefixes ks)))"
    by (simp only: prefixes_snoc) simp
  moreover have "Max (insert a (set (map run_length (prefixes ks)))) = max a (Max (set (map run_length (prefixes ks))))" for a
    by (intro Max_insert) (auto simp: prefixes_not_Nil)
  ultimately show ?thesis unfolding longest_run_def by (simp only: max.commute)
qed

lemma run_length_longest: "run_length ks \<le> longest_run ks"
  by (cases ks rule: rev_cases) (simp_all add: longest_run_snoc del: run_length_snoc)

section \<open>The balance and the streak through the days\<close>

definition valid_policy :: "policy \<Rightarrow> bool" where
  "valid_policy policy \<longleftrightarrow> 0 \<le> startCapacity policy \<and> 0 \<le> maxCapacity policy
     \<and> 0 < unitsPerCredit policy \<and> 0 \<le> earnedUnitsPerStreakDay policy"

lemma validateStreakFreezePolicy_valid: "validateStreakFreezePolicy raw = Inr policy \<Longrightarrow> valid_policy policy"
  unfolding validateStreakFreezePolicy_def valid_policy_def
  by (cases "startCapacity raw"; cases "maxCapacity raw"; cases "unitsPerCredit raw";
      cases "earnedUnitsPerStreakDay raw")
    (auto simp: jle_def split: if_splits)

text \<open>A computation state and the day states it stands for.\<close>

definition streak_inv :: "policy \<Rightarrow> StreakComputationState \<Rightarrow> StreakDayState list \<Rightarrow> bool" where
  "streak_inv policy st ks \<longleftrightarrow> currentStreakDays st = run_length ks \<and> longestStreakDays st = longest_run ks
     \<and> (hasActiveSegment st \<longleftrightarrow> 0 < run_length ks)
     \<and> 0 \<le> balanceUnits st \<and> balanceUnits st \<le> getMaximumBalanceUnits policy"

lemma initial_balance_bounds:
  "valid_policy policy \<Longrightarrow> 0 \<le> getInitialBalanceUnits policy \<and> getInitialBalanceUnits policy \<le> getMaximumBalanceUnits policy"
  by (auto simp: valid_policy_def getInitialBalanceUnits_def getMaximumBalanceUnits_def intro!: mult_right_mono)

lemma earned_balance_bounds:
  "valid_policy policy \<Longrightarrow> 0 \<le> b \<Longrightarrow>
   0 \<le> addStreakDayEarnedUnits b policy \<and> addStreakDayEarnedUnits b policy \<le> getMaximumBalanceUnits policy"
  by (auto simp: valid_policy_def addStreakDayEarnedUnits_def clampBalanceUnits_def getMaximumBalanceUnits_def)

lemma credit_balance:
  assumes "valid_policy policy" and "0 < getAvailableCredits b policy"
  shows "unitsPerCredit policy \<le> b"
proof -
  have u: "0 < unitsPerCredit policy" using assms(1) by (simp add: valid_policy_def)
  then have "1 \<le> b div unitsPerCredit policy" using assms(2) by (auto simp: getAvailableCredits_def)
  then have "1 * unitsPerCredit policy \<le> b div unitsPerCredit policy * unitsPerCredit policy"
    using u by (intro mult_right_mono) simp_all
  also have "\<dots> \<le> b" using div_mult_mod_eq [of b "unitsPerCredit policy"] pos_mod_sign [OF u, of b] by linarith
  finally show ?thesis by simp
qed

lemma streak_step:
  assumes v: "valid_policy policy" and inv: "streak_inv policy st ks"
  shows "streak_inv policy (fst (day_step policy R T (st, []) d)) (ks @ [day_kind policy R T st d])"
proof -
  have st: "currentStreakDays st = run_length ks" "longestStreakDays st = longest_run ks"
    "hasActiveSegment st = (0 < run_length ks)" "0 \<le> balanceUnits st" "balanceUnits st \<le> getMaximumBalanceUnits policy"
    using inv by (simp_all add: streak_inv_def)
  note b = initial_balance_bounds [OF v] earned_balance_bounds [OF v]
  consider (reviewed) "d \<in> R" | (pending) "d \<notin> R" "d = T"
    | (frozen) "d \<notin> R" "d \<noteq> T" "0 < run_length ks" "0 < getAvailableCredits (balanceUnits st) policy"
    | (missed) "d \<notin> R" "d \<noteq> T" "\<not> (0 < run_length ks \<and> 0 < getAvailableCredits (balanceUnits st) policy)"
    by blast
  then show ?thesis
  proof cases
    case reviewed
    have "run_length ks = 0 \<or> 0 < run_length ks" using run_length_nonneg [of ks] by linarith
    with reviewed st b show ?thesis
      by (elim disjE) (simp_all add: day_step_def addReviewedDay_def day_kind_def streak_inv_def longest_run_snoc Let_def)
  next
    case pending
    with st run_length_longest [of ks] show ?thesis
      by (simp add: day_step_def addPendingDay_def day_kind_def streak_inv_def longest_run_snoc)
  next
    case frozen
    with st b credit_balance [OF v frozen(4)] show ?thesis
      by (simp add: day_step_def addNonReviewedCompletedDay_def addFrozenDay_def day_kind_def streak_inv_def
          longest_run_snoc Let_def)
  next
    case missed
    have "0 \<le> longest_run ks" using run_length_longest [of ks] run_length_nonneg [of ks] by linarith
    moreover have n: "\<not> (hasActiveSegment st \<and> 0 < getAvailableCredits (balanceUnits st) policy)"
      using missed(3) st(3) by simp
    have "day_step policy R T (st, []) d = addMissedDay policy (st, []) (iso_date d)"
      and "day_kind policy R T st d = Missed"
      using n missed(1,2) by (auto simp: day_step_def addNonReviewedCompletedDay_def day_kind_def)
    ultimately show ?thesis
      using st b by (simp add: addMissedDay_def streak_inv_def longest_run_snoc)
  qed
qed

lemma streak_inv_initial: "valid_policy policy \<Longrightarrow> streak_inv policy (createInitialState policy) []"
  using initial_balance_bounds by (simp add: streak_inv_def createInitialState_def)

lemma streak_inv_run:
  assumes "valid_policy policy"
  shows "streak_inv policy (day_run policy R T (createInitialState policy) ds)
    (map snd (day_states policy R T (createInitialState policy) ds))"
proof (induction ds rule: rev_induct)
  case Nil
  then show ?case using streak_inv_initial [OF assms] by (simp add: day_run_def)
next
  case (snoc d ds)
  then show ?case using streak_step [OF assms snoc.IH, of R T d] by (simp add: day_states_append day_run_def)
qed

section \<open>The evaluation\<close>

lemma evaluation_states:
  "map fst (ev_streakDays (evaluation_of_days policy ds T)) = map iso_date [first_day ds T..T]"
proof -
  have "map fst (dated_states ks) = map iso_date (map fst ks)" for ks
    by (simp add: dated_states_def case_prod_unfold o_def)
  then show ?thesis
    by (simp only: evaluation_of_days_def Let_def StreakFreezeEvaluation.simps map_fst_day_states)
qed

lemma evaluation_streaks:
  fixes T ds policy
  assumes "valid_policy policy"
  defines "ev \<equiv> evaluation_of_days policy ds T"
  shows "ev_currentStreakDays ev = run_length (map snd (ev_streakDays ev))"
    and "ev_longestStreakDays ev = longest_run (map snd (ev_streakDays ev))"
  using streak_inv_run [OF assms(1), of "{d \<in> set ds. d \<le> T}" T "[first_day ds T..T]"]
  by (simp_all add: ev_def evaluation_of_days_def Let_def dated_states_def streak_inv_def case_prod_unfold o_def)

lemma day_states_kind:
  "(d, k) \<in> set (day_states policy R T st ds) \<Longrightarrow>
   (k = Reviewed \<longleftrightarrow> d \<in> R) \<and> (k = Pending \<longleftrightarrow> d = T \<and> d \<notin> R)"
  by (induction ds arbitrary: st) (auto simp: day_kind_def split: if_splits)

lemma evaluation_kinds:
  assumes "(s, k) \<in> set (ev_streakDays (evaluation_of_days policy ds T))"
  obtains d where "s = iso_date d" "first_day ds T \<le> d" "d \<le> T"
    "k = Reviewed \<longleftrightarrow> d \<in> set ds" "k = Pending \<longleftrightarrow> d = T \<and> d \<notin> set ds"
proof -
  let ?dk = "day_states policy {d \<in> set ds. d \<le> T} T (createInitialState policy) [first_day ds T..T]"
  obtain d where d: "(d, k) \<in> set ?dk" "s = iso_date d"
    using assms by (auto simp: evaluation_of_days_def Let_def dated_states_def)
  then have "d \<in> fst ` set ?dk" by force
  then have "d \<in> {first_day ds T..T}" by (simp flip: set_map)
  with day_states_kind [OF d(1)] d(2) that show ?thesis by auto
qed

text \<open>The freeze that is reported.\<close>

lemma freeze_bounds:
  fixes b :: int
  assumes "valid_policy policy" and "0 \<le> b"
  defines "f \<equiv> createStreakFreeze b policy"
  shows "0 \<le> sf_availableCredits f \<and> sf_availableCredits f \<le> sf_capacity f
    \<and> 0 \<le> sf_nextCreditProgressUnits f \<and> sf_nextCreditProgressUnits f < sf_nextCreditRequiredUnits f
    \<and> sf_balanceUnits f = sf_availableCredits f * sf_unitsPerCredit f + sf_nextCreditProgressUnits f"
proof -
  let ?u = "unitsPerCredit policy" and ?m = "maxCapacity policy" and ?c = "clampBalanceUnits b policy"
  have u: "0 < ?u" "0 \<le> ?m" using assms(1) by (simp_all add: valid_policy_def)
  have c: "0 \<le> ?c" "?c \<le> ?m * ?u"
    using u assms(2) by (simp_all add: clampBalanceUnits_def getMaximumBalanceUnits_def)
  have q: "?c div ?u \<le> ?m" using zdiv_mono1 [OF c(2) u(1)] u by simp
  have "?c = ?m * ?u" if "?m \<le> ?c div ?u"
  proof -
    have "?m * ?u \<le> ?c div ?u * ?u" using that u(1) by (intro mult_right_mono) auto
    then show ?thesis using c div_mult_mod_eq [of ?c ?u] pos_mod_sign [OF u(1), of ?c] by linarith
  qed
  moreover have "0 \<le> ?c div ?u" using c(1) u(1) by (rule pos_imp_zdiv_nonneg_iff [THEN iffD2, rotated])
  ultimately show ?thesis
    using u q pos_mod_bound [OF u(1), of ?c] pos_mod_sign [OF u(1), of ?c] div_mult_mod_eq [of ?c ?u]
    unfolding f_def createStreakFreeze_def getAvailableCredits_def Let_def by auto
qed

lemma evaluation_freeze:
  assumes "valid_policy policy"
  obtains b where "0 \<le> b" "b \<le> getMaximumBalanceUnits policy"
    "ev_streakFreeze (evaluation_of_days policy ds T) = createStreakFreeze b policy"
  using streak_inv_run [OF assms, of "{d \<in> set ds. d \<le> T}" T "[first_day ds T..T]"]
  by (auto simp: evaluation_of_days_def Let_def streak_inv_def)

section \<open>The last day of the year 9999\<close>

text \<open>Every text the loop reaches from that day sorts no later than the day itself.\<close>

definition loop_date :: "string \<Rightarrow> bool" where
  "loop_date s \<longleftrightarrow> s = ''+010000-01'' \<or> (\<exists>d. local_day d \<and> s = iso_date d)"

lemma pad_eqI: "length s = w \<Longrightarrow> list_all is_digit s \<Longrightarrow> dec_val 0 s = n \<Longrightarrow> pad w n = s"
  using pad_dec_val [of s] by (auto simp: list_all_iff)

lemma boundary_pads:
  "pad 4 9999 = ''9999''" "pad 2 12 = ''12''" "pad 2 31 = ''31''" "pad 6 10000 = ''010000''" "pad 2 1 = ''01''"
  "pad 4 1909 = ''1909''" "pad 2 2 = ''02''"
  by (rule pad_eqI; simp add: is_digit_def digit_val_def)+

lemmas civil_defs = civil_of_day_def year_from_day_def Let_def day_from_year_def leap_year_def
  month_offset_def month_of_yday_def

lemma boundary_civil:
  "civil_of_day 2932896 = (9999, 11, 31)" "civil_of_day 2932897 = (10000, 0, 1)" "civil_of_day (- 21945) = (1909, 11, 2)"
  by (simp_all add: civil_defs)

lemma iso_last_day: "iso_date last_day = ''9999-12-31''"
  by (simp add: iso_date_def last_day_def boundary_civil iso_year_def boundary_pads del: pad.simps)

lemma local_last_day: "local_day last_day"
  using year_of_civil [OF boundary_civil(1)] by (simp add: local_day_def last_day_def)

lemma shift_past_last_day: "shiftLocalDate (iso_date last_day) 1 = Inr ''+010000-01''"
proof -
  have "iso_date (last_day + 1) = ''+010000-01-01''"
    by (simp add: iso_date_def last_day_def boundary_civil iso_year_def boundary_pads
        boundary_pads(5) [unfolded One_nat_def] del: pad.simps)
  moreover have "\<bar>last_day + 1\<bar> \<le> 100000000" by (simp add: last_day_def)
  ultimately show ?thesis using shift_text [OF local_last_day, of 1] by (simp add: slice_def eval_nat_numeral)
qed

lemma wrapped_parts:
  "parseLocalDatePart ''+010000-01'' 0 4 = Some 10" "parseLocalDatePart ''+010000-01'' 5 7 = Some 0"
  "parseLocalDatePart ''+010000-01'' 8 10 = Some 1"
  by code_simp+

text \<open>The year part of that text is \<open>+010\<close>, that is 10, and \<open>Date.UTC\<close> reads 10 as 1910.\<close>

lemma shift_wrapped: "\<exists>d. local_day d \<and> shiftLocalDate ''+010000-01'' 1 = Inr (iso_date d)"
proof -
  have c: "createUtcDateFromLocalDate ''+010000-01'' = Date (- 21946 * ms_per_day)"
    by (simp add: createUtcDateFromLocalDate_def wrapped_parts date_UTC_def full_year_def time_clip_def
        max_time_def ms_per_day_def make_day_def civil_defs)
  have l: "local_day (- 21946)" "local_day (- 21945)" by (simp_all add: local_day_def civil_defs)
  have "shiftLocalDate ''+010000-01'' 1 = shiftLocalDate (iso_date (- 21946)) 1"
    unfolding shiftLocalDate_def c createUtcDate_day [OF l(1)] ..
  also have "\<dots> = Inr (iso_date (- 21945))" using shift_next_day [OF l(1)] by (simp add: last_day_def)
  finally show ?thesis using l(2) by blast
qed

lemma loop_date_le: "loop_date s \<Longrightarrow> s \<le> iso_date last_day"
  using local_date_le [OF _ local_last_day] local_day_last
  by (auto simp: loop_date_def iso_last_day)

lemma loop_date_shift: "loop_date s \<Longrightarrow> \<exists>s'. loop_date s' \<and> shiftLocalDate s 1 = Inr s'"
proof -
  assume "loop_date s"
  then consider "s = ''+010000-01''" | d where "local_day d" "s = iso_date d" "d = last_day \<or> d < last_day"
    using local_day_last unfolding loop_date_def by force
  then show ?thesis
  proof cases
    case 1
    with shift_wrapped show ?thesis by (auto simp: loop_date_def)
  next
    case 2
    with shift_past_last_day shift_next_day [OF 2(1)] local_day_between [OF 2(1), of "d + 1"]
    show ?thesis by (auto simp: loop_date_def)
  qed
qed

lemma fill_through_diverges: "loop_date d \<Longrightarrow> fill_through policy (iso_date last_day) c d = None"
proof (rule ccontr)
  assume d: "loop_date d" and "fill_through policy (iso_date last_day) c d \<noteq> None"
  then obtain y where y: "fill_through policy (iso_date last_day) c d = Some y" by auto
  have "\<not> (loop_date d \<and> iso_date last_day = iso_date last_day)"
  proof (rule fill_through.raw_induct [OF _ y, where P = "\<lambda>_ t _ d _. \<not> (loop_date d \<and> t = iso_date last_day)"])
    fix f policy t c d y
    assume IH: "\<And>policy t c d y. f policy t c d = Some y \<Longrightarrow> \<not> (loop_date d \<and> t = iso_date last_day)"
      and b: "(if d \<le> t then case shiftLocalDate d 1 of Inl e \<Rightarrow> Some (Inl e)
        | Inr next \<Rightarrow> f policy t (if d = t then addPendingDay c d else addNonReviewedCompletedDay policy c d) next
        else Some (Inr c)) = Some y"
    show "\<not> (loop_date d \<and> t = iso_date last_day)"
    proof
      assume a: "loop_date d \<and> t = iso_date last_day"
      with loop_date_shift obtain s' where s': "loop_date s'" "shiftLocalDate d 1 = Inr s'" by blast
      have "d \<le> t" using loop_date_le a by simp
      with b s'(2) a IH [of policy t "if d = t then addPendingDay c d else addNonReviewedCompletedDay policy c d" s' y] s'(1)
      show False by simp
    qed
  qed
  with d show False by simp
qed

text \<open>On that day no evaluation returns, with any policy and with no review at all.\<close>

lemma evaluateStreakFreeze_diverges:
  assumes "validateStreakFreezePolicy raw = Inr policy"
  shows "evaluateStreakFreeze lc [] (iso_date last_day) raw = None"
proof -
  have "assertLocalDate (iso_date last_day) f = Inr ()" for f
    using local_last_day by (auto simp: assertLocalDate_iff)
  moreover have "loop_date (iso_date last_day)" using local_last_day by (auto simp: loop_date_def)
  ultimately show ?thesis
    by (simp add: evaluateStreakFreeze_def assms assertSortedActiveReviewLocalDates_def
        addTrailingDaysThroughToday_def createInitialState_def fill_through_diverges)
qed

end
