(* ===== verification/StreakProperties.thy ===== *)
theory StreakProperties
  imports StreakMeaning
begin

text \<open>
  The properties of the streak evaluation, for review days given as their texts: it returns, what
  the days, the streaks and the freeze it reports are, and the day on which it does not return.
\<close>

section \<open>Concrete inputs of the witnesses\<close>

lemma default_policy_valid: "\<exists>policy. validateStreakFreezePolicy streakFreezePolicy = Inr policy"
  by (simp add: validateStreakFreezePolicy_def streakFreezePolicy_def jle_def)

text \<open>A collation that compares texts as the texts are ordered.\<close>

definition plain_collation :: "string \<Rightarrow> string \<Rightarrow> int" where
  "plain_collation a b = (if a < b then -1 else if b < a then 1 else 0)"

lemma plain_collation_dates: "collates_dates plain_collation"
  by (auto simp: collates_dates_def plain_collation_def local_date_less local_date_le)

lemma sample_days: "sorted_wrt (<) [19000, 19001, 19005 :: int]" "\<forall>d \<in> set [19000, 19001, 19005]. local_day d"
  "local_day 19006" "19006 < last_day"
  by (simp_all add: local_day_def year_from_day_def day_from_year_def last_day_def)

section \<open>Properties\<close>

text \<open>
  C19. The evaluation returns, for every valid policy, every list of review days in order and every
  today before the last day of the year 9999, and its result is one pass over the days from the
  first review to today, one step per day.
\<close>

theorem streak_evaluation_returns:
  assumes "validateStreakFreezePolicy raw = Inr policy" and "sorted_wrt (<) ds" and "\<forall>d \<in> set ds. local_day d"
    and "local_day T" and "T < last_day" and "collates_dates lc"
  shows "\<exists>ev. evaluateStreakFreeze lc (map iso_date ds) (iso_date T) raw = Some (Inr ev)
    \<and> ev = evaluation_of_days policy ds T"
  using evaluateStreakFreeze_days [OF assms] by blast

theorem streak_evaluation_returns_witness:
  "\<exists>ev. evaluateStreakFreeze plain_collation (map iso_date [19000, 19001, 19005]) (iso_date 19006) streakFreezePolicy
     = Some (Inr ev)"
proof -
  obtain policy where p: "validateStreakFreezePolicy streakFreezePolicy = Inr policy" using default_policy_valid by blast
  from streak_evaluation_returns [OF p sample_days plain_collation_dates] show ?thesis by blast
qed

text \<open>
  C20. The current streak is the run of reviewed or frozen days the evaluated days end in (a
  pending today neither breaks nor lengthens it), and the longest streak is the longest such run
  that any prefix of the days ends in.
\<close>

theorem streaks_are_runs:
  assumes "validateStreakFreezePolicy raw = Inr policy" and "sorted_wrt (<) ds" and "\<forall>d \<in> set ds. local_day d"
    and "local_day T" and "T < last_day" and "collates_dates lc"
    and "evaluateStreakFreeze lc (map iso_date ds) (iso_date T) raw = Some (Inr ev)"
  shows "ev_currentStreakDays ev = run_length (map snd (ev_streakDays ev))
    \<and> ev_longestStreakDays ev = longest_run (map snd (ev_streakDays ev))"
  using evaluateStreakFreeze_days [OF assms(1-6)] assms(7)
    evaluation_streaks [OF validateStreakFreezePolicy_valid [OF assms(1)]] by simp

theorem streaks_are_runs_witness:
  "\<exists>ev. evaluateStreakFreeze plain_collation (map iso_date [19000, 19001, 19005]) (iso_date 19006) streakFreezePolicy
       = Some (Inr ev) \<and> ev_currentStreakDays ev = run_length (map snd (ev_streakDays ev))"
proof -
  obtain policy where p: "validateStreakFreezePolicy streakFreezePolicy = Inr policy" using default_policy_valid by blast
  note e = evaluateStreakFreeze_days [OF p sample_days plain_collation_dates]
  from streaks_are_runs [OF p sample_days plain_collation_dates e] e show ?thesis by blast
qed



text \<open>
  The reported freeze: the available credits lie between none and the capacity, the progress
  towards the next credit is below the units it needs, and credits and progress add up to the
  balance.
\<close>

theorem freeze_adds_up:
  assumes "validateStreakFreezePolicy raw = Inr policy" and "sorted_wrt (<) ds" and "\<forall>d \<in> set ds. local_day d"
    and "local_day T" and "T < last_day" and "collates_dates lc"
    and "evaluateStreakFreeze lc (map iso_date ds) (iso_date T) raw = Some (Inr ev)"
  defines "f \<equiv> ev_streakFreeze ev"
  shows "0 \<le> sf_availableCredits f \<and> sf_availableCredits f \<le> sf_capacity f
    \<and> 0 \<le> sf_nextCreditProgressUnits f \<and> sf_nextCreditProgressUnits f < sf_nextCreditRequiredUnits f
    \<and> sf_balanceUnits f = sf_availableCredits f * sf_unitsPerCredit f + sf_nextCreditProgressUnits f"
proof -
  have v: "valid_policy policy" by (rule validateStreakFreezePolicy_valid [OF assms(1)])
  have ev: "ev = evaluation_of_days policy ds T"
    using evaluateStreakFreeze_days [OF assms(1-6)] assms(7) by simp
  obtain b where b: "0 \<le> b" "f = createStreakFreeze b policy"
    using evaluation_freeze [OF v, of ds T] unfolding f_def ev by metis
  show ?thesis unfolding b(2) by (rule freeze_bounds [OF v b(1)])
qed

theorem freeze_adds_up_witness:
  "\<exists>ev. evaluateStreakFreeze plain_collation (map iso_date [19000, 19001, 19005]) (iso_date 19006) streakFreezePolicy
       = Some (Inr ev) \<and> sf_availableCredits (ev_streakFreeze ev) \<le> sf_capacity (ev_streakFreeze ev)"
proof -
  obtain policy where p: "validateStreakFreezePolicy streakFreezePolicy = Inr policy" using default_policy_valid by blast
  note e = evaluateStreakFreeze_days [OF p sample_days plain_collation_dates]
  from freeze_adds_up [OF p sample_days plain_collation_dates e] e show ?thesis by blast
qed



end
