(* ===== verification/DueAt.thy ===== *)
theory DueAt
  imports LocalDates
begin

text \<open>
  Due dates as the web client stores them (\<open>appData/domain/dueAt.ts\<close>): texts matched against the
  pattern of the file, read as a number of milliseconds, and printed again for the server. The
  calendar check of the code builds a date with \<open>Date.UTC\<close>, which moves the years 0 to 99 to the
  twentieth century, and moves the year back; the lemmas say which dates survive that.
\<close>

section \<open>The pattern\<close>

record due_at_match =
  yearText :: string
  monthText :: string
  dayText :: string
  hourText :: string
  minuteText :: string
  secondText :: string
  fractionText :: "string option"
  offsetText :: string

definition due_at_template :: string where
  "due_at_template = ''9999-99-99T99:99:99''"

text \<open>\<open>(Z|[+-]\d{2}:\d{2})$\<close>.\<close>

definition is_offset :: "string \<Rightarrow> bool" where
  "is_offset s \<longleftrightarrow> s = ''Z'' \<or> fits ''+99:99'' s \<or> fits ''-99:99'' s"

text \<open>\<open>(?:\.(\d+))?\<close>, and what follows it.\<close>

definition split_fraction :: "string \<Rightarrow> string option \<times> string" where
  "split_fraction s = (case s of
     c # r \<Rightarrow> if c = CHR ''.'' \<and> takeWhile is_digit r \<noteq> [] then (Some (takeWhile is_digit r), dropWhile is_digit r)
       else (None, s)
   | [] \<Rightarrow> (None, s))"

definition dueAtTimestampPattern :: "string \<Rightarrow> due_at_match option" where
  "dueAtTimestampPattern s = (let (fraction, offset) = split_fraction (drop 19 s) in
     if fits due_at_template (take 19 s) \<and> is_offset offset
     then Some \<lparr>yearText = slice 0 4 s, monthText = slice 5 7 s, dayText = slice 8 10 s, hourText = slice 11 13 s,
       minuteText = slice 14 16 s, secondText = slice 17 19 s, fractionText = fraction, offsetText = offset\<rparr>
     else None)"

section \<open>Parts\<close>

definition parseIntegerPart :: "string \<Rightarrow> int result" where
  "parseIntegerPart value = (case parse_int value of
     None \<Rightarrow> Inl (Error (''Timestamp part is not numeric: '' @ value))
   | Some n \<Rightarrow> Inr n)"

definition pad_end :: "nat \<Rightarrow> char \<Rightarrow> string \<Rightarrow> string" where
  "pad_end n c s = s @ replicate (n - length s) c"

definition parseMillisecondPart :: "string option \<Rightarrow> int result" where
  "parseMillisecondPart fractionalSecond = (case fractionalSecond of
     None \<Rightarrow> Inr 0
   | Some f \<Rightarrow> parseIntegerPart (slice 0 3 (pad_end 3 (CHR ''0'') f)))"

definition parseOffsetMilliseconds :: "string \<Rightarrow> int option result" where
  "parseOffsetMilliseconds offset =
     (if offset = ''Z'' then Inr (Some 0)
      else rbind (parseIntegerPart (slice 1 3 offset)) (\<lambda>hour.
           rbind (parseIntegerPart (slice 4 6 offset)) (\<lambda>minute.
           if 23 < hour \<or> 59 < minute then Inr None
           else let offsetMilliseconds = (hour * 60 + minute) * 60 * 1000
             in Inr (Some (if slice 0 1 offset = ''-'' then - offsetMilliseconds else offsetMilliseconds)))))"

record ParsedDueAtParts =
  d_year :: int
  d_month :: int
  d_day :: int
  d_hour :: int
  d_minute :: int
  d_second :: int
  d_millisecond :: int
  d_offsetMilliseconds :: int

text \<open>The time of day in milliseconds, and \<open>setUTCFullYear\<close> on the time \<open>t\<close>.\<close>

definition time_of_day :: "int \<Rightarrow> int \<Rightarrow> int \<Rightarrow> int \<Rightarrow> int" where
  "time_of_day h mi s ms = ((h * 60 + mi) * 60 + s) * 1000 + ms"

definition set_utc_full_year :: "int \<Rightarrow> int \<Rightarrow> int" where
  "set_utc_full_year y t = (case civil_of_day (utc_day t) of (_, mo, d) \<Rightarrow>
     make_day y mo d * ms_per_day + t mod ms_per_day)"

definition makeUtcTimestamp :: "ParsedDueAtParts \<Rightarrow> int option" where
  "makeUtcTimestamp parts =
     (if d_month parts < 1 \<or> 12 < d_month parts \<or> d_day parts < 1 \<or> 23 < d_hour parts \<or> 59 < d_minute parts
        \<or> 59 < d_second parts
      then None
      else let
        utcDate = make_day (full_year (d_year parts)) (d_month parts - 1) (d_day parts) * ms_per_day
          + time_of_day (d_hour parts) (d_minute parts) (d_second parts) (d_millisecond parts);
        utcDate = set_utc_full_year (d_year parts) utcDate;
        ms = utcDate mod ms_per_day
      in if civil_of_day (utc_day utcDate) \<noteq> (d_year parts, d_month parts - 1, d_day parts)
           \<or> ms div 3600000 \<noteq> d_hour parts \<or> ms div 60000 mod 60 \<noteq> d_minute parts
           \<or> ms div 1000 mod 60 \<noteq> d_second parts \<or> ms mod 1000 \<noteq> d_millisecond parts
         then None
         else Some (utcDate - d_offsetMilliseconds parts))"

definition parseDueAtMillis :: "string \<Rightarrow> int option result" where
  "parseDueAtMillis dueAt = (case dueAtTimestampPattern dueAt of
     None \<Rightarrow> Inr None
   | Some match \<Rightarrow>
       rbind (parseOffsetMilliseconds (offsetText match)) (\<lambda>offsetMilliseconds.
       case offsetMilliseconds of
         None \<Rightarrow> Inr None
       | Some offset \<Rightarrow>
           rbind (parseIntegerPart (yearText match)) (\<lambda>year.
           rbind (parseIntegerPart (monthText match)) (\<lambda>month.
           rbind (parseIntegerPart (dayText match)) (\<lambda>day.
           rbind (parseIntegerPart (hourText match)) (\<lambda>hour.
           rbind (parseIntegerPart (minuteText match)) (\<lambda>minute.
           rbind (parseIntegerPart (secondText match)) (\<lambda>second.
           rbind (parseMillisecondPart (fractionText match)) (\<lambda>millisecond.
           Inr (makeUtcTimestamp \<lparr>d_year = year, d_month = month, d_day = day, d_hour = hour,
             d_minute = minute, d_second = second, d_millisecond = millisecond,
             d_offsetMilliseconds = offset\<rparr>))))))))))"

section \<open>Buckets and the text sent to the server\<close>

definition nullDueAtBucketMillis :: int where
  "nullDueAtBucketMillis = - (2 ^ 53 - 1)"

definition malformedDueAtBucketMillis :: int where
  "malformedDueAtBucketMillis = - (2 ^ 53 - 1) + 1"

definition deriveDueAtMillis :: "string option \<Rightarrow> int option result" where
  "deriveDueAtMillis dueAt = (case dueAt of None \<Rightarrow> Inr None | Some s \<Rightarrow> parseDueAtMillis s)"

definition deriveDueAtBucketMillis :: "string option \<Rightarrow> int result" where
  "deriveDueAtBucketMillis dueAt = (case dueAt of
     None \<Rightarrow> Inr nullDueAtBucketMillis
   | Some s \<Rightarrow> rbind (parseDueAtMillis s) (\<lambda>dueAtMillis.
       Inr (case dueAtMillis of None \<Rightarrow> malformedDueAtBucketMillis | Some t \<Rightarrow> t)))"

definition canonicalizeDueAtForSync :: "string \<Rightarrow> string option \<Rightarrow> string option result" where
  "canonicalizeDueAtForSync cardId dueAt =
     rbind (deriveDueAtMillis dueAt) (\<lambda>dueAtMillis. case dueAtMillis of
       Some t \<Rightarrow> rbind (to_iso_string (new_date (num t))) (\<lambda>s. Inr (Some s))
     | None \<Rightarrow> (case dueAt of
         None \<Rightarrow> Inr None
       | Some s \<Rightarrow> Inl (Error (''Card '' @ cardId @ '' has invalid dueAt for sync: '' @ s))))"

section \<open>The parser returns\<close>

lemma fits_digits: "fits (replicate n (CHR ''9'')) s \<longleftrightarrow> length s = n \<and> list_all is_digit s"
  by (auto simp: fits_def list_all2_conv_all_nth list_all_length)

lemma fits_slice: "fits t s \<Longrightarrow> fits (slice i j t) (slice i j s)"
  unfolding fits_def slice_def by (intro list_all2_takeI list_all2_dropI)

lemma parseIntegerPart_digits:
  assumes "list_all is_digit s" and "s \<noteq> []"
  shows "parseIntegerPart s = Inr (int (dec_val 0 s))"
  using assms parse_int_digits [of s] by (simp add: parseIntegerPart_def list_all_iff)

lemma take_slice: "j \<le> n \<Longrightarrow> slice i j (take n s) = slice i j s"
  by (simp add: slice_def drop_take min_def)

text \<open>The numbers of the parts of a matching text.\<close>

lemma template_field:
  assumes "fits due_at_template (take 19 s)" and "slice i j due_at_template = replicate (j - i) (CHR ''9'')"
    and "i < j" and "j \<le> 19"
  shows "parseIntegerPart (slice i j s) = Inr (field i j s)" and "0 \<le> field i j s" and "field i j s < 10 ^ (j - i)"
proof -
  have "fits (replicate (j - i) (CHR ''9'')) (slice i j s)"
    using fits_slice [OF assms(1), of i j] assms(2) take_slice [OF assms(4), of i s] by simp
  then have d: "length (slice i j s) = j - i" "list_all is_digit (slice i j s)" by (simp_all add: fits_digits)
  with assms(3) show "parseIntegerPart (slice i j s) = Inr (field i j s)"
    by (auto simp: field_def intro!: parseIntegerPart_digits)
  show "0 \<le> field i j s" by (simp add: field_def)
  have "dec_val 0 (slice i j s) < 10 ^ (j - i)"
    using dec_val_bound [of "slice i j s"] d by (simp add: list_all_iff)
  then have "int (dec_val 0 (slice i j s)) < int (10 ^ (j - i))" by (simp only: of_nat_less_iff)
  then show "field i j s < 10 ^ (j - i)" by (simp only: field_def of_nat_power of_nat_numeral)
qed

definition fraction_millis :: "string option \<Rightarrow> int" where
  "fraction_millis f = (case f of None \<Rightarrow> 0 | Some ds \<Rightarrow> int (dec_val 0 (slice 0 3 (pad_end 3 (CHR ''0'') ds))))"

lemma fraction_part:
  assumes "split_fraction r = (f, off)"
  shows "parseMillisecondPart f = Inr (fraction_millis f)" and "0 \<le> fraction_millis f" and "fraction_millis f < 1000"
proof -
  have "parseMillisecondPart f = Inr (fraction_millis f) \<and> 0 \<le> fraction_millis f \<and> fraction_millis f < 1000"
  proof (cases f)
    case None
    then show ?thesis by (simp add: parseMillisecondPart_def fraction_millis_def)
  next
    case (Some ds)
    then have ds: "list_all is_digit ds"
      using assms by (auto simp: split_fraction_def list_all_iff split: list.splits if_splits dest: set_takeWhileD)
    let ?t = "slice 0 3 (pad_end 3 (CHR ''0'') ds)"
    have "is_digit (CHR ''0'')" by (simp add: is_digit_def)
    then have "list_all is_digit (pad_end 3 (CHR ''0'') ds)" using ds by (auto simp: pad_end_def list_all_iff)
    then have t: "list_all is_digit ?t" using set_slice [of 0 3 "pad_end 3 (CHR ''0'') ds"] by (auto simp: list_all_iff)
    have l: "length ?t = 3" by (simp add: slice_def pad_end_def)
    then have "?t \<noteq> []" by auto
    moreover have "dec_val 0 ?t < 10 ^ 3" using dec_val_bound [of ?t] t l by (simp add: list_all_iff)
    ultimately show ?thesis
      using parseIntegerPart_digits [OF t] Some by (simp add: parseMillisecondPart_def fraction_millis_def)
  qed
  then show "parseMillisecondPart f = Inr (fraction_millis f)" and "0 \<le> fraction_millis f" and "fraction_millis f < 1000"
    by simp_all
qed

definition offset_millis :: "string \<Rightarrow> int option" where
  "offset_millis s = (if s = ''Z'' then Some 0
     else if 23 < field 1 3 s \<or> 59 < field 4 6 s then None
     else Some ((if slice 0 1 s = ''-'' then -1 else 1) * (field 1 3 s * 60 + field 4 6 s) * 60000))"

lemma offset_part: "is_offset s \<Longrightarrow> parseOffsetMilliseconds s = Inr (offset_millis s)"
proof -
  have f: "parseIntegerPart (slice i j s) = Inr (field i j s)"
    if "fits t s" and "slice i j t = [CHR ''9'', CHR ''9'']" for t i j
  proof -
    have "list_all is_digit (slice i j s) \<and> slice i j s \<noteq> []"
      using fits_slice [OF that(1), of i j] that(2) by (auto simp: fits_def list_all2_Cons1)
    then show ?thesis by (auto simp: field_def intro!: parseIntegerPart_digits)
  qed
  assume "is_offset s"
  then consider "s = ''Z''" | t where "fits t s" "t = ''+99:99'' \<or> t = ''-99:99''"
    by (auto simp: is_offset_def)
  then show ?thesis
  proof cases
    case 2
    then have "slice 1 3 t = [CHR ''9'', CHR ''9'']" "slice 4 6 t = [CHR ''9'', CHR ''9'']"
      by (auto simp: slice_def eval_nat_numeral)
    with f [OF 2(1)] show ?thesis by (simp add: parseOffsetMilliseconds_def offset_millis_def Let_def)
  qed (simp add: parseOffsetMilliseconds_def offset_millis_def)
qed

text \<open>The parts a matching text has.\<close>

definition due_parts :: "string \<Rightarrow> int \<Rightarrow> ParsedDueAtParts" where
  "due_parts s offset = \<lparr>d_year = field 0 4 s, d_month = field 5 7 s, d_day = field 8 10 s, d_hour = field 11 13 s,
     d_minute = field 14 16 s, d_second = field 17 19 s,
     d_millisecond = fraction_millis (fst (split_fraction (drop 19 s))), d_offsetMilliseconds = offset\<rparr>"

definition dueAtMillis :: "string \<Rightarrow> int option" where
  "dueAtMillis s = (if fits due_at_template (take 19 s) \<and> is_offset (snd (split_fraction (drop 19 s)))
     then (case offset_millis (snd (split_fraction (drop 19 s))) of None \<Rightarrow> None
       | Some offset \<Rightarrow> makeUtcTimestamp (due_parts s offset))
     else None)"

lemma template_slices:
  "slice 0 4 due_at_template = replicate (4 - 0) (CHR ''9'')" "slice 5 7 due_at_template = replicate (7 - 5) (CHR ''9'')"
  "slice 8 10 due_at_template = replicate (10 - 8) (CHR ''9'')" "slice 11 13 due_at_template = replicate (13 - 11) (CHR ''9'')"
  "slice 14 16 due_at_template = replicate (16 - 14) (CHR ''9'')" "slice 17 19 due_at_template = replicate (19 - 17) (CHR ''9'')"
  by (simp_all add: due_at_template_def slice_def eval_nat_numeral)

lemma parseDueAtMillis_returns: "parseDueAtMillis s = Inr (dueAtMillis s)"
proof -
  obtain f off where sf: "split_fraction (drop 19 s) = (f, off)" by (cases "split_fraction (drop 19 s)")
  show ?thesis
  proof (cases "fits due_at_template (take 19 s) \<and> is_offset off")
    case False
    then show ?thesis by (auto simp: parseDueAtMillis_def dueAtTimestampPattern_def dueAtMillis_def sf)
  next
    case True
    note p = template_field(1) [OF conjunct1 [OF True]]
    show ?thesis
      using True p [OF template_slices(1)] p [OF template_slices(2)] p [OF template_slices(3)]
        p [OF template_slices(4)] p [OF template_slices(5)] p [OF template_slices(6)]
        fraction_part(1) [OF sf] offset_part [of off]
      by (simp add: parseDueAtMillis_def dueAtTimestampPattern_def dueAtMillis_def sf due_parts_def split: option.split)
  qed
qed

section \<open>Which dates are accepted\<close>

lemma leap_moved: "1 \<le> y \<Longrightarrow> y \<le> 99 \<Longrightarrow> leap_year (1900 + y) \<longleftrightarrow> leap_year y"
proof -
  assume y: "1 \<le> y" "y \<le> 99"
  have "\<not> 100 dvd y" using y by (auto dest: zdvd_imp_le)
  moreover have "\<not> (100::int) dvd 1900 + y" using \<open>\<not> 100 dvd y\<close> by (simp add: dvd_add_right_iff)
  moreover have "4 dvd (1900 + y) \<longleftrightarrow> 4 dvd y" by (simp add: dvd_add_right_iff)
  ultimately show ?thesis by (simp add: leap_year_def)
qed

lemma days_moved:
  assumes "0 \<le> y" and "valid_civil y m d" and "\<not> valid_civil (full_year y) m d"
  shows "y = 0 \<and> m = 1 \<and> d = 29"
proof -
  have y: "y \<le> 99" using assms by (auto simp: full_year_def split: if_splits)
  then have fy: "full_year y = 1900 + y" using assms(1) by (simp add: full_year_def)
  have "\<not> (1 \<le> y)"
  proof
    assume "1 \<le> y"
    from leap_moved [OF this y] have "days_in_month (full_year y) m = days_in_month y m"
      by (simp add: fy days_in_month_def)
    with assms(2,3) show False by (simp add: valid_civil_def)
  qed
  then have y0: "y = 0" using assms(1) by simp
  have "leap_year 0" "\<not> leap_year 1900" by (simp_all add: leap_year_def)
  then have "days_in_month 0 m = (if m = 1 then 29 else days_in_month 1900 m) \<and> days_in_month 1900 1 = 28"
    using assms(2) by (auto simp: days_in_month_def month_offset_def valid_civil_def Let_def)
  moreover have "full_year 0 = 1900" by (simp add: full_year_def)
  ultimately show ?thesis using assms(2,3) unfolding y0 by (auto simp: valid_civil_def split: if_splits)
qed

lemma first_leap_day:
  "civil_of_day (make_day 1900 1 29) = (1900, 2, 1)" "civil_of_day (make_day 0 2 1) = (0, 2, 1)"
  by (simp_all add: civil_of_day_def make_day_def year_from_day_def day_from_year_def leap_year_def month_offset_def
      month_of_yday_def Let_def)

lemma utc_day_add: "0 \<le> r \<Longrightarrow> r < ms_per_day \<Longrightarrow> utc_day (n * ms_per_day + r) = n"
  by (simp add: utc_day_def ms_per_day_def)

lemma moved_day:
  assumes "0 \<le> y" and "0 \<le> m" and "m \<le> 11" and "1 \<le> d"
    and "civil_of_day (make_day (full_year y) m d) = (y1, m1, d1)"
  shows "civil_of_day (make_day y m1 d1) = (y, m, d) \<longleftrightarrow> valid_civil y m d \<and> (y, m, d) \<noteq> (0, 1, 29)"
proof (cases "valid_civil (full_year y) m d")
  case True
  then have e: "y1 = full_year y" "m1 = m" "d1 = d" using civil_of_make_day [OF True] assms(5) by simp_all
  have "civil_of_day (make_day y m d) = (y, m, d) \<longleftrightarrow> valid_civil y m d"
    using civil_of_make_day civil_of_day_valid by blast
  moreover have "(y, m, d) \<noteq> (0, 1, 29)"
    using True by (auto simp: full_year_def valid_civil_def days_in_month_def month_offset_def leap_year_def)
  ultimately show ?thesis by (simp add: e)
next
  case False
  show ?thesis
  proof (cases "valid_civil y m d")
    case True
    from days_moved [OF assms(1) this False] have z: "y = 0" "m = 1" "d = 29" by simp_all
    then have "m1 = 2" "d1 = 1" using assms(5) first_leap_day(1) by (simp_all add: full_year_def)
    then show ?thesis using z first_leap_day(2) by simp
  next
    case bad: False
    then have "civil_of_day (make_day y m1 d1) \<noteq> (y, m, d)" using civil_of_day_valid by blast
    with bad show ?thesis by simp
  qed
qed

lemma time_of_day_digits:
  assumes "0 \<le> h" "h \<le> 23" "0 \<le> mi" "mi \<le> 59" "0 \<le> s" "s \<le> 59" "0 \<le> ms" "ms < 1000"
  defines "t \<equiv> time_of_day h mi s ms"
  shows "0 \<le> t" and "t < ms_per_day" and "t div 3600000 = h" and "t div 60000 mod 60 = mi"
    and "t div 1000 mod 60 = s" and "t mod 1000 = ms"
proof -
  have t: "t = ((h * 60 + mi) * 60 + s) * 1000 + ms" by (simp add: t_def time_of_day_def)
  have q: "(x * 1000 + ms) div 1000 = x" "(x * 1000 + ms) mod 1000 = ms" for x :: int using assms(7,8) by simp_all
  have 1: "t div 1000 = (h * 60 + mi) * 60 + s" and ms: "t mod 1000 = ms" unfolding t by (rule q)+
  have q60: "(x * 60 + r) div 60 = x" "(x * 60 + r) mod 60 = r" if "0 \<le> r" "r \<le> 59" for x r :: int using that by simp_all
  have "t div 60000 = t div 1000 div 60" by (simp add: zdiv_zmult2_eq [symmetric])
  then have 2: "t div 60000 = h * 60 + mi" unfolding 1 by (simp only: q60 [OF assms(5,6)])
  have "t div 3600000 = t div 60000 div 60" by (simp add: zdiv_zmult2_eq [symmetric])
  then show "t div 3600000 = h" unfolding 2 by (simp only: q60 [OF assms(3,4)])
  show "t div 60000 mod 60 = mi" unfolding 2 by (rule q60 [OF assms(3,4)])
  show "t div 1000 mod 60 = s" unfolding 1 by (rule q60 [OF assms(5,6)])
  show "t mod 1000 = ms" by (rule ms)
  show "0 \<le> t" using assms(1-8) by (simp add: t)
  show "t < ms_per_day" using assms(1-8) by (simp add: t ms_per_day_def)
qed

text \<open>The calendar check, for parts that texts can have: the one date it wrongly refuses is 0000-02-29.\<close>

lemma makeUtcTimestamp_Some_iff:
  assumes "0 \<le> d_year parts" and "0 \<le> d_hour parts" and "0 \<le> d_minute parts" and "0 \<le> d_second parts"
    and "0 \<le> d_millisecond parts" and "d_millisecond parts < 1000"
  shows "makeUtcTimestamp parts = Some t \<longleftrightarrow>
    valid_civil (d_year parts) (d_month parts - 1) (d_day parts)
    \<and> (d_year parts, d_month parts, d_day parts) \<noteq> (0, 2, 29)
    \<and> d_hour parts \<le> 23 \<and> d_minute parts \<le> 59 \<and> d_second parts \<le> 59
    \<and> t = make_day (d_year parts) (d_month parts - 1) (d_day parts) * ms_per_day
        + time_of_day (d_hour parts) (d_minute parts) (d_second parts) (d_millisecond parts) - d_offsetMilliseconds parts"
proof -
  define y m d where "y = d_year parts" and "m = d_month parts - 1" and "d = d_day parts"
  define h mi s ms where "h = d_hour parts" and "mi = d_minute parts" and "s = d_second parts" and "ms = d_millisecond parts"
  note defs = y_def m_def d_def h_def mi_def s_def ms_def
  show ?thesis
  proof (cases "0 \<le> m \<and> m \<le> 11 \<and> 1 \<le> d \<and> h \<le> 23 \<and> mi \<le> 59 \<and> s \<le> 59")
    case False
    then have g: "d_month parts < 1 \<or> 12 < d_month parts \<or> d_day parts < 1 \<or> 23 < d_hour parts
        \<or> 59 < d_minute parts \<or> 59 < d_second parts" by (auto simp: defs)
    show ?thesis unfolding makeUtcTimestamp_def if_P [OF g] using False by (auto simp: valid_civil_def defs)
  next
    case True
    have r: "0 \<le> y" "0 \<le> h" "0 \<le> mi" "0 \<le> s" "0 \<le> ms" "ms < 1000" using assms by (simp_all add: defs)
    let ?tod = "time_of_day h mi s ms" and ?D = "make_day (full_year y) m d"
    have up: "h \<le> 23" "mi \<le> 59" "s \<le> 59" using True by simp_all
    note tod = time_of_day_digits [OF r(2) up(1) r(3) up(2) r(4) up(3) r(5,6)]
    obtain y1 m1 d1 where c: "civil_of_day ?D = (y1, m1, d1)" using prod_cases3 by blast
    let ?D' = "make_day y m1 d1"
    have md: "?tod mod ms_per_day = ?tod" using tod(1,2) by simp
    have g: "\<not> (d_month parts < 1 \<or> 12 < d_month parts \<or> d_day parts < 1 \<or> 23 < d_hour parts \<or> 59 < d_minute parts
        \<or> 59 < d_second parts)" using True by (auto simp: defs)
    have S: "set_utc_full_year y (?D * ms_per_day + ?tod) = ?D' * ms_per_day + ?tod"
      using c by (simp add: set_utc_full_year_def utc_day_add [OF tod(1,2)] md)
    have U: "utc_day (?D' * ms_per_day + ?tod) = ?D'" by (rule utc_day_add [OF tod(1,2)])
    have M: "(?D' * ms_per_day + ?tod) mod ms_per_day = ?tod" by (simp add: md)
    have "makeUtcTimestamp parts = (if civil_of_day ?D' \<noteq> (y, m, d) then None
        else Some (?D' * ms_per_day + ?tod - d_offsetMilliseconds parts))"
      unfolding makeUtcTimestamp_def if_not_P [OF g] unfolding Let_def defs [symmetric]
      unfolding S U M tod(3-6) by (simp only: simp_thms)
    moreover have "civil_of_day ?D' = (y, m, d) \<longleftrightarrow> valid_civil y m d \<and> (y, m, d) \<noteq> (0, 1, 29)"
      by (rule moved_day [OF r(1) _ _ _ c]) (use True in simp_all)
    moreover have "?D' = make_day y m d" if "civil_of_day ?D' = (y, m, d)"
      using that civil_of_make_day civil_of_day_valid civil_of_day_inject by metis
    ultimately show ?thesis using True by (auto simp: defs)
  qed
qed

text \<open>The parts of a matching text are in the range of the calendar lemma.\<close>

lemma due_parts_range:
  assumes "fits due_at_template (take 19 s)"
  shows "0 \<le> d_year (due_parts s off)" and "0 \<le> d_hour (due_parts s off)" and "0 \<le> d_minute (due_parts s off)"
    and "0 \<le> d_second (due_parts s off)" and "0 \<le> d_millisecond (due_parts s off)"
    and "d_millisecond (due_parts s off) < 1000"
  using fraction_part [of "drop 19 s"] by (auto simp: due_parts_def field_def split: prod.splits) (metis prod.collapse)+

lemma dueAtMillis_Some_iff:
  "dueAtMillis s = Some t \<longleftrightarrow>
     fits due_at_template (take 19 s) \<and> is_offset (snd (split_fraction (drop 19 s)))
     \<and> valid_civil (field 0 4 s) (field 5 7 s - 1) (field 8 10 s)
     \<and> (field 0 4 s, field 5 7 s, field 8 10 s) \<noteq> (0, 2, 29)
     \<and> field 11 13 s \<le> 23 \<and> field 14 16 s \<le> 59 \<and> field 17 19 s \<le> 59
     \<and> (\<exists>offset. offset_millis (snd (split_fraction (drop 19 s))) = Some offset
         \<and> t = make_day (field 0 4 s) (field 5 7 s - 1) (field 8 10 s) * ms_per_day
             + time_of_day (field 11 13 s) (field 14 16 s) (field 17 19 s)
                 (fraction_millis (fst (split_fraction (drop 19 s)))) - offset)"
proof (cases "fits due_at_template (take 19 s)")
  case False
  then show ?thesis by (simp add: dueAtMillis_def)
next
  case True
  note u = makeUtcTimestamp_Some_iff [OF due_parts_range [OF True], of _ t]
  show ?thesis
    using True u by (auto simp: dueAtMillis_def due_parts_def split: option.split option.split_asm)
qed

section \<open>The printed form\<close>

lemma iso_tail: "fits ''.999Z'' r \<Longrightarrow> \<exists>a b c. r = [CHR ''.'', a, b, c, CHR ''Z''] \<and> list_all is_digit [a, b, c]"
  by (auto simp: fits_def list_all2_Cons1)

lemma split_iso_tail:
  "list_all is_digit [a, b, c] \<Longrightarrow> split_fraction [CHR ''.'', a, b, c, CHR ''Z''] = (Some [a, b, c], ''Z'')"
  by (simp add: split_fraction_def) (simp add: is_digit_def)

text \<open>The client's parser agrees with the language's on the texts the language specifies.\<close>

lemma dueAtMillis_iso:
  assumes "parse_iso s = Some t"
  shows "dueAtMillis s = (if (field 0 4 s, field 5 7 s, field 8 10 s) = (0, 2, 29) then None else Some t)"
proof -
  have f: "fits iso_template s" and v: "valid_civil (field 0 4 s) (field 5 7 s - 1) (field 8 10 s)"
    "field 11 13 s \<le> 23" "field 14 16 s \<le> 59" "field 17 19 s \<le> 59"
    and t: "t = make_day (field 0 4 s) (field 5 7 s - 1) (field 8 10 s) * ms_per_day
      + ((field 11 13 s * 60 + field 14 16 s) * 60 + field 17 19 s) * 1000 + field 20 23 s"
    using assms by (simp_all add: parse_iso_def Let_def split: if_splits)
  have it: "iso_template = due_at_template @ ''.999Z''" by (simp add: iso_template_def due_at_template_def)
  have l: "length s = 24" using fits_length [OF f] by (simp add: iso_template_def)
  then have lt: "length due_at_template = length (take 19 s)" by (simp add: due_at_template_def)
  have "fits (due_at_template @ ''.999Z'') (take 19 s @ drop 19 s)" using f it by simp
  then have ft: "fits due_at_template (take 19 s)" "fits ''.999Z'' (drop 19 s)" using fits_append [OF lt] by blast+
  obtain a b c where d: "drop 19 s = [CHR ''.'', a, b, c, CHR ''Z'']" "list_all is_digit [a, b, c]"
    using iso_tail [OF ft(2)] by blast
  have "drop 20 s = drop 1 (drop 19 s)" by simp
  then have "slice 20 23 s = [a, b, c]" unfolding slice_def by (simp add: d)
  then have fr: "fraction_millis (Some [a, b, c]) = field 20 23 s"
    by (simp add: fraction_millis_def field_def slice_def pad_end_def)
  have "is_offset ''Z''" "offset_millis ''Z'' = Some 0" by (simp_all add: is_offset_def offset_millis_def)
  with ft(1) v t show ?thesis
    using dueAtMillis_Some_iff [of s t] dueAtMillis_Some_iff [of s]
    by (cases "dueAtMillis s") (auto simp: d split_iso_tail [OF d(2)] fr time_of_day_def)
qed

lemma dueAtMillis_printed:
  assumes "iso_day (utc_day t)" and "civil_of_day (utc_day t) \<noteq> (0, 1, 29)" and "to_iso_string (Date t) = Inr s"
  shows "dueAtMillis s = Some t"
proof -
  obtain y mo d where c: "civil_of_day (utc_day t) = (y, mo, d)" using prod_cases3 by blast
  have s: "s = iso_date (utc_day t) @ ''T'' @ iso_time (t mod ms_per_day)" using assms(3) by simp
  have "field 0 4 s = y" "field 5 7 s = mo + 1" "field 8 10 s = d"
    unfolding s by (rule iso_date_fields [OF assms(1) c])+
  with assms(2) c dueAtMillis_iso [OF parse_iso_printed [OF assms(1,3)]] show ?thesis by auto
qed

lemma new_date_int: "iso_day (utc_day t) \<Longrightarrow> new_date (num t) = Date t"
proof -
  assume "iso_day (utc_day t)"
  then have "\<bar>utc_day t\<bar> \<le> 4000000" using year_bounds_day [of "utc_day t"] by (simp add: iso_day_def)
  moreover have "t = utc_day t * 86400000 + t mod 86400000" by (simp add: utc_day_def ms_per_day_def)
  moreover have "0 \<le> t mod 86400000" "t mod 86400000 < 86400000" by simp_all
  ultimately have "\<bar>t\<bar> \<le> max_time" unfolding max_time_def by linarith
  then show ?thesis by (auto simp: time_clip_def trunc_int_def)
qed

text \<open>What is sent for a due date is the same instant, in the one form the server prints.\<close>

lemma canonicalize_cases:
  "canonicalizeDueAtForSync cardId dueAt = (case dueAt of
     None \<Rightarrow> Inr None
   | Some s \<Rightarrow> (case dueAtMillis s of
       None \<Rightarrow> Inl (Error (''Card '' @ cardId @ '' has invalid dueAt for sync: '' @ s))
     | Some t \<Rightarrow> rbind (to_iso_string (new_date (num t))) (\<lambda>s. Inr (Some s))))"
  by (simp add: canonicalizeDueAtForSync_def deriveDueAtMillis_def parseDueAtMillis_returns split: option.split)

lemma canonicalize_same_instant:
  assumes "dueAtMillis s = Some t" and "iso_day (utc_day t)" and "civil_of_day (utc_day t) \<noteq> (0, 1, 29)"
  shows "\<exists>s'. canonicalizeDueAtForSync i (Some s) = Inr (Some s') \<and> dueAtMillis s' = Some t
    \<and> canonicalizeDueAtForSync i (Some s') = Inr (Some s')"
proof -
  obtain s' where s': "to_iso_string (Date t) = Inr s'" by simp
  have "dueAtMillis s' = Some t" by (rule dueAtMillis_printed [OF assms(2,3) s'])
  with assms(1) s' new_date_int [OF assms(2)] show ?thesis
    by (simp add: canonicalize_cases del: to_iso_string.simps new_date.simps)
qed

end
