(* ===== verification/WebModel.thy ===== *)
theory WebModel
  imports FsrsScheduler DueAt
begin

text \<open>
  The data of the web client (\<open>apps/web/src/types/study.ts\<close>, \<open>types/account.ts\<close>): cards, decks, review events, the
  filter of a review session, and the inputs that create and edit them. Optional fields are
  options; a \<open>string | null\<close> is one too. Repetition counts are integers.
\<close>

record CardSourceMetadata =
  label :: "string option"
  author :: "string option"
  comment :: "string option"
  sourceCreatedAt :: "string option"
  importedAt :: "string option"
  importId :: "string option"

record CardMetadata =
  metadataVersion :: int
  metadataSource :: "CardSourceMetadata option"

record Card =
  cardId :: string
  frontText :: string
  backText :: string
  cardType :: string
  metadata :: CardMetadata
  tags :: "string list"
  dueAt :: "string option"
  createdAt :: string
  reps :: int
  lapses :: int
  fsrsCardState :: FsrsCardState
  fsrsStepIndex :: "int option"
  fsrsStability :: "jsnum option"
  fsrsDifficulty :: "jsnum option"
  fsrsLastReviewedAt :: "string option"
  fsrsScheduledDays :: "jsnum option"
  cardClientUpdatedAt :: string
  cardReplicaId :: string
  cardOperationId :: string
  updatedAt :: string
  deletedAt :: "string option"

record DeckFilterDefinition =
  filterVersion :: int
  filterTags :: "string list"

record CardFilter =
  cardFilterTags :: "string list"

record Deck =
  deckId :: string
  deckWorkspaceId :: string
  deckName :: string
  filterDefinition :: DeckFilterDefinition
  deckCreatedAt :: string
  deckClientUpdatedAt :: string
  deckReplicaId :: string
  deckOperationId :: string
  deckUpdatedAt :: string
  deckDeletedAt :: "string option"

datatype ReviewFilter = AllCards | DeckFilter string | TagsFilter "string list"

record ReviewEvent =
  reviewEventId :: string
  eventWorkspaceId :: string
  eventCardId :: string
  eventReplicaId :: string
  clientEventId :: string
  eventRating :: ReviewRating
  reviewedAtClient :: string
  reviewedTimeZone :: "string option"
  reviewedAtServer :: string

record CreateCardInput =
  newFrontText :: string
  newBackText :: string
  newTags :: "string list"

record UpdateCardInput =
  updFrontText :: "string option"
  updBackText :: "string option"
  updTags :: "string list option"

text \<open>\<open>CreateDeckInput\<close> and \<open>UpdateDeckInput\<close> have the same fields.\<close>

record DeckInput =
  inputName :: string
  inputFilter :: DeckFilterDefinition

record DeckCardStats =
  totalCards :: nat
  dueCards :: nat
  newCards :: nat
  reviewedCards :: nat

record WorkspaceTagSummary =
  summaryTag :: string
  cardsCount :: nat

record WorkspaceTagsSummary =
  summaryTags :: "WorkspaceTagSummary list"
  summaryTotalCards :: nat

record WorkspaceSummary =
  workspaceId :: string
  workspaceName :: string
  workspaceCreatedAt :: string
  isSelected :: bool

end
