(* ===== verification/ReviewFilters.thy ===== *)
theory ReviewFilters
  imports WebModel
begin

text \<open>
  Tags and filters of the web client (\<open>appData/domain/index.ts\<close>): which cards a review session
  shows. \<open>lc\<close> is the host's \<open>localeCompare\<close>, \<open>lcb\<close> the one that ignores case and accents. A
  \<open>Map\<close> that is read back in insertion order is an association list, a \<open>Set\<close> that is only asked for
  membership or size is a list.
\<close>

section \<open>Tags\<close>

text \<open>On code units below 256 the normal form NFC of a text is the text.\<close>

definition normalizeTag :: "string \<Rightarrow> string" where
  "normalizeTag tag = trim tag"

definition normalizeTagKey :: "string \<Rightarrow> string" where
  "normalizeTagKey tag = to_lower (normalizeTag tag)"

text \<open>The loop that collects the first spelling of every key.\<close>

definition add_tag_by_key :: "(string \<times> string) list \<Rightarrow> string \<Rightarrow> (string \<times> string) list" where
  "add_tag_by_key tagsByKey tag = (let normalizedTag = normalizeTag tag; tagKey = normalizeTagKey normalizedTag in
     if tagKey \<noteq> [] \<and> map_of tagsByKey tagKey = None then map_set tagKey normalizedTag tagsByKey else tagsByKey)"

definition normalizeReviewFilterTags :: "(string \<Rightarrow> string \<Rightarrow> int) \<Rightarrow> string list \<Rightarrow> string list" where
  "normalizeReviewFilterTags lc ts =
     map snd (sort_by (\<lambda>a b. lc (fst a) (fst b)) (foldl add_tag_by_key [] ts))"

definition makeTagsReviewFilter :: "(string \<Rightarrow> string \<Rightarrow> int) \<Rightarrow> string list \<Rightarrow> ReviewFilter" where
  "makeTagsReviewFilter lc ts = TagsFilter (normalizeReviewFilterTags lc ts)"

definition normalizeReviewFilter :: "(string \<Rightarrow> string \<Rightarrow> int) \<Rightarrow> ReviewFilter \<Rightarrow> ReviewFilter" where
  "normalizeReviewFilter lc reviewFilter = (case reviewFilter of
     TagsFilter ts \<Rightarrow> makeTagsReviewFilter lc ts | _ \<Rightarrow> reviewFilter)"

definition isReviewFilterEqual :: "(string \<Rightarrow> string \<Rightarrow> int) \<Rightarrow> ReviewFilter \<Rightarrow> ReviewFilter \<Rightarrow> bool" where
  "isReviewFilterEqual lc left right = (case (left, right) of
     (AllCards, AllCards) \<Rightarrow> True
   | (DeckFilter d, DeckFilter e) \<Rightarrow> d = e
   | (TagsFilter ts, TagsFilter us) \<Rightarrow> (let
       leftTags = normalizeReviewFilterTags lc ts; rightTags = normalizeReviewFilterTags lc us
     in length leftTags = length rightTags
        \<and> list_all2 (\<lambda>l r. normalizeTagKey l = normalizeTagKey r) leftTags rightTags)
   | _ \<Rightarrow> False)"

section \<open>Active cards and decks\<close>

definition deriveActiveCards :: "Card list \<Rightarrow> Card list" where
  "deriveActiveCards cards = filter (\<lambda>c. deletedAt c = None) cards"

definition deriveActiveDecks :: "Deck list \<Rightarrow> Deck list" where
  "deriveActiveDecks decks = filter (\<lambda>d. deckDeletedAt d = None) decks"

definition hasMatchingTags :: "string list \<Rightarrow> string list \<Rightarrow> bool" where
  "hasMatchingTags ts requestedTags = (let requestedTagKeys = map normalizeTagKey requestedTags in
     list_ex (\<lambda>tag. normalizeTagKey tag \<in> set requestedTagKeys) ts)"

definition matchesDeckFilterDefinition :: "DeckFilterDefinition \<Rightarrow> Card \<Rightarrow> bool" where
  "matchesDeckFilterDefinition fd c =
     (if length (filterTags fd) = 0 then True
      else let cardTagKeys = map normalizeTagKey (tags c) in
        list_ex (\<lambda>tag. normalizeTagKey tag \<in> set cardTagKeys) (filterTags fd))"

definition matchesCardFilter :: "CardFilter \<Rightarrow> Card \<Rightarrow> bool" where
  "matchesCardFilter f c =
     (if length (cardFilterTags f) = 0 then True
      else let cardTagKeys = map normalizeTagKey (tags c) in
        list_ex (\<lambda>tag. normalizeTagKey tag \<in> set cardTagKeys) (cardFilterTags f))"

definition cardsMatchingDeck :: "Deck \<Rightarrow> Card list \<Rightarrow> Card list" where
  "cardsMatchingDeck deck cards =
     filter (\<lambda>c. matchesDeckFilterDefinition (filterDefinition deck) c) (deriveActiveCards cards)"

section \<open>Resolving a filter\<close>

text \<open>The first spelling of every tag on an active card.\<close>

definition add_active_tag :: "(string \<times> string) list \<Rightarrow> string \<Rightarrow> (string \<times> string) list" where
  "add_active_tag canonicalTagsByKey tag = (let tagKey = normalizeTagKey tag in
     if tagKey \<noteq> [] \<and> map_of canonicalTagsByKey tagKey = None then map_set tagKey (normalizeTag tag) canonicalTagsByKey
     else canonicalTagsByKey)"

definition resolveActiveTags :: "(string \<Rightarrow> string \<Rightarrow> int) \<Rightarrow> string list \<Rightarrow> Card list \<Rightarrow> string list" where
  "resolveActiveTags lc ts cards = (let
     canonicalTagsByKey = foldl add_active_tag [] (concat (map tags (deriveActiveCards cards)))
   in List.map_filter (\<lambda>tag. map_of canonicalTagsByKey (normalizeTagKey tag)) (normalizeReviewFilterTags lc ts))"

definition resolveReviewFilter ::
    "(string \<Rightarrow> string \<Rightarrow> int) \<Rightarrow> ReviewFilter \<Rightarrow> Deck list \<Rightarrow> Card list \<Rightarrow> ReviewFilter" where
  "resolveReviewFilter lc reviewFilter decks cards = (case reviewFilter of
     AllCards \<Rightarrow> AllCards
   | DeckFilter i \<Rightarrow> (case find (\<lambda>deck. deckId deck = i) (deriveActiveDecks decks) of
       None \<Rightarrow> AllCards | Some _ \<Rightarrow> reviewFilter)
   | TagsFilter ts \<Rightarrow> makeTagsReviewFilter lc (resolveActiveTags lc ts cards))"

definition cardsMatchingReviewFilter ::
    "(string \<Rightarrow> string \<Rightarrow> int) \<Rightarrow> ReviewFilter \<Rightarrow> Deck list \<Rightarrow> Card list \<Rightarrow> Card list" where
  "cardsMatchingReviewFilter lc reviewFilter decks cards = (case resolveReviewFilter lc reviewFilter decks cards of
     AllCards \<Rightarrow> deriveActiveCards cards
   | DeckFilter i \<Rightarrow> (case find (\<lambda>deck. deckId deck = i) (deriveActiveDecks decks) of
       None \<Rightarrow> [] | Some deck \<Rightarrow> cardsMatchingDeck deck cards)
   | TagsFilter ts \<Rightarrow> filter (\<lambda>c. hasMatchingTags (tags c) ts) (deriveActiveCards cards))"

definition ALL_CARDS_DECK_LABEL :: string where
  "ALL_CARDS_DECK_LABEL = ''All cards''"

definition reviewFilterTitle ::
    "(string \<Rightarrow> string \<Rightarrow> int) \<Rightarrow> ReviewFilter \<Rightarrow> Deck list \<Rightarrow> Card list \<Rightarrow> string" where
  "reviewFilterTitle lc reviewFilter decks cards = (case resolveReviewFilter lc reviewFilter decks cards of
     AllCards \<Rightarrow> ALL_CARDS_DECK_LABEL
   | DeckFilter i \<Rightarrow> (case find (\<lambda>deck. deckId deck = i) (deriveActiveDecks decks) of
       None \<Rightarrow> ALL_CARDS_DECK_LABEL | Some deck \<Rightarrow> deckName deck)
   | TagsFilter ts \<Rightarrow> join '', '' ts)"

definition shouldShowSwitchToAllCardsReviewAction ::
    "(string \<Rightarrow> string \<Rightarrow> int) \<Rightarrow> ReviewFilter \<Rightarrow> Deck list \<Rightarrow> Card list \<Rightarrow> bool" where
  "shouldShowSwitchToAllCardsReviewAction lc reviewFilter decks cards \<longleftrightarrow>
     resolveReviewFilter lc reviewFilter decks cards \<noteq> AllCards"

section \<open>The tags of a workspace\<close>

text \<open>The statistics of a tag: its first spelling and the cards that carry it.\<close>

definition add_card_tag ::
    "string \<Rightarrow> (string \<times> string \<times> string list) list \<Rightarrow> string \<Rightarrow> (string \<times> string \<times> string list) list" where
  "add_card_tag i tagStats tag = (let tagKey = normalizeTagKey tag in
     if tagKey = [] then tagStats
     else (case map_of tagStats tagKey of
         None \<Rightarrow> map_set tagKey (normalizeTag tag, [i]) tagStats
       | Some (t, is) \<Rightarrow> map_set tagKey (t, if i \<in> set is then is else is @ [i]) tagStats))"

definition makeWorkspaceTagsSummary ::
    "(string \<Rightarrow> string \<Rightarrow> int) \<Rightarrow> Card list \<Rightarrow> WorkspaceTagsSummary" where
  "makeWorkspaceTagsSummary lcb cards = (let
     activeCards = deriveActiveCards cards;
     tagStatsByKey = foldl (\<lambda>result c. foldl (add_card_tag (cardId c)) result (tags c)) [] activeCards;
     ts = sort_by (\<lambda>l r. if cardsCount l \<noteq> cardsCount r then int (cardsCount r) - int (cardsCount l)
         else lcb (summaryTag l) (summaryTag r))
       (map (\<lambda>(_, t, is). \<lparr>summaryTag = t, cardsCount = length is\<rparr>) tagStatsByKey)
   in \<lparr>summaryTags = ts, summaryTotalCards = length activeCards\<rparr>)"

end
