(* ===== verification/WebEditing.thy ===== *)
theory WebEditing
  imports ReviewFilters Lww
begin

text \<open>
  Creating and editing on the web client (\<open>appData/domain/index.ts\<close>): the builders of cards, decks
  and review events, the normalisation of their inputs, the operations sent to the server, the
  lists of the client's state, and the client's own last-writer-wins comparison. Fresh identifiers
  are arguments. \<open>p\<close> reads dates the host's way.
\<close>

section \<open>Last writer wins\<close>

text \<open>\<open>new TextEncoder().encode(text)\<close> for code units below 256: one or two bytes each.\<close>

fun utf8_char :: "char \<Rightarrow> int list" where
  "utf8_char c = (let n = int (of_char c :: nat) in if n < 128 then [n] else [192 + n div 64, 128 + n mod 64])"

definition utf8 :: "string \<Rightarrow> int list" where
  "utf8 s = concat (map utf8_char s)"

text \<open>The loop over the bytes: a missing byte counts as \<open>-1\<close>.\<close>

fun compare_bytes :: "int list \<Rightarrow> int list \<Rightarrow> int" where
  "compare_bytes [] [] = 0"
| "compare_bytes [] (b # bs) = (if -1 - b \<noteq> 0 then -1 - b else compare_bytes [] bs)"
| "compare_bytes (a # as) [] = (if a - -1 \<noteq> 0 then a - -1 else compare_bytes as [])"
| "compare_bytes (a # as) (b # bs) = (if a - b \<noteq> 0 then a - b else compare_bytes as bs)"

definition compareUtf8Strings :: "string \<Rightarrow> string \<Rightarrow> int" where
  "compareUtf8Strings left right = compare_bytes (utf8 left) (utf8 right)"

text \<open>\<open>LastWriteWinsRecord\<close> has the fields of the server's metadata.\<close>

type_synonym LastWriteWinsRecord = LwwMetadata

definition compareLww :: "LastWriteWinsRecord \<Rightarrow> LastWriteWinsRecord \<Rightarrow> int" where
  "compareLww left right = (let
     timestampDifference = compareUtf8Strings (clientUpdatedAt left) (clientUpdatedAt right)
   in if timestampDifference \<noteq> 0 then timestampDifference
      else let deviceDifference = compareUtf8Strings (lastModifiedByReplicaId left) (lastModifiedByReplicaId right)
      in if deviceDifference \<noteq> 0 then deviceDifference
         else compareUtf8Strings (lastOperationId left) (lastOperationId right))"

section \<open>The lists of the client's state\<close>

definition upsertCard :: "Card list \<Rightarrow> Card \<Rightarrow> Card list" where
  "upsertCard cards nextCard = nextCard # filter (\<lambda>c. cardId c \<noteq> cardId nextCard) cards"

definition upsertDeck :: "Deck list \<Rightarrow> Deck \<Rightarrow> Deck list" where
  "upsertDeck decks nextDeck = nextDeck # filter (\<lambda>d. deckId d \<noteq> deckId nextDeck) decks"

definition upsertReviewEvent :: "ReviewEvent list \<Rightarrow> ReviewEvent \<Rightarrow> ReviewEvent list" where
  "upsertReviewEvent reviewEvents nextReviewEvent =
     nextReviewEvent # filter (\<lambda>e. reviewEventId e \<noteq> reviewEventId nextReviewEvent) reviewEvents"

definition markSelectedWorkspaces :: "WorkspaceSummary list \<Rightarrow> string \<Rightarrow> WorkspaceSummary list" where
  "markSelectedWorkspaces workspaces selectedWorkspaceId =
     map (\<lambda>w. w\<lparr>isSelected := workspaceId w = selectedWorkspaceId\<rparr>) workspaces"

definition findWorkspaceById :: "WorkspaceSummary list \<Rightarrow> string option \<Rightarrow> WorkspaceSummary option" where
  "findWorkspaceById workspaces i = (case i of
     None \<Rightarrow> None | Some i \<Rightarrow> find (\<lambda>w. workspaceId w = i) workspaces)"

definition upsertWorkspaceSummary :: "WorkspaceSummary list \<Rightarrow> WorkspaceSummary \<Rightarrow> WorkspaceSummary list" where
  "upsertWorkspaceSummary workspaces workspace =
     filter (\<lambda>item. workspaceId item \<noteq> workspaceId workspace) workspaces @ [workspace]"

section \<open>Inputs\<close>

definition normalizeRequiredCardText :: "string \<Rightarrow> string result" where
  "normalizeRequiredCardText value = (let normalizedValue = trim value in
     if normalizedValue = [] then Inl (Error ''Card front text must not be empty'') else Inr normalizedValue)"

definition normalizeOptionalCardText :: "string \<Rightarrow> string" where
  "normalizeOptionalCardText value = trim value"

definition normalizeCreateCardInput :: "CreateCardInput \<Rightarrow> CreateCardInput result" where
  "normalizeCreateCardInput input = rbind (normalizeRequiredCardText (newFrontText input)) (\<lambda>front.
     Inr \<lparr>newFrontText = front, newBackText = normalizeOptionalCardText (newBackText input), newTags = newTags input\<rparr>)"

definition normalizeRequiredDeckName :: "string \<Rightarrow> string result" where
  "normalizeRequiredDeckName value = (let normalizedValue = trim value in
     if normalizedValue = [] then Inl (Error ''Deck name must not be empty'') else Inr normalizedValue)"

definition add_filter_tag :: "string list \<Rightarrow> string \<Rightarrow> string list" where
  "add_filter_tag result tag = (let normalizedTag = normalizeTag tag; normalizedTagKey = normalizeTagKey normalizedTag in
     if normalizedTag = [] \<or> list_ex (\<lambda>existingTag. normalizeTagKey existingTag = normalizedTagKey) result
     then result else result @ [normalizedTag])"

definition normalizeDeckFilterDefinition :: "DeckFilterDefinition \<Rightarrow> DeckFilterDefinition" where
  "normalizeDeckFilterDefinition fd = \<lparr>filterVersion = 2, filterTags = foldl add_filter_tag [] (filterTags fd)\<rparr>"

definition normalizeCreateDeckInput :: "DeckInput \<Rightarrow> DeckInput result" where
  "normalizeCreateDeckInput input = rbind (normalizeRequiredDeckName (inputName input)) (\<lambda>name.
     Inr \<lparr>inputName = name, inputFilter = normalizeDeckFilterDefinition (inputFilter input)\<rparr>)"

definition normalizeUpdateDeckInput :: "DeckInput \<Rightarrow> DeckInput result" where
  "normalizeUpdateDeckInput input = rbind (normalizeRequiredDeckName (inputName input)) (\<lambda>name.
     Inr \<lparr>inputName = name, inputFilter = normalizeDeckFilterDefinition (inputFilter input)\<rparr>)"

definition normalizeUpdateCardInput :: "UpdateCardInput \<Rightarrow> UpdateCardInput result" where
  "normalizeUpdateCardInput input =
     rbind (case updFrontText input of None \<Rightarrow> Inr None
       | Some t \<Rightarrow> rbind (normalizeRequiredCardText t) (\<lambda>t. Inr (Some t))) (\<lambda>front.
     Inr \<lparr>updFrontText = front, updBackText = map_option normalizeOptionalCardText (updBackText input),
       updTags = updTags input\<rparr>)"

section \<open>Cards\<close>

definition makeDefaultCardSourceMetadata :: "string \<Rightarrow> CardSourceMetadata" where
  "makeDefaultCardSourceMetadata made = \<lparr>label = None, author = None, comment = None,
     sourceCreatedAt = Some made, importedAt = None, importId = None\<rparr>"

definition makeDefaultCardMetadata :: "string \<Rightarrow> CardMetadata" where
  "makeDefaultCardMetadata made = \<lparr>metadataVersion = 1,
     metadataSource = Some (makeDefaultCardSourceMetadata made)\<rparr>"

definition buildInitialCard :: "string \<Rightarrow> CreateCardInput \<Rightarrow> string \<Rightarrow> string \<Rightarrow> string \<Rightarrow> Card" where
  "buildInitialCard uuid input updated installationId operationId = \<lparr>
     cardId = to_lower uuid, frontText = newFrontText input, backText = newBackText input, cardType = ''basic'',
     metadata = makeDefaultCardMetadata updated, tags = newTags input, dueAt = None, createdAt = updated,
     reps = 0, lapses = 0, fsrsCardState = New, fsrsStepIndex = None, fsrsStability = None,
     fsrsDifficulty = None, fsrsLastReviewedAt = None, fsrsScheduledDays = None, cardClientUpdatedAt = updated,
     cardReplicaId = installationId, cardOperationId = operationId, updatedAt = updated, deletedAt = None\<rparr>"

definition or_else :: "'a option \<Rightarrow> 'a \<Rightarrow> 'a" where
  "or_else x y = (case x of None \<Rightarrow> y | Some v \<Rightarrow> v)"

definition buildUpdatedCard :: "Card \<Rightarrow> UpdateCardInput \<Rightarrow> string \<Rightarrow> string \<Rightarrow> string \<Rightarrow> Card" where
  "buildUpdatedCard c input updated installationId operationId = c\<lparr>
     frontText := or_else (updFrontText input) (frontText c), backText := or_else (updBackText input) (backText c),
     tags := or_else (updTags input) (tags c), cardClientUpdatedAt := updated, cardReplicaId := installationId,
     cardOperationId := operationId, updatedAt := updated\<rparr>"

definition buildDeletedCard :: "Card \<Rightarrow> string \<Rightarrow> string \<Rightarrow> string \<Rightarrow> Card" where
  "buildDeletedCard c updated installationId operationId = c\<lparr>cardClientUpdatedAt := updated,
     cardReplicaId := installationId, cardOperationId := operationId, updatedAt := updated,
     deletedAt := Some updated\<rparr>"

text \<open>\<open>a !== b\<close> on \<open>number | null\<close>: NaN differs from everything, itself included.\<close>

definition numbers_differ :: "jsnum option \<Rightarrow> jsnum option \<Rightarrow> bool" where
  "numbers_differ x y = (case (x, y) of
     (None, None) \<Rightarrow> False | (Some a, Some b) \<Rightarrow> \<not> jeq a b | _ \<Rightarrow> True)"

definition doesCardMutationAffectReviewSchedule :: "Card option \<Rightarrow> Card \<Rightarrow> bool" where
  "doesCardMutationAffectReviewSchedule previousCard nextCard = (case previousCard of
     None \<Rightarrow> True
   | Some prev \<Rightarrow> dueAt prev \<noteq> dueAt nextCard \<or> reps prev \<noteq> reps nextCard \<or> lapses prev \<noteq> lapses nextCard
       \<or> fsrsCardState prev \<noteq> fsrsCardState nextCard \<or> fsrsStepIndex prev \<noteq> fsrsStepIndex nextCard
       \<or> numbers_differ (fsrsStability prev) (fsrsStability nextCard)
       \<or> numbers_differ (fsrsDifficulty prev) (fsrsDifficulty nextCard)
       \<or> fsrsLastReviewedAt prev \<noteq> fsrsLastReviewedAt nextCard
       \<or> numbers_differ (fsrsScheduledDays prev) (fsrsScheduledDays nextCard)
       \<or> deletedAt prev \<noteq> deletedAt nextCard)"

definition toReviewableCardState :: "(string \<Rightarrow> js_date) \<Rightarrow> Card \<Rightarrow> ReviewableCardScheduleState" where
  "toReviewableCardState p c = \<lparr>c_cardId = cardId c, c_reps = reps c, c_lapses = lapses c,
     c_state = fsrsCardState c, c_stepIndex = fsrsStepIndex c, c_stability = fsrsStability c,
     c_difficulty = fsrsDifficulty c, c_lastReviewedAt = map_option (new_date_text p) (fsrsLastReviewedAt c),
     c_scheduledDays = fsrsScheduledDays c\<rparr>"

definition buildReviewedCard :: "Card \<Rightarrow> ReviewSchedule \<Rightarrow> string \<Rightarrow> string \<Rightarrow> string \<Rightarrow> Card result" where
  "buildReviewedCard c schedule reviewedAt installationId operationId =
     rbind (to_iso_string (s_dueAt schedule)) (\<lambda>due.
     rbind (to_iso_string (s_lastReviewedAt schedule)) (\<lambda>lastReviewed.
     Inr (c\<lparr>dueAt := Some due, reps := s_reps schedule, lapses := s_lapses schedule,
       fsrsCardState := s_state schedule, fsrsStepIndex := s_stepIndex schedule,
       fsrsStability := Some (s_stability schedule), fsrsDifficulty := Some (s_difficulty schedule),
       fsrsLastReviewedAt := Some lastReviewed, fsrsScheduledDays := Some (s_scheduledDays schedule),
       cardClientUpdatedAt := reviewedAt, cardReplicaId := installationId, cardOperationId := operationId,
       updatedAt := reviewedAt\<rparr>)))"

section \<open>Decks and review events\<close>

definition buildDeck :: "string \<Rightarrow> DeckInput \<Rightarrow> string \<Rightarrow> string \<Rightarrow> string \<Rightarrow> Deck" where
  "buildDeck uuid input updated installationId operationId = \<lparr>deckId = to_lower uuid, deckWorkspaceId = [],
     deckName = inputName input, filterDefinition = inputFilter input, deckCreatedAt = updated,
     deckClientUpdatedAt = updated, deckReplicaId = installationId, deckOperationId = operationId,
     deckUpdatedAt = updated, deckDeletedAt = None\<rparr>"

definition buildUpdatedDeck :: "Deck \<Rightarrow> DeckInput \<Rightarrow> string \<Rightarrow> string \<Rightarrow> string \<Rightarrow> Deck" where
  "buildUpdatedDeck deck input updated installationId operationId = deck\<lparr>deckName := inputName input,
     filterDefinition := inputFilter input, deckClientUpdatedAt := updated, deckReplicaId := installationId,
     deckOperationId := operationId, deckUpdatedAt := updated\<rparr>"

definition buildDeletedDeck :: "Deck \<Rightarrow> string \<Rightarrow> string \<Rightarrow> string \<Rightarrow> Deck" where
  "buildDeletedDeck deck updated installationId operationId = deck\<lparr>deckClientUpdatedAt := updated,
     deckReplicaId := installationId, deckOperationId := operationId, deckUpdatedAt := updated,
     deckDeletedAt := Some updated\<rparr>"

definition buildReviewEvent ::
    "string \<Rightarrow> string \<Rightarrow> string \<Rightarrow> ReviewRating \<Rightarrow> string \<Rightarrow> string option \<Rightarrow> string \<Rightarrow> string \<Rightarrow> ReviewEvent" where
  "buildReviewEvent workspace card_id replica rating reviewedAt timeZone eventId clientEvent =
     \<lparr>reviewEventId = eventId, eventWorkspaceId = workspace, eventCardId = card_id, eventReplicaId = replica,
       clientEventId = clientEvent, eventRating = rating, reviewedAtClient = reviewedAt,
       reviewedTimeZone = timeZone, reviewedAtServer = reviewedAt\<rparr>"

section \<open>Operations sent to the server\<close>

text \<open>\<open>effortLevel\<close> is always \<open>fast\<close>, the effort levels of a deck are always empty.\<close>

record CardPayload =
  cp_cardId :: string
  cp_frontText :: string
  cp_backText :: string
  cp_cardType :: string
  cp_metadata :: CardMetadata
  cp_tags :: "string list"
  cp_effortLevel :: string
  cp_dueAt :: "string option"
  cp_createdAt :: string
  cp_reps :: int
  cp_lapses :: int
  cp_fsrsCardState :: FsrsCardState
  cp_fsrsStepIndex :: "int option"
  cp_fsrsStability :: "jsnum option"
  cp_fsrsDifficulty :: "jsnum option"
  cp_fsrsLastReviewedAt :: "string option"
  cp_fsrsScheduledDays :: "jsnum option"
  cp_deletedAt :: "string option"

record DeckPayload =
  dp_deckId :: string
  dp_name :: string
  dp_version :: int
  dp_effortLevels :: "string list"
  dp_tags :: "string list"
  dp_createdAt :: string
  dp_deletedAt :: "string option"

record ReviewEventPayload =
  ep_reviewEventId :: string
  ep_cardId :: string
  ep_clientEventId :: string
  ep_rating :: ReviewRating
  ep_reviewedAtClient :: string
  ep_reviewedTimeZone :: "string option"

datatype push_payload = CardUpsert CardPayload | DeckUpsert DeckPayload | ReviewEventAppend ReviewEventPayload

record SyncPushOperation =
  operationId :: string
  entityId :: string
  opClientUpdatedAt :: string
  payload :: push_payload

definition buildCardUpsertOperation :: "Card \<Rightarrow> SyncPushOperation result" where
  "buildCardUpsertOperation c = rbind (canonicalizeDueAtForSync (cardId c) (dueAt c)) (\<lambda>due.
     Inr \<lparr>operationId = cardOperationId c, entityId = cardId c, opClientUpdatedAt = cardClientUpdatedAt c,
       payload = CardUpsert \<lparr>cp_cardId = cardId c, cp_frontText = frontText c, cp_backText = backText c,
         cp_cardType = cardType c, cp_metadata = metadata c, cp_tags = tags c, cp_effortLevel = ''fast'',
         cp_dueAt = due, cp_createdAt = createdAt c, cp_reps = reps c, cp_lapses = lapses c,
         cp_fsrsCardState = fsrsCardState c, cp_fsrsStepIndex = fsrsStepIndex c, cp_fsrsStability = fsrsStability c,
         cp_fsrsDifficulty = fsrsDifficulty c, cp_fsrsLastReviewedAt = fsrsLastReviewedAt c,
         cp_fsrsScheduledDays = fsrsScheduledDays c, cp_deletedAt = deletedAt c\<rparr>\<rparr>)"

definition buildDeckUpsertOperation :: "Deck \<Rightarrow> SyncPushOperation" where
  "buildDeckUpsertOperation deck = \<lparr>operationId = deckOperationId deck, entityId = deckId deck,
     opClientUpdatedAt = deckClientUpdatedAt deck,
     payload = DeckUpsert \<lparr>dp_deckId = deckId deck, dp_name = deckName deck,
       dp_version = filterVersion (filterDefinition deck), dp_effortLevels = [],
       dp_tags = filterTags (filterDefinition deck), dp_createdAt = deckCreatedAt deck,
       dp_deletedAt = deckDeletedAt deck\<rparr>\<rparr>"

definition buildReviewEventAppendOperation :: "ReviewEvent \<Rightarrow> SyncPushOperation" where
  "buildReviewEventAppendOperation ev = \<lparr>operationId = reviewEventId ev, entityId = reviewEventId ev,
     opClientUpdatedAt = reviewedAtClient ev,
     payload = ReviewEventAppend \<lparr>ep_reviewEventId = reviewEventId ev, ep_cardId = eventCardId ev,
       ep_clientEventId = clientEventId ev, ep_rating = eventRating ev,
       ep_reviewedAtClient = reviewedAtClient ev, ep_reviewedTimeZone = reviewedTimeZone ev\<rparr>\<rparr>"

end
