(* ===== verification/ReviewOrder.thy ===== *)
theory ReviewOrder
  imports ReviewFilters Lww
begin

text \<open>
  The review queue of the web client (\<open>appData/domain/index.ts\<close>): which cards are due at a time, the
  order in which they are reviewed, and the timeline and queue of a filter. \<open>p\<close> reads dates the
  host's way, \<open>lc\<close> is the host's \<open>localeCompare\<close>. Every call of \<open>Date.now()\<close> is an argument.
\<close>

section \<open>Due cards\<close>

text \<open>
  \<open>parseDueAtMillis\<close> never throws (lemma \<open>parseDueAtMillis_returns\<close>), so its callers are modelled with
  the value it returns.
\<close>

definition isCardDue :: "Card \<Rightarrow> int \<Rightarrow> bool" where
  "isCardDue c nowTimestamp =
     (if deletedAt c \<noteq> None then False
      else (case dueAt c of
        None \<Rightarrow> True
      | Some s \<Rightarrow> (case dueAtMillis s of None \<Rightarrow> False | Some t \<Rightarrow> t \<le> nowTimestamp)))"

definition isCardNew :: "Card \<Rightarrow> bool" where
  "isCardNew c \<longleftrightarrow> reps c = 0 \<and> lapses c = 0"

definition isCardReviewed :: "Card \<Rightarrow> bool" where
  "isCardReviewed c \<longleftrightarrow> 0 < reps c \<or> 0 < lapses c"

definition makeDeckCardStats :: "Card list \<Rightarrow> int \<Rightarrow> DeckCardStats" where
  "makeDeckCardStats cards nowTimestamp = \<lparr>totalCards = length cards,
     dueCards = length (filter (\<lambda>c. isCardDue c nowTimestamp) cards),
     newCards = length (filter isCardNew cards), reviewedCards = length (filter isCardReviewed cards)\<rparr>"

section \<open>The order\<close>

definition recentDuePriorityWindow :: int where
  "recentDuePriorityWindow = 60 * 60 * 1000"

datatype ReviewOrderBucket = RecentDue | OldDue | NewNull | Future | Malformed

fun reviewOrderBucketRanks :: "ReviewOrderBucket \<Rightarrow> int" where
  "reviewOrderBucketRanks RecentDue = 0"
| "reviewOrderBucketRanks OldDue = 1"
| "reviewOrderBucketRanks NewNull = 2"
| "reviewOrderBucketRanks Future = 3"
| "reviewOrderBucketRanks Malformed = 4"

text \<open>The buckets are reviewed in the order of their ranks.\<close>

lemma bucket_eq: "a = b \<longleftrightarrow> reviewOrderBucketRanks a = reviewOrderBucketRanks b"
  by (cases a; cases b) simp_all

instantiation ReviewOrderBucket :: linorder
begin

definition less_eq_ReviewOrderBucket :: "ReviewOrderBucket \<Rightarrow> ReviewOrderBucket \<Rightarrow> bool" where
  "less_eq_ReviewOrderBucket a b \<longleftrightarrow> reviewOrderBucketRanks a \<le> reviewOrderBucketRanks b"

definition less_ReviewOrderBucket :: "ReviewOrderBucket \<Rightarrow> ReviewOrderBucket \<Rightarrow> bool" where
  "less_ReviewOrderBucket a b \<longleftrightarrow> reviewOrderBucketRanks a < reviewOrderBucketRanks b"

instance
  by intro_classes (auto simp: less_eq_ReviewOrderBucket_def less_ReviewOrderBucket_def bucket_eq)

end

lemmas bucket_order = less_ReviewOrderBucket_def less_eq_ReviewOrderBucket_def bucket_eq

definition isRecentlyReviewed :: "string option \<Rightarrow> int \<Rightarrow> bool" where
  "isRecentlyReviewed lastReviewedAt nowTimestamp = (case lastReviewedAt of
     None \<Rightarrow> False
   | Some s \<Rightarrow> (case dueAtMillis s of
       None \<Rightarrow> False
     | Some t \<Rightarrow> nowTimestamp - recentDuePriorityWindow \<le> t \<and> t \<le> nowTimestamp))"

definition getReviewOrderBucket :: "Card \<Rightarrow> int \<Rightarrow> ReviewOrderBucket" where
  "getReviewOrderBucket c nowTimestamp = (case dueAt c of
     None \<Rightarrow> NewNull
   | Some s \<Rightarrow> (case dueAtMillis s of
       None \<Rightarrow> Malformed
     | Some t \<Rightarrow>
         if nowTimestamp < t then Future
         else if isRecentlyReviewed (fsrsLastReviewedAt c) nowTimestamp then RecentDue else OldDue))"

definition getReviewOrderDueTimestamp :: "Card \<Rightarrow> jsnum" where
  "getReviewOrderDueTimestamp c = (case dueAt c of
     None \<Rightarrow> PosInf
   | Some s \<Rightarrow> (case dueAtMillis s of None \<Rightarrow> PosInf | Some t \<Rightarrow> num t))"

definition getReviewOrderCreatedTimestamp :: "(string \<Rightarrow> js_date) \<Rightarrow> Card \<Rightarrow> jsnum" where
  "getReviewOrderCreatedTimestamp p c = (let createdAtTimestamp = get_time (new_date_text p (createdAt c)) in
     if createdAtTimestamp = NaN then PosInf else createdAtTimestamp)"

definition compareCardsForReviewOrder ::
    "(string \<Rightarrow> js_date) \<Rightarrow> (string \<Rightarrow> string \<Rightarrow> int) \<Rightarrow> Card \<Rightarrow> Card \<Rightarrow> int \<Rightarrow> jsnum" where
  "compareCardsForReviewOrder p lc leftCard rightCard nowTimestamp = (let
     leftOrderRank = reviewOrderBucketRanks (getReviewOrderBucket leftCard nowTimestamp);
     rightOrderRank = reviewOrderBucketRanks (getReviewOrderBucket rightCard nowTimestamp)
   in if leftOrderRank \<noteq> rightOrderRank then num (leftOrderRank - rightOrderRank)
      else let
        leftDueTimestamp = getReviewOrderDueTimestamp leftCard;
        rightDueTimestamp = getReviewOrderDueTimestamp rightCard
      in if leftDueTimestamp \<noteq> rightDueTimestamp then jsub leftDueTimestamp rightDueTimestamp
         else let
           leftCreatedAtTimestamp = getReviewOrderCreatedTimestamp p leftCard;
           rightCreatedAtTimestamp = getReviewOrderCreatedTimestamp p rightCard
         in if leftCreatedAtTimestamp \<noteq> rightCreatedAtTimestamp
            then jsub leftCreatedAtTimestamp rightCreatedAtTimestamp
            else num (lc (cardId leftCard) (cardId rightCard)))"

text \<open>What \<open>sort\<close> sees of the number a comparator returns.\<close>

fun jsign :: "jsnum \<Rightarrow> int" where
  "jsign PosInf = 1"
| "jsign NegInf = -1"
| "jsign NaN = 0"
| "jsign (Num r) = (if 0 < r then 1 else if r < 0 then -1 else 0)"

abbreviation review_order ::
    "(string \<Rightarrow> js_date) \<Rightarrow> (string \<Rightarrow> string \<Rightarrow> int) \<Rightarrow> int \<Rightarrow> Card \<Rightarrow> Card \<Rightarrow> int" where
  "review_order p lc nowTimestamp a b \<equiv> jsign (compareCardsForReviewOrder p lc a b nowTimestamp)"

section \<open>Timeline and queue\<close>

definition deriveReviewTimeline ::
    "(string \<Rightarrow> js_date) \<Rightarrow> (string \<Rightarrow> string \<Rightarrow> int) \<Rightarrow> int \<Rightarrow> Card list \<Rightarrow> Card list" where
  "deriveReviewTimeline p lc nowTimestamp cards =
     sort_by (review_order p lc nowTimestamp) (filter (\<lambda>c. deletedAt c = None) cards)"

text \<open>The queue reads the clock first, the timeline it filters reads it again.\<close>

definition deriveReviewQueue ::
    "(string \<Rightarrow> js_date) \<Rightarrow> (string \<Rightarrow> string \<Rightarrow> int) \<Rightarrow> int \<Rightarrow> int \<Rightarrow> Card list \<Rightarrow> Card list" where
  "deriveReviewQueue p lc nowTimestamp timelineNow cards =
     filter (\<lambda>c. isCardDue c nowTimestamp) (deriveReviewTimeline p lc timelineNow cards)"

definition makeReviewTimeline ::
    "(string \<Rightarrow> js_date) \<Rightarrow> (string \<Rightarrow> string \<Rightarrow> int) \<Rightarrow> int \<Rightarrow> ReviewFilter \<Rightarrow> Deck list \<Rightarrow> Card list \<Rightarrow> Card list" where
  "makeReviewTimeline p lc nowTimestamp reviewFilter decks cards =
     deriveReviewTimeline p lc nowTimestamp (cardsMatchingReviewFilter lc reviewFilter decks cards)"

definition makeReviewQueue ::
    "(string \<Rightarrow> js_date) \<Rightarrow> (string \<Rightarrow> string \<Rightarrow> int) \<Rightarrow> int \<Rightarrow> int \<Rightarrow> ReviewFilter \<Rightarrow> Deck list \<Rightarrow> Card list \<Rightarrow> Card list" where
  "makeReviewQueue p lc nowTimestamp timelineNow reviewFilter decks cards =
     deriveReviewQueue p lc nowTimestamp timelineNow (cardsMatchingReviewFilter lc reviewFilter decks cards)"

definition currentReviewCard :: "Card list \<Rightarrow> Card option" where
  "currentReviewCard reviewQueue = (case reviewQueue of [] \<Rightarrow> None | c # _ \<Rightarrow> Some c)"

section \<open>The comparator is an order\<close>

text \<open>A collation: a total preorder of the texts.\<close>

definition collation :: "(string \<Rightarrow> string \<Rightarrow> int) \<Rightarrow> bool" where
  "collation lc \<longleftrightarrow> (\<forall>a b. \<not> lc a b \<le> 0 \<longrightarrow> lc b a \<le> 0) \<and> (\<forall>a b c. lc a b \<le> 0 \<longrightarrow> lc b c \<le> 0 \<longrightarrow> lc a c \<le> 0)"

text \<open>An order timestamp as a pair: infinity comes after every number.\<close>

fun stamp_key :: "jsnum \<Rightarrow> int \<times> int" where
  "stamp_key (Num r) = (0, \<lfloor>r\<rfloor>)"
| "stamp_key _ = (1, 0)"

definition order_stamp :: "jsnum \<Rightarrow> bool" where
  "order_stamp x \<longleftrightarrow> x = PosInf \<or> (\<exists>t. x = num t)"

lemma order_stamps: "order_stamp (getReviewOrderDueTimestamp c)" "order_stamp (getReviewOrderCreatedTimestamp p c)"
  by (auto simp: order_stamp_def getReviewOrderDueTimestamp_def getReviewOrderCreatedTimestamp_def Let_def
      split: option.split) (metis get_time.simps js_date.exhaust)

lemma jsign_pos: "jsign x \<le> 0 \<longleftrightarrow> \<not> jlt (Num 0) x"
  by (cases x) auto

lemma stamp_diff:
  assumes "order_stamp x" and "order_stamp y"
  shows "x = y \<longleftrightarrow> stamp_key x = stamp_key y" and "x \<noteq> y \<Longrightarrow> jsign (jsub x y) \<le> 0 \<longleftrightarrow> stamp_key x < stamp_key y"
  using assms jsub_int_sign(1)
  by (auto simp: order_stamp_def jsign_pos less_prod_def jsub_def)

definition order_key :: "(string \<Rightarrow> js_date) \<Rightarrow> int \<Rightarrow> Card \<Rightarrow> ReviewOrderBucket \<times> (int \<times> int) \<times> int \<times> int" where
  "order_key p nowTimestamp c = (getReviewOrderBucket c nowTimestamp,
     stamp_key (getReviewOrderDueTimestamp c), stamp_key (getReviewOrderCreatedTimestamp p c))"

lemma review_order_iff:
  "review_order p lc nowTimestamp a b \<le> 0 \<longleftrightarrow>
     order_key p nowTimestamp a < order_key p nowTimestamp b
     \<or> order_key p nowTimestamp a = order_key p nowTimestamp b \<and> lc (cardId a) (cardId b) \<le> 0"
proof -
  let ?da = "getReviewOrderDueTimestamp a" and ?db = "getReviewOrderDueTimestamp b"
  let ?ca = "getReviewOrderCreatedTimestamp p a" and ?cb = "getReviewOrderCreatedTimestamp p b"
  note d = stamp_diff [OF order_stamps(1) order_stamps(1), of a b]
  note c = stamp_diff [OF order_stamps(2) order_stamps(2), of p a p b]
  consider "reviewOrderBucketRanks (getReviewOrderBucket a nowTimestamp) \<noteq> reviewOrderBucketRanks (getReviewOrderBucket b nowTimestamp)"
    | (due) "reviewOrderBucketRanks (getReviewOrderBucket a nowTimestamp) = reviewOrderBucketRanks (getReviewOrderBucket b nowTimestamp)"
      "?da \<noteq> ?db"
    | (made) "reviewOrderBucketRanks (getReviewOrderBucket a nowTimestamp) = reviewOrderBucketRanks (getReviewOrderBucket b nowTimestamp)"
      "?da = ?db" "?ca \<noteq> ?cb"
    | "reviewOrderBucketRanks (getReviewOrderBucket a nowTimestamp) = reviewOrderBucketRanks (getReviewOrderBucket b nowTimestamp)"
      "?da = ?db" "?ca = ?cb" by blast
  then show ?thesis
  proof cases
    case due
    then have "stamp_key ?da \<noteq> stamp_key ?db" using d(1) by simp
    with due d(2) [OF due(2)] show ?thesis
      by (auto simp: compareCardsForReviewOrder_def order_key_def less_prod_simp bucket_order le_less)
  next
    case made
    then have "stamp_key ?ca \<noteq> stamp_key ?cb" using c(1) by simp
    with made c(2) [OF made(3)] show ?thesis
      by (auto simp: compareCardsForReviewOrder_def order_key_def less_prod_simp bucket_order le_less)
  qed (simp_all add: compareCardsForReviewOrder_def order_key_def less_prod_simp bucket_order)
qed

lemma review_order_total:
  assumes "collation lc" and "\<not> review_order p lc nowTimestamp a b \<le> 0"
  shows "review_order p lc nowTimestamp b a \<le> 0"
  using assms linorder_less_linear [of "order_key p nowTimestamp a" "order_key p nowTimestamp b"]
  unfolding review_order_iff collation_def by metis

lemma review_order_trans:
  assumes "collation lc" and "review_order p lc nowTimestamp a b \<le> 0" and "review_order p lc nowTimestamp b c \<le> 0"
  shows "review_order p lc nowTimestamp a c \<le> 0"
  using assms less_trans [of "order_key p nowTimestamp a" "order_key p nowTimestamp b" "order_key p nowTimestamp c"]
  unfolding review_order_iff collation_def by metis

interpretation review: comparator "review_order p lc nowTimestamp" "if collation lc then UNIV else {}"
  for p lc nowTimestamp
  by unfold_locales (simp_all split: if_splits, blast intro: review_order_total, blast intro: review_order_trans)

section \<open>What the queue holds\<close>

lemma due_rank: "deletedAt c = None \<Longrightarrow> isCardDue c nowTimestamp \<longleftrightarrow> reviewOrderBucketRanks (getReviewOrderBucket c nowTimestamp) \<le> 2"
  by (auto simp: isCardDue_def getReviewOrderBucket_def split: option.split)

lemma timeline_set: "c \<in> set (deriveReviewTimeline p lc now cards) \<longleftrightarrow> c \<in> set cards \<and> deletedAt c = None"
  by (simp add: deriveReviewTimeline_def)

lemma timeline_sorted:
  "collation lc \<Longrightarrow> sorted_wrt (\<lambda>a b. review_order p lc now a b \<le> 0) (deriveReviewTimeline p lc now cards)"
  unfolding deriveReviewTimeline_def by (rule review.sort_by_sorted) simp

text \<open>A sorted list in which a class comes first is that class followed by the rest.\<close>

lemma filter_prefix:
  assumes "sorted_wrt (\<lambda>a b. P b \<longrightarrow> P a) xs"
  shows "xs = filter P xs @ filter (\<lambda>x. \<not> P x) xs"
  using assms
proof (induction xs)
  case (Cons x xs)
  then have IH: "xs = filter P xs @ filter (\<lambda>x. \<not> P x) xs" by simp
  show ?case
  proof (cases "P x")
    case False
    then have "\<forall>y \<in> set xs. \<not> P y" using Cons.prems by auto
    then have "filter P xs = []" by (simp add: filter_empty_conv)
    with False IH show ?thesis by simp
  qed (use IH in simp)
qed simp

lemma timeline_due_first:
  assumes "collation lc"
  shows "deriveReviewTimeline p lc now cards = deriveReviewQueue p lc now now cards
    @ filter (\<lambda>c. \<not> isCardDue c now) (deriveReviewTimeline p lc now cards)"
proof -
  have "sorted_wrt (\<lambda>a b. isCardDue b now \<longrightarrow> isCardDue a now) (deriveReviewTimeline p lc now cards)"
  proof (rule sorted_wrt_mono_rel [OF _ timeline_sorted [OF assms]])
    fix a b assume ab: "a \<in> set (deriveReviewTimeline p lc now cards)" "b \<in> set (deriveReviewTimeline p lc now cards)"
      and "review_order p lc now a b \<le> 0"
    then have "reviewOrderBucketRanks (getReviewOrderBucket a now) \<le> reviewOrderBucketRanks (getReviewOrderBucket b now)"
      unfolding review_order_iff by (auto simp: order_key_def less_prod_def bucket_order)
    then show "isCardDue b now \<longrightarrow> isCardDue a now" using ab due_rank by (fastforce simp: timeline_set)
  qed
  from filter_prefix [OF this] show ?thesis by (simp add: deriveReviewQueue_def)
qed

lemma queue_set:
  "c \<in> set (deriveReviewQueue p lc now timelineNow cards) \<longleftrightarrow> c \<in> set cards \<and> isCardDue c now"
  by (auto simp: deriveReviewQueue_def timeline_set) (simp add: isCardDue_def split: if_splits)

lemma queue_sorted:
  assumes "collation lc"
  shows "sorted_wrt (\<lambda>a b. review_order p lc now a b \<le> 0) (deriveReviewQueue p lc now now cards)"
  unfolding deriveReviewQueue_def by (rule sorted_wrt_filter [OF timeline_sorted [OF assms]])

text \<open>The queue keeps the order of the cards it cannot tell apart.\<close>

lemma queue_stable:
  assumes "collation lc" and "\<And>a b. P a \<Longrightarrow> P b \<Longrightarrow> review_order p lc now a b \<le> 0"
  shows "filter P (deriveReviewTimeline p lc now cards) = filter P (filter (\<lambda>c. deletedAt c = None) cards)"
  unfolding deriveReviewTimeline_def
  using review.sort_by_stable [of "filter (\<lambda>c. deletedAt c = None) cards" lc P p now] assms by simp

end
