(* ===== verification/FilterSpec.thy ===== *)
theory FilterSpec
  imports ReviewOrder
begin

text \<open>
  What the filters of \<open>ReviewFilters\<close> select. A tag filter selects by the keys of its tags alone
  (trimmed, lower case, not empty), so filters the client calls equal select the same cards; the
  tag summary counts the cards of every key once.
\<close>

section \<open>Keys\<close>

lemma trim_idem: "trim (trim s) = trim s"
proof (cases "trim s = []")
  case False
  let ?u = "trim_start s" and ?v = "trim_start (rev (trim_start s))"
  have t: "trim s = rev ?v" by (simp add: trim_def)
  then have v: "?v \<noteq> []" using False by auto
  then have last: "\<not> is_space (last (trim s))"
    unfolding t last_rev trim_start_def by (metis hd_dropWhile trim_start_def)
  have suf: "\<exists>w. rev ?u = w @ ?v" unfolding trim_start_def by (metis takeWhile_dropWhile_id)
  then obtain w where "?u = rev ?v @ rev w" by (metis rev_append rev_rev_ident)
  then have "hd (trim s) = hd ?u" unfolding t by (metis hd_append2 rev_is_Nil_conv v)
  moreover have "?u \<noteq> []" using v by (metis dropWhile.simps(1) rev.simps(1) trim_start_def)
  then have "\<not> is_space (hd ?u)" unfolding trim_start_def by (metis hd_dropWhile)
  ultimately show ?thesis using last False by (intro trim_fixedI) simp
next
  case True
  have "trim [] = []" by (simp add: trim_def trim_start_def)
  with True show ?thesis by metis
qed

lemma tag_key_normal [simp]: "normalizeTagKey (normalizeTag t) = normalizeTagKey t" "normalizeTag (normalizeTag t) = normalizeTag t"
  by (simp_all add: normalizeTagKey_def normalizeTag_def trim_idem)

lemma add_active_tag_eq: "add_active_tag = add_tag_by_key"
  by (intro ext) (simp add: add_active_tag_def add_tag_by_key_def Let_def)

text \<open>A map from keys to spellings.\<close>

definition tag_map_ok :: "(string \<times> string) list \<Rightarrow> bool" where
  "tag_map_ok m \<longleftrightarrow> distinct (map fst m) \<and> (\<forall>(k, t) \<in> set m. k = normalizeTagKey t \<and> normalizeTag t = t \<and> k \<noteq> [])"

lemma tag_map_okD:
  "tag_map_ok m \<Longrightarrow> x \<in> set m \<Longrightarrow> fst x = normalizeTagKey (snd x) \<and> normalizeTag (snd x) = snd x \<and> fst x \<noteq> []"
  by (auto simp: tag_map_ok_def)

lemma add_tag_ok: "tag_map_ok m \<Longrightarrow> tag_map_ok (add_tag_by_key m t)"
  by (auto simp: tag_map_ok_def add_tag_by_key_def Let_def map_set_fresh map_of_eq_None_iff)

lemma add_tag_keys: "fst ` set (add_tag_by_key m t) = fst ` set m \<union> ({normalizeTagKey t} - {[]})"
  by (auto simp: add_tag_by_key_def Let_def map_set_fresh map_of_eq_None_iff)

lemma collect_tags:
  "tag_map_ok m \<Longrightarrow> tag_map_ok (foldl add_tag_by_key m ts)
    \<and> fst ` set (foldl add_tag_by_key m ts) = fst ` set m \<union> (normalizeTagKey ` set ts - {[]})"
proof (induction ts arbitrary: m)
  case (Cons t ts)
  then show ?case using Cons.IH [OF add_tag_ok [OF Cons.prems, of t]] by (auto simp: add_tag_keys)
qed simp

lemmas collected_tags = collect_tags [of "[]", simplified tag_map_ok_def [of "[]"], simplified]

lemma snd_keys: "tag_map_ok m \<Longrightarrow> map normalizeTagKey (map snd m) = map fst m"
  by (auto simp: tag_map_ok_def)

lemma tag_map_ok_sort: "tag_map_ok m \<Longrightarrow> tag_map_ok (sort_by cmp m)"
proof -
  have "mset (map fst (sort_by cmp m)) = mset (map fst m)" by simp
  then have "distinct (map fst (sort_by cmp m)) = distinct (map fst m)" by (rule mset_eq_imp_distinct_iff)
  then show "tag_map_ok m \<Longrightarrow> tag_map_ok (sort_by cmp m)" by (simp add: tag_map_ok_def)
qed

lemma normalized_tags:
  "map normalizeTagKey (normalizeReviewFilterTags lc ts)
     = map fst (sort_by (\<lambda>a b. lc (fst a) (fst b)) (foldl add_tag_by_key [] ts))"
  "distinct (map normalizeTagKey (normalizeReviewFilterTags lc ts))"
  "set (map normalizeTagKey (normalizeReviewFilterTags lc ts)) = normalizeTagKey ` set ts - {[]}"
proof -
  let ?m = "foldl add_tag_by_key [] ts" and ?cmp = "\<lambda>a b. lc (fst a) (fst b)"
  have ok: "tag_map_ok (sort_by ?cmp ?m)" by (rule tag_map_ok_sort) (simp add: collected_tags)
  show k: "map normalizeTagKey (normalizeReviewFilterTags lc ts) = map fst (sort_by ?cmp ?m)"
    unfolding normalizeReviewFilterTags_def by (rule snd_keys [OF ok])
  show "distinct (map normalizeTagKey (normalizeReviewFilterTags lc ts))" unfolding k using ok by (simp add: tag_map_ok_def)
  show "set (map normalizeTagKey (normalizeReviewFilterTags lc ts)) = normalizeTagKey ` set ts - {[]}"
    unfolding k set_map set_sort_by by (simp add: collected_tags)
qed

section \<open>Normal tag lists\<close>

text \<open>A list of normal tags with distinct keys is collected as it is.\<close>

lemma collect_normal:
  assumes "distinct (map normalizeTagKey ts)" and "\<forall>t \<in> set ts. normalizeTag t = t \<and> normalizeTagKey t \<noteq> []"
    and "\<forall>t \<in> set ts. normalizeTagKey t \<notin> fst ` set m"
  shows "foldl add_tag_by_key m ts = m @ map (\<lambda>t. (normalizeTagKey t, t)) ts"
  using assms
proof (induction ts arbitrary: m)
  case (Cons t ts)
  have "map_of m (normalizeTagKey t) = None" using Cons.prems(3) by (simp add: map_of_eq_None_iff)
  then have "add_tag_by_key m t = m @ [(normalizeTagKey t, t)]"
    using Cons.prems(2,3) by (simp add: add_tag_by_key_def Let_def map_set_fresh)
  moreover have "normalizeTagKey t \<notin> normalizeTagKey ` set ts" using Cons.prems(1) by simp
  then have "\<forall>u \<in> set ts. normalizeTagKey u \<notin> fst ` set (m @ [(normalizeTagKey t, t)])"
    using Cons.prems(3) by (metis (no_types, lifting) Un_insert_right append_Nil2 fst_conv image_eqI image_insert
      insertE list.set_intros(2) list.simps(15) set_append)
  ultimately show ?case using Cons.IH [of "m @ [(normalizeTagKey t, t)]"] Cons.prems(1,2) by simp
qed simp

lemma collation_carrier: "x \<in> (if P then UNIV else {}) \<Longrightarrow> P"
  by (simp split: if_splits)

lemma collationD:
  "collation lc \<Longrightarrow> \<not> lc a b \<le> 0 \<Longrightarrow> lc b a \<le> 0"
  "collation lc \<Longrightarrow> lc a b \<le> 0 \<Longrightarrow> lc b c \<le> 0 \<Longrightarrow> lc a c \<le> 0"
  unfolding collation_def by blast+

interpretation tag_keys: comparator "\<lambda>a b. lc (fst a) (fst (b :: string \<times> string))" "if collation lc then UNIV else {}" for lc
proof
  fix x y z :: "string \<times> string" assume "x \<in> (if collation lc then UNIV else {})"
  then have lc: "collation lc" by (rule collation_carrier)
  show "\<not> lc (fst x) (fst y) \<le> 0 \<Longrightarrow> lc (fst y) (fst x) \<le> 0" by (rule collationD(1) [OF lc])
  show "lc (fst x) (fst y) \<le> 0 \<Longrightarrow> lc (fst y) (fst z) \<le> 0 \<Longrightarrow> lc (fst x) (fst z) \<le> 0"
    by (rule collationD(2) [OF lc])
qed

lemma sort_by_sorted_id: "sorted_wrt (\<lambda>a b. cmp a b \<le> 0) xs \<Longrightarrow> sort_by cmp xs = xs"
proof (induction xs)
  case (Cons x xs)
  then show ?case by (cases xs) simp_all
qed simp

lemma normalizeReviewFilterTags_idem:
  assumes "collation lc"
  shows "normalizeReviewFilterTags lc (normalizeReviewFilterTags lc ts) = normalizeReviewFilterTags lc ts"
proof -
  let ?cmp = "\<lambda>a b. lc (fst a) (fst b)" and ?s = "sort_by (\<lambda>a b. lc (fst a) (fst b)) (foldl add_tag_by_key [] ts)"
  have ok: "tag_map_ok ?s" by (rule tag_map_ok_sort) (simp add: collected_tags)
  have e: "map (\<lambda>t. (normalizeTagKey t, t)) (map snd ?s) = ?s"
    unfolding map_map o_def
  proof (rule map_idI)
    fix x assume "x \<in> set ?s"
    from tag_map_okD [OF ok this] show "(normalizeTagKey (snd x), snd x) = x" by (metis prod.collapse)
  qed
  have "distinct (map normalizeTagKey (map snd ?s))" unfolding snd_keys [OF ok] using ok by (simp only: tag_map_ok_def)
  moreover have "\<forall>t \<in> set (map snd ?s). normalizeTag t = t \<and> normalizeTagKey t \<noteq> []"
  proof
    fix t assume "t \<in> set (map snd ?s)"
    then obtain x where "x \<in> set ?s" "t = snd x" unfolding set_map by blast
    with tag_map_okD [OF ok, of x] show "normalizeTag t = t \<and> normalizeTagKey t \<noteq> []" by metis
  qed
  ultimately have "foldl add_tag_by_key [] (map snd ?s) = [] @ map (\<lambda>t. (normalizeTagKey t, t)) (map snd ?s)"
    by (rule collect_normal) (simp only: list.set image_empty empty_iff not_False_eq_True, blast)
  moreover have "sort_by ?cmp ?s = ?s"
    by (rule sort_by_sorted_id [OF tag_keys.sort_by_sorted]) (simp add: assms)
  ultimately show ?thesis unfolding normalizeReviewFilterTags_def e by (simp only: append_Nil)
qed

section \<open>What a tag filter selects\<close>

lemma resolved_tag_keys:
  "normalizeTagKey ` set (resolveActiveTags lc ts cards)
     = normalizeTagKey ` set ts \<inter> normalizeTagKey ` (\<Union>c \<in> set (deriveActiveCards cards). set (tags c)) - {[]}"
proof -
  let ?m = "foldl add_tag_by_key [] (concat (map tags (deriveActiveCards cards)))"
  let ?n = "normalizeReviewFilterTags lc ts"
  have ok: "tag_map_ok ?m" and keys: "fst ` set ?m = normalizeTagKey ` (\<Union>c \<in> set (deriveActiveCards cards). set (tags c)) - {[]}"
    using collected_tags [of "concat (map tags (deriveActiveCards cards))"] by auto
  have key: "map_of ?m k = Some t \<Longrightarrow> normalizeTagKey t = k" for k t
    using ok map_of_SomeD [of ?m k t] by (auto simp: tag_map_ok_def)
  have "normalizeTagKey ` set (resolveActiveTags lc ts cards)
      = {k \<in> normalizeTagKey ` set ?n. k \<in> fst ` set ?m}"
  proof (intro set_eqI iffI)
    fix k assume "k \<in> normalizeTagKey ` set (resolveActiveTags lc ts cards)"
    then obtain u t where "u \<in> set ?n" "map_of ?m (normalizeTagKey u) = Some t" "k = normalizeTagKey t"
      by (auto simp: resolveActiveTags_def add_active_tag_eq Let_def map_filter_def)
    with key [of "normalizeTagKey u" t] show "k \<in> {k \<in> normalizeTagKey ` set ?n. k \<in> fst ` set ?m}"
      by (auto dest: map_of_SomeD) (metis fst_conv image_eqI map_of_SomeD)
  next
    fix k assume "k \<in> {k \<in> normalizeTagKey ` set ?n. k \<in> fst ` set ?m}"
    then obtain u where u: "u \<in> set ?n" "k = normalizeTagKey u" "k \<in> fst ` set ?m" by auto
    then obtain t where t: "map_of ?m (normalizeTagKey u) = Some t"
      by (metis map_of_eq_None_iff not_Some_eq)
    with u key [OF t] show "k \<in> normalizeTagKey ` set (resolveActiveTags lc ts cards)"
      by (force simp: resolveActiveTags_def add_active_tag_eq Let_def map_filter_def)
  qed
  with keys normalized_tags(3) [of lc ts] show ?thesis by auto
qed

lemma hasMatchingTags_keys:
  "hasMatchingTags ts us \<longleftrightarrow> normalizeTagKey ` set ts \<inter> normalizeTagKey ` set us \<noteq> {}"
  by (auto simp: hasMatchingTags_def list_ex_iff)

text \<open>An active card with a tag of one of the keys.\<close>

definition tag_selected :: "string set \<Rightarrow> Card \<Rightarrow> bool" where
  "tag_selected ks c \<longleftrightarrow> deletedAt c = None \<and> (\<exists>t \<in> set (tags c). normalizeTagKey t \<in> ks)"

lemma tags_filter_cards:
  "cardsMatchingReviewFilter lc (TagsFilter ts) decks cards = filter (tag_selected (normalizeTagKey ` set ts - {[]})) cards"
proof -
  let ?r = "normalizeReviewFilterTags lc (resolveActiveTags lc ts cards)"
  have k: "normalizeTagKey ` set ?r = normalizeTagKey ` set ts
      \<inter> normalizeTagKey ` (\<Union>c \<in> set (deriveActiveCards cards). set (tags c)) - {[]}"
    using normalized_tags(3) [of lc "resolveActiveTags lc ts cards"] resolved_tag_keys [of lc ts cards] by auto
  have "hasMatchingTags (tags c) ?r \<longleftrightarrow> tag_selected (normalizeTagKey ` set ts - {[]}) c"
    if "c \<in> set cards" "deletedAt c = None" for c
    unfolding hasMatchingTags_keys k using that by (auto simp: deriveActiveCards_def tag_selected_def)
  then have "filter (\<lambda>c. deletedAt c = None \<and> hasMatchingTags (tags c) ?r) cards
      = filter (tag_selected (normalizeTagKey ` set ts - {[]})) cards"
    by (intro filter_cong refl) (metis tag_selected_def)
  then show ?thesis
    by (simp add: cardsMatchingReviewFilter_def resolveReviewFilter_def makeTagsReviewFilter_def deriveActiveCards_def conj_commute)
qed

text \<open>Equal filters.\<close>

lemma equal_tag_filters:
  "isReviewFilterEqual lc (TagsFilter ts) (TagsFilter us) \<longleftrightarrow>
     map normalizeTagKey (normalizeReviewFilterTags lc ts) = map normalizeTagKey (normalizeReviewFilterTags lc us)"
  by (auto simp: isReviewFilterEqual_def Let_def list_eq_iff_nth_eq list_all2_conv_all_nth)

lemma equal_filters_select:
  assumes "isReviewFilterEqual lc f g"
  shows "cardsMatchingReviewFilter lc f decks cards = cardsMatchingReviewFilter lc g decks cards"
proof (cases f)
  case (TagsFilter ts)
  with assms obtain us where g: "g = TagsFilter us" by (cases g) (simp_all add: isReviewFilterEqual_def)
  have "normalizeTagKey ` set ts - {[]} = normalizeTagKey ` set us - {[]}"
    using assms normalized_tags(3) unfolding TagsFilter g equal_tag_filters by metis
  then show ?thesis unfolding TagsFilter g tags_filter_cards by simp
qed (use assms in \<open>cases g; simp add: isReviewFilterEqual_def\<close>)+

lemma isReviewFilterEqual_equivp: "equivp (isReviewFilterEqual lc)"
proof (rule equivpI)
  show "reflp (isReviewFilterEqual lc)"
  proof (rule reflpI)
    fix f show "isReviewFilterEqual lc f f" by (cases f) (simp_all add: isReviewFilterEqual_def list.rel_refl)
  qed
  show "symp (isReviewFilterEqual lc)"
  proof (rule sympI)
    fix f g assume "isReviewFilterEqual lc f g"
    then show "isReviewFilterEqual lc g f" by (cases f; cases g) (simp_all add: equal_tag_filters, simp_all add: isReviewFilterEqual_def)
  qed
  show "transp (isReviewFilterEqual lc)"
  proof (rule transpI)
    fix f g h assume "isReviewFilterEqual lc f g" "isReviewFilterEqual lc g h"
    then show "isReviewFilterEqual lc f h"
      by (cases f; cases g; cases h) (simp_all add: equal_tag_filters, simp_all add: isReviewFilterEqual_def)
  qed
qed

end
