(* ===== verification/WebSpec.thy ===== *)
theory WebSpec
  imports WebEditing FilterSpec
begin

text \<open>
  What the editing functions of \<open>WebEditing\<close> promise: the client's comparison of two writes agrees
  with the server's on printed time stamps, the upserts behave as maps by identifier, and a
  reviewed card, read back for its next review, is the card the scheduler returned.
\<close>

section \<open>The order of UTF-8 bytes\<close>

lemma compare_bytes_same: "compare_bytes (xs @ as) (xs @ bs) = compare_bytes as bs"
  by (induction xs) simp_all

lemma utf8_char_range: "b \<in> set (utf8_char c) \<Longrightarrow> 0 \<le> b"
  by (simp add: Let_def split: if_splits) auto

lemma utf8_char_ne: "\<exists>b bs. utf8_char c = b # bs \<and> 0 \<le> b"
  by (simp add: Let_def)

lemma utf8_char_less:
  assumes "c < d"
  shows "compare_bytes (utf8_char c @ as) (utf8_char d @ bs) < 0" and "0 < compare_bytes (utf8_char d @ bs) (utf8_char c @ as)"
proof -
  define n m where "n = int (of_char c :: nat)" and "m = int (of_char d :: nat)"
  have nm: "n < m" using assms by (simp add: n_def m_def less_char_def)
  have u: "utf8_char c = (if n < 128 then [n] else [192 + n div 64, 128 + n mod 64])"
    "utf8_char d = (if m < 128 then [m] else [192 + m div 64, 128 + m mod 64])"
    by (simp_all add: n_def m_def Let_def)
  have q: "n div 64 \<le> m div 64" using nm by (intro zdiv_mono1) simp_all
  have r: "n div 64 = m div 64 \<Longrightarrow> n mod 64 < m mod 64"
    using nm div_mult_mod_eq [of n 64] div_mult_mod_eq [of m 64] by linarith
  have pos: "0 \<le> m div 64" if "128 \<le> m" using that by (simp add: pos_imp_zdiv_nonneg_iff)
  consider "m < 128" | "n < 128" "128 \<le> m" | "128 \<le> n" using nm by linarith
  then have "compare_bytes (utf8_char c @ as) (utf8_char d @ bs) < 0 \<and> 0 < compare_bytes (utf8_char d @ bs) (utf8_char c @ as)"
  proof cases
    case 1
    with nm show ?thesis unfolding u by simp
  next
    case 2
    with pos show ?thesis unfolding u by simp
  next
    case 3
    then have "\<not> n < 128" "\<not> m < 128" using nm by linarith+
    with q r show ?thesis unfolding u by auto
  qed
  then show "compare_bytes (utf8_char c @ as) (utf8_char d @ bs) < 0" and "0 < compare_bytes (utf8_char d @ bs) (utf8_char c @ as)"
    by blast+
qed

lemma compareUtf8Strings_sign:
  "compareUtf8Strings a b < 0 \<longleftrightarrow> a < b" "compareUtf8Strings a b = 0 \<longleftrightarrow> a = b" "0 < compareUtf8Strings a b \<longleftrightarrow> b < a"
proof -
  have "(compareUtf8Strings a b < 0) = (a < b) \<and> (compareUtf8Strings a b = 0) = (a = b) \<and> (0 < compareUtf8Strings a b) = (b < a)"
    unfolding compareUtf8Strings_def
  proof (induction a arbitrary: b)
    case Nil
    show ?case
    proof (cases b)
      case (Cons d ds)
      obtain x xs where "utf8_char d = x # xs" "0 \<le> x" using utf8_char_ne by blast
      with Cons show ?thesis by (simp add: utf8_def)
    qed (simp add: utf8_def)
  next
    case (Cons c cs)
    show ?case
    proof (cases b)
      case Nil
      obtain x xs where "utf8_char c = x # xs" "0 \<le> x" using utf8_char_ne by blast
      with Nil show ?thesis by (simp add: utf8_def)
    next
      case b: (Cons d ds)
      have e: "utf8 (c # cs) = utf8_char c @ utf8 cs" "utf8 (d # ds) = utf8_char d @ utf8 ds"
        by (simp_all add: utf8_def del: utf8_char.simps)
      consider "c < d" | "c = d" | "d < c" by (rule linorder_cases)
      then show ?thesis
      proof cases
        case 1
        with utf8_char_less [OF 1, where as = "utf8 cs" and bs = "utf8 ds"] show ?thesis unfolding b e
          by (auto simp del: utf8_char.simps)
      next
        case 2
        with Cons.IH [of ds] show ?thesis unfolding b e by (simp add: compare_bytes_same del: utf8_char.simps)
      next
        case 3
        with utf8_char_less [OF 3, where as = "utf8 ds" and bs = "utf8 cs"] show ?thesis unfolding b e
          by (auto simp del: utf8_char.simps)
      qed
    qed
  qed
  then show "compareUtf8Strings a b < 0 \<longleftrightarrow> a < b" "compareUtf8Strings a b = 0 \<longleftrightarrow> a = b" "0 < compareUtf8Strings a b \<longleftrightarrow> b < a"
    by simp_all
qed

section \<open>The client's order of writes\<close>

definition web_key :: "LwwMetadata \<Rightarrow> string \<times> string \<times> string" where
  "web_key x = (clientUpdatedAt x, lastModifiedByReplicaId x, lastOperationId x)"

lemma compareLww_iff: "0 < compareLww x y \<longleftrightarrow> web_key y < web_key x"
  by (auto simp: compareLww_def Let_def web_key_def less_prod_simp compareUtf8Strings_sign le_less)

definition web_write :: "LwwMetadata \<Rightarrow> LwwMetadata \<Rightarrow> LwwMetadata" where
  "web_write stored incoming = (if 0 < compareLww incoming stored then incoming else stored)"

interpretation web_metadata: lww_register web_key web_write "\<lambda>_. True"
  by unfold_locales (simp add: web_write_def compareLww_iff)

section \<open>Printed time stamps are ordered as the times\<close>

lemma radix_less:
  fixes q q' r r' b :: int
  assumes "0 \<le> r" "r < b" "0 \<le> r'" "r' < b"
  shows "q * b + r < q' * b + r' \<longleftrightarrow> q < q' \<or> q = q' \<and> r < r'"
proof -
  consider "q < q'" | "q = q'" | "q' < q" by linarith
  then show ?thesis
  proof cases
    case 1
    then have "(q + 1) * b \<le> q' * b" using assms by (intro mult_right_mono) simp_all
    then have "q * b + b \<le> q' * b" by (simp add: ring_distribs)
    then show ?thesis using 1 assms by linarith
  next
    case 3
    then have "(q' + 1) * b \<le> q * b" using assms by (intro mult_right_mono) simp_all
    then have "q' * b + b \<le> q * b" by (simp add: ring_distribs)
    then show ?thesis using 3 assms by linarith
  qed simp
qed

lemma radix_eq:
  fixes q q' r r' b :: int
  assumes "0 \<le> r" "r < b" "0 \<le> r'" "r' < b"
  shows "q * b + r = q' * b + r' \<longleftrightarrow> q = q' \<and> r = r'"
  using radix_less [OF assms, of q q'] radix_less [OF assms(3,4,1,2), of q' q] by auto

lemma time_part_ranges:
  assumes "0 \<le> a" "a < ms_per_day"
  shows "0 \<le> a div 3600000" "a div 3600000 < 100" "0 \<le> a div 60000 mod 60" "a div 60000 mod 60 < 60"
    "0 \<le> a div 1000 mod 60" "a div 1000 mod 60 < 60" "0 \<le> a mod 1000" "a mod 1000 < 1000"
proof -
  show "0 \<le> a div 3600000" using assms(1) by (simp only: pos_imp_zdiv_nonneg_iff)
  show "a div 3600000 < 100" using hours_le [OF assms(2)] by linarith
qed simp_all

lemma iso_time_less:
  assumes "0 \<le> a" "a < ms_per_day" "0 \<le> b" "b < ms_per_day"
  shows "iso_time a < iso_time b \<longleftrightarrow> a < b"
proof -
  define h mi s r where "h = a div 3600000" and "mi = a div 60000 mod 60" and "s = a div 1000 mod 60" and "r = a mod 1000"
  define h' mi' s' r' where "h' = b div 3600000" and "mi' = b div 60000 mod 60" and "s' = b div 1000 mod 60" and "r' = b mod 1000"
  note da = h_def mi_def s_def r_def and db = h'_def mi'_def s'_def r'_def
  have ra: "0 \<le> h" "h < 100" "0 \<le> mi" "mi < 60" "0 \<le> s" "s < 60" "0 \<le> r" "r < 1000"
    using time_part_ranges [OF assms(1,2)] by (simp_all only: da)
  have rb: "0 \<le> h'" "h' < 100" "0 \<le> mi'" "mi' < 60" "0 \<le> s'" "s' < 60" "0 \<le> r'" "r' < 1000"
    using time_part_ranges [OF assms(3,4)] by (simp_all only: db)
  have "a < b \<longleftrightarrow> h < h' \<or> h = h' \<and> (mi < mi' \<or> mi = mi' \<and> (s < s' \<or> s = s' \<and> r < r'))"
  proof -
    have ab: "a = ((h * 60 + mi) * 60 + s) * 1000 + r" "b = ((h' * 60 + mi') * 60 + s') * 1000 + r'"
      by (simp_all only: da db time_of_day_parts)
    have "a < b \<longleftrightarrow> (h * 60 + mi) * 60 + s < (h' * 60 + mi') * 60 + s'
        \<or> (h * 60 + mi) * 60 + s = (h' * 60 + mi') * 60 + s' \<and> r < r'"
      unfolding ab by (rule radix_less) (use ra rb in auto)
    moreover have "(h * 60 + mi) * 60 + s < (h' * 60 + mi') * 60 + s' \<longleftrightarrow>
        h * 60 + mi < h' * 60 + mi' \<or> h * 60 + mi = h' * 60 + mi' \<and> s < s'"
      by (rule radix_less) (use ra rb in auto)
    moreover have "h * 60 + mi < h' * 60 + mi' \<longleftrightarrow> h < h' \<or> h = h' \<and> mi < mi'"
      by (rule radix_less) (use ra rb in auto)
    moreover have "h * 60 + mi = h' * 60 + mi' \<longleftrightarrow> h = h' \<and> mi = mi'"
      by (rule radix_eq) (use ra rb in auto)
    moreover have "(h * 60 + mi) * 60 + s = (h' * 60 + mi') * 60 + s' \<longleftrightarrow> h * 60 + mi = h' * 60 + mi' \<and> s = s'"
      by (rule radix_eq) (use ra rb in auto)
    ultimately show ?thesis by blast
  qed
  moreover have "iso_time a < iso_time b \<longleftrightarrow> h < h' \<or> h = h' \<and> (mi < mi' \<or> mi = mi' \<and> (s < s' \<or> s = s' \<and> r < r'))"
    unfolding iso_time_def da [symmetric] db [symmetric]
    using ra rb by (simp add: list_less_append_left pad_less pad_inject nat_less_eq_zless eq_nat_nat_iff del: pad.simps) auto
  ultimately show ?thesis by simp
qed

lemma iso_string_less:
  assumes "iso_day (utc_day s)" and "iso_day (utc_day t)"
    and "to_iso_string (Date s) = Inr a" and "to_iso_string (Date t) = Inr b"
  shows "a < b \<longleftrightarrow> s < t" and "a = b \<longleftrightarrow> s = t"
proof -
  have r: "0 \<le> s mod ms_per_day" "s mod ms_per_day < ms_per_day" "0 \<le> t mod ms_per_day" "t mod ms_per_day < ms_per_day"
    by (simp_all add: ms_per_day_def)
  have ab: "a = iso_date (utc_day s) @ ''T'' @ iso_time (s mod ms_per_day)"
    "b = iso_date (utc_day t) @ ''T'' @ iso_time (t mod ms_per_day)" using assms(3,4) by simp_all
  have len: "length (iso_date (utc_day s)) = length (iso_date (utc_day t))"
    using assms(1,2) by (simp add: length_iso_date)
  have "a < b \<longleftrightarrow> utc_day s < utc_day t \<or> utc_day s = utc_day t \<and> s mod ms_per_day < t mod ms_per_day"
    unfolding ab list_less_append_left [OF len] iso_date_less [OF assms(1,2)] iso_date_inject [OF assms(1,2)]
    using iso_time_less [OF r] by simp
  also have "\<dots> \<longleftrightarrow> utc_day s * ms_per_day + s mod ms_per_day < utc_day t * ms_per_day + t mod ms_per_day"
    using radix_less [OF r] by blast
  also have "\<dots> \<longleftrightarrow> s < t" by (simp add: utc_day_def)
  finally show "a < b \<longleftrightarrow> s < t" .
  show "a = b \<longleftrightarrow> s = t"
  proof
    assume "a = b"
    with assms show "s = t" using new_date_text_printed by (metis js_date.inject)
  qed (use assms(3,4) in simp)
qed

text \<open>A write whose time stamp is the printed form of a time with a four digit year.\<close>

definition printed_stamp :: "LwwMetadata \<Rightarrow> int \<Rightarrow> bool" where
  "printed_stamp x t \<longleftrightarrow> iso_day (utc_day t) \<and> to_iso_string (Date t) = Inr (clientUpdatedAt x)"

lemma client_server_agree:
  assumes "printed_stamp x s" and "printed_stamp y t"
  shows "0 < compareLww x y \<longleftrightarrow> incomingLwwMetadataWins p x y"
proof -
  have d: "new_date_text p (clientUpdatedAt x) = Date s" "new_date_text p (clientUpdatedAt y) = Date t"
    using assms new_date_text_printed by (simp_all add: printed_stamp_def del: to_iso_string.simps)
  then have dated: "dated p x" "dated p y" by (simp_all add: dated_def)
  have "clientUpdatedAt y < clientUpdatedAt x \<longleftrightarrow> t < s" "clientUpdatedAt y = clientUpdatedAt x \<longleftrightarrow> t = s"
    using iso_string_less assms by (simp_all add: printed_stamp_def del: to_iso_string.simps)
  then show ?thesis
    unfolding compareLww_iff incoming_wins_iff [OF dated] web_key_def lww_key_def d
    by (simp add: less_prod_simp le_less)
qed

section \<open>Cards\<close>

lemma upsertCard_find: "find (\<lambda>c. cardId c = i) (upsertCard cards c) = (if i = cardId c then Some c else find (\<lambda>c. cardId c = i) cards)"
proof (cases "i = cardId c")
  case False
  have "find (\<lambda>c. cardId c = i) (filter (\<lambda>d. cardId d \<noteq> cardId c) cards) = find (\<lambda>c. cardId c = i) cards"
    using False by (induction cards) auto
  with False show ?thesis by (simp add: upsertCard_def)
qed (simp add: upsertCard_def)

lemma upsertCard_distinct: "distinct (map cardId cards) \<Longrightarrow> distinct (map cardId (upsertCard cards c))"
  by (auto simp: upsertCard_def distinct_map_filter)

lemma reviewed_card_state:
  assumes "buildReviewedCard c schedule stamp installation operation = Inr c'"
    and "s_lastReviewedAt schedule = Date t" and "iso_day (utc_day t)"
  shows "toReviewableCardState p c' = card_of_schedule (cardId c) schedule"
proof -
  obtain due last where "to_iso_string (Date t) = Inr last"
    and c': "cardId c' = cardId c" "reps c' = s_reps schedule" "lapses c' = s_lapses schedule"
      "fsrsCardState c' = s_state schedule" "fsrsStepIndex c' = s_stepIndex schedule"
      "fsrsStability c' = Some (s_stability schedule)" "fsrsDifficulty c' = Some (s_difficulty schedule)"
      "fsrsLastReviewedAt c' = Some last" "fsrsScheduledDays c' = Some (s_scheduledDays schedule)"
    using assms(1,2) by (auto simp: buildReviewedCard_def res_simps simp del: to_iso_string.simps)
  then have "new_date_text p last = Date t" using new_date_text_printed [OF assms(3)] by blast
  with c' assms(2) show ?thesis by (simp add: toReviewableCardState_def card_of_schedule_def)
qed

text \<open>The tags of a deck filter: one spelling per key, none empty.\<close>

lemma filter_tags_collected:
  assumes "distinct (map normalizeTagKey r)" and "\<forall>t \<in> set r. normalizeTag t = t \<and> t \<noteq> []"
  shows "distinct (map normalizeTagKey (foldl add_filter_tag r ts))
    \<and> (\<forall>t \<in> set (foldl add_filter_tag r ts). normalizeTag t = t \<and> t \<noteq> [])
    \<and> normalizeTagKey ` set (foldl add_filter_tag r ts) = normalizeTagKey ` set r \<union> normalizeTagKey ` {t \<in> set ts. normalizeTag t \<noteq> []}"
  using assms
proof (induction ts arbitrary: r)
  case (Cons t ts)
  have k: "normalizeTagKey (normalizeTag t) = normalizeTagKey t" "normalizeTag (normalizeTag t) = normalizeTag t"
    by (simp_all add: normalizeTagKey_def normalizeTag_def trim_idem)
  have "distinct (map normalizeTagKey (add_filter_tag r t)) \<and> (\<forall>t \<in> set (add_filter_tag r t). normalizeTag t = t \<and> t \<noteq> [])
      \<and> normalizeTagKey ` set (add_filter_tag r t) = normalizeTagKey ` set r \<union> normalizeTagKey ` {u \<in> {t}. normalizeTag u \<noteq> []}"
    using Cons.prems k by (auto simp: add_filter_tag_def Let_def list_ex_iff) (metis image_eqI)
  then show ?case using Cons.IH [of "add_filter_tag r t"] by auto
qed simp

end
