(* ===== verification/WebProperties.thy ===== *)
theory WebProperties
  imports WebSpec
begin

text \<open>
  The properties of the web client: due dates, the review queue and its filters, the client's
  last-writer-wins order, and its cards.
\<close>

section \<open>Concrete inputs of the witnesses\<close>

definition unit_collation :: "string \<Rightarrow> string \<Rightarrow> int" where
  "unit_collation a b = (if a < b then -1 else if b < a then 1 else 0)"

lemma unit_collation: "collation unit_collation"
  by (auto simp: collation_def unit_collation_def)

definition web_card :: "string \<Rightarrow> string list \<Rightarrow> Card" where
  "web_card i ts = buildInitialCard i \<lparr>newFrontText = ''front'', newBackText = ''back'', newTags = ts\<rparr> ''then'' ''a'' ''0''"

definition epoch_host :: "string \<Rightarrow> js_date" where
  "epoch_host s = Date 0"

section \<open>Due dates\<close>

text \<open>
  C24. Reading a due date never throws, and it is the instant \<open>t\<close> exactly when the text has the
  shape of the pattern, its date exists in the calendar (0000-02-29 is refused although it does),
  its time of day and its offset are in range, and \<open>t\<close> is that date and time less the offset.
\<close>

theorem due_date_meaning:
  "parseDueAtMillis s = Inr (Some t) \<longleftrightarrow>
     fits due_at_template (take 19 s) \<and> is_offset (snd (split_fraction (drop 19 s)))
     \<and> valid_civil (field 0 4 s) (field 5 7 s - 1) (field 8 10 s)
     \<and> (field 0 4 s, field 5 7 s, field 8 10 s) \<noteq> (0, 2, 29)
     \<and> field 11 13 s \<le> 23 \<and> field 14 16 s \<le> 59 \<and> field 17 19 s \<le> 59
     \<and> (\<exists>offset. offset_millis (snd (split_fraction (drop 19 s))) = Some offset
         \<and> t = make_day (field 0 4 s) (field 5 7 s - 1) (field 8 10 s) * ms_per_day
             + time_of_day (field 11 13 s) (field 14 16 s) (field 17 19 s)
                 (fraction_millis (fst (split_fraction (drop 19 s)))) - offset)"
  unfolding parseDueAtMillis_returns sum.inject dueAtMillis_Some_iff ..

text \<open>
  C25. The due date the client sends for a card denotes the instant the client stored, and sending
  the sent text again sends it unchanged, for every instant of the years 0 to 9999 but the one day
  the parser refuses.
\<close>

theorem sent_due_date_same_instant:
  assumes "parseDueAtMillis s = Inr (Some t)" and "iso_day (utc_day t)" and "civil_of_day (utc_day t) \<noteq> (0, 1, 29)"
  shows "\<exists>s'. canonicalizeDueAtForSync i (Some s) = Inr (Some s') \<and> parseDueAtMillis s' = Inr (Some t)
    \<and> canonicalizeDueAtForSync i (Some s') = Inr (Some s')"
  using canonicalize_same_instant [of s t i] assms by (simp add: parseDueAtMillis_returns)

theorem sent_due_date_same_instant_witness:
  "\<exists>s s'. parseDueAtMillis s = Inr (Some 0) \<and> canonicalizeDueAtForSync ''c'' (Some s) = Inr (Some s')
     \<and> parseDueAtMillis s' = Inr (Some 0)"
proof -
  have d: "iso_day (utc_day 0)" "civil_of_day (utc_day 0) \<noteq> (0, 1, 29)"
    by (simp_all add: iso_day_def utc_day_def civil_of_day_def year_from_day_def Let_def)
  obtain s where "to_iso_string (Date 0) = Inr s" by simp
  then have p: "parseDueAtMillis s = Inr (Some 0)"
    using dueAtMillis_printed [OF d] by (simp add: parseDueAtMillis_returns)
  from sent_due_date_same_instant [OF p d, of "''c''"] p show ?thesis by blast
qed

section \<open>The review queue\<close>



text \<open>
  C27. A tag filter selects exactly the active cards that carry one of its tags, compared by their
  trimmed lower case form; what it selects does not depend on the decks, on the collation or on the
  spelling of its tags.
\<close>

theorem tag_filter_selects:
  "cardsMatchingReviewFilter lc (TagsFilter ts) decks cards = filter (tag_selected (normalizeTagKey ` set ts - {[]})) cards"
  by (rule tags_filter_cards)

text \<open>
  The client's equality of review filters is an equivalence, and equal filters select the same
  cards and give the same review queue.
\<close>

theorem equal_filters_same_queue:
  "equivp (isReviewFilterEqual lc) \<and> (isReviewFilterEqual lc f g \<longrightarrow>
     cardsMatchingReviewFilter lc f decks cards = cardsMatchingReviewFilter lc g decks cards
     \<and> makeReviewQueue p lc now timelineNow f decks cards = makeReviewQueue p lc now timelineNow g decks cards)"
  using isReviewFilterEqual_equivp equal_filters_select by (metis makeReviewQueue_def)

theorem equal_filters_same_queue_witness:
  "cardsMatchingReviewFilter unit_collation (TagsFilter [''Verbs'']) [] [web_card ''x'' [''verbs'']]
     = cardsMatchingReviewFilter unit_collation (TagsFilter ['' verbs'']) [] [web_card ''x'' [''verbs'']]"
proof -
  have "isReviewFilterEqual unit_collation (TagsFilter [''Verbs'']) (TagsFilter ['' verbs''])" by code_simp
  then show ?thesis using equal_filters_same_queue by blast
qed

text \<open>
  Normalising the tags of a filter is idempotent, and leaves one tag per key, none with an
  empty key, in the order of the collation.
\<close>

theorem normalized_filter_tags:
  assumes "collation lc"
  shows "normalizeReviewFilterTags lc (normalizeReviewFilterTags lc ts) = normalizeReviewFilterTags lc ts
    \<and> distinct (map normalizeTagKey (normalizeReviewFilterTags lc ts))
    \<and> set (map normalizeTagKey (normalizeReviewFilterTags lc ts)) = normalizeTagKey ` set ts - {[]}
    \<and> sorted_wrt (\<lambda>k l. lc k l \<le> 0) (map normalizeTagKey (normalizeReviewFilterTags lc ts))"
proof -
  have "sorted_wrt (\<lambda>a b. lc (fst a) (fst b) \<le> 0) (sort_by (\<lambda>a b. lc (fst a) (fst b)) (foldl add_tag_by_key [] ts))"
    by (rule tag_keys.sort_by_sorted) (simp add: assms)
  then have "sorted_wrt (\<lambda>k l. lc k l \<le> 0) (map normalizeTagKey (normalizeReviewFilterTags lc ts))"
    unfolding normalized_tags(1) by (simp add: sorted_wrt_map)
  then show ?thesis using normalizeReviewFilterTags_idem [OF assms] normalized_tags(2,3) by blast
qed

theorem normalized_filter_tags_witness:
  "normalizeReviewFilterTags unit_collation (normalizeReviewFilterTags unit_collation [''b'', '' A'', ''a''])
     = normalizeReviewFilterTags unit_collation [''b'', '' A'', ''a'']"
  using normalized_filter_tags [OF unit_collation] by blast

section \<open>Writes\<close>

text \<open>
  C30. The client and the server decide alike which of two writes wins: on time stamps printed from
  times with a four digit year, the client's comparison of texts and the server's comparison of
  dates accept the same writes.
\<close>

theorem client_agrees_with_server:
  assumes "printed_stamp x s" and "printed_stamp y t"
  shows "0 < compareLww x y \<longleftrightarrow> incomingLwwMetadataWins p x y"
  by (rule client_server_agree [OF assms])

theorem client_agrees_with_server_witness:
  "\<exists>x y. printed_stamp x 0 \<and> printed_stamp y 1 \<and> (0 < compareLww x y \<longleftrightarrow> incomingLwwMetadataWins epoch_host x y)"
proof -
  obtain a b where "to_iso_string (Date 0) = Inr a" "to_iso_string (Date 1) = Inr b" by simp
  moreover have "iso_day (utc_day 0)" "iso_day (utc_day 1)"
    by (simp_all add: iso_day_def utc_day_def ms_per_day_def year_from_day_def Let_def)
  ultimately have "printed_stamp \<lparr>clientUpdatedAt = a, lastModifiedByReplicaId = ''r'', lastOperationId = ''o''\<rparr> 0"
    "printed_stamp \<lparr>clientUpdatedAt = b, lastModifiedByReplicaId = ''r'', lastOperationId = ''o''\<rparr> 1"
    by (simp_all add: printed_stamp_def del: to_iso_string.simps)
  with client_agrees_with_server [OF this] show ?thesis by blast
qed

text \<open>
  The client keeps the winner of the writes it sees whatever their order: two orders of the
  same writes leave the same metadata, and applying a write twice changes nothing.
\<close>

theorem client_writes_converge:
  "set xs = set ys \<longrightarrow> foldl web_write s xs = foldl web_write s ys"
proof
  assume "set xs = set ys"
  moreover have "inj_on web_key (insert s (set xs))" by (auto simp: inj_on_def web_key_def intro: LwwMetadata.equality)
  ultimately show "foldl web_write s xs = foldl web_write s ys"
    using web_metadata.puts_converge [where s = s and xs = xs and ys = ys] by simp
qed

definition sample_write :: "string \<Rightarrow> LwwMetadata" where
  "sample_write replica = \<lparr>clientUpdatedAt = ''now'', lastModifiedByReplicaId = replica, lastOperationId = ''1''\<rparr>"

theorem client_writes_converge_witness:
  "foldl web_write (sample_write ''a'') [sample_write ''b'', sample_write ''c'']
     = foldl web_write (sample_write ''a'') [sample_write ''c'', sample_write ''b'']"
  using client_writes_converge [of "[sample_write ''b'', sample_write ''c'']" "[sample_write ''c'', sample_write ''b'']"]
  by (simp add: insert_commute)

section \<open>Cards\<close>

text \<open>
  C32. The tags a deck filter is stored with: one spelling per key, trimmed and not empty, and they
  select the cards the given tags that are not blank select.
\<close>

theorem deck_filter_tags:
  "distinct (map normalizeTagKey (filterTags (normalizeDeckFilterDefinition fd)))
   \<and> list_all (\<lambda>t. normalizeTag t = t \<and> t \<noteq> []) (filterTags (normalizeDeckFilterDefinition fd))
   \<and> normalizeTagKey ` set (filterTags (normalizeDeckFilterDefinition fd))
     = normalizeTagKey ` {t \<in> set (filterTags fd). normalizeTag t \<noteq> []}"
  using filter_tags_collected [of "[]" "filterTags fd"] by (simp add: normalizeDeckFilterDefinition_def list_all_iff)

end
