(* ===== verification/WebReplay.thy ===== *)
theory WebReplay
  imports WebProperties FsrsSafety
begin

text \<open>
  The web client and the scheduler together: the card the client shows after a review is the card
  the scheduler rebuilds from the card's whole history.
\<close>

lemma well_formed_rebuilt:
  assumes "rebuildCardScheduleState m i settings evs = Inr b"
  shows "well_formed (card_of_rebuilt i b)"
proof -
  obtain st where st: "fold_r (rebuild_step m settings) (createEmptyReviewableCardScheduleState i, None) evs = Inr st"
    and b: "b = rebuilt_of_state st" using assms unfolding rebuild_fold by (auto simp: res_simps)
  have f: "fold_r (rebuild_step m settings) (createEmptyReviewableCardScheduleState i, None) evs = Inr (fst st, snd st)"
    using st by simp
  have "c_cardId (fst st) = i"
    using fold_rebuild_invariant(4) [OF f well_formed_empty] by (simp add: createEmptyReviewableCardScheduleState_def)
  then have "card_of_rebuilt i b = fst st" using card_of_rebuilt_state [of st] b by simp
  then show ?thesis using fold_rebuild_invariant(1) [OF f well_formed_empty] by simp
qed

lemma card_of_rebuilt_schedule: "card_of_rebuilt i (rebuilt_of_schedule s) = card_of_schedule i s"
  by (simp add: card_of_rebuilt_def rebuilt_of_schedule_def card_of_schedule_def)

lemma fresh_card_state:
  "toReviewableCardState p (web_card i ts) = createEmptyReviewableCardScheduleState (cardId (web_card i ts))"
  by (simp add: toReviewableCardState_def web_card_def buildInitialCard_def createEmptyReviewableCardScheduleState_def)

text \<open>
  C33. The client's card stays the replay of its reviews: when a card is what the scheduler rebuilds
  from a history, the card built from the schedule of its next review is what the scheduler rebuilds
  from the history with that review appended, with the same due date. The times of the review must
  have a four digit year, or their printed form would not sort.
\<close>

theorem client_review_is_replay:
  assumes "rebuildCardScheduleState m (cardId c) settings evs = Inr b"
    and "toReviewableCardState p c = card_of_rebuilt (cardId c) b"
    and "computeReviewSchedule m (toReviewableCardState p c) settings rating (Date t) = Inr s"
    and "buildReviewedCard c s stamp installation operation = Inr c'" and "iso_day (utc_day t)"
  shows "\<exists>b' due. rebuildCardScheduleState m (cardId c') settings
        (evs @ [\<lparr>e_rating = rating, e_reviewedAt = Date t\<rparr>]) = Inr b'
     \<and> toReviewableCardState p c' = card_of_rebuilt (cardId c') b'
     \<and> b_dueAt b' = Some (s_dueAt s) \<and> to_iso_string (s_dueAt s) = Inr due \<and> dueAt c' = Some due"
proof -
  have i: "cardId c' = cardId c" and due: "\<exists>due. to_iso_string (s_dueAt s) = Inr due \<and> dueAt c' = Some due"
    using assms(4) by (auto simp: buildReviewedCard_def res_simps simp del: to_iso_string.simps)
  have "s_lastReviewedAt s = Date t"
    using computeReviewSchedule_output(3) [OF assms(3)] well_formed_rebuilt [OF assms(1)] assms(2) by simp
  from reviewed_card_state [OF assms(4) this assms(5)] i
  have "toReviewableCardState p c' = card_of_rebuilt (cardId c') (rebuilt_of_schedule s)"
    by (simp add: card_of_rebuilt_schedule)
  moreover have "rebuildCardScheduleState m (cardId c') settings
      (evs @ [\<lparr>e_rating = rating, e_reviewedAt = Date t\<rparr>]) = Inr (rebuilt_of_schedule s)"
    using assms(1-3) i by (simp add: rebuild_snoc)
  ultimately show ?thesis using due by (simp add: rebuilt_of_schedule_def del: to_iso_string.simps)
qed

lemma valid_default_settings: "valid_settings defaultWorkspaceSchedulerConfig 36500"
proof -
  have "inb (1 / 2) 1 (fl 0.9)" by (rule inb_fl) (simp_all add: rep_rules)
  then have "inb 0 1 (fl 0.9)" "fl 0.9 \<noteq> Num 0" by (auto elim!: inbE)
  moreover have "minutes_ok (Num 1)" "minutes_ok (Num 10)"
    unfolding minutes_ok_def by (intro exI [of _ 1] exI [of _ 10]; simp)+
  ultimately show ?thesis
    by (simp add: valid_settings_def interval_settings_def steps_ok_def defaultWorkspaceSchedulerConfig_def)
qed

lemma sample_time: "modern (Date 1700000000000)" "iso_day (utc_day 1700000000000)"
  by (simp_all add: modern_def iso_day_def utc_day_def ms_per_day_def max_time_def year_from_day_def Let_def)

lemma due_prints:
  assumes "due_ok 36500 1700000000000 s"
  shows "\<exists>due. to_iso_string (s_dueAt s) = Inr due"
proof -
  have "\<exists>d. s_dueAt s = Date d"
    using assms by (auto simp: due_ok_def time_clip_def max_time_def split: if_splits)
  then show ?thesis by auto
qed

theorem client_review_is_replay_witness:
  "\<exists>s c' b'. computeReviewSchedule coarse_math (toReviewableCardState epoch_host (web_card ''c'' []))
        defaultWorkspaceSchedulerConfig Easy (Date 1700000000000) = Inr s
     \<and> buildReviewedCard (web_card ''c'' []) s ''now'' ''a'' ''1'' = Inr c'
     \<and> rebuildCardScheduleState coarse_math (cardId c') defaultWorkspaceSchedulerConfig
         ([] @ [\<lparr>e_rating = Easy, e_reviewedAt = Date 1700000000000\<rparr>]) = Inr b'
     \<and> toReviewableCardState epoch_host c' = card_of_rebuilt (cardId c') b'"
proof -
  let ?c = "web_card ''c'' []" and ?m = coarse_math and ?D = defaultWorkspaceSchedulerConfig
  have "\<exists>s. computeReviewSchedule ?m (toReviewableCardState epoch_host ?c) ?D Easy (Date 1700000000000) = Inr s"
    unfolding computeReviewSchedule_Inr_iff fresh_card_state
    by (simp add: consistent_def backwards_def createEmptyReviewableCardScheduleState_def
        getStepsForState_def defaultWorkspaceSchedulerConfig_def)
  then obtain s where s: "computeReviewSchedule ?m (toReviewableCardState epoch_host ?c) ?D Easy (Date 1700000000000) = Inr s" ..
  from computeReviewSchedule_safe [OF coarse_math_ok valid_default_settings card_ok_empty sample_time(1) s [unfolded fresh_card_state]]
  obtain due where "to_iso_string (s_dueAt s) = Inr due" using due_prints by blast
  moreover have "s_lastReviewedAt s = Date 1700000000000"
    using computeReviewSchedule_output(3) [OF s] well_formed_empty by (simp add: fresh_card_state)
  ultimately obtain c' where c': "buildReviewedCard ?c s ''now'' ''a'' ''1'' = Inr c'"
    by (auto simp: buildReviewedCard_def)
  obtain b where b: "rebuildCardScheduleState ?m (cardId ?c) ?D [] = Inr b"
    "toReviewableCardState epoch_host ?c = card_of_rebuilt (cardId ?c) b"
    by (simp add: rebuildCardScheduleState_def fresh_card_state card_of_rebuilt_def createEmptyReviewableCardScheduleState_def)
  from client_review_is_replay [OF b s c' sample_time(2)] s c' show ?thesis by blast
qed

end
