(* ===== verification/JsRegex.thy ===== *)
theory JsRegex
  imports JsString
begin

text \<open>
  Regular expressions with capture groups and the backtracking semantics of JavaScript: the ways a
  pattern matches a prefix of the text are listed in the order the matcher tries them, so the first
  of them is the match. Words are compared ignoring case, as under the flag \<open>i\<close>; inside the first
  256 code units that comparison is the comparison of the lower case forms. The relation
  \<open>parses\<close> states which texts match and what the groups capture, without the order.
\<close>

section \<open>Patterns and their matches\<close>

datatype regex =
    Nothing
  | One "char \<Rightarrow> bool"
  | Word string
  | Seq regex regex
  | Alt regex regex
  | Star regex
  | LazyStar regex
  | Group nat regex

text \<open>The text left to match, and what the groups have captured, the last first.\<close>

type_synonym captures = "(nat \<times> string) list"
type_synonym position = "string \<times> captures"

text \<open>A repetition never takes an empty turn, so the length of the text bounds the number of turns.\<close>

fun repeat_greedy :: "nat \<Rightarrow> (position \<Rightarrow> position list) \<Rightarrow> position \<Rightarrow> position list" where
  "repeat_greedy 0 m x = [x]"
| "repeat_greedy (Suc n) m x =
     concat (map (\<lambda>y. if length (fst y) < length (fst x) then repeat_greedy n m y else []) (m x)) @ [x]"

fun repeat_lazy :: "nat \<Rightarrow> (position \<Rightarrow> position list) \<Rightarrow> position \<Rightarrow> position list" where
  "repeat_lazy 0 m x = [x]"
| "repeat_lazy (Suc n) m x =
     x # concat (map (\<lambda>y. if length (fst y) < length (fst x) then repeat_lazy n m y else []) (m x))"

primrec matches :: "regex \<Rightarrow> position \<Rightarrow> position list" where
  "matches Nothing x = [x]"
| "matches (One P) x = (case fst x of a # s \<Rightarrow> if P a then [(s, snd x)] else [] | [] \<Rightarrow> [])"
| "matches (Word w) x = (if length w \<le> length (fst x) \<and> to_lower (take (length w) (fst x)) = to_lower w
     then [(drop (length w) (fst x), snd x)] else [])"
| "matches (Seq r q) x = concat (map (matches q) (matches r x))"
| "matches (Alt r q) x = matches r x @ matches q x"
| "matches (Star r) x = repeat_greedy (length (fst x)) (matches r) x"
| "matches (LazyStar r) x = repeat_lazy (length (fst x)) (matches r) x"
| "matches (Group k r) x =
     map (\<lambda>y. (fst y, (k, take (length (fst x) - length (fst y)) (fst x)) # snd y)) (matches r x)"

definition Plus :: "regex \<Rightarrow> regex" where
  "Plus r = Seq r (Star r)"

definition Opt :: "regex \<Rightarrow> regex" where
  "Opt r = Alt r Nothing"

fun seqs :: "regex list \<Rightarrow> regex" where
  "seqs [] = Nothing"
| "seqs [r] = r"
| "seqs (r # q # rs) = Seq r (seqs (q # rs))"

text \<open>\<open>text.match(/^r$/)\<close>: the captures of the whole text; \<open>text.match(/^r/)\<close>: what is left after it.\<close>

definition exec :: "regex \<Rightarrow> string \<Rightarrow> (nat \<Rightarrow> string option) option" where
  "exec r s = (case filter (\<lambda>x. fst x = []) (matches r (s, [])) of
     [] \<Rightarrow> None | x # _ \<Rightarrow> Some (map_of (snd x)))"

definition after_prefix :: "regex \<Rightarrow> string \<Rightarrow> string option" where
  "after_prefix r s = (case matches r (s, []) of [] \<Rightarrow> None | x # _ \<Rightarrow> Some (fst x))"

text \<open>\<open>match[k] ?? ""\<close>.\<close>

definition group_text :: "(nat \<Rightarrow> string option) \<Rightarrow> nat \<Rightarrow> string" where
  "group_text g k = (case g k of None \<Rightarrow> [] | Some s \<Rightarrow> s)"

section \<open>The matched texts\<close>

inductive parses :: "regex \<Rightarrow> string \<Rightarrow> captures \<Rightarrow> captures \<Rightarrow> bool" where
  nothing: "parses Nothing [] c c"
| one: "P a \<Longrightarrow> parses (One P) [a] c c"
| word: "to_lower u = to_lower w \<Longrightarrow> parses (Word w) u c c"
| seq: "parses r u c c' \<Longrightarrow> parses q v c' c'' \<Longrightarrow> parses (Seq r q) (u @ v) c c''"
| alt1: "parses r u c c' \<Longrightarrow> parses (Alt r q) u c c'"
| alt2: "parses q u c c' \<Longrightarrow> parses (Alt r q) u c c'"
| star_stop: "parses (Star r) [] c c"
| star_turn: "parses r u c c' \<Longrightarrow> u \<noteq> [] \<Longrightarrow> parses (Star r) v c' c'' \<Longrightarrow> parses (Star r) (u @ v) c c''"
| lazy_stop: "parses (LazyStar r) [] c c"
| lazy_turn: "parses r u c c' \<Longrightarrow> u \<noteq> [] \<Longrightarrow> parses (LazyStar r) v c' c'' \<Longrightarrow> parses (LazyStar r) (u @ v) c c''"
| group: "parses r u c c' \<Longrightarrow> parses (Group k r) u c ((k, u) # c')"

inductive_simps parses_simps:
  "parses Nothing u c c'"
  "parses (One P) u c c'"
  "parses (Word w) u c c'"
  "parses (Seq r q) u c c'"
  "parses (Alt r q) u c c'"
  "parses (Group k r) u c c'"

inductive_cases parses_starE: "parses (Star r) u c c'"
inductive_cases parses_lazyE: "parses (LazyStar r) u c c'"

lemma length_to_lower [simp]: "length (to_lower s) = length s"
  by (simp add: to_lower_def)

lemma repeat_greedy_sound:
  assumes "y \<in> set (repeat_greedy n m x)"
    and "\<And>x y. y \<in> set (m x) \<Longrightarrow> \<exists>u. fst x = u @ fst y \<and> parses r u (snd x) (snd y)"
  shows "\<exists>u. fst x = u @ fst y \<and> parses (Star r) u (snd x) (snd y)"
  using assms(1)
proof (induction n arbitrary: x)
  case (Suc n)
  then consider "y = x"
    | z where "z \<in> set (m x)" "length (fst z) < length (fst x)" "y \<in> set (repeat_greedy n m z)"
    by (auto split: if_splits)
  then show ?case
  proof cases
    case (2 z)
    obtain u where u: "fst x = u @ fst z" "parses r u (snd x) (snd z)" using assms(2) [OF 2(1)] by blast
    moreover obtain v where "fst z = v @ fst y" "parses (Star r) v (snd z) (snd y)" using Suc.IH [OF 2(3)] by blast
    moreover have "u \<noteq> []" using u(1) 2(2) by auto
    ultimately show ?thesis using parses.star_turn by (intro exI [of _ "u @ v"]) auto
  qed (auto intro: parses.star_stop)
qed (auto intro: parses.star_stop)

lemma repeat_lazy_sound:
  assumes "y \<in> set (repeat_lazy n m x)"
    and "\<And>x y. y \<in> set (m x) \<Longrightarrow> \<exists>u. fst x = u @ fst y \<and> parses r u (snd x) (snd y)"
  shows "\<exists>u. fst x = u @ fst y \<and> parses (LazyStar r) u (snd x) (snd y)"
  using assms(1)
proof (induction n arbitrary: x)
  case (Suc n)
  then consider "y = x"
    | z where "z \<in> set (m x)" "length (fst z) < length (fst x)" "y \<in> set (repeat_lazy n m z)"
    by (auto split: if_splits)
  then show ?case
  proof cases
    case (2 z)
    obtain u where u: "fst x = u @ fst z" "parses r u (snd x) (snd z)" using assms(2) [OF 2(1)] by blast
    moreover obtain v where "fst z = v @ fst y" "parses (LazyStar r) v (snd z) (snd y)" using Suc.IH [OF 2(3)] by blast
    moreover have "u \<noteq> []" using u(1) 2(2) by auto
    ultimately show ?thesis using parses.lazy_turn by (intro exI [of _ "u @ v"]) auto
  qed (auto intro: parses.lazy_stop)
qed (auto intro: parses.lazy_stop)

lemma repeat_greedy_complete:
  assumes "parses q u c c'" and "q = Star r" and "length u \<le> n"
    and "\<And>u c c' s. parses r u c c' \<Longrightarrow> (s, c') \<in> set (m (u @ s, c))"
  shows "(s, c') \<in> set (repeat_greedy n m (u @ s, c))"
  using assms(1-3)
proof (induction q u c c' arbitrary: n rule: parses.induct)
  case (star_stop r' c)
  then show ?case by (cases n) simp_all
next
  case (star_turn r' u c c' v c'')
  then obtain k where n: "n = Suc k" by (cases n) auto
  have "(v @ s, c') \<in> set (m (u @ v @ s, c))" using assms(4) star_turn.hyps(1) star_turn.prems(1) by blast
  moreover have "(s, c'') \<in> set (repeat_greedy k m (v @ s, c'))"
    using star_turn.IH(2) [OF star_turn.prems(1)] star_turn.prems(2) star_turn.hyps(2) n by (cases u) auto
  ultimately show ?case using star_turn.hyps(2) unfolding n by (auto intro!: bexI [of _ "(v @ s, c')"])
qed simp_all

lemma repeat_lazy_complete:
  assumes "parses q u c c'" and "q = LazyStar r" and "length u \<le> n"
    and "\<And>u c c' s. parses r u c c' \<Longrightarrow> (s, c') \<in> set (m (u @ s, c))"
  shows "(s, c') \<in> set (repeat_lazy n m (u @ s, c))"
  using assms(1-3)
proof (induction q u c c' arbitrary: n rule: parses.induct)
  case (lazy_stop r' c)
  then show ?case by (cases n) simp_all
next
  case (lazy_turn r' u c c' v c'')
  then obtain k where n: "n = Suc k" by (cases n) auto
  have "(v @ s, c') \<in> set (m (u @ v @ s, c))" using assms(4) lazy_turn.hyps(1) lazy_turn.prems(1) by blast
  moreover have "(s, c'') \<in> set (repeat_lazy k m (v @ s, c'))"
    using lazy_turn.IH(2) [OF lazy_turn.prems(1)] lazy_turn.prems(2) lazy_turn.hyps(2) n by (cases u) auto
  ultimately show ?case using lazy_turn.hyps(2) unfolding n by (auto intro!: bexI [of _ "(v @ s, c')"])
qed simp_all

lemma matches_sound: "y \<in> set (matches r x) \<Longrightarrow> \<exists>u. fst x = u @ fst y \<and> parses r u (snd x) (snd y)"
proof (induction r arbitrary: x y)
  case (One P)
  then obtain a s where "fst x = a # s" "P a" "y = (s, snd x)"
    by (cases "fst x") (auto split: if_splits)
  then show ?case by (auto intro!: exI [of _ "[a]"] parses.one)
next
  case (Word w)
  then show ?case by (auto split: if_splits intro!: exI [of _ "take (length w) (fst x)"] parses.word)
next
  case (Seq r q)
  then obtain z where "z \<in> set (matches r x)" "y \<in> set (matches q z)" by auto
  then obtain u v where "fst x = u @ fst z" "parses r u (snd x) (snd z)" "fst z = v @ fst y" "parses q v (snd z) (snd y)"
    using Seq.IH by meson
  then show ?case by (auto intro!: exI [of _ "u @ v"] parses.seq)
next
  case (Alt r q)
  then show ?case by (auto dest!: Alt.IH intro: parses.alt1 parses.alt2)
next
  case (Star r)
  then show ?case using repeat_greedy_sound [OF _ Star.IH] by simp
next
  case (LazyStar r)
  then show ?case using repeat_lazy_sound [OF _ LazyStar.IH] by simp
next
  case (Group k r)
  then obtain z where z: "z \<in> set (matches r x)"
    and y: "y = (fst z, (k, take (length (fst x) - length (fst z)) (fst x)) # snd z)" by auto
  obtain u where "fst x = u @ fst z" "parses r u (snd x) (snd z)" using Group.IH [OF z] by blast
  then show ?case unfolding y by (auto intro: parses.group)
qed (auto intro: parses.nothing)

lemma matches_complete: "parses r u c c' \<Longrightarrow> (s, c') \<in> set (matches r (u @ s, c))"
proof (induction r arbitrary: u c c' s)
  case (Word w)
  then have l: "to_lower u = to_lower w" "c' = c" by (auto simp: parses_simps)
  then have "length u = length w" by (metis length_to_lower)
  with l show ?case by simp
next
  case (Seq r q)
  then obtain u1 u2 d where "u = u1 @ u2" "parses r u1 c d" "parses q u2 d c'" by (auto simp: parses_simps)
  then show ?case using Seq.IH(1) [of u1 c d "u2 @ s"] Seq.IH(2) [of u2 d c' s] by auto
next
  case (Star r)
  show ?case using repeat_greedy_complete [OF Star.prems refl _ Star.IH] by simp
next
  case (LazyStar r)
  show ?case using repeat_lazy_complete [OF LazyStar.prems refl _ LazyStar.IH] by simp
next
  case (Group k r)
  then obtain d where "parses r u c d" "c' = (k, u) # d" by (auto simp: parses_simps)
  then show ?case using Group.IH [of u c d s] by (auto intro!: image_eqI [where x = "(s, d)"])
qed (auto simp: parses_simps)

lemma exec_None_iff: "exec r s = None \<longleftrightarrow> (\<forall>c. \<not> parses r s [] c)"
proof -
  have "(\<forall>x \<in> set (matches r (s, [])). fst x \<noteq> []) \<longleftrightarrow> (\<forall>c. \<not> parses r s [] c)"
    using matches_sound [of _ r "(s, [])"] matches_complete [of r s "[]" _ "[]"] by fastforce
  then show ?thesis by (auto simp: exec_def filter_empty_conv split: list.split)
qed

lemma exec_SomeD: "exec r s = Some g \<Longrightarrow> \<exists>c. parses r s [] c \<and> g = map_of c"
proof -
  assume "exec r s = Some g"
  then obtain x xs where "filter (\<lambda>x. fst x = []) (matches r (s, [])) = x # xs" and g: "g = map_of (snd x)"
    by (auto simp: exec_def split: list.splits)
  then have "x \<in> set (filter (\<lambda>x. fst x = []) (matches r (s, [])))" by simp
  then have x: "x \<in> set (matches r (s, []))" "fst x = []" by simp_all
  then show ?thesis using matches_sound [OF x(1)] g by auto
qed

text \<open>When every way to match the text captures the same groups, the order does not matter.\<close>

lemma exec_eqI:
  assumes "parses r s [] c" and "\<And>c'. parses r s [] c' \<Longrightarrow> map_of c' = map_of c"
  shows "exec r s = Some (map_of c)"
proof -
  have "exec r s \<noteq> None" using assms(1) exec_None_iff by blast
  then obtain g where "exec r s = Some g" by blast
  then show ?thesis using exec_SomeD [of r s g] assms(2) by auto
qed

end
