(* ===== verification/SqlTypes.thy ===== *)
theory SqlTypes
  imports JsNumber JsValue JsRegex
begin

text \<open>
  The data of the SQL dialect the AI tools speak (\<open>aiTools/sqlDialect/types.ts\<close>). Rows are objects:
  their properties in insertion order. A \<open>Builtin\<close> is a value read from \<open>Object.prototype\<close>, which a
  projection can put into a row. The numbers of \<open>LIMIT\<close> and \<open>OFFSET\<close> are doubles, as
  \<open>Number.parseInt\<close> returns them.
\<close>

section \<open>Resources and columns\<close>

datatype SqlResourceName = WorkspaceResource | CardsResource | DecksResource | ReviewEventsResource

datatype SqlOrderDirection = Asc | Desc

datatype SqlColumnType =
    StringType | StringArrayType | IntegerArrayType | UuidType | IntegerType | NumberType | BooleanType
  | DatetimeType | JsonType

record SqlColumnDescriptor =
  columnName :: string
  columnType :: SqlColumnType
  nullable :: bool
  readOnly :: bool
  filterable :: bool
  sortable :: bool
  columnDescription :: string

record SqlResourceDescriptor =
  resourceName :: SqlResourceName
  resourceDescription :: string
  writable :: bool
  resourceColumns :: "SqlColumnDescriptor list"

section \<open>Literals and rows\<close>

datatype SqlLiteral = NullLiteral | BoolLiteral bool | NumLiteral jsnum | StrLiteral string

datatype SqlPredicateValue = Literal SqlLiteral | Now

datatype SqlRowValue = Json js_value | Builtin string
type_synonym SqlRow = "(string \<times> SqlRowValue) list"

section \<open>Predicates\<close>

datatype SqlComparisonOperator = Equal | Less | LessEqual | Greater | GreaterEqual

text \<open>The booleans of \<open>Like\<close> and \<open>In\<close> are \<open>caseInsensitive\<close> and \<open>isNegated\<close>.\<close>

datatype SqlPredicate =
    Comparison string SqlComparisonOperator SqlPredicateValue
  | Like string string bool bool
  | In string "SqlLiteral list" bool bool
  | Overlap string "string list"
  | ArrayEquals string "string list"
  | IsNull string
  | IsNotNull string
  | Match string

datatype SqlPredicateExpression =
    And "SqlPredicateExpression list"
  | Or "SqlPredicateExpression list"
  | Predicate SqlPredicate

section \<open>Statements\<close>

datatype SqlSelectOrderBy = OrderColumn string SqlOrderDirection | OrderRandom

datatype SqlAggregateFunctionName = Count | Sum | Avg | Min | Max

datatype SqlSelectItem =
    Wildcard
  | ColumnItem string "string option"
  | Aggregate SqlAggregateFunctionName "string option" "string option"

text \<open>\<open>unnestColumnName\<close> is \<open>tags\<close> when it is set.\<close>

record SqlFromSource =
  sourceName :: SqlResourceName
  unnestColumnName :: "string option"
  unnestAlias :: "string option"

record SqlSelectStatement =
  selectSource :: SqlFromSource
  selectItems :: "SqlSelectItem list"
  selectPredicate :: "SqlPredicateExpression option"
  groupBy :: "string list"
  orderBy :: "SqlSelectOrderBy list"
  selectLimit :: "jsnum option"
  selectOffset :: "jsnum option"
  selectSql :: string

record SqlShowTablesStatement =
  likePattern :: "string option"
  showTablesSql :: string

record SqlDescribeStatement =
  describedResource :: SqlResourceName
  describeSql :: string

datatype SqlReturningClause = ReturningAll | ReturningColumns "string list"

text \<open>A value of a written column: a literal or the elements of an array column.\<close>

datatype SqlWrittenValue = Scalar SqlLiteral | TextArray "string list"

record SqlInsertStatement =
  insertResource :: SqlResourceName
  insertColumns :: "string list"
  insertRows :: "SqlWrittenValue list list"
  insertReturning :: "SqlReturningClause option"
  insertSql :: string

record SqlUpdateStatement =
  updateResource :: SqlResourceName
  assignments :: "(string \<times> SqlWrittenValue) list"
  updatePredicate :: "SqlPredicateExpression option"
  updateReturning :: "SqlReturningClause option"
  updateSql :: string

record SqlDeleteStatement =
  deleteResource :: SqlResourceName
  deletePredicate :: "SqlPredicateExpression option"
  deleteReturning :: "SqlReturningClause option"
  deleteSql :: string

datatype ParsedSqlStatement =
    ShowTables SqlShowTablesStatement
  | Describe SqlDescribeStatement
  | Select SqlSelectStatement
  | Insert SqlInsertStatement
  | Update SqlUpdateStatement
  | Delete SqlDeleteStatement

record SqlSelectExecutionResult =
  resultRows :: "SqlRow list"
  rowCount :: nat
  resultLimit :: jsnum
  resultOffset :: jsnum
  hasMore :: bool

end
