(* ===== verification/SqlSchema.thy ===== *)
theory SqlSchema
  imports SqlTypes
begin

text \<open>
  The resources of the SQL dialect and the look-up of their columns
  (\<open>aiTools/sqlDialect/schema.ts\<close>). A look-up in a plain object also finds what the object inherits
  from \<open>Object.prototype\<close>: such a property is neither a column nor absent, and every field of it the
  dialect reads is undefined.
\<close>

section \<open>Looking up a property\<close>

datatype 'a property = Absent | Inherited | Own 'a

definition inherited_names :: "string list" where
  "inherited_names = [''constructor'', ''__defineGetter__'', ''__defineSetter__'', ''hasOwnProperty'',
     ''__lookupGetter__'', ''__lookupSetter__'', ''isPrototypeOf'', ''propertyIsEnumerable'', ''toString'',
     ''valueOf'', ''__proto__'', ''toLocaleString'']"

definition get_property :: "(string \<times> 'a) list \<Rightarrow> string \<Rightarrow> 'a property" where
  "get_property obj k = (case map_of obj k of
     Some v \<Rightarrow> Own v
   | None \<Rightarrow> if List.member inherited_names k then Inherited else Absent)"

text \<open>\<open>Object.fromEntries\<close>: a later entry replaces the value of an earlier one, at its place.\<close>

definition from_entries :: "(string \<times> 'a) list \<Rightarrow> (string \<times> 'a) list" where
  "from_entries es = foldl (\<lambda>obj e. map_set (fst e) (snd e) obj) [] es"

section \<open>Columns\<close>

definition column :: "string \<Rightarrow> SqlColumnType \<Rightarrow> bool \<Rightarrow> bool \<Rightarrow> bool \<Rightarrow> bool \<Rightarrow> string \<Rightarrow> SqlColumnDescriptor" where
  "column n t nul ro f s d = \<lparr>columnName = n, columnType = t, nullable = nul, readOnly = ro, filterable = f,
     sortable = s, columnDescription = d\<rparr>"

definition cardColumnDescriptors :: "SqlColumnDescriptor list" where
  "cardColumnDescriptors = [
     column ''card_id'' UuidType False True True True
       ''Card identifier.'',
     column ''front_text'' StringType False False True True
       ''Card front prompt text.'',
     column ''back_text'' StringType False False True True
       ''Card back answer text.'',
     column ''card_type'' StringType False False True True
       ''Canonical card rendering type.'',
     column ''metadata'' JsonType False True False False
       ''Structured card metadata.'',
     column ''tags'' StringArrayType False False True True
       ''Card tags.'',
     column ''due_at'' DatetimeType True True True True
       ''Next due timestamp.'',
     column ''created_at'' DatetimeType False True True True
       ''Card creation timestamp.'',
     column ''reps'' IntegerType False True True True
       ''Total reps count.'',
     column ''lapses'' IntegerType False True True True
       ''Total lapses count.'',
     column ''updated_at'' DatetimeType False True True True
       ''Last update timestamp.'',
     column ''deleted_at'' DatetimeType True True False False
       ''Deletion timestamp for tombstones.'',
     column ''fsrs_card_state'' StringType False True True False
       ''Persisted FSRS state.'',
     column ''fsrs_step_index'' IntegerType True True False False
       ''Persisted FSRS step index.'',
     column ''fsrs_stability'' NumberType True True False False
       ''Persisted FSRS stability.'',
     column ''fsrs_difficulty'' NumberType True True False False
       ''Persisted FSRS difficulty.'',
     column ''fsrs_last_reviewed_at'' DatetimeType True True False False
       ''Persisted last reviewed timestamp.'',
     column ''fsrs_scheduled_days'' IntegerType True True False False
       ''Persisted scheduled interval in days.'']"

definition workspaceColumnDescriptors :: "SqlColumnDescriptor list" where
  "workspaceColumnDescriptors = [
     column ''workspace_id'' UuidType False True True True
       ''Selected workspace identifier.'',
     column ''name'' StringType False True True True
       ''Selected workspace display name.'',
     column ''created_at'' DatetimeType False True True True
       ''Workspace creation timestamp.'',
     column ''algorithm'' StringType False True True True
       ''Scheduler algorithm identifier.'',
     column ''desired_retention'' NumberType False True True True
       ''Workspace desired retention target.'',
     column ''learning_steps_minutes'' IntegerArrayType False True False False
       ''Configured learning steps.'',
     column ''relearning_steps_minutes'' IntegerArrayType False True False False
       ''Configured relearning steps.'',
     column ''maximum_interval_days'' IntegerType False True True True
       ''Maximum review interval in days.'',
     column ''enable_fuzz'' BooleanType False True True True
       ''Whether interval fuzz is enabled.'']"

definition deckColumnDescriptors :: "SqlColumnDescriptor list" where
  "deckColumnDescriptors = [
     column ''deck_id'' UuidType False True True True
       ''Deck identifier.'',
     column ''name'' StringType False False True True
       ''Deck name.'',
     column ''tags'' StringArrayType False False True False
       ''Deck filter tags.'',
     column ''created_at'' DatetimeType False True True True
       ''Deck creation timestamp.'',
     column ''updated_at'' DatetimeType False True True True
       ''Deck last update timestamp.'',
     column ''deleted_at'' DatetimeType True True False False
       ''Deck deletion timestamp.'']"

definition reviewEventColumnDescriptors :: "SqlColumnDescriptor list" where
  "reviewEventColumnDescriptors = [
     column ''review_event_id'' UuidType False True True True
       ''Review event identifier.'',
     column ''card_id'' UuidType False True True True
       ''Reviewed card identifier.'',
     column ''replica_id'' UuidType False True True False
       ''Workspace replica that submitted the review.'',
     column ''client_event_id'' StringType False True True False
       ''Client event identifier.'',
     column ''rating'' IntegerType False True True True
       ''Submitted review rating.'',
     column ''reviewed_at_client'' DatetimeType False True True True
       ''Client review timestamp.'',
     column ''reviewed_at_server'' DatetimeType False True True True
       ''Server review timestamp.'']"

section \<open>Resources\<close>

fun SQL_RESOURCE_DESCRIPTORS :: "SqlResourceName \<Rightarrow> SqlResourceDescriptor" where
  "SQL_RESOURCE_DESCRIPTORS WorkspaceResource = \<lparr>resourceName = WorkspaceResource,
     resourceDescription = ''Selected workspace identity and scheduler settings.'', writable = False,
     resourceColumns = workspaceColumnDescriptors\<rparr>"
| "SQL_RESOURCE_DESCRIPTORS CardsResource = \<lparr>resourceName = CardsResource,
     resourceDescription = ''Cards in the selected workspace.'', writable = True,
     resourceColumns = cardColumnDescriptors\<rparr>"
| "SQL_RESOURCE_DESCRIPTORS DecksResource = \<lparr>resourceName = DecksResource,
     resourceDescription = ''Decks in the selected workspace.'', writable = True,
     resourceColumns = deckColumnDescriptors\<rparr>"
| "SQL_RESOURCE_DESCRIPTORS ReviewEventsResource = \<lparr>resourceName = ReviewEventsResource,
     resourceDescription = ''Immutable review event rows.'', writable = False,
     resourceColumns = reviewEventColumnDescriptors\<rparr>"

definition SQL_RESOURCE_NAMES :: "SqlResourceName list" where
  "SQL_RESOURCE_NAMES = [WorkspaceResource, CardsResource, DecksResource, ReviewEventsResource]"

fun resource_text :: "SqlResourceName \<Rightarrow> string" where
  "resource_text WorkspaceResource = ''workspace''"
| "resource_text CardsResource = ''cards''"
| "resource_text DecksResource = ''decks''"
| "resource_text ReviewEventsResource = ''review_events''"

text \<open>The columns only an assignment may name; the other resources have none.\<close>

fun legacySqlMutationColumnDescriptors :: "SqlResourceName \<Rightarrow> (string \<times> SqlColumnDescriptor) list" where
  "legacySqlMutationColumnDescriptors CardsResource = [(''effort_level'', column ''effort_level'' StringType False False False False
       ''Legacy card effort input.'')]"
| "legacySqlMutationColumnDescriptors DecksResource = [(''effort_levels'', column ''effort_levels'' StringArrayType False False False False
       ''Legacy deck filter effort input.'')]"
| "legacySqlMutationColumnDescriptors _ = []"

definition getDescriptor :: "SqlResourceName \<Rightarrow> SqlResourceDescriptor" where
  "getDescriptor r = SQL_RESOURCE_DESCRIPTORS r"

text \<open>The resource a text names, when \<open>isSqlResourceName\<close> accepts it.\<close>

definition isSqlResourceName :: "string \<Rightarrow> SqlResourceName option" where
  "isSqlResourceName value = find (\<lambda>r. resource_text r = value) SQL_RESOURCE_NAMES"

definition getSqlResourceDescriptors :: "SqlResourceDescriptor list" where
  "getSqlResourceDescriptors = map getDescriptor SQL_RESOURCE_NAMES"

definition getSqlResourceDescriptor :: "SqlResourceName \<Rightarrow> SqlResourceDescriptor" where
  "getSqlResourceDescriptor r = getDescriptor r"

definition unknown_column :: "SqlResourceName \<Rightarrow> string \<Rightarrow> js_error" where
  "unknown_column r name = Error (''Unknown column for '' @ resource_text r @ '': '' @ name)"

definition getSqlColumnDescriptor :: "SqlResourceName \<Rightarrow> string \<Rightarrow> SqlColumnDescriptor property result" where
  "getSqlColumnDescriptor r name = (case find (\<lambda>c. columnName c = name) (resourceColumns (getDescriptor r)) of
     Some c \<Rightarrow> Inr (Own c)
   | None \<Rightarrow> if r = CardsResource \<or> r = DecksResource
       then (case get_property (legacySqlMutationColumnDescriptors r) name of
           Absent \<Rightarrow> Inl (unknown_column r name)
         | d \<Rightarrow> Inr d)
       else Inl (unknown_column r name))"

definition expanded_column :: "SqlFromSource \<Rightarrow> string \<Rightarrow> SqlColumnDescriptor" where
  "expanded_column source alias = column alias StringType False True True True
     (''Expanded '' @ (case unnestColumnName source of None \<Rightarrow> ''null'' | Some c \<Rightarrow> c) @ '' element.'')"

definition getSqlSourceColumnDescriptors :: "SqlFromSource \<Rightarrow> (string \<times> SqlColumnDescriptor) list" where
  "getSqlSourceColumnDescriptors source = (let
     baseDescriptors = from_entries (map (\<lambda>c. (columnName c, c)) (resourceColumns (getDescriptor (sourceName source))))
   in case unnestAlias source of
       None \<Rightarrow> baseDescriptors
     | Some alias \<Rightarrow> map_set alias (expanded_column source alias) baseDescriptors)"

definition source_column :: "SqlFromSource \<Rightarrow> string \<Rightarrow> SqlColumnDescriptor property" where
  "source_column source name = get_property (getSqlSourceColumnDescriptors source) name"

definition ensureSqlSourceColumnExists :: "SqlFromSource \<Rightarrow> string \<Rightarrow> unit result" where
  "ensureSqlSourceColumnExists source name =
     throw_if (source_column source name = Absent) (unknown_column (sourceName source) name)"

end
