(* ===== verification/SqlSplit.thy ===== *)
theory SqlSplit
  imports JsString
begin

text \<open>
  Splitting SQL text outside its quotes and brackets (\<open>aiTools/sqlDialect/parserSplitting.ts\<close>). Each
  loop over an index is a recursion over the text that is left; the character before it is an
  argument where the loop looks back.
\<close>

abbreviation quote :: char where "quote \<equiv> CHR 0x27"
abbreviation dquote :: char where "dquote \<equiv> CHR 0x22"
abbreviation backslash :: char where "backslash \<equiv> CHR 0x5C"

section \<open>Upper case and white space\<close>

text \<open>
  \<open>toUpperCase\<close>. The upper case of two characters lies above the first 256 code units; they are
  left as they are, and are part of no keyword either way.
\<close>

definition upper_char :: "char \<Rightarrow> string" where
  "upper_char c = (let n = (of_char c :: nat) in
     if n = 223 then ''SS''
     else if 97 \<le> n \<and> n \<le> 122 \<or> 224 \<le> n \<and> n \<le> 254 \<and> n \<noteq> 247 then [char_of (n - 32)] else [c])"

definition to_upper :: "string \<Rightarrow> string" where
  "to_upper s = concat (map upper_char s)"

text \<open>\<open>value.replace(/\s+/g, " ")\<close>.\<close>

lemma length_dropWhile_less [termination_simp]: "length (dropWhile P s) < Suc (length s)"
  by (simp add: length_dropWhile_le less_Suc_eq_le)

fun collapse_spaces :: "string \<Rightarrow> string" where
  "collapse_spaces [] = []"
| "collapse_spaces (c # s) =
     (if is_space c then CHR '' '' # collapse_spaces (dropWhile is_space s) else c # collapse_spaces s)"

definition upperCaseKeyword :: "string \<Rightarrow> string" where
  "upperCaseKeyword value = to_upper (collapse_spaces (trim value))"

text \<open>The text so far, whether a string is open, and whether white space is pending.\<close>

fun normalize_loop :: "string \<Rightarrow> string \<Rightarrow> bool \<Rightarrow> bool \<Rightarrow> string" where
  "normalize_loop [] out inString pending = out"
| "normalize_loop (c # s) out inString pending =
     (let flush = pending \<and> out \<noteq> [];
          out' = (if flush then out @ '' '' else out) @ [c];
          pending' = (if flush then False else pending)
      in if c = quote
         then (case s of
             d # s' \<Rightarrow> if inString \<and> d = quote then normalize_loop s' (out' @ [d]) inString pending'
               else normalize_loop s out' (\<not> inString) pending'
           | [] \<Rightarrow> out')
         else if inString then normalize_loop s (out @ [c]) inString pending
         else if is_space c then normalize_loop s out inString True
         else if c = CHR '';'' \<and> trim s = [] then out
         else normalize_loop s out' inString pending')"

definition normalizeSqlWhitespace :: "string \<Rightarrow> string" where
  "normalizeSqlWhitespace value = normalize_loop (trim value) [] False False"

section \<open>Statements\<close>

text \<open>The statement so far, the statements before it, whether a string is open, and the depth.\<close>

fun split_statements_loop :: "string \<Rightarrow> string \<Rightarrow> string list \<Rightarrow> bool \<Rightarrow> int \<Rightarrow> string list result" where
  "split_statements_loop [] current statements inString depth =
     Inr (if trim current = [] then statements else statements @ [trim current])"
| "split_statements_loop (c # s) current statements inString depth =
     (if c = quote
      then (case s of
          d # s' \<Rightarrow> if inString \<and> d = quote then split_statements_loop s' (current @ [c, d]) statements inString depth
            else split_statements_loop s (current @ [c]) statements (\<not> inString) depth
        | [] \<Rightarrow> split_statements_loop [] (current @ [c]) statements (\<not> inString) depth)
      else if inString then split_statements_loop s (current @ [c]) statements inString depth
      else if c = CHR ''('' then split_statements_loop s (current @ [c]) statements inString (depth + 1)
      else if c = CHR '')'' then split_statements_loop s (current @ [c]) statements inString (depth - 1)
      else if depth = 0 \<and> c = CHR '';''
      then (if trim current = [] then Inl (Error ''SQL batch contains an empty statement'')
        else if trim s = [] then Inr (statements @ [trim current])
        else split_statements_loop s [] (statements @ [trim current]) inString depth)
      else split_statements_loop s (current @ [c]) statements inString depth)"

definition splitSqlStatements :: "string \<Rightarrow> string list result" where
  "splitSqlStatements value = (if trim value = [] then Inr []
     else split_statements_loop (trim value) [] [] False 0)"

definition assert :: "bool \<Rightarrow> string \<Rightarrow> unit result" where
  "assert condition message = throw_if (\<not> condition) (Error message)"

section \<open>Splitting at the top level\<close>

text \<open>
  The loop of \<open>splitTopLevel\<close> and \<open>splitTopLevelByKeyword\<close>: \<open>sep prev rest\<close> tells whether a separator
  of \<open>n\<close> characters starts at \<open>rest\<close>, after the character \<open>prev\<close>.
\<close>

definition last_char :: "string \<Rightarrow> char option" where
  "last_char s = (if s = [] then None else Some (last s))"

definition is_open :: "char \<Rightarrow> bool" where
  "is_open c \<longleftrightarrow> c = CHR ''('' \<or> c = CHR ''['' \<or> c = CHR ''{''"

definition is_close :: "char \<Rightarrow> bool" where
  "is_close c \<longleftrightarrow> c = CHR '')'' \<or> c = CHR '']'' \<or> c = CHR ''}''"

fun split_loop :: "(char option \<Rightarrow> string \<Rightarrow> bool) \<Rightarrow> nat \<Rightarrow> char option \<Rightarrow> string \<Rightarrow> string \<Rightarrow> bool \<Rightarrow> bool
    \<Rightarrow> int \<Rightarrow> string list \<Rightarrow> string list" where
  "split_loop sep n prev [] current inString inDoubleQuote depth parts =
     (if trim current = [] then parts else parts @ [trim current])"
| "split_loop sep n prev (c # s) current inString inDoubleQuote depth parts =
     (if c = quote \<and> \<not> inDoubleQuote
      then (case s of
          d # s' \<Rightarrow> if inString \<and> d = quote
            then split_loop sep n (Some d) s' (current @ [c, d]) inString inDoubleQuote depth parts
            else split_loop sep n (Some c) s (current @ [c]) (\<not> inString) inDoubleQuote depth parts
        | [] \<Rightarrow> split_loop sep n (Some c) [] (current @ [c]) (\<not> inString) inDoubleQuote depth parts)
      else if inString then split_loop sep n (Some c) s (current @ [c]) inString inDoubleQuote depth parts
      else if c = dquote
      then split_loop sep n (Some c) s (current @ [c]) inString
        (if inDoubleQuote \<and> prev = Some backslash then inDoubleQuote else \<not> inDoubleQuote) depth parts
      else if inDoubleQuote then split_loop sep n (Some c) s (current @ [c]) inString inDoubleQuote depth parts
      else if is_open c then split_loop sep n (Some c) s (current @ [c]) inString inDoubleQuote (depth + 1) parts
      else if is_close c then split_loop sep n (Some c) s (current @ [c]) inString inDoubleQuote (depth - 1) parts
      else if depth = 0 \<and> sep prev (c # s)
      then split_loop sep n (last_char (take n (c # s))) (drop (n - 1) s) [] inString inDoubleQuote depth
        (parts @ [trim current])
      else split_loop sep n (Some c) s (current @ [c]) inString inDoubleQuote depth parts)"

definition splitTopLevel :: "string \<Rightarrow> string \<Rightarrow> string list" where
  "splitTopLevel value separator =
     split_loop (\<lambda>prev rest. to_upper (take (length separator) rest) = separator) (length separator)
       None value [] False False 0 []"

definition space_or_end :: "char option \<Rightarrow> bool" where
  "space_or_end c \<longleftrightarrow> (case c of None \<Rightarrow> True | Some c \<Rightarrow> is_space c)"

definition head_char :: "string \<Rightarrow> char option" where
  "head_char s = (case s of [] \<Rightarrow> None | c # _ \<Rightarrow> Some c)"

definition keyword_at :: "string \<Rightarrow> char option \<Rightarrow> string \<Rightarrow> bool" where
  "keyword_at kw prev rest \<longleftrightarrow> to_upper (take (length kw) rest) = kw \<and> space_or_end prev
     \<and> space_or_end (head_char (drop (length kw) rest))"

definition splitTopLevelByKeyword :: "string \<Rightarrow> string \<Rightarrow> string list" where
  "splitTopLevelByKeyword value kw =
     split_loop (keyword_at kw) (length kw) None value [] False False 0 []"

section \<open>Clauses\<close>

record TopLevelClauseDefinition =
  clauseName :: string
  keyword :: string

record TopLevelClauseMatch =
  matchName :: string
  matchKeyword :: string
  matchIndex :: nat

definition isSqlBoundaryCharacter :: "char option \<Rightarrow> bool" where
  "isSqlBoundaryCharacter value \<longleftrightarrow> (case value of None \<Rightarrow> True | Some c \<Rightarrow> is_space c)"

definition clause_at :: "char option \<Rightarrow> string \<Rightarrow> TopLevelClauseDefinition \<Rightarrow> bool" where
  "clause_at prev rest d \<longleftrightarrow> to_upper (take (length (keyword d)) rest) = keyword d
     \<and> isSqlBoundaryCharacter prev \<and> isSqlBoundaryCharacter (head_char (drop (length (keyword d)) rest))"

fun clause_loop :: "TopLevelClauseDefinition list \<Rightarrow> nat \<Rightarrow> char option \<Rightarrow> string \<Rightarrow> bool \<Rightarrow> int
    \<Rightarrow> TopLevelClauseMatch list" where
  "clause_loop ds i prev [] inString depth = []"
| "clause_loop ds i prev (c # s) inString depth =
     (if c = quote
      then (case s of
          d # s' \<Rightarrow> if inString \<and> d = quote then clause_loop ds (i + 2) (Some d) s' inString depth
            else clause_loop ds (i + 1) (Some c) s (\<not> inString) depth
        | [] \<Rightarrow> [])
      else if inString then clause_loop ds (i + 1) (Some c) s inString depth
      else if c = CHR ''('' then clause_loop ds (i + 1) (Some c) s inString (depth + 1)
      else if c = CHR '')'' then clause_loop ds (i + 1) (Some c) s inString (depth - 1)
      else if depth \<noteq> 0 then clause_loop ds (i + 1) (Some c) s inString depth
      else case find (clause_at prev (c # s)) ds of
          None \<Rightarrow> clause_loop ds (i + 1) (Some c) s inString depth
        | Some d \<Rightarrow> \<lparr>matchName = clauseName d, matchKeyword = keyword d, matchIndex = i\<rparr>
            # clause_loop ds (i + length (keyword d)) (last_char (take (length (keyword d)) (c # s)))
                (drop (length (keyword d) - 1) s) inString depth)"

definition findTopLevelClauseMatches :: "string \<Rightarrow> TopLevelClauseDefinition list \<Rightarrow> TopLevelClauseMatch list" where
  "findTopLevelClauseMatches value definitions =
     clause_loop (sort_by (\<lambda>l r. int (length (keyword r)) - int (length (keyword l))) definitions)
       0 None value False 0"

text \<open>The position of a clause among the definitions, and the values of the clauses matched so far.\<close>

definition clause_order :: "TopLevelClauseDefinition list \<Rightarrow> string \<Rightarrow> int option" where
  "clause_order ds name = map_of (rev (zip (map clauseName ds) (map int [0..<length ds]))) name"

fun clause_values :: "TopLevelClauseDefinition list \<Rightarrow> string \<Rightarrow> string \<Rightarrow> TopLevelClauseMatch list \<Rightarrow> int
    \<Rightarrow> (string \<times> string) list \<Rightarrow> (string \<times> string) list result" where
  "clause_values ds context value [] lastOrder vals = Inr vals"
| "clause_values ds context value (m # ms) lastOrder vals =
     (if map_of vals (matchName m) \<noteq> None
      then Inl (Error (''Duplicate '' @ context @ '' clause: '' @ matchKeyword m))
      else case clause_order ds (matchName m) of
          None \<Rightarrow> Inl (Error (''Unknown '' @ context @ '' clause: '' @ matchKeyword m))
        | Some order \<Rightarrow>
            if order < lastOrder then Inl (Error (''Invalid '' @ context @ '' clause order near '' @ matchKeyword m))
            else let begins = matchIndex m + length (matchKeyword m);
                   ends = (case ms of [] \<Rightarrow> length value | m' # _ \<Rightarrow> matchIndex m')
                 in clause_values ds context value ms order
                      (map_set (matchName m) (trim (slice begins ends value)) vals))"

definition extractTopLevelClauses :: "string \<Rightarrow> TopLevelClauseDefinition list \<Rightarrow> string
    \<Rightarrow> (string \<times> (string \<times> string) list) result" where
  "extractTopLevelClauses value definitions context = (case findTopLevelClauseMatches value definitions of
     [] \<Rightarrow> Inr (trim value, [])
   | m # ms \<Rightarrow> rbind (clause_values definitions context value (m # ms) (-1) []) (\<lambda>vals.
       Inr (trim (slice 0 (matchIndex m) value), vals)))"

end
