(* ===== verification/SqlPredicate.thy ===== *)
theory SqlPredicate
  imports SqlSchema SqlSplit
begin

text \<open>
  Literals and \<open>WHERE\<close> clauses of the SQL dialect (\<open>aiTools/sqlDialect/predicateParser.ts\<close>). Every
  regular expression of the file is a pattern of \<open>JsRegex\<close>.
\<close>

section \<open>Shared patterns\<close>

text \<open>\<open>[a-z_]\<close> and \<open>[a-z0-9_]\<close> under the flag \<open>i\<close>, the dot, and \<open>[\s\S]\<close>.\<close>

definition is_letter :: "char \<Rightarrow> bool" where
  "is_letter c \<longleftrightarrow> (let n = (of_char c :: nat) in 65 \<le> n \<and> n \<le> 90 \<or> 97 \<le> n \<and> n \<le> 122)"

definition ident_start :: "char \<Rightarrow> bool" where
  "ident_start c \<longleftrightarrow> is_letter c \<or> c = CHR ''_''"

definition ident_char :: "char \<Rightarrow> bool" where
  "ident_char c \<longleftrightarrow> is_letter c \<or> is_digit c \<or> c = CHR ''_''"

definition line_char :: "char \<Rightarrow> bool" where
  "line_char c \<longleftrightarrow> (of_char c :: nat) \<noteq> 10 \<and> (of_char c :: nat) \<noteq> 13"

definition any_char :: "char \<Rightarrow> bool" where
  "any_char c \<longleftrightarrow> True"

definition spaces :: regex where "spaces = Star (One is_space)"
definition some_spaces :: regex where "some_spaces = Plus (One is_space)"
definition ident :: regex where "ident = Seq (One ident_start) (Star (One ident_char))"
definition one_char :: "char \<Rightarrow> regex" where "one_char c = One (\<lambda>d. d = c)"

text \<open>\<open>'(?:''|[^'])*'\<close>.\<close>

definition quoted :: regex where
  "quoted = seqs [one_char quote,
     Star (Alt (Seq (one_char quote) (one_char quote)) (One (\<lambda>c. c \<noteq> quote))), one_char quote]"

definition test :: "regex \<Rightarrow> string \<Rightarrow> bool" where
  "test r s \<longleftrightarrow> exec r s \<noteq> None"

section \<open>Literals\<close>

definition MAXIMUM_PREDICATE_GROUP_DEPTH :: int where
  "MAXIMUM_PREDICATE_GROUP_DEPTH = 16"

text \<open>\<open>replaceAll(p, r)\<close> for a text \<open>p\<close> of two characters.\<close>

fun replace_pair :: "char \<Rightarrow> char \<Rightarrow> string \<Rightarrow> string \<Rightarrow> string" where
  "replace_pair a b r (c # d # s) =
     (if c = a \<and> d = b then r @ replace_pair a b r s else c # replace_pair a b r (d # s))"
| "replace_pair a b r s = s"

definition parseStringLiteral :: "string \<Rightarrow> string result" where
  "parseStringLiteral value =
     rbind (assert (starts_with value [quote] \<and> ends_with value [quote]) ''Expected a quoted string literal'')
       (\<lambda>_. Inr (replace_pair quote quote [quote] (strip 1 1 value)))"

definition integer_pattern :: regex where
  "integer_pattern = Seq (Opt (one_char (CHR ''-''))) (Plus (One is_digit))"

definition decimal_pattern :: regex where
  "decimal_pattern = seqs [Opt (one_char (CHR ''-'')), Plus (One is_digit), one_char (CHR ''.''), Plus (One is_digit)]"

text \<open>\<open>Number.parseInt(s, 10)\<close> and \<open>Number.parseFloat(s)\<close> of texts the two patterns accept.\<close>

definition parse_integer :: "string \<Rightarrow> jsnum" where
  "parse_integer s = (case parse_int s of None \<Rightarrow> NaN | Some n \<Rightarrow> fl (of_int n))"

definition parse_decimal :: "string \<Rightarrow> jsnum" where
  "parse_decimal s = (let
     negative = starts_with s ''-''; digits = (if negative then drop 1 s else s);
     whole = takeWhile is_digit digits; fraction = drop (length whole + 1) digits;
     magnitude = (of_nat (dec_val 0 (whole @ fraction)) :: rat) / 10 ^ length fraction
   in fl (if negative then - magnitude else magnitude))"

definition parseSqlLiteral :: "string \<Rightarrow> SqlLiteral result" where
  "parseSqlLiteral value = (let trimmedValue = trim value in
     if to_upper trimmedValue = ''NULL'' then Inr NullLiteral
     else if to_upper trimmedValue = ''TRUE'' then Inr (BoolLiteral True)
     else if to_upper trimmedValue = ''FALSE'' then Inr (BoolLiteral False)
     else if starts_with trimmedValue [quote] \<and> ends_with trimmedValue [quote]
     then rbind (parseStringLiteral trimmedValue) (\<lambda>s. Inr (StrLiteral s))
     else if test integer_pattern trimmedValue then Inr (NumLiteral (parse_integer trimmedValue))
     else if test decimal_pattern trimmedValue then Inr (NumLiteral (parse_decimal trimmedValue))
     else Inl (Error (''Unsupported literal: '' @ trimmedValue)))"

definition parsePredicateValue :: "string \<Rightarrow> SqlPredicateValue result" where
  "parsePredicateValue value = (if to_upper (trim value) = ''NOW()'' then Inr Now
     else rbind (parseSqlLiteral (trim value)) (\<lambda>l. Inr (Literal l)))"

section \<open>Lists of texts\<close>

definition parsePostgresTextArrayElement :: "string \<Rightarrow> string \<Rightarrow> string \<Rightarrow> string result" where
  "parsePostgresTextArrayElement item name trimmedValue = (let trimmedItem = trim item in
     if starts_with trimmedItem [dquote] \<and> ends_with trimmedItem [dquote] \<and> 2 \<le> length trimmedItem
     then Inr (replace_pair backslash dquote [dquote] (strip 1 1 trimmedItem))
     else if trimmedItem = [] \<or> includes_str trimmedItem [dquote]
     then Inl (Error (''Array column '' @ [dquote] @ name @ [dquote] @ '' accepts only string elements, e.g. {a,b} or {''
       @ [dquote] @ ''a'' @ [dquote, CHR '',''] @ [dquote] @ ''b'' @ [dquote] @ ''}. Got: '' @ trimmedValue))
     else Inr trimmedItem)"

definition array_prefix_pattern :: regex where
  "array_prefix_pattern = seqs [Word ''ARRAY'', spaces, one_char (CHR ''[''), Group 1 (Star (One any_char)),
     one_char (CHR '']'')]"

definition parse_text_element :: "string \<Rightarrow> string \<Rightarrow> string \<Rightarrow> string result" where
  "parse_text_element name trimmedValue item = rbind (parseSqlLiteral item) (\<lambda>parsedValue. case parsedValue of
     StrLiteral s \<Rightarrow> Inr s
   | _ \<Rightarrow> Inl (Error (''Array column '' @ [dquote] @ name @ [dquote]
       @ '' accepts only quoted string literals, e.g. ('' @ [quote] @ ''a'' @ [quote, CHR '',''] @ [quote] @ ''b''
       @ [quote] @ ''). Got: '' @ trimmedValue)))"

definition parseStringArrayLiteralList :: "string \<Rightarrow> string \<Rightarrow> string list result" where
  "parseStringArrayLiteralList value name = (let
     trimmedValue = trim value;
     arrayPrefixMatch = exec array_prefix_pattern trimmedValue;
     bracketMatch = starts_with trimmedValue ''['' \<and> ends_with trimmedValue '']'';
     parenMatch = starts_with trimmedValue ''('' \<and> ends_with trimmedValue '')'';
     quotedBraceMatch = starts_with trimmedValue (quote # ''{'') \<and> ends_with trimmedValue (''}'' @ [quote]);
     braceMatch = starts_with trimmedValue ''{'' \<and> ends_with trimmedValue ''}''
   in if quotedBraceMatch \<or> braceMatch
      then (let innerValue = (if quotedBraceMatch then trim (strip 2 2 trimmedValue) else trim (strip 1 1 trimmedValue))
        in if innerValue = [] then Inr []
           else map_r (\<lambda>item. parsePostgresTextArrayElement item name trimmedValue) (splitTopLevel innerValue '',''))
      else let innerValue = (case arrayPrefixMatch of
             Some g \<Rightarrow> Some (trim (group_text g 1))
           | None \<Rightarrow> if bracketMatch \<or> parenMatch then Some (trim (strip 1 1 trimmedValue)) else None)
        in case innerValue of
             None \<Rightarrow> Inl (Error (''Array column '' @ [dquote] @ name @ [dquote] @ '' expects a parenthesized list like (''
               @ [quote] @ ''tag1'' @ [quote, CHR '',''] @ [quote] @ ''tag2'' @ [quote]
               @ ''), or () for an empty list. Got: '' @ trimmedValue))
           | Some [] \<Rightarrow> Inr []
           | Some inner \<Rightarrow> map_r (parse_text_element name trimmedValue) (splitTopLevel inner '',''))"

definition parseLoweredStringLiteralList :: "string \<Rightarrow> string \<Rightarrow> string list result" where
  "parseLoweredStringLiteralList value operator = (let trimmedValue = trim value in
     rbind (assert (starts_with trimmedValue ''('' \<and> ends_with trimmedValue '')'') ''Expected a parenthesized value list'')
     (\<lambda>_. let innerValue = trim (strip 1 1 trimmedValue) in
       if innerValue = [] then Inr []
       else map_r (\<lambda>item. rbind (parseSqlLiteral item) (\<lambda>parsedValue. case parsedValue of
           StrLiteral s \<Rightarrow> Inr s
         | _ \<Rightarrow> Inl (Error (''LOWER(column) '' @ operator @ '' (...) only supports string literals''))))
         (splitTopLevel innerValue '','')))"

section \<open>Predicates\<close>

definition match_pattern :: regex where
  "match_pattern = seqs [Word ''MATCH'', spaces, one_char (CHR ''(''), spaces, Group 1 quoted, spaces, one_char (CHR '')'')]"

text \<open>\<open>LOWER\s*\(\s*([a-z_][a-z0-9_]*)\s*\)\<close>.\<close>

definition lowered_column :: regex where
  "lowered_column = seqs [Word ''LOWER'', spaces, one_char (CHR ''(''), spaces, Group 1 ident, spaces,
     one_char (CHR '')'')]"

definition not_prefix :: regex where
  "not_prefix = Opt (Group 2 (Seq (Word ''NOT'') some_spaces))"

definition like_word :: regex where
  "like_word = Seq (Opt (Word ''I'')) (Word ''LIKE'')"

definition value_list :: regex where
  "value_list = seqs [one_char (CHR ''(''), Plus (One line_char), one_char (CHR '')'')]"

definition lowered_like_pattern :: regex where
  "lowered_like_pattern = seqs [lowered_column, some_spaces, not_prefix, like_word, some_spaces, Group 3 quoted]"

definition lowered_equals_pattern :: regex where
  "lowered_equals_pattern = seqs [lowered_column, spaces, one_char (CHR ''=''), spaces, Group 2 quoted]"

definition lowered_in_pattern :: regex where
  "lowered_in_pattern = seqs [lowered_column, some_spaces,
     Group 2 (Alt (seqs [Word ''NOT'', some_spaces, Word ''IN'']) (Word ''IN'')), spaces, Group 3 value_list]"

definition like_pattern :: regex where
  "like_pattern = seqs [Group 1 ident, some_spaces, not_prefix, Group 3 like_word, some_spaces, Group 4 quoted]"

definition is_not_null_pattern :: regex where
  "is_not_null_pattern = seqs [Group 1 ident, some_spaces, Word ''IS'', some_spaces, Word ''NOT'', some_spaces,
     Word ''NULL'']"

definition is_null_pattern :: regex where
  "is_null_pattern = seqs [Group 1 ident, some_spaces, Word ''IS'', some_spaces, Word ''NULL'']"

definition overlap_pattern :: regex where
  "overlap_pattern = seqs [Group 1 ident, some_spaces, Word ''OVERLAP'', spaces, Group 2 (Plus (One line_char))]"

definition in_pattern :: regex where
  "in_pattern = seqs [Group 1 ident, some_spaces, Word ''IN'', spaces, Group 2 value_list]"

definition comparison_pattern :: regex where
  "comparison_pattern = seqs [Group 1 ident, spaces,
     Group 2 (Alt (Word ''='') (Alt (Word ''<='') (Alt (Word ''>='') (Alt (Word ''<'') (Word ''>''))))), spaces,
     Group 3 (Plus (One line_char))]"

definition operator_of :: "string \<Rightarrow> SqlComparisonOperator" where
  "operator_of s = (if s = ''<'' then Less else if s = ''<='' then LessEqual else if s = ''>'' then Greater
     else if s = ''>='' then GreaterEqual else Equal)"

definition matched_column :: "SqlFromSource \<Rightarrow> (nat \<Rightarrow> string option) \<Rightarrow> string result" where
  "matched_column source g = (let name = to_lower (group_text g 1) in
     rbind (ensureSqlSourceColumnExists source name) (\<lambda>_. Inr name))"

definition is_text_array_column :: "SqlFromSource \<Rightarrow> string \<Rightarrow> bool" where
  "is_text_array_column source name = (case source_column source name of
     Own d \<Rightarrow> columnType d = StringArrayType | _ \<Rightarrow> False)"

definition parse_comparison :: "SqlFromSource \<Rightarrow> (nat \<Rightarrow> string option) \<Rightarrow> SqlPredicate result" where
  "parse_comparison source g = rbind (matched_column source g) (\<lambda>name.
     let operator = operator_of (group_text g 2); rightSideValue = group_text g 3 in
     if operator = Equal \<and> is_text_array_column source name
     then rbind (parseStringArrayLiteralList rightSideValue name) (\<lambda>vs. Inr (ArrayEquals name vs))
     else rbind (parsePredicateValue rightSideValue) (\<lambda>v. Inr (Comparison name operator v)))"

definition parse_like :: "SqlFromSource \<Rightarrow> nat \<Rightarrow> bool \<Rightarrow> bool \<Rightarrow> (nat \<Rightarrow> string option) \<Rightarrow> SqlPredicate result" where
  "parse_like source k insensitive negated g = rbind (matched_column source g) (\<lambda>name.
     rbind (parseStringLiteral (group_text g k)) (\<lambda>p. Inr (Like name p insensitive negated)))"

definition parse_lowered_in :: "SqlFromSource \<Rightarrow> (nat \<Rightarrow> string option) \<Rightarrow> SqlPredicate result" where
  "parse_lowered_in source g = (let operator = collapse_spaces (to_upper (group_text g 2)) in
     rbind (matched_column source g) (\<lambda>name.
     rbind (parseLoweredStringLiteralList (group_text g 3) operator) (\<lambda>vs.
       Inr (In name (map StrLiteral vs) True (operator = ''NOT IN'')))))"

definition parse_overlap :: "SqlFromSource \<Rightarrow> (nat \<Rightarrow> string option) \<Rightarrow> SqlPredicate result" where
  "parse_overlap source g = rbind (matched_column source g) (\<lambda>name.
     rbind (parseStringArrayLiteralList (group_text g 2) name) (\<lambda>vs. Inr (Overlap name vs)))"

definition parse_in :: "SqlFromSource \<Rightarrow> (nat \<Rightarrow> string option) \<Rightarrow> SqlPredicate result" where
  "parse_in source g = rbind (matched_column source g) (\<lambda>name.
     rbind (map_r parseSqlLiteral (splitTopLevel (strip 1 1 (group_text g 2)) '','')) (\<lambda>vs.
       Inr (In name vs False False)))"

text \<open>
  The patterns in the order the function tries them, each with what its \<open>if (... !== null)\<close> returns;
  the first that matches decides.
\<close>

definition predicate_patterns :: "SqlFromSource \<Rightarrow> (regex \<times> ((nat \<Rightarrow> string option) \<Rightarrow> SqlPredicate result)) list" where
  "predicate_patterns source = [
     (match_pattern, \<lambda>g. rbind (parseStringLiteral (group_text g 1)) (\<lambda>query. Inr (Match query))),
     (lowered_like_pattern, \<lambda>g. parse_like source 3 True (g 2 \<noteq> None) g),
     (lowered_equals_pattern, parse_like source 2 True False),
     (lowered_in_pattern, parse_lowered_in source),
     (like_pattern, \<lambda>g. parse_like source 4 (to_upper (group_text g 3) = ''ILIKE'') (g 2 \<noteq> None) g),
     (is_not_null_pattern, \<lambda>g. rbind (matched_column source g) (\<lambda>name. Inr (IsNotNull name))),
     (is_null_pattern, \<lambda>g. rbind (matched_column source g) (\<lambda>name. Inr (IsNull name))),
     (overlap_pattern, parse_overlap source),
     (in_pattern, parse_in source),
     (comparison_pattern, parse_comparison source)]"

fun first_match :: "(regex \<times> ((nat \<Rightarrow> string option) \<Rightarrow> 'a)) list \<Rightarrow> string \<Rightarrow> 'a option" where
  "first_match [] s = None"
| "first_match ((r, f) # rs) s = (case exec r s of Some g \<Rightarrow> Some (f g) | None \<Rightarrow> first_match rs s)"

definition parsePredicate :: "SqlFromSource \<Rightarrow> string \<Rightarrow> SqlPredicate result" where
  "parsePredicate source value = (case first_match (predicate_patterns source) (trim value) of
     Some r \<Rightarrow> r
   | None \<Rightarrow> Inl (Error (''Unsupported predicate: '' @ trim value)))"

section \<open>Groups\<close>

fun group_loop :: "char option \<Rightarrow> string \<Rightarrow> bool \<Rightarrow> bool \<Rightarrow> int \<Rightarrow> bool" where
  "group_loop prev [] inString inDoubleQuote depth = (depth = 0)"
| "group_loop prev (c # s) inString inDoubleQuote depth =
     (if c = quote \<and> \<not> inDoubleQuote
      then (case s of
          d # s' \<Rightarrow> if inString \<and> d = quote then group_loop (Some d) s' inString inDoubleQuote depth
            else group_loop (Some c) s (\<not> inString) inDoubleQuote depth
        | [] \<Rightarrow> group_loop (Some c) [] (\<not> inString) inDoubleQuote depth)
      else if inString then group_loop (Some c) s inString inDoubleQuote depth
      else if c = dquote
      then group_loop (Some c) s inString
        (if inDoubleQuote \<and> prev = Some backslash then inDoubleQuote else \<not> inDoubleQuote) depth
      else if inDoubleQuote then group_loop (Some c) s inString inDoubleQuote depth
      else if c = CHR ''('' then group_loop (Some c) s inString inDoubleQuote (depth + 1)
      else if c = CHR '')''
      then (if depth - 1 < 0 \<or> depth - 1 = 0 \<and> s \<noteq> [] then False
        else group_loop (Some c) s inString inDoubleQuote (depth - 1))
      else group_loop (Some c) s inString inDoubleQuote depth)"

definition isParenthesizedGroup :: "string \<Rightarrow> bool" where
  "isParenthesizedGroup value \<longleftrightarrow> starts_with value ''('' \<and> ends_with value '')'' \<and> group_loop None value False False 0"

section \<open>Clauses\<close>

text \<open>
  One turn of the splitting loop away from a separator: how many characters it takes, and the state
  after them.
\<close>

definition scan :: "char option \<Rightarrow> string \<Rightarrow> bool \<Rightarrow> bool \<Rightarrow> int \<Rightarrow> nat \<times> bool \<times> bool \<times> int" where
  "scan prev s a b d = (let c = hd s in
     if c = quote \<and> \<not> b then (if a \<and> take 1 (tl s) = [quote] then (2, a, b, d) else (1, \<not> a, b, d))
     else if a then (1, a, b, d)
     else if c = dquote then (1, a, (if b \<and> prev = Some backslash then b else \<not> b), d)
     else if b then (1, a, b, d)
     else if is_open c then (1, a, b, d + 1)
     else if is_close c then (1, a, b, d - 1)
     else (1, a, b, d))"

definition at_top :: "char \<Rightarrow> bool \<Rightarrow> bool \<Rightarrow> int \<Rightarrow> bool" where
  "at_top c a b d \<longleftrightarrow> \<not> a \<and> \<not> b \<and> d = 0 \<and> c \<noteq> quote \<and> c \<noteq> dquote \<and> \<not> is_open c \<and> \<not> is_close c"

lemma last_char_simps [simp]: "last_char [] = None" "last_char (s @ [c]) = Some c" "last_char [c] = Some c" "last_char [b, c] = Some c"
  by (simp_all add: last_char_def)

declare split_loop.simps [simp del]
declare split_loop.simps(1) [simp]

lemma split_loop_step:
  "split_loop sep n prev (c # s) cur a b d parts =
     (if at_top c a b d \<and> sep prev (c # s)
      then split_loop sep n (last_char (take n (c # s))) (drop (n - 1) s) [] a b d (parts @ [trim cur])
      else case scan prev (c # s) a b d of (k, a', b', d') \<Rightarrow>
        split_loop sep n (last_char (take k (c # s))) (drop k (c # s)) (cur @ take k (c # s)) a' b' d' parts)"
  by (subst split_loop.simps(2), cases s) (simp_all add: scan_def at_top_def Let_def)

lemma scan_takes: "scan prev (c # s) a b d = (k, r) \<Longrightarrow> 1 \<le> k \<and> k \<le> length (c # s)"
  by (cases s) (auto simp: scan_def Let_def split: if_splits)

text \<open>The segments of a split are shorter than the text, so the recursion ends.\<close>

lemma split_loop_parts:
  assumes "0 < n"
  shows "\<exists>ps. split_loop sep n prev s cur a b d parts = parts @ ps
    \<and> (\<forall>p \<in> set ps. length p \<le> length cur + length s)
    \<and> (1 < length ps \<longrightarrow> (\<forall>p \<in> set ps. length p < length cur + length s))"
proof (induction "length s" arbitrary: prev s cur a b d parts rule: less_induct)
  case less
  show ?case
  proof (cases s)
    case Nil
    then show ?thesis by (simp add: trim_le)
  next
    case (Cons c s')
    show ?thesis
    proof (cases "at_top c a b d \<and> sep prev (c # s')")
      case True
      have l: "length (drop (n - 1) s') < length s" using Cons by simp
      obtain ps where ps: "split_loop sep n (last_char (take n (c # s'))) (drop (n - 1) s') [] a b d (parts @ [trim cur])
          = (parts @ [trim cur]) @ ps" "\<forall>p \<in> set ps. length p \<le> length ([] :: string) + length (drop (n - 1) s')"
        using less.hyps [OF l, of "last_char (take n (c # s'))" "[]" a b d "parts @ [trim cur]"] by blast
      then have "split_loop sep n prev s cur a b d parts = parts @ trim cur # ps"
        unfolding Cons split_loop_step using True by simp
      moreover have "length (trim cur) < length cur + length s" using trim_le [of cur] Cons by simp
      moreover have "\<forall>p \<in> set ps. length p < length cur + length s"
        using ps(2) l by (simp only: list.size add_0_left) (meson le_less_trans trans_less_add2)
      ultimately show ?thesis by (intro exI [of _ "trim cur # ps"]) (simp add: less_imp_le)
    next
      case False
      obtain k a' b' d' where k: "scan prev (c # s') a b d = (k, a', b', d')" by (metis prod_cases4)
      have len: "length (drop k s) < length s" "length (cur @ take k s) + length (drop k s) = length cur + length s"
        using scan_takes [OF k] Cons by auto
      have "split_loop sep n prev s cur a b d parts
          = split_loop sep n (last_char (take k s)) (drop k s) (cur @ take k s) a' b' d' parts"
        unfolding Cons split_loop_step using False k by (simp only: if_False k prod.case)
      then show ?thesis
        using less.hyps [OF len(1), of "last_char (take k s)" "cur @ take k s" a' b' d' parts] unfolding len(2) by simp
    qed
  qed
qed

lemma splitTopLevelByKeyword_parts:
  assumes "kw \<noteq> []" and "p \<in> set (splitTopLevelByKeyword s kw)"
  shows "length p \<le> length s" and "1 < length (splitTopLevelByKeyword s kw) \<Longrightarrow> length p < length s"
  using split_loop_parts [of "length kw" "keyword_at kw" None s "[]" False False 0 "[]"] assms
  by (auto simp: splitTopLevelByKeyword_def)

lemma segment_le:
  assumes "kw \<noteq> []"
  shows "length (case splitTopLevelByKeyword s kw of [] \<Rightarrow> s | seg # _ \<Rightarrow> seg) \<le> length s"
  using splitTopLevelByKeyword_parts(1) [OF assms, of _ s] by (auto split: list.split)

lemma length_strip: "length (strip i j s) \<le> length s - i - j"
  by (simp add: strip_def)

lemma parenthesized_nonempty: "isParenthesizedGroup s \<Longrightarrow> s \<noteq> []"
  by (auto simp: isParenthesizedGroup_def starts_with_def)

function parsePredicateExpression :: "SqlFromSource \<Rightarrow> string \<Rightarrow> int \<Rightarrow> SqlPredicateExpression result" where
  "parsePredicateExpression source value depth =
     (if depth > MAXIMUM_PREDICATE_GROUP_DEPTH
      then Inl (Error (''WHERE clause nests parenthesized groups deeper than the supported limit of 16''))
      else let trimmedValue = trim value in
        if trimmedValue = [] then Inl (Error ''WHERE clause contains an empty predicate group'')
        else let orSegments = splitTopLevelByKeyword trimmedValue ''OR'' in
          if 1 < length orSegments
          then rbind (map_r (\<lambda>segment. parsePredicateExpression source segment depth) orSegments) (\<lambda>es. Inr (Or es))
          else let orSegment = (case orSegments of [] \<Rightarrow> trimmedValue | seg # _ \<Rightarrow> seg);
                 andSegments = splitTopLevelByKeyword orSegment ''AND'' in
            if 1 < length andSegments
            then rbind (map_r (\<lambda>segment. parsePredicateExpression source segment depth) andSegments) (\<lambda>es. Inr (And es))
            else let primarySegment = (case andSegments of [] \<Rightarrow> orSegment | seg # _ \<Rightarrow> seg) in
              if isParenthesizedGroup primarySegment
              then parsePredicateExpression source (strip 1 1 primarySegment) (depth + 1)
              else rbind (parsePredicate source primarySegment) (\<lambda>p. Inr (Predicate p)))"
  by pat_completeness auto

termination
proof (relation "measure (\<lambda>(source, value, depth). length value)", goal_cases)
  case (2 src v depth t osegs x)
  then show ?case
    using splitTopLevelByKeyword_parts(2) [of "''OR''" x t] trim_le [of v] by simp
next
  case (3 src v depth t osegs oseg asegs x)
  have "length x < length oseg" using 3 splitTopLevelByKeyword_parts(2) [of "''AND''" x oseg] by simp
  moreover have "length oseg \<le> length t" using 3 segment_le [of "''OR''" t] by simp
  ultimately show ?case using 3(2) trim_le [of v] by simp
next
  case (4 src v depth t osegs oseg asegs p)
  have "length oseg \<le> length t" using 4 segment_le [of "''OR''" t] by simp
  moreover have "length p \<le> length oseg" using 4 segment_le [of "''AND''" oseg] by simp
  moreover have "length (strip 1 1 p) < length p"
    using length_strip [of 1 1 p] parenthesized_nonempty [OF 4(10)] by (cases p) simp_all
  ultimately show ?case using 4(2) trim_le [of v] by simp
qed simp

declare parsePredicateExpression.simps [simp del]

definition parseWherePredicate :: "SqlFromSource \<Rightarrow> string \<Rightarrow> SqlPredicateExpression option result" where
  "parseWherePredicate source value = (if trim value = [] then Inr None
     else rbind (parsePredicateExpression source (trim value) 0) (\<lambda>e. Inr (Some e)))"

end
