(* ===== verification/SqlSplitSpec.thy ===== *)
theory SqlSplitSpec
  imports SqlPredicate
begin

text \<open>
  What the splitting functions promise: a text printed from parts is split into these parts. Parts
  are quoted texts, or tokens separated by spaces; nothing inside quotes or brackets separates.
\<close>

section \<open>Quoted texts\<close>

definition escape :: "string \<Rightarrow> string" where
  "escape s = concat (map (\<lambda>c. if c = quote then [quote, quote] else [c]) s)"

definition sql_quote :: "string \<Rightarrow> string" where
  "sql_quote s = quote # escape s @ [quote]"

lemma escape_simps [simp]:
  "escape [] = []"
  "escape (c # s) = (if c = quote then quote # quote # escape s else c # escape s)"
  by (simp_all add: escape_def)

lemma replace_pair_step: "c \<noteq> a \<Longrightarrow> replace_pair a b r (c # s) = c # replace_pair a b r s"
  by (cases s) simp_all

lemma replace_pair_escape: "replace_pair quote quote [quote] (escape s) = s"
  by (induction s) (simp_all add: replace_pair_step)

lemma is_space_quote [simp]: "\<not> is_space quote"
  by (simp add: is_space_def)

lemma trim_quoted: "list_all is_space w \<Longrightarrow> trim (w @ sql_quote s) = sql_quote s"
proof -
  assume "list_all is_space w"
  then have "trim_start (w @ sql_quote s) = sql_quote s"
    by (simp add: trim_start_def sql_quote_def dropWhile_append2 list_all_iff)
  then show ?thesis by (simp add: trim_def trim_start_def sql_quote_def)
qed

lemma strip_quoted: "strip 1 1 (sql_quote s) = escape s"
  by (simp add: strip_def sql_quote_def)

lemma quoted_ends: "starts_with (sql_quote s) [quote]" "ends_with (sql_quote s) [quote]"
  by (simp_all add: starts_with_def ends_with_def sql_quote_def)

lemma parseStringLiteral_quote: "parseStringLiteral (sql_quote s) = Inr s"
  using strip_quoted [of s] by (simp add: parseStringLiteral_def assert_def quoted_ends replace_pair_escape)

lemma upper_quoted: "to_upper (quote # s) = quote # to_upper s"
  by (simp add: to_upper_def upper_char_def Let_def)

lemma parseSqlLiteral_quote: "parseSqlLiteral (sql_quote s) = Inr (StrLiteral s)"
proof -
  have "trim (sql_quote s) = sql_quote s" using trim_quoted [of "[]" s] by simp
  moreover have "to_upper (sql_quote s) \<noteq> ''NULL''" "to_upper (sql_quote s) \<noteq> ''TRUE''" "to_upper (sql_quote s) \<noteq> ''FALSE''"
    by (simp_all add: sql_quote_def upper_quoted)
  ultimately show ?thesis by (simp add: parseSqlLiteral_def quoted_ends parseStringLiteral_quote)
qed

section \<open>Reading a part\<close>

text \<open>
  From a state of the loop, a text \<open>u\<close> before \<open>rest\<close> is taken without a split: the character before
  it, whether a string and whether a double quote is open, and the depth.
\<close>

type_synonym scan_state = "char option \<times> bool \<times> bool \<times> int"

definition resume :: "(char option \<Rightarrow> string \<Rightarrow> bool) \<Rightarrow> nat \<Rightarrow> scan_state \<Rightarrow> string \<Rightarrow> string \<Rightarrow> string list \<Rightarrow> string list" where
  "resume sep n st s cur parts = split_loop sep n (fst st) s cur (fst (snd st)) (fst (snd (snd st))) (snd (snd (snd st))) parts"

definition reads :: "(char option \<Rightarrow> string \<Rightarrow> bool) \<Rightarrow> string \<Rightarrow> string \<Rightarrow> scan_state \<Rightarrow> scan_state \<Rightarrow> bool" where
  "reads sep u rest st st' \<longleftrightarrow> (\<forall>n cur parts. resume sep n st (u @ rest) cur parts = resume sep n st' rest (cur @ u) parts)"

lemma reads_nil [simp]: "reads sep [] rest st st"
  by (simp add: reads_def)

lemma reads_append: "reads sep u (v @ rest) st st1 \<Longrightarrow> reads sep v rest st1 st2 \<Longrightarrow> reads sep (u @ v) rest st st2"
  by (simp add: reads_def)

lemma reads_Cons: "reads sep [c] (v @ rest) st st1 \<Longrightarrow> reads sep v rest st1 st2 \<Longrightarrow> reads sep (c # v) rest st st2"
  using reads_append [of sep "[c]" v] by simp

lemma reads_scan:
  assumes "\<not> (at_top c a b d \<and> sep prev (c # u @ rest))" and "scan prev (c # u @ rest) a b d = (length (c # u), a', b', d')"
  shows "reads sep (c # u) rest (prev, a, b, d) (last_char (c # u), a', b', d')"
proof -
  have "split_loop sep n prev (c # u @ rest) cur a b d parts = split_loop sep n (last_char (c # u)) rest (cur @ c # u) a' b' d' parts"
    for n cur parts
    unfolding split_loop_step if_not_P [OF assms(1)] assms(2) by simp
  then show ?thesis by (simp add: reads_def resume_def)
qed

text \<open>A plain character is not special to the loop.\<close>

definition plain :: "char \<Rightarrow> bool" where
  "plain c \<longleftrightarrow> c \<noteq> quote \<and> c \<noteq> dquote \<and> \<not> is_open c \<and> \<not> is_close c"

lemma reads_plain: "plain c \<Longrightarrow> \<not> (d = 0 \<and> sep prev (c # rest)) \<Longrightarrow> reads sep [c] rest (prev, False, False, d) (Some c, False, False, d)"
  using reads_scan [of c False False d sep prev "[]" rest False False d] by (simp add: scan_def plain_def at_top_def)

lemma reads_open: "is_open c \<Longrightarrow> reads sep [c] rest (prev, False, False, d) (Some c, False, False, d + 1)"
  using reads_scan [of c False False d sep prev "[]" rest False False "d + 1"] by (auto simp: scan_def is_open_def at_top_def)

lemma reads_close: "is_close c \<Longrightarrow> reads sep [c] rest (prev, False, False, d) (Some c, False, False, d - 1)"
  using reads_scan [of c False False d sep prev "[]" rest False False "d - 1"]
  by (auto simp: scan_def is_close_def is_open_def at_top_def)

lemma reads_in_string:
  assumes "take 1 rest \<noteq> [quote]"
  shows "reads sep (escape s @ [quote]) rest (prev, True, False, d) (Some quote, False, False, d)"
proof (induction s arbitrary: prev)
  case Nil
  show ?case
    using reads_scan [of quote True False d sep prev "[]" rest False False d] assms by (simp add: scan_def at_top_def)
next
  case (Cons c s)
  show ?case
  proof (cases "c = quote")
    case True
    have "reads sep [quote, quote] ((escape s @ [quote]) @ rest) (prev, True, False, d) (Some quote, True, False, d)"
      using reads_scan [of quote True False d sep prev "[quote]" "(escape s @ [quote]) @ rest" True False d]
      by (simp add: scan_def at_top_def)
    from reads_append [OF this Cons.IH] True show ?thesis by simp
  next
    case False
    have "reads sep [c] ((escape s @ [quote]) @ rest) (prev, True, False, d) (Some c, True, False, d)"
      using reads_scan [of c True False d sep prev "[]" "(escape s @ [quote]) @ rest" True False d] False
      by (simp add: scan_def at_top_def)
    from reads_append [OF this Cons.IH] False show ?thesis by simp
  qed
qed

lemma reads_quoted:
  assumes "take 1 rest \<noteq> [quote]"
  shows "reads sep (sql_quote s) rest (prev, False, False, d) (Some quote, False, False, d)"
proof -
  have "reads sep [quote] ((escape s @ [quote]) @ rest) (prev, False, False, d) (Some quote, True, False, d)"
    using reads_scan [of quote False False d sep prev "[]" "(escape s @ [quote]) @ rest" True False d]
    by (simp add: scan_def at_top_def)
  from reads_append [OF this reads_in_string [OF assms]] show ?thesis by (simp add: sql_quote_def)
qed

section \<open>Parts joined by a separator\<close>

text \<open>
  The separator \<open>key\<close> is printed between \<open>pre\<close> and \<open>post\<close>; \<open>item\<close> tells which texts are parts.
\<close>

locale joined =
  fixes sep :: "char option \<Rightarrow> string \<Rightarrow> bool" and pre key post :: string and item :: "string \<Rightarrow> bool"
  assumes key_top: "key \<noteq> []" "plain (hd key)"
    and padding: "list_all is_space pre" "list_all is_space post"
    and item_text: "item u \<Longrightarrow> u \<noteq> [] \<and> \<not> is_space (hd u) \<and> \<not> is_space (last u)"
    and reads_item: "item u \<Longrightarrow> prev = None \<or> prev = last_char (key @ post) \<Longrightarrow> rest = [] \<or> (\<exists>r. rest = pre @ key @ post @ r)
      \<Longrightarrow> \<exists>prev'. reads sep u rest (prev, False, False, 0) (prev', False, False, 0)"
    and reads_pre: "\<exists>prev'. reads sep pre (key @ post @ rest) (prev, False, False, 0) (prev', False, False, 0)
      \<and> sep prev' (key @ post @ rest)"
    and reads_post: "item u \<Longrightarrow> reads sep post (u @ rest) (last_char key, False, False, 0) (last_char (key @ post), False, False, 0)"
begin

lemma trim_part: "item u \<Longrightarrow> list_all is_space w \<Longrightarrow> list_all is_space v \<Longrightarrow> trim (w @ u @ v) = u"
proof -
  assume u: "item u" and w: "list_all is_space w" and v: "list_all is_space v"
  have n: "u \<noteq> []" "\<not> is_space (hd u)" "\<not> is_space (last u)" using item_text [OF u] by auto
  have d: "dropWhile is_space x = x" if "x \<noteq> []" "\<not> is_space (hd x)" for x using that by (cases x) auto
  have "trim_start (w @ u @ v) = u @ v"
    using w n by (simp add: trim_start_def dropWhile_append2 list_all_iff d)
  moreover have "trim_start (rev v @ rev u) = rev u"
    using dropWhile_append2 [of "rev v" is_space "rev u"] v n d [of "rev u"]
    by (simp add: trim_start_def list_all_iff hd_rev)
  ultimately show ?thesis by (simp add: trim_def)
qed

lemma split_parts:
  assumes "us \<noteq> []" and "list_all item us" and "prev = None \<or> prev = last_char (key @ post)" and "list_all is_space w"
  shows "split_loop sep (length key) prev (join (pre @ key @ post) us) w False False 0 parts = parts @ us"
  using assms
proof (induction us arbitrary: prev w parts rule: induct_list012)
  case (2 u)
  obtain prev' where "reads sep u [] (prev, False, False, 0) (prev', False, False, 0)"
    using reads_item [of u prev "[]"] 2 by auto
  moreover have "trim (w @ u) = u" "u \<noteq> []" using trim_part [of u w "[]"] item_text 2 by auto
  ultimately show ?case by (simp add: reads_def resume_def)
next
  case (3 u v us)
  let ?more = "join (pre @ key @ post) (v # us)"
  have items: "item u" "list_all item (v # us)" "item v" using "3.prems" by auto
  obtain p1 where p1: "reads sep u (pre @ key @ post @ ?more) (prev, False, False, 0) (p1, False, False, 0)"
    using reads_item [OF items(1) "3.prems"(3)] by blast
  obtain p2 where p2: "reads sep pre (key @ post @ ?more) (p1, False, False, 0) (p2, False, False, 0)" "sep p2 (key @ post @ ?more)"
    using reads_pre by blast
  obtain x xs where key: "key = x # xs" using key_top by (cases key) auto
  have p3: "reads sep post ?more (last_char key, False, False, 0) (last_char (key @ post), False, False, 0)"
  proof (cases us)
    case (Cons v' us')
    then show ?thesis using reads_post [OF items(3), of "(pre @ key @ post) @ join (pre @ key @ post) us"] by simp
  qed (use reads_post [OF items(3), of "[]"] in simp)
  have "split_loop sep (length key) prev (join (pre @ key @ post) (u # v # us)) w False False 0 parts
      = split_loop sep (length key) p2 (key @ post @ ?more) (w @ u @ pre) False False 0 parts"
    using p1 p2(1) by (simp add: reads_def resume_def)
  also have "\<dots> = split_loop sep (length key) (last_char key) (post @ ?more) [] False False 0 (parts @ [u])"
    using p2(2) key_top trim_part [OF items(1) "3.prems"(4) padding(1)] unfolding key
    by (simp add: split_loop_step at_top_def plain_def)
  also have "\<dots> = split_loop sep (length key) (last_char (key @ post)) ?more post False False 0 (parts @ [u])"
    using p3 by (simp add: reads_def resume_def)
  also have "\<dots> = (parts @ [u]) @ v # us"
    using "3.IH"(2) [OF _ items(2) disjI2 [OF refl] padding(2)] by simp
  finally show ?case by simp
qed simp

end

text \<open>Quoted texts joined by commas.\<close>

definition comma_at :: "char option \<Rightarrow> string \<Rightarrow> bool" where
  "comma_at prev rest \<longleftrightarrow> to_upper (take 1 rest) = '',''"

definition is_quoted :: "string \<Rightarrow> bool" where
  "is_quoted u \<longleftrightarrow> (\<exists>s. u = sql_quote s)"

lemma splitTopLevel_comma: "splitTopLevel s '','' = split_loop comma_at 1 None s [] False False 0 []"
  by (simp add: splitTopLevel_def comma_at_def [abs_def])

interpretation commas: joined comma_at "[]" "'',''" "'' ''" is_quoted
proof unfold_locales
  fix u rest :: string and prev :: "char option"
  show "is_quoted u \<Longrightarrow> u \<noteq> [] \<and> \<not> is_space (hd u) \<and> \<not> is_space (last u)"
    by (auto simp: is_quoted_def sql_quote_def)
  show "\<exists>prev'. reads comma_at u rest (prev, False, False, 0) (prev', False, False, 0)"
    if "is_quoted u" "rest = [] \<or> (\<exists>r. rest = [] @ '','' @ '' '' @ r)"
  proof -
    from that(1) obtain s where u: "u = sql_quote s" unfolding is_quoted_def ..
    have "take 1 rest \<noteq> [quote]" using that(2) by auto
    then show ?thesis unfolding u by (intro exI) (rule reads_quoted)
  qed
  show "reads comma_at '' '' (u @ rest) (last_char '','', False, False, 0) (last_char ('','' @ '' ''), False, False, 0)"
    using reads_plain [of "CHR '' ''" 0 comma_at "last_char '',''" "u @ rest"]
    by (simp add: plain_def is_open_def is_close_def comma_at_def to_upper_def upper_char_def last_char_def)
  show "\<exists>prev'. reads comma_at [] ('','' @ '' '' @ rest) (prev, False, False, 0) (prev', False, False, 0)
      \<and> comma_at prev' ('','' @ '' '' @ rest)"
    by (intro exI [of _ prev]) (simp add: comma_at_def to_upper_def upper_char_def)
qed (simp_all add: plain_def is_open_def is_close_def is_space_def)

definition print_texts :: "string list \<Rightarrow> string" where
  "print_texts ts = ''('' @ join '', '' (map sql_quote ts) @ '')''"

lemma split_quoted: "ts \<noteq> [] \<Longrightarrow> splitTopLevel (join '', '' (map sql_quote ts)) '','' = map sql_quote ts"
  using commas.split_parts [of "map sql_quote ts" None "[]" "[]"]
  by (auto simp: splitTopLevel_comma list_all_iff is_quoted_def)

lemma seq_word_start: "parses (Seq (Word w) q) s c c' \<Longrightarrow> to_lower (take (length w) s) = to_lower w"
proof -
  assume "parses (Seq (Word w) q) s c c'"
  then obtain u v where s: "s = u @ v" "to_lower u = to_lower w" by (auto simp: parses_simps)
  then have "length u = length w" by (metis length_to_lower)
  then show ?thesis using s by simp
qed

lemma trim_edges: "s \<noteq> [] \<Longrightarrow> \<not> is_space (hd s) \<Longrightarrow> \<not> is_space (last s) \<Longrightarrow> trim s = s"
  by (rule trim_fixedI) simp

lemma join_edges:
  assumes "us \<noteq> []" and "list_all (\<lambda>u. u \<noteq> [] \<and> \<not> is_space (hd u) \<and> \<not> is_space (last u)) us"
  shows "join sep us \<noteq> [] \<and> \<not> is_space (hd (join sep us)) \<and> \<not> is_space (last (join sep us))"
  using assms by (induction us rule: induct_list012) auto

lemma quoted_edges: "sql_quote s \<noteq> [] \<and> \<not> is_space (hd (sql_quote s)) \<and> \<not> is_space (last (sql_quote s))"
  by (simp add: sql_quote_def)

lemma trim_eq_Nil_iff: "trim s = [] \<longleftrightarrow> list_all is_space s"
proof -
  have "trim s = [] \<longleftrightarrow> (\<forall>c \<in> set (trim_start s). is_space c)"
    unfolding trim_def by (subst trim_start_def) (simp add: dropWhile_eq_Nil_conv)
  also have "\<dots> \<longleftrightarrow> trim_start s = []"
    using hd_dropWhile [of is_space s] by (cases "dropWhile is_space s") (auto simp: trim_start_def dest: set_dropWhileD)
  also have "\<dots> \<longleftrightarrow> list_all is_space s" by (simp add: trim_start_def dropWhile_eq_Nil_conv list_all_iff)
  finally show ?thesis .
qed

lemma trim_join_quoted: "trim (join sep (map sql_quote ts)) = join sep (map sql_quote ts)"
proof (cases ts)
  case (Cons t ts')
  then show ?thesis
    using join_edges [of "map sql_quote ts" sep] quoted_edges by (intro trim_edges) (auto simp: list_all_iff)
qed (simp add: trim_def trim_start_def)

lemma print_texts_shape:
  "trim (print_texts ts) = print_texts ts" "strip 1 1 (print_texts ts) = join '', '' (map sql_quote ts)"
  "starts_with (print_texts ts) ''(''" "ends_with (print_texts ts) '')''"
  by (simp_all add: print_texts_def trim_edges is_space_def strip_def starts_with_def ends_with_def)

lemma word_start: "parses (Seq (Word (a # w)) q) (b # s) c c' \<Longrightarrow> lower_char b = lower_char a"
  using seq_word_start [of "a # w" q "b # s" c c'] by (simp add: to_lower_def)

lemma array_prefix_paren: "exec array_prefix_pattern (CHR ''('' # s) = None"
proof -
  have "lower_char (CHR ''('') \<noteq> lower_char (CHR ''A'')" by code_simp
  then show ?thesis unfolding exec_None_iff array_prefix_pattern_def seqs.simps using word_start by blast
qed

lemma map_r_map: "(\<And>x. x \<in> set xs \<Longrightarrow> f (g x) = Inr x) \<Longrightarrow> map_r f (map g xs) = Inr xs"
  by (induction xs) simp_all

lemma parse_texts: "parseStringArrayLiteralList (print_texts ts) name = Inr ts"
proof -
  have no: "\<not> starts_with (print_texts ts) (quote # ''{'')" "\<not> starts_with (print_texts ts) ''{''"
    by (simp_all add: print_texts_def starts_with_def)
  have ar: "exec array_prefix_pattern (print_texts ts) = None" using array_prefix_paren by (simp add: print_texts_def)
  have elements: "map_r (parse_text_element name (print_texts ts)) (map sql_quote ts) = Inr ts"
    by (rule map_r_map) (simp add: parse_text_element_def parseSqlLiteral_quote)
  show ?thesis
  proof (cases "join '', '' (map sql_quote ts)")
    case Nil
    then have "ts = []" using join_edges [of "map sql_quote ts"] quoted_edges by (auto simp: list_all_iff)
    moreover have "parseStringArrayLiteralList (print_texts ts) name = Inr []"
      unfolding parseStringArrayLiteralList_def Let_def print_texts_shape(1,2) ar trim_join_quoted Nil
      using no print_texts_shape(3,4) [of ts] trim_eq_Nil_iff [of "[]"] by simp
    ultimately show ?thesis by simp
  next
    case (Cons x xs)
    then have "ts \<noteq> []" by auto
    have "parseStringArrayLiteralList (print_texts ts) name
        = map_r (parse_text_element name (print_texts ts)) (splitTopLevel (join '', '' (map sql_quote ts)) '','')"
      unfolding parseStringArrayLiteralList_def Let_def print_texts_shape(1,2) ar trim_join_quoted Cons
      using no print_texts_shape(3,4) [of ts] trim_join_quoted [of "'', ''" ts, unfolded Cons] by simp
    then show ?thesis using split_quoted [OF \<open>ts \<noteq> []\<close>] elements by simp
  qed
qed

section \<open>Statements\<close>

text \<open>
  A text whose quotes and parentheses are closed, without a semicolon outside them; the flag allows
  semicolons, as inside parentheses.
\<close>

inductive closed :: "bool \<Rightarrow> string \<Rightarrow> bool" where
  closed_nil: "closed inner []"
| closed_char: "c \<notin> {quote, CHR ''('', CHR '')''} \<Longrightarrow> c \<noteq> CHR '';'' \<or> inner \<Longrightarrow> closed inner s \<Longrightarrow> closed inner (c # s)"
| closed_quote: "closed inner s \<Longrightarrow> take 1 s \<noteq> [quote] \<Longrightarrow> closed inner (sql_quote t @ s)"
| closed_group: "closed True u \<Longrightarrow> closed inner s \<Longrightarrow> closed inner (''('' @ u @ '')'' @ s)"

lemma statements_in_string:
  assumes "take 1 rest \<noteq> [quote]"
  shows "split_statements_loop (escape t @ quote # rest) cur parts True d
    = split_statements_loop rest (cur @ escape t @ [quote]) parts False d"
proof (induction t arbitrary: cur)
  case Nil
  then show ?case using assms by (cases rest) simp_all
next
  case (Cons c t)
  show ?case
  proof (cases "c = quote")
    case True
    then show ?thesis using Cons.IH [of "cur @ [quote, quote]"] by simp
  next
    case False
    then show ?thesis using Cons.IH [of "cur @ [c]"] by simp
  qed
qed

lemma statements_quoted:
  assumes "take 1 rest \<noteq> [quote]"
  shows "split_statements_loop (sql_quote t @ rest) cur parts False d
    = split_statements_loop rest (cur @ sql_quote t) parts False d"
  using statements_in_string [OF assms, of t "cur @ [quote]"] by (cases "escape t") (simp_all add: sql_quote_def)

lemma statements_closed:
  assumes "closed inner u" and "take 1 rest \<noteq> [quote]" and "inner \<longrightarrow> 0 < d" and "0 \<le> d"
  shows "split_statements_loop (u @ rest) cur parts False d = split_statements_loop rest (cur @ u) parts False d"
  using assms
proof (induction arbitrary: rest cur d rule: closed.induct)
  case (closed_char c inner s)
  have "\<not> (d = 0 \<and> c = CHR '';'')" using closed_char.hyps(2) closed_char.prems(2,3) by auto
  then show ?case using closed_char.hyps(1) closed_char.IH [OF closed_char.prems] by auto
next
  case (closed_quote inner s t)
  have "take 1 (s @ rest) \<noteq> [quote]" using closed_quote.hyps(2) closed_quote.prems(1) by (cases s) auto
  then show ?case
    using statements_quoted [of "s @ rest"] closed_quote.IH [OF closed_quote.prems] by simp
next
  case (closed_group u inner s)
  have "split_statements_loop ((''('' @ u @ '')'' @ s) @ rest) cur parts False d
      = split_statements_loop ('')'' @ s @ rest) (cur @ ''('' @ u) parts False (d + 1)"
    using closed_group.IH(1) [of "'')'' @ s @ rest" "d + 1" "cur @ ''(''"] closed_group.prems(3) by simp
  also have "\<dots> = split_statements_loop rest (cur @ ''('' @ u @ '')'' @ s) parts False d"
    using closed_group.IH(2) [OF closed_group.prems] by simp
  finally show ?case .
qed simp

definition is_statement :: "string \<Rightarrow> bool" where
  "is_statement s \<longleftrightarrow> closed False s \<and> trim s \<noteq> []"

lemma join_not_space: "list_all is_statement (s # ss) \<Longrightarrow> trim (join '';'' (s # ss)) \<noteq> []"
  by (cases ss) (auto simp: is_statement_def trim_eq_Nil_iff)

text \<open>A semicolon after the last statement changes nothing.\<close>

lemma split_statements_join:
  assumes "list_all is_statement (s # ss)" and "tail = [] \<or> tail = '';''"
  shows "split_statements_loop (join '';'' (s # ss) @ tail) [] parts False 0 = Inr (parts @ map trim (s # ss))"
  using assms(1)
proof (induction ss arbitrary: s parts)
  case Nil
  then have s: "closed False s" "trim s \<noteq> []" by (simp_all add: is_statement_def)
  have "take 1 tail \<noteq> [quote]" using assms(2) by auto
  with statements_closed [OF s(1), of tail 0] assms(2) s(2) show ?case by (auto simp: trim_def trim_start_def)
next
  case (Cons t ss)
  have s: "closed False s" "trim s \<noteq> []" using Cons.prems by (simp_all add: is_statement_def)
  have "split_statements_loop (join '';'' (s # t # ss) @ tail) [] parts False 0
      = split_statements_loop ('';'' @ join '';'' (t # ss) @ tail) s parts False 0"
    using statements_closed [OF s(1), of "'';'' @ join '';'' (t # ss) @ tail" 0 "[]"] by simp
  also have "\<dots> = split_statements_loop (join '';'' (t # ss) @ tail) [] (parts @ [trim s]) False 0"
    using s(2) join_not_space [of t ss] Cons.prems by (simp add: trim_eq_Nil_iff)
  finally show ?case using Cons.IH [of t] Cons.prems by simp
qed

end
