(* ===== verification/SqlNesting.thy ===== *)
theory SqlNesting
  imports SqlSplitSpec
begin

text \<open>
  Parentheses in a \<open>WHERE\<close> clause: a group around a balanced text is read as the text, one level
  deeper.
\<close>

text \<open>Quotes and parentheses are closed; double quotes and other brackets stand in quotes only.\<close>

inductive balanced :: "string \<Rightarrow> bool" where
  balanced_nil: "balanced []"
| balanced_char: "plain c \<Longrightarrow> balanced s \<Longrightarrow> balanced (c # s)"
| balanced_quote: "balanced s \<Longrightarrow> take 1 s \<noteq> [quote] \<Longrightarrow> balanced (sql_quote t @ s)"
| balanced_group: "balanced u \<Longrightarrow> balanced s \<Longrightarrow> balanced (''('' @ u @ '')'' @ s)"

lemma paren_brackets: "is_open (CHR ''('')" "is_close (CHR '')'')"
  by (simp_all add: is_open_def is_close_def)

section \<open>Reading a balanced text\<close>

lemma reads_balanced:
  assumes "balanced u" and "take 1 rest \<noteq> [quote]" and "0 < d"
  shows "\<exists>prev'. reads sep u rest (prev, False, False, d) (prev', False, False, d)"
  using assms
proof (induction arbitrary: prev rest d rule: balanced.induct)
  case balanced_nil
  then show ?case by (intro exI) (rule reads_nil)
next
  case (balanced_char c s)
  have "reads sep [c] (s @ rest) (prev, False, False, d) (Some c, False, False, d)"
    using reads_plain balanced_char.hyps(1) balanced_char.prems(2) by simp
  moreover obtain prev' where "reads sep s rest (Some c, False, False, d) (prev', False, False, d)"
    using balanced_char.IH [OF balanced_char.prems] by blast
  ultimately show ?case using reads_Cons by blast
next
  case (balanced_quote s t)
  have "take 1 (s @ rest) \<noteq> [quote]" using balanced_quote.hyps(2) balanced_quote.prems(1) by (cases s) auto
  then have "reads sep (sql_quote t) (s @ rest) (prev, False, False, d) (Some quote, False, False, d)" by (rule reads_quoted)
  moreover obtain prev' where "reads sep s rest (Some quote, False, False, d) (prev', False, False, d)"
    using balanced_quote.IH [OF balanced_quote.prems] by blast
  ultimately show ?case using reads_append by blast
next
  case (balanced_group u s)
  obtain p where p: "reads sep u ('')'' @ s @ rest) (Some (CHR ''(''), False, False, d + 1) (p, False, False, d + 1)"
    using balanced_group.IH(1) [of "'')'' @ s @ rest" "d + 1"] balanced_group.prems(2) by auto
  have close: "reads sep '')'' (s @ rest) (p, False, False, d + 1) (Some (CHR '')''), False, False, d)"
    using reads_close [OF paren_brackets(2), of sep "s @ rest" p "d + 1"] by simp
  obtain p' where "reads sep s rest (Some (CHR '')''), False, False, d) (p', False, False, d)"
    using balanced_group.IH(2) [OF balanced_group.prems] by blast
  from reads_append [OF close this]
  have "reads sep ('')'' @ s) rest (p, False, False, d + 1) (p', False, False, d)" .
  moreover have "reads sep u (('')'' @ s) @ rest) (Some (CHR ''(''), False, False, d + 1) (p, False, False, d + 1)"
    using p by simp
  ultimately have "reads sep (u @ '')'' @ s) rest (Some (CHR ''(''), False, False, d + 1) (p', False, False, d)"
    by (rule reads_append [rotated])
  moreover have "reads sep ''('' ((u @ '')'' @ s) @ rest) (prev, False, False, d) (Some (CHR ''(''), False, False, d + 1)"
    by (rule reads_open [OF paren_brackets(1)])
  ultimately show ?case using reads_append [of sep "''(''"] by blast
qed

text \<open>A group is one part of a split.\<close>

lemma split_group:
  assumes "balanced s"
  shows "split_loop sep n None (''('' @ s @ '')'') [] False False 0 [] = [''('' @ s @ '')'']"
proof -
  have o: "reads sep ''('' ((s @ '')'') @ []) (None, False, False, 0) (Some (CHR ''(''), False, False, 1)"
    using reads_open [OF paren_brackets(1), of sep "s @ '')''" None 0] by simp
  obtain p where p: "reads sep s ('')'' @ []) (Some (CHR ''(''), False, False, 1) (p, False, False, 1)"
    using reads_balanced [OF assms, of "'')''" 1] by auto
  have c: "reads sep '')'' [] (p, False, False, 1) (Some (CHR '')''), False, False, 0)"
    using reads_close [OF paren_brackets(2), of sep "[]" p 1] by simp
  have "reads sep (''('' @ s @ '')'') [] (None, False, False, 0) (Some (CHR '')''), False, False, 0)"
    using reads_append [OF o reads_append [OF p c]] by simp
  moreover have "trim (''('' @ s @ '')'') = ''('' @ s @ '')''" by (simp add: trim_edges is_space_def)
  ultimately show ?thesis by (simp add: reads_def resume_def)
qed

section \<open>Recognising a group\<close>

lemma group_loop_in_string:
  assumes "take 1 rest \<noteq> [quote]"
  shows "\<exists>prev'. group_loop prev (escape t @ quote # rest) True False d = group_loop prev' rest False False d"
proof (induction t arbitrary: prev)
  case Nil
  then show ?case using assms by (cases rest) auto
next
  case (Cons c t)
  then show ?case by (cases "c = quote") auto
qed

lemma group_loop_quoted:
  assumes "take 1 rest \<noteq> [quote]"
  shows "\<exists>prev'. group_loop prev (sql_quote t @ rest) False False d = group_loop prev' rest False False d"
  using group_loop_in_string [OF assms, of "Some quote" t d] by (cases "escape t") (simp_all add: sql_quote_def)

lemma group_loop_balanced:
  assumes "balanced u" and "take 1 rest \<noteq> [quote]" and "rest \<noteq> []" and "0 < d"
  shows "\<exists>prev'. group_loop prev (u @ rest) False False d = group_loop prev' rest False False d"
  using assms
proof (induction arbitrary: prev rest d rule: balanced.induct)
  case (balanced_char c s)
  have "group_loop prev ((c # s) @ rest) False False d = group_loop (Some c) (s @ rest) False False d"
    using balanced_char.hyps(1) by (auto simp: plain_def is_open_def is_close_def)
  then show ?case using balanced_char.IH [OF balanced_char.prems] by simp
next
  case (balanced_quote s t)
  have "take 1 (s @ rest) \<noteq> [quote]" using balanced_quote.hyps(2) balanced_quote.prems(1) by (cases s) auto
  then obtain p where "group_loop prev (sql_quote t @ s @ rest) False False d = group_loop p (s @ rest) False False d"
    using group_loop_quoted by blast
  then show ?case using balanced_quote.IH [OF balanced_quote.prems] by simp
next
  case (balanced_group u s)
  obtain p where p: "group_loop (Some (CHR ''('')) (u @ '')'' @ s @ rest) False False (d + 1)
      = group_loop p ('')'' @ s @ rest) False False (d + 1)"
    using balanced_group.IH(1) [of "'')'' @ s @ rest" "d + 1"] balanced_group.prems(3) by auto
  have "group_loop p ('')'' @ s @ rest) False False (d + 1) = group_loop (Some (CHR '')'')) (s @ rest) False False d"
    using balanced_group.prems(3) by simp
  then show ?case using p balanced_group.IH(2) [OF balanced_group.prems] by simp
qed auto

lemma group_recognised:
  assumes "balanced s"
  shows "isParenthesizedGroup (''('' @ s @ '')'')"
proof -
  obtain p where "group_loop (Some (CHR ''('')) (s @ '')'') False False 1 = group_loop p '')'' False False 1"
    using group_loop_balanced [OF assms, of "'')''" 1] by auto
  then show ?thesis by (simp add: isParenthesizedGroup_def starts_with_def ends_with_def)
qed

section \<open>Nested groups\<close>

lemma parse_group:
  assumes "balanced s" and "d \<le> MAXIMUM_PREDICATE_GROUP_DEPTH"
  shows "parsePredicateExpression source (''('' @ s @ '')'') d = parsePredicateExpression source s (d + 1)"
proof -
  have t: "trim (''('' @ s @ '')'') = ''('' @ s @ '')''" by (simp add: trim_edges is_space_def)
  have k: "splitTopLevelByKeyword (''('' @ s @ '')'') kw = [''('' @ s @ '')'']" for kw
    using split_group [OF assms(1)] by (simp add: splitTopLevelByKeyword_def)
  have s: "strip 1 1 (''('' @ s @ '')'') = s" by (simp add: strip_def)
  have ne: "''('' @ s @ '')'' \<noteq> []" "\<not> (1 :: nat) < length [x]" "\<not> MAXIMUM_PREDICATE_GROUP_DEPTH < d" for x :: string
    using assms(2) by simp_all
  show ?thesis
    unfolding parsePredicateExpression.simps [of source "''('' @ s @ '')''"] Let_def t k list.case s
      if_not_P [OF ne(1)] if_not_P [OF ne(2)] if_not_P [OF ne(3)] if_P [OF group_recognised [OF assms(1)]] ..
qed

fun nest :: "nat \<Rightarrow> string \<Rightarrow> string" where
  "nest 0 s = s"
| "nest (Suc n) s = ''('' @ nest n s @ '')''"

lemma balanced_nest: "balanced s \<Longrightarrow> balanced (nest n s)"
  using balanced_group [OF _ balanced_nil] by (induction n) auto

definition depth_error :: js_error where
  "depth_error = Error ''WHERE clause nests parenthesized groups deeper than the supported limit of 16''"

lemma parse_too_deep: "MAXIMUM_PREDICATE_GROUP_DEPTH < d \<Longrightarrow> parsePredicateExpression source s d = Inl depth_error"
  by (subst parsePredicateExpression.simps) (simp add: depth_error_def)

lemma parse_nest:
  assumes "balanced s"
  shows "parsePredicateExpression source (nest n s) d
    = (if MAXIMUM_PREDICATE_GROUP_DEPTH < d + int n then Inl depth_error else parsePredicateExpression source s (d + int n))"
proof (induction n arbitrary: d)
  case 0
  show ?case by (simp add: parse_too_deep)
next
  case (Suc n)
  show ?case
  proof (cases "d \<le> MAXIMUM_PREDICATE_GROUP_DEPTH")
    case True
    then show ?thesis using parse_group [OF balanced_nest [OF assms] True, of source n] Suc.IH [of "d + 1"]
      by (simp add: algebra_simps)
  next
    case False
    then show ?thesis using parse_too_deep [of d source "nest (Suc n) s"] by simp
  qed
qed

end
