(* ===== verification/SqlRows.thy ===== *)
theory SqlRows
  imports SqlPredicate JsNumText
begin

text \<open>
  The values of SQL rows and how the executor compares them (the first half of
  \<open>aiTools/sqlDialect/selectExecutor.ts\<close>). Looking up a row finds the properties every object
  inherits, too; such a value is a \<open>Builtin\<close>. The collation of the host, the clock and the random
  numbers are the parameter \<open>query_host\<close>; the clock is read as one time for the whole query.
\<close>

section \<open>Values\<close>

record query_host =
  host_compare :: "string \<Rightarrow> string \<Rightarrow> int"
  host_now :: string
  host_random :: "nat \<Rightarrow> jsnum"

definition row_value :: "SqlRow \<Rightarrow> string \<Rightarrow> SqlRowValue option" where
  "row_value row k = (case get_property row k of Own v \<Rightarrow> Some v | Inherited \<Rightarrow> Some (Builtin k) | Absent \<Rightarrow> None)"

text \<open>\<open>String(value)\<close>, and the elements of an array joined: \<open>null\<close> is the empty text there.\<close>

fun js_text :: "js_value \<Rightarrow> string" where
  "js_text JNull = ''null''"
| "js_text (JBool b) = (if b then ''true'' else ''false'')"
| "js_text (JNum n) = number_to_string n"
| "js_text (JStr s) = s"
| "js_text (JArr xs) = join '','' (map (\<lambda>x. if x = JNull then [] else js_text x) xs)"
| "js_text (JObj fs) = ''[object Object]''"

definition join_values :: "string \<Rightarrow> js_value list \<Rightarrow> string" where
  "join_values sep xs = join sep (map (\<lambda>x. if x = JNull then [] else js_text x) xs)"

text \<open>\<open>JSON.stringify\<close>: control characters are escaped, numbers that are not finite print as \<open>null\<close>.\<close>

definition hex_digit :: "nat \<Rightarrow> char" where
  "hex_digit n = (if n < 10 then digit_char n else char_of (87 + n))"

definition json_char :: "char \<Rightarrow> string" where
  "json_char c = (let n = (of_char c :: nat) in
     if c = dquote \<or> c = backslash then [backslash, c]
     else if n = 8 then [backslash, CHR ''b''] else if n = 9 then [backslash, CHR ''t'']
     else if n = 10 then [backslash, CHR ''n''] else if n = 12 then [backslash, CHR ''f'']
     else if n = 13 then [backslash, CHR ''r'']
     else if n < 32 then backslash # ''u00'' @ [hex_digit (n div 16), hex_digit (n mod 16)] else [c])"

definition json_string :: "string \<Rightarrow> string" where
  "json_string s = [dquote] @ concat (map json_char s) @ [dquote]"

definition json_number :: "jsnum \<Rightarrow> string" where
  "json_number n = (case n of Num _ \<Rightarrow> number_to_string n | _ \<Rightarrow> ''null'')"

fun json_text :: "js_value \<Rightarrow> string" where
  "json_text JNull = ''null''"
| "json_text (JBool b) = (if b then ''true'' else ''false'')"
| "json_text (JNum n) = json_number n"
| "json_text (JStr s) = json_string s"
| "json_text (JArr xs) = ''['' @ join '','' (map json_text xs) @ '']''"
| "json_text (JObj fs) = ''{'' @ join '','' (map (\<lambda>(k, v). json_string k @ '':'' @ json_text v) fs) @ ''}''"

text \<open>
  What \<open>Object.prototype\<close> holds: \<open>__proto__\<close> reads as an object without properties of its own, the
  other names as functions, which \<open>JSON.stringify\<close> does not print.
\<close>

definition builtin_is_object :: "string \<Rightarrow> bool" where
  "builtin_is_object name \<longleftrightarrow> name = ''__proto__''"

definition builtin_text :: "string \<Rightarrow> string" where
  "builtin_text name = (if builtin_is_object name then ''[object Object]''
     else if name = ''constructor'' then ''function Object() { [native code] }''
     else ''function '' @ name @ ''() { [native code] }'')"

fun value_text :: "SqlRowValue \<Rightarrow> string" where
  "value_text (Json v) = js_text v"
| "value_text (Builtin name) = builtin_text name"

fun value_json :: "SqlRowValue \<Rightarrow> string" where
  "value_json (Json v) = json_text v"
| "value_json (Builtin name) = (if builtin_is_object name then ''{}'' else ''undefined'')"

fun is_array :: "SqlRowValue \<Rightarrow> bool" where
  "is_array (Json (JArr _)) = True"
| "is_array _ = False"

text \<open>\<open>typeof value === "object"\<close> for a value that is neither null nor an array.\<close>

fun is_object :: "SqlRowValue \<Rightarrow> bool" where
  "is_object (Json (JObj _)) = True"
| "is_object (Builtin name) = builtin_is_object name"
| "is_object _ = False"

fun array_text :: "string \<Rightarrow> SqlRowValue \<Rightarrow> string" where
  "array_text sep (Json (JArr xs)) = join_values sep xs"
| "array_text sep v = value_text v"

fun literal_value :: "SqlLiteral \<Rightarrow> js_value" where
  "literal_value NullLiteral = JNull"
| "literal_value (BoolLiteral b) = JBool b"
| "literal_value (NumLiteral n) = JNum n"
| "literal_value (StrLiteral s) = JStr s"

definition resolvePredicateValue :: "query_host \<Rightarrow> SqlPredicateValue \<Rightarrow> SqlLiteral" where
  "resolvePredicateValue h v = (case v of Now \<Rightarrow> StrLiteral (host_now h) | Literal l \<Rightarrow> l)"

section \<open>Comparison\<close>

definition bool_number :: "bool \<Rightarrow> jsnum" where
  "bool_number b = num (if b then 1 else 0)"

fun normalizeSearchableText :: "SqlRowValue \<Rightarrow> string" where
  "normalizeSearchableText (Json (JArr xs)) = to_lower (join_values '' '' xs)"
| "normalizeSearchableText (Json JNull) = []"
| "normalizeSearchableText v = to_lower (if is_object v then value_json v else value_text v)"

fun is_nullish :: "SqlRowValue option \<Rightarrow> bool" where
  "is_nullish None = True"
| "is_nullish (Some v) = (v = Json JNull)"

text \<open>The comparison after the two \<open>if\<close>s about null and undefined.\<close>

definition compare_present :: "query_host \<Rightarrow> SqlRowValue \<Rightarrow> SqlRowValue \<Rightarrow> jsnum" where
  "compare_present h left right =
     (if is_array left \<or> is_array right
      then num (host_compare h (array_text [char_of (0::nat)] left) (array_text [char_of (0::nat)] right))
      else if is_object left \<or> is_object right then num (host_compare h (value_json left) (value_json right))
      else case (left, right) of
          (Json (JNum a), Json (JNum b)) \<Rightarrow> jsub a b
        | (Json (JBool a), Json (JBool b)) \<Rightarrow> jsub (bool_number a) (bool_number b)
        | _ \<Rightarrow> num (host_compare h (value_text left) (value_text right)))"

definition compareRowValues :: "query_host \<Rightarrow> SqlRowValue option \<Rightarrow> SqlRowValue option \<Rightarrow> jsnum" where
  "compareRowValues h left right =
     (if is_nullish left then (if is_nullish right then num 0 else num (-1))
      else if is_nullish right then num 1
      else compare_present h (the left) (the right))"

fun strict_equal :: "js_value \<Rightarrow> SqlLiteral \<Rightarrow> bool" where
  "strict_equal JNull NullLiteral = True"
| "strict_equal (JBool a) (BoolLiteral b) = (a = b)"
| "strict_equal (JNum a) (NumLiteral b) = jeq a b"
| "strict_equal (JStr a) (StrLiteral b) = (a = b)"
| "strict_equal _ _ = False"

fun valuesEqual :: "SqlRowValue option \<Rightarrow> SqlLiteral \<Rightarrow> bool" where
  "valuesEqual (Some (Json v)) right = strict_equal v right"
| "valuesEqual _ right = False"

definition compareScalarValues :: "query_host \<Rightarrow> SqlRowValue option \<Rightarrow> SqlLiteral \<Rightarrow> jsnum option" where
  "compareScalarValues h left right =
     (if is_nullish left \<or> is_array (the left) \<or> is_object (the left) \<or> right = NullLiteral then None
      else case (the left, right) of
          (Json (JNum a), NumLiteral b) \<Rightarrow> Some (jsub a b)
        | (Json (JBool a), BoolLiteral b) \<Rightarrow> Some (jsub (bool_number a) (bool_number b))
        | _ \<Rightarrow> Some (num (host_compare h (value_text (the left)) (js_text (literal_value right)))))"

fun string_elements :: "js_value list \<Rightarrow> string list" where
  "string_elements [] = []"
| "string_elements (JStr s # xs) = s # string_elements xs"
| "string_elements (_ # xs) = string_elements xs"

fun normalizeStringArray :: "SqlRowValue option \<Rightarrow> string list" where
  "normalizeStringArray (Some (Json (JArr xs))) = string_elements xs"
| "normalizeStringArray _ = []"

section \<open>LIKE\<close>

text \<open>\<open>value.replace(/[.*+?^${}()|[\]\\]/g, "\\$&")\<close>.\<close>

definition regexp_special :: string where
  "regexp_special = ''.*+?^${}()|[]'' @ [backslash]"

definition escapeRegExp :: "string \<Rightarrow> string" where
  "escapeRegExp value = concat (map (\<lambda>c. if List.member regexp_special c then [backslash, c] else [c]) value)"

definition replace_char :: "char \<Rightarrow> string \<Rightarrow> string \<Rightarrow> string" where
  "replace_char a r value = concat (map (\<lambda>c. if c = a then r else [c]) value)"

definition like_source :: "string \<Rightarrow> string" where
  "like_source value = replace_char (CHR ''_'') ''.'' (replace_char (CHR ''%'') ''.*'' (escapeRegExp value))"

text \<open>\<open>new RegExp\<close> on the texts \<open>like_source\<close> makes: escaped characters, \<open>.*\<close>, the dot, plain characters.\<close>

definition literal_char :: "bool \<Rightarrow> char \<Rightarrow> regex" where
  "literal_char insensitive c = One (\<lambda>d. if insensitive then lower_char d = lower_char c else d = c)"

fun compile_source :: "bool \<Rightarrow> string \<Rightarrow> regex" where
  "compile_source i [] = Nothing"
| "compile_source i [c] = (if c = CHR ''.'' then One line_char else literal_char i c)"
| "compile_source i (c # d # s) =
     (if c = backslash then Seq (literal_char i d) (compile_source i s)
      else if c = CHR ''.'' \<and> d = CHR ''*'' then Seq (Star (One line_char)) (compile_source i s)
      else if c = CHR ''.'' then Seq (One line_char) (compile_source i (d # s))
      else Seq (literal_char i c) (compile_source i (d # s)))"

definition createLikePatternRegExp :: "string \<Rightarrow> bool \<Rightarrow> regex" where
  "createLikePatternRegExp value caseInsensitive = compile_source caseInsensitive (like_source value)"

definition likePatternToRegExp :: "string \<Rightarrow> regex" where
  "likePatternToRegExp value = createLikePatternRegExp value True"

section \<open>Predicates on a row\<close>

definition sorted_texts :: "string list \<Rightarrow> string list" where
  "sorted_texts = sort_by (\<lambda>a b. if a < b then -1 else if b < a then 1 else 0)"

definition lowered_equal :: "string \<Rightarrow> SqlLiteral \<Rightarrow> bool" where
  "lowered_equal value l = (case l of StrLiteral s \<Rightarrow> to_lower value = to_lower s | _ \<Rightarrow> False)"

definition rowMatchesInPredicate :: "SqlRowValue option \<Rightarrow> SqlLiteral list \<Rightarrow> bool \<Rightarrow> bool \<Rightarrow> bool" where
  "rowMatchesInPredicate columnValue vs caseInsensitive isNegated =
     (if caseInsensitive
      then (case columnValue of
          Some (Json (JStr s)) \<Rightarrow> (let hasMatch = list_ex (lowered_equal s) vs in if isNegated then \<not> hasMatch else hasMatch)
        | _ \<Rightarrow> False)
      else let hasMatch = list_ex (valuesEqual columnValue) vs in if isNegated then \<not> hasMatch else hasMatch)"

definition rowMatchesArrayEqualsPredicate :: "SqlRowValue option \<Rightarrow> string list \<Rightarrow> bool" where
  "rowMatchesArrayEqualsPredicate columnValue vs = (let normalized = normalizeStringArray columnValue in
     length normalized = length vs \<and> sorted_texts normalized = sorted_texts vs)"

definition compare_holds :: "SqlComparisonOperator \<Rightarrow> jsnum \<Rightarrow> bool" where
  "compare_holds operator comparison = (case operator of
     Less \<Rightarrow> jlt comparison (num 0)
   | LessEqual \<Rightarrow> jle comparison (num 0)
   | Greater \<Rightarrow> jlt (num 0) comparison
   | _ \<Rightarrow> jle (num 0) comparison)"

fun rowMatchesPredicate :: "query_host \<Rightarrow> SqlRow \<Rightarrow> SqlPredicate \<Rightarrow> bool" where
  "rowMatchesPredicate h row (Match query) = (let normalizedQuery = to_lower (trim query) in
     list_ex (\<lambda>(k, v). includes_str (normalizeSearchableText v) normalizedQuery) row)"
| "rowMatchesPredicate h row (Like name pattern caseInsensitive isNegated) = (case row_value row name of
     Some (Json (JStr s)) \<Rightarrow> (let matchesPattern = test (createLikePatternRegExp pattern caseInsensitive) s in
       if isNegated then \<not> matchesPattern else matchesPattern)
   | _ \<Rightarrow> False)"
| "rowMatchesPredicate h row (Comparison name operator v) = (let predicateValue = resolvePredicateValue h v in
     if operator = Equal then valuesEqual (row_value row name) predicateValue
     else case compareScalarValues h (row_value row name) predicateValue of
         None \<Rightarrow> False
       | Some comparison \<Rightarrow> compare_holds operator comparison)"
| "rowMatchesPredicate h row (In name vs caseInsensitive isNegated) =
     rowMatchesInPredicate (row_value row name) vs caseInsensitive isNegated"
| "rowMatchesPredicate h row (IsNull name) = (row_value row name = Some (Json JNull))"
| "rowMatchesPredicate h row (IsNotNull name) = (\<not> is_nullish (row_value row name))"
| "rowMatchesPredicate h row (ArrayEquals name vs) = rowMatchesArrayEqualsPredicate (row_value row name) vs"
| "rowMatchesPredicate h row (Overlap name vs) =
     list_ex (List.member vs) (normalizeStringArray (row_value row name))"

fun rowMatchesPredicateExpression :: "query_host \<Rightarrow> SqlRow \<Rightarrow> SqlPredicateExpression \<Rightarrow> bool" where
  "rowMatchesPredicateExpression h row (Predicate p) = rowMatchesPredicate h row p"
| "rowMatchesPredicateExpression h row (And es) = list_all (rowMatchesPredicateExpression h row) es"
| "rowMatchesPredicateExpression h row (Or es) = list_ex (rowMatchesPredicateExpression h row) es"

end
