(* ===== verification/SqlMutation.thy ===== *)
theory SqlMutation
  imports SqlPredicate
begin

text \<open>
  \<open>INSERT\<close>, \<open>UPDATE\<close> and \<open>DELETE\<close> of the SQL dialect (\<open>aiTools/sqlDialect/mutationParser.ts\<close>). A column
  descriptor that is inherited from \<open>Object.prototype\<close> has no \<open>readOnly\<close> and no \<open>type\<close>.
\<close>

section \<open>RETURNING\<close>

definition RETURNING_CLAUSE_ERROR :: string where
  "RETURNING_CLAUSE_ERROR = ''RETURNING must be followed by * or a comma-separated column list''"

definition clause :: "string \<Rightarrow> string \<Rightarrow> TopLevelClauseDefinition" where
  "clause name kw = \<lparr>clauseName = name, keyword = kw\<rparr>"

definition splitInsertReturningSegment :: "string \<Rightarrow> (string \<times> string option) result" where
  "splitInsertReturningSegment normalizedSql =
     (case findTopLevelClauseMatches normalizedSql [clause ''returning'' ''RETURNING''] of
        [] \<Rightarrow> Inr (normalizedSql, None)
      | m # ms \<Rightarrow> if ms \<noteq> [] then Inl (Error ''Duplicate INSERT clause: RETURNING'')
          else Inr (trim (slice 0 (matchIndex m) normalizedSql),
            Some (trim (drop (matchIndex m + length (matchKeyword m)) normalizedSql))))"

text \<open>\<open>/^[a-z_][a-z0-9_]*$/\<close>, without the flag \<open>i\<close>.\<close>

definition is_lower_letter :: "char \<Rightarrow> bool" where
  "is_lower_letter c \<longleftrightarrow> 97 \<le> (of_char c :: nat) \<and> (of_char c :: nat) \<le> 122"

definition lower_ident :: regex where
  "lower_ident = Seq (One (\<lambda>c. is_lower_letter c \<or> c = CHR ''_''))
     (Star (One (\<lambda>c. is_lower_letter c \<or> is_digit c \<or> c = CHR ''_'')))"

definition table_source :: "SqlResourceName \<Rightarrow> SqlFromSource" where
  "table_source r = \<lparr>sourceName = r, unnestColumnName = None, unnestAlias = None\<rparr>"

definition returning_column :: "SqlResourceName \<Rightarrow> string \<Rightarrow> string result" where
  "returning_column r item = (let name = to_lower (trim item) in
     if \<not> test lower_ident name
     then Inl (Error (''Unsupported RETURNING item: '' @ trim item @ ''. '' @ RETURNING_CLAUSE_ERROR))
     else rbind (ensureSqlSourceColumnExists (table_source r) name) (\<lambda>_. Inr name))"

definition parseReturningClause :: "SqlResourceName \<Rightarrow> string \<Rightarrow> SqlReturningClause result" where
  "parseReturningClause r value = (if value = ''*'' then Inr ReturningAll
     else rbind (map_r (returning_column r) (splitTopLevel value '','')) (\<lambda>names.
       rbind (assert (0 < length names) RETURNING_CLAUSE_ERROR) (\<lambda>_. Inr (ReturningColumns names))))"

definition parse_returning :: "SqlResourceName \<Rightarrow> string option \<Rightarrow> SqlReturningClause option result" where
  "parse_returning r value = (case value of None \<Rightarrow> Inr None
     | Some v \<Rightarrow> rbind (parseReturningClause r v) (\<lambda>c. Inr (Some c)))"

section \<open>Written columns\<close>

definition written_resource :: "string \<Rightarrow> SqlResourceName option" where
  "written_resource name = (if name = ''cards'' then Some CardsResource
     else if name = ''decks'' then Some DecksResource else None)"

fun property_read_only :: "SqlColumnDescriptor property \<Rightarrow> bool" where
  "property_read_only (Own d) = readOnly d"
| "property_read_only _ = False"

fun property_is_array :: "SqlColumnDescriptor property \<Rightarrow> bool" where
  "property_is_array (Own d) = (columnType d = StringArrayType)"
| "property_is_array _ = False"

definition parse_written_value :: "SqlColumnDescriptor property \<Rightarrow> string \<Rightarrow> string \<Rightarrow> SqlWrittenValue result" where
  "parse_written_value d name value = (if property_is_array d
     then rbind (parseStringArrayLiteralList value name) (\<lambda>vs. Inr (TextArray vs))
     else rbind (parseSqlLiteral value) (\<lambda>v. Inr (Scalar v)))"

definition written_column :: "SqlResourceName \<Rightarrow> string \<Rightarrow> SqlColumnDescriptor property result" where
  "written_column r name = rbind (getSqlColumnDescriptor r name) (\<lambda>d.
     if property_read_only d then Inl (Error (''Column is read-only: '' @ name)) else Inr d)"

section \<open>INSERT\<close>

definition insert_pattern :: regex where
  "insert_pattern = seqs [Word ''INSERT'', some_spaces, Word ''INTO'', some_spaces, Group 1 ident, spaces,
     one_char (CHR ''(''), Group 2 (Plus (One line_char)), one_char (CHR '')''), some_spaces, Word ''VALUES'',
     some_spaces, Group 3 (Plus (One any_char))]"

definition insert_shape_error :: string where
  "insert_shape_error = ''INSERT must list columns explicitly, e.g. INSERT INTO cards (front_text, back_text, tags) VALUES (''
     @ [quote] @ ''Q?'' @ [quote] @ '', '' @ [quote] @ ''A'' @ [quote] @ '', ('' @ [quote] @ ''tag'' @ [quote]
     @ '')). Array columns use a parenthesized list; () means empty.''"

definition insert_column :: "SqlResourceName \<Rightarrow> string \<Rightarrow> string result" where
  "insert_column r item = (let name = to_lower (trim item) in rbind (written_column r name) (\<lambda>_. Inr name))"

definition columns_text :: "string list \<Rightarrow> string" where
  "columns_text names = digits (length names) @ '' declared column(s) ('' @ join '', '' names @ '')''"

definition insert_value :: "SqlResourceName \<Rightarrow> string list \<Rightarrow> string \<Rightarrow> nat \<times> string \<Rightarrow> SqlWrittenValue result" where
  "insert_value r names row iv = (if fst iv < length names
     then rbind (getSqlColumnDescriptor r (names ! fst iv)) (\<lambda>d. parse_written_value d (names ! fst iv) (snd iv))
     else Inl (Error (''VALUES row contains more values than the '' @ columns_text names @ ''. Got: '' @ row)))"

definition insert_row :: "SqlResourceName \<Rightarrow> string list \<Rightarrow> string \<Rightarrow> SqlWrittenValue list result" where
  "insert_row r names row =
     rbind (assert (starts_with row ''('' \<and> ends_with row '')'')
       (''Invalid VALUES row: each row must be wrapped in parentheses, e.g. ('' @ [quote] @ ''Q?'' @ [quote] @ '', ''
         @ [quote] @ ''A'' @ [quote] @ '', ('' @ [quote] @ ''tag'' @ [quote] @ '')). Got: '' @ row)) (\<lambda>_.
     rbind (map_r (insert_value r names row) (enumerate 0 (splitTopLevel (strip 1 1 row) '',''))) (\<lambda>vs.
       if length vs \<noteq> length names
       then Inl (Error (''VALUES row does not match the '' @ columns_text names @ ''; got '' @ digits (length vs)
         @ '' value(s) in: '' @ row))
       else Inr vs))"

definition parseInsertStatement :: "string \<Rightarrow> SqlInsertStatement result" where
  "parseInsertStatement normalizedSql = rbind (splitInsertReturningSegment normalizedSql) (\<lambda>(body, returningValue).
     case exec insert_pattern body of
       None \<Rightarrow> Inl (Error insert_shape_error)
     | Some g \<Rightarrow> (case written_resource (to_lower (group_text g 1)) of
         None \<Rightarrow> Inl (Error (''INSERT is not supported for '' @ to_lower (group_text g 1)))
       | Some r \<Rightarrow>
         rbind (map_r (insert_column r) (splitTopLevel (group_text g 2) '','')) (\<lambda>names.
         let rows = filter (\<lambda>row. starts_with row ''('') (map trim (splitTopLevel (group_text g 3) '','')) in
         rbind (assert (0 < length rows) ''INSERT must include at least one VALUES row'') (\<lambda>_.
         rbind (map_r (insert_row r names) rows) (\<lambda>parsedRows.
         rbind (parse_returning r returningValue) (\<lambda>returning.
         Inr \<lparr>insertResource = r, insertColumns = names, insertRows = parsedRows, insertReturning = returning,
           insertSql = normalizedSql\<rparr>))))))"

section \<open>UPDATE and DELETE\<close>

definition assignment_pattern :: regex where
  "assignment_pattern = seqs [Group 1 ident, spaces, one_char (CHR ''=''), spaces, Group 2 (Plus (One any_char))]"

definition parse_assignment :: "SqlResourceName \<Rightarrow> string \<Rightarrow> (string \<times> SqlWrittenValue) result" where
  "parse_assignment r assignment = (case exec assignment_pattern assignment of
     None \<Rightarrow> Inl (Error (''Unsupported assignment: '' @ assignment))
   | Some g \<Rightarrow> (let name = to_lower (group_text g 1) in
       rbind (written_column r name) (\<lambda>d.
       rbind (parse_written_value d name (group_text g 2)) (\<lambda>v. Inr (name, v)))))"

definition parseAssignments :: "SqlResourceName \<Rightarrow> string \<Rightarrow> (string \<times> SqlWrittenValue) list result" where
  "parseAssignments r value = map_r (parse_assignment r) (splitTopLevel value '','')"

definition update_pattern :: regex where
  "update_pattern = seqs [Word ''UPDATE'', some_spaces, Group 1 ident, Group 2 (Star (One any_char))]"

definition parseUpdateStatement :: "string \<Rightarrow> SqlUpdateStatement result" where
  "parseUpdateStatement normalizedSql = (case exec update_pattern normalizedSql of
     None \<Rightarrow> Inl (Error ''Unsupported UPDATE statement'')
   | Some g \<Rightarrow> (case written_resource (to_lower (group_text g 1)) of
       None \<Rightarrow> Inl (Error (''UPDATE is not supported for '' @ to_lower (group_text g 1)))
     | Some r \<Rightarrow> rbind (extractTopLevelClauses (trim (group_text g 2))
           [clause ''set'' ''SET'', clause ''where'' ''WHERE'', clause ''returning'' ''RETURNING''] ''UPDATE'')
         (\<lambda>(leading, vals). case (map_of vals ''set'', map_of vals ''where'') of
             (Some assignmentsValue, Some predicateValue) \<Rightarrow>
               if leading \<noteq> [] then Inl (Error ''Unsupported UPDATE statement'')
               else rbind (parseAssignments r assignmentsValue) (\<lambda>assigned.
                 rbind (parseWherePredicate (table_source r) predicateValue) (\<lambda>predicate.
                 rbind (parse_returning r (map_of vals ''returning'')) (\<lambda>returning.
                 Inr \<lparr>updateResource = r, assignments = assigned, updatePredicate = predicate,
                   updateReturning = returning, updateSql = normalizedSql\<rparr>)))
           | _ \<Rightarrow> Inl (Error ''Unsupported UPDATE statement''))))"

definition delete_pattern :: regex where
  "delete_pattern = seqs [Word ''DELETE'', some_spaces, Word ''FROM'', some_spaces, Group 1 ident,
     Group 2 (Star (One any_char))]"

definition parseDeleteStatement :: "string \<Rightarrow> SqlDeleteStatement result" where
  "parseDeleteStatement normalizedSql = (case exec delete_pattern normalizedSql of
     None \<Rightarrow> Inl (Error ''Unsupported DELETE statement'')
   | Some g \<Rightarrow> (case written_resource (to_lower (group_text g 1)) of
       None \<Rightarrow> Inl (Error (''DELETE is not supported for '' @ to_lower (group_text g 1)))
     | Some r \<Rightarrow> rbind (extractTopLevelClauses (trim (group_text g 2))
           [clause ''where'' ''WHERE'', clause ''returning'' ''RETURNING''] ''DELETE'')
         (\<lambda>(leading, vals). case map_of vals ''where'' of
             Some predicateValue \<Rightarrow>
               if leading \<noteq> [] then Inl (Error ''Unsupported DELETE statement'')
               else rbind (parseWherePredicate (table_source r) predicateValue) (\<lambda>predicate.
                 rbind (parse_returning r (map_of vals ''returning'')) (\<lambda>returning.
                 Inr \<lparr>deleteResource = r, deletePredicate = predicate, deleteReturning = returning,
                   deleteSql = normalizedSql\<rparr>))
           | None \<Rightarrow> Inl (Error ''Unsupported DELETE statement''))))"

end
