(* ===== verification/SqlParser.thy ===== *)
theory SqlParser
  imports SqlMutation
begin

text \<open>
  Statements of the SQL dialect (\<open>aiTools/sqlDialect/parser.ts\<close>): \<open>SELECT\<close>, \<open>SHOW TABLES\<close>,
  \<open>DESCRIBE\<close>, and the dispatch on the first word.
\<close>

section \<open>Clauses of a SELECT\<close>

definition digits_pattern :: regex where
  "digits_pattern = Plus (One is_digit)"

definition parseSimpleNumberClauseValue :: "string option \<Rightarrow> string \<Rightarrow> jsnum option result" where
  "parseSimpleNumberClauseValue value kw = (case value of
     None \<Rightarrow> Inr None
   | Some v \<Rightarrow> if \<not> test digits_pattern (trim v) then Inl (Error (kw @ '' must be a non-negative integer''))
       else Inr (Some (parse_integer (trim v))))"

definition random_call :: regex where
  "random_call = seqs [Word ''RANDOM'', spaces, one_char (CHR ''(''), spaces, one_char (CHR '')'')]"

definition random_direction_pattern :: regex where
  "random_direction_pattern = seqs [random_call, some_spaces, Alt (Word ''ASC'') (Word ''DESC'')]"

definition order_item_pattern :: regex where
  "order_item_pattern = Seq (Group 1 ident) (Opt (Seq some_spaces (Group 2 (Alt (Word ''ASC'') (Word ''DESC'')))))"

definition order_item :: "string \<Rightarrow> SqlSelectOrderBy result" where
  "order_item item = (case exec order_item_pattern item of
     None \<Rightarrow> Inl (Error (''Unsupported ORDER BY item: '' @ item))
   | Some g \<Rightarrow> Inr (OrderColumn (to_lower (group_text g 1))
       (if to_lower (case g 2 of None \<Rightarrow> ''ASC'' | Some d \<Rightarrow> d) = ''desc'' then Desc else Asc)))"

definition parseOrderBy :: "string \<Rightarrow> SqlSelectOrderBy list result" where
  "parseOrderBy value = (let items = map trim (splitTopLevel value '','') in
     if length items = 1 \<and> test random_call (hd items) then Inr [OrderRandom]
     else if list_ex (test random_direction_pattern) items
     then Inl (Error ''RANDOM() does not support ASC or DESC'')
     else if list_ex (test random_call) items then Inl (Error ''RANDOM() must be the only ORDER BY item'')
     else map_r order_item items)"

definition parseFromSource :: "string \<Rightarrow> string option \<Rightarrow> string option \<Rightarrow> SqlFromSource result" where
  "parseFromSource name unnestColumn alias = (case isSqlResourceName (to_lower name) of
     None \<Rightarrow> Inl (Error (''Unknown resource: '' @ to_lower name))
   | Some r \<Rightarrow>
       if unnestColumn = None \<and> alias = None
       then Inr \<lparr>sourceName = r, unnestColumnName = None, unnestAlias = None\<rparr>
       else if r \<noteq> CardsResource \<or> to_lower (case unnestColumn of None \<Rightarrow> [] | Some c \<Rightarrow> c) \<noteq> ''tags''
       then Inl (Error ''UNNEST is only supported for cards.tags'')
       else Inr \<lparr>sourceName = r, unnestColumnName = Some ''tags'',
         unnestAlias = Some (to_lower (case alias of None \<Rightarrow> [] | Some a \<Rightarrow> a))\<rparr>)"

section \<open>Projections\<close>

definition alias_pattern :: regex where
  "alias_pattern = seqs [Group 1 (Seq (One any_char) (LazyStar (One any_char))), some_spaces, Word ''AS'', some_spaces,
     Group 2 ident]"

definition parseAliasedExpression :: "string \<Rightarrow> string \<times> string option" where
  "parseAliasedExpression value = (case exec alias_pattern value of
     None \<Rightarrow> (trim value, None)
   | Some g \<Rightarrow> (trim (group_text g 1), Some (to_lower (group_text g 2))))"

definition count_pattern :: regex where
  "count_pattern = seqs [Word ''COUNT'', spaces, one_char (CHR ''(''), spaces, one_char (CHR ''*''), spaces,
     one_char (CHR '')'')]"

definition aggregate_pattern :: regex where
  "aggregate_pattern = seqs [Group 1 (Alt (Word ''SUM'') (Alt (Word ''AVG'') (Alt (Word ''MIN'') (Word ''MAX'')))), spaces,
     one_char (CHR ''(''), spaces, Group 2 ident, spaces, one_char (CHR '')'')]"

definition aggregate_of :: "string \<Rightarrow> SqlAggregateFunctionName" where
  "aggregate_of name = (if name = ''sum'' then Sum else if name = ''avg'' then Avg else if name = ''min'' then Min else Max)"

definition parseSelectItem :: "SqlFromSource \<Rightarrow> string \<Rightarrow> SqlSelectItem result" where
  "parseSelectItem source value = (let trimmedValue = trim value in
     if trimmedValue = ''*'' then Inr Wildcard
     else case parseAliasedExpression trimmedValue of (expression, alias) \<Rightarrow>
       if test count_pattern expression then Inr (Aggregate Count None alias)
       else (case exec aggregate_pattern expression of
         Some g \<Rightarrow> (let name = to_lower (group_text g 2) in
           rbind (ensureSqlSourceColumnExists source name) (\<lambda>_.
           Inr (Aggregate (aggregate_of (to_lower (group_text g 1))) (Some name) alias)))
       | None \<Rightarrow> (case exec (Group 1 ident) expression of
           Some g \<Rightarrow> (let name = to_lower (group_text g 1) in
             rbind (ensureSqlSourceColumnExists source name) (\<lambda>_. Inr (ColumnItem name alias)))
         | None \<Rightarrow> Inl (Error (''Unsupported SELECT item: '' @ trimmedValue)))))"

section \<open>SELECT\<close>

definition select_prefix :: regex where
  "select_prefix = Seq (Word ''SELECT'') some_spaces"

definition source_pattern :: regex where
  "source_pattern = Seq (Group 1 ident) (Opt (seqs [some_spaces, Word ''UNNEST'', some_spaces, Group 2 ident,
     some_spaces, Word ''AS'', some_spaces, Group 3 ident]))"

definition select_clauses :: "TopLevelClauseDefinition list" where
  "select_clauses = [clause ''where'' ''WHERE'', clause ''groupBy'' ''GROUP BY'', clause ''orderBy'' ''ORDER BY'',
     clause ''limit'' ''LIMIT'', clause ''offset'' ''OFFSET'']"

definition group_column :: "SqlFromSource \<Rightarrow> string \<Rightarrow> string result" where
  "group_column source item = (let name = to_lower (trim item) in
     rbind (ensureSqlSourceColumnExists source name) (\<lambda>_. Inr name))"

fun is_aggregate :: "SqlSelectItem \<Rightarrow> bool" where
  "is_aggregate (Aggregate _ _ _) = True"
| "is_aggregate _ = False"

definition must_group :: "string \<Rightarrow> js_error" where
  "must_group name = Error (''Grouped SELECT must list '' @ name @ '' in GROUP BY'')"

text \<open>The loop over the items of a grouped \<open>SELECT\<close>: the first column that is not grouped.\<close>

fun ungrouped_column :: "string list \<Rightarrow> SqlSelectItem list \<Rightarrow> string option" where
  "ungrouped_column grouped [] = None"
| "ungrouped_column grouped (ColumnItem name alias # items) =
     (if List.member grouped name then ungrouped_column grouped items else Some name)"
| "ungrouped_column grouped (_ # items) = ungrouped_column grouped items"

fun references_column :: "string \<Rightarrow> SqlSelectItem \<Rightarrow> bool" where
  "references_column name (ColumnItem n _) = (n = name)"
| "references_column name _ = False"

definition check_grouping :: "SqlFromSource \<Rightarrow> SqlSelectItem list \<Rightarrow> string list \<Rightarrow> unit result" where
  "check_grouping source items grouped = (let
     wildcardSelect = (items = [Wildcard]);
     requiresGroupedColumns = (list_ex is_aggregate items \<or> 0 < length grouped)
   in if wildcardSelect \<and> 0 < length grouped then Inl (Error ''GROUP BY is not supported with SELECT *'')
      else case (if requiresGroupedColumns then ungrouped_column grouped items else None) of
        Some name \<Rightarrow> Inl (must_group name)
      | None \<Rightarrow> (case unnestAlias source of
          Some alias \<Rightarrow> throw_if (requiresGroupedColumns \<and> \<not> List.member grouped alias
            \<and> list_ex (references_column alias) items) (must_group alias)
        | None \<Rightarrow> Inr ()))"

definition parse_optional :: "('a \<Rightarrow> 'b result) \<Rightarrow> 'b \<Rightarrow> 'a option \<Rightarrow> 'b result" where
  "parse_optional f d v = (case v of None \<Rightarrow> Inr d | Some x \<Rightarrow> f x)"

definition parse_select_tail :: "string \<Rightarrow> string \<Rightarrow> string \<times> (string \<times> string) list \<Rightarrow> SqlSelectStatement result" where
  "parse_select_tail normalizedSql itemsSegment extracted = (case exec source_pattern (fst extracted) of
     None \<Rightarrow> Inl (Error ''Unsupported SELECT statement'')
   | Some g \<Rightarrow>
     rbind (parseFromSource (group_text g 1) (g 2) (g 3)) (\<lambda>source.
     rbind (map_r (parseSelectItem source) (splitTopLevel itemsSegment '','')) (\<lambda>items.
     rbind (parse_optional (\<lambda>v. map_r (group_column source) (splitTopLevel v '','')) [] (map_of (snd extracted) ''groupBy''))
       (\<lambda>grouped.
     rbind (parseSimpleNumberClauseValue (map_of (snd extracted) ''limit'') ''LIMIT'') (\<lambda>limit.
     rbind (parseSimpleNumberClauseValue (map_of (snd extracted) ''offset'') ''OFFSET'') (\<lambda>offset.
     rbind (check_grouping source items grouped) (\<lambda>_.
     rbind (parse_optional (parseWherePredicate source) None (map_of (snd extracted) ''where'')) (\<lambda>predicate.
     rbind (parse_optional parseOrderBy [] (map_of (snd extracted) ''orderBy'')) (\<lambda>criteria.
     Inr \<lparr>selectSource = source, selectItems = items, selectPredicate = predicate, groupBy = grouped,
       orderBy = criteria, selectLimit = limit, selectOffset = offset, selectSql = normalizedSql\<rparr>)))))))))"

definition parseSelectStatement :: "string \<Rightarrow> SqlSelectStatement result" where
  "parseSelectStatement normalizedSql = (case after_prefix select_prefix normalizedSql of
     None \<Rightarrow> Inl (Error ''Unsupported SELECT statement'')
   | Some selectBody \<Rightarrow> (case findTopLevelClauseMatches selectBody [clause ''from'' ''FROM''] of
       [] \<Rightarrow> Inl (Error ''Unsupported SELECT statement'')
     | fromMatch # _ \<Rightarrow> (let
         selectItemsSegment = trim (slice 0 (matchIndex fromMatch) selectBody);
         fromAndTailSegment = trim (drop (matchIndex fromMatch + length (matchKeyword fromMatch)) selectBody)
       in rbind (extractTopLevelClauses fromAndTailSegment select_clauses ''SELECT'')
            (parse_select_tail normalizedSql selectItemsSegment))))"

section \<open>Other statements\<close>

definition show_tables_pattern :: regex where
  "show_tables_pattern = seqs [Word ''SHOW'', some_spaces, Word ''TABLES'',
     Opt (seqs [some_spaces, Word ''LIKE'', some_spaces, Group 1 quoted])]"

definition parseShowTablesStatement :: "string \<Rightarrow> SqlShowTablesStatement option result" where
  "parseShowTablesStatement normalizedSql = (case exec show_tables_pattern normalizedSql of
     None \<Rightarrow> Inr None
   | Some g \<Rightarrow> rbind (case g 1 of None \<Rightarrow> Inr None | Some s \<Rightarrow> rbind (parseStringLiteral s) (\<lambda>p. Inr (Some p)))
       (\<lambda>pattern. Inr (Some \<lparr>likePattern = pattern, showTablesSql = normalizedSql\<rparr>)))"

definition describe_pattern :: regex where
  "describe_pattern = seqs [Alt (Word ''DESCRIBE'') (seqs [Word ''SHOW'', some_spaces, Word ''COLUMNS'', some_spaces,
     Word ''FROM'']), some_spaces, Group 1 ident]"

definition parseDescribeStatement :: "string \<Rightarrow> SqlDescribeStatement option result" where
  "parseDescribeStatement normalizedSql = (case exec describe_pattern normalizedSql of
     None \<Rightarrow> Inr None
   | Some g \<Rightarrow> (case isSqlResourceName (to_lower (group_text g 1)) of
       None \<Rightarrow> Inl (Error (''Unknown resource: '' @ to_lower (group_text g 1)))
     | Some r \<Rightarrow> Inr (Some \<lparr>describedResource = r, describeSql = normalizedSql\<rparr>)))"

definition parse_by_keyword :: "string \<Rightarrow> ParsedSqlStatement result" where
  "parse_by_keyword normalizedSql = (let
     statementKeyword = upperCaseKeyword (takeWhile (\<lambda>c. c \<noteq> CHR '' '') normalizedSql)
   in if statementKeyword = ''SELECT'' then rbind (parseSelectStatement normalizedSql) (\<lambda>s. Inr (Select s))
      else if statementKeyword = ''INSERT'' then rbind (parseInsertStatement normalizedSql) (\<lambda>s. Inr (Insert s))
      else if statementKeyword = ''UPDATE'' then rbind (parseUpdateStatement normalizedSql) (\<lambda>s. Inr (Update s))
      else if statementKeyword = ''DELETE'' then rbind (parseDeleteStatement normalizedSql) (\<lambda>s. Inr (Delete s))
      else Inl (Error ''Unsupported SQL statement''))"

definition parseSqlStatement :: "string \<Rightarrow> ParsedSqlStatement result" where
  "parseSqlStatement value = (let normalizedSql = normalizeSqlWhitespace value in
     if normalizedSql = [] then Inl (Error ''sql must not be empty'')
     else rbind (parseShowTablesStatement normalizedSql) (\<lambda>shown. case shown of
       Some s \<Rightarrow> Inr (ShowTables s)
     | None \<Rightarrow> rbind (parseDescribeStatement normalizedSql) (\<lambda>described. case described of
         Some s \<Rightarrow> Inr (Describe s)
       | None \<Rightarrow> parse_by_keyword normalizedSql)))"

definition parseSqlStatements :: "string \<Rightarrow> ParsedSqlStatement list result" where
  "parseSqlStatements value = rbind (splitSqlStatements value) (\<lambda>statementValues.
     if length statementValues = 0 then Inl (Error ''sql must not be empty'')
     else map_r parseSqlStatement statementValues)"

end
