(* ===== verification/SqlSelect.thy ===== *)
theory SqlSelect
  imports SqlRows SqlParser
begin

text \<open>
  Executing a parsed \<open>SELECT\<close> over the rows of a resource (the second half of
  \<open>aiTools/sqlDialect/selectExecutor.ts\<close>): validation, expansion of tags, filtering, criteria,
  grouping, projection and pages.
\<close>

definition buildInvalidSqlError :: "string \<Rightarrow> js_error" where
  "buildInvalidSqlError message = HttpError 400 message (Some ''QUERY_INVALID_SQL'')"

section \<open>Limits\<close>

definition normalizeSqlLimit :: "jsnum option \<Rightarrow> jsnum \<Rightarrow> jsnum result" where
  "normalizeSqlLimit limit maximumLimit = (case limit of
     None \<Rightarrow> Inr maximumLimit
   | Some n \<Rightarrow> if jeq n (num 0) then Inl (buildInvalidSqlError ''LIMIT must be greater than 0'')
       else if jlt n (num 0) then Inl (Error ''LIMIT must be greater than 0'')
       else Inr (jmin n maximumLimit))"

definition normalizeSqlOffset :: "jsnum option \<Rightarrow> jsnum result" where
  "normalizeSqlOffset offset = (case offset of
     None \<Rightarrow> Inr (num 0)
   | Some n \<Rightarrow> if jlt n (num 0) then Inl (Error ''OFFSET must be a non-negative integer'') else Inr n)"

text \<open>An argument of \<open>Array.prototype.slice\<close>: cut to an integer, from the end when negative, inside the array.\<close>

definition slice_index :: "nat \<Rightarrow> jsnum \<Rightarrow> nat" where
  "slice_index len n = (case n of
     Num q \<Rightarrow> (let i = trunc_int q in if i < 0 then nat (int len + i) else min (nat i) len)
   | PosInf \<Rightarrow> len | _ \<Rightarrow> 0)"

definition paginateRows :: "'a list \<Rightarrow> jsnum \<Rightarrow> jsnum \<Rightarrow> 'a list \<times> bool" where
  "paginateRows rows limit offset = (let
     pagedRows = slice (slice_index (length rows) offset) (slice_index (length rows) (jadd offset limit)) rows
   in (pagedRows, jlt (jadd offset (num (int (length pagedRows)))) (num (int (length rows)))))"

section \<open>Filtering\<close>

definition LIKE_SUPPORTED_COLUMN_TYPES :: "SqlColumnType list" where
  "LIKE_SUPPORTED_COLUMN_TYPES = [StringType, UuidType, DatetimeType]"

text \<open>A column inherited from \<open>Object.prototype\<close> has neither \<open>filterable\<close> nor a \<open>type\<close>.\<close>

definition validate_column :: "SqlFromSource \<Rightarrow> string \<Rightarrow> bool \<Rightarrow> unit result" where
  "validate_column source name isLike = (case source_column source name of
     Absent \<Rightarrow> Inl (unknown_column (sourceName source) name)
   | Inherited \<Rightarrow> throw_if isLike (buildInvalidSqlError (''LIKE is not supported for column: '' @ name))
   | Own d \<Rightarrow> if \<not> filterable d then Inl (buildInvalidSqlError (''Column is not filterable: '' @ name))
       else throw_if (isLike \<and> \<not> List.member LIKE_SUPPORTED_COLUMN_TYPES (columnType d))
         (buildInvalidSqlError (''LIKE is not supported for column: '' @ name)))"

fun validatePredicate :: "SqlFromSource \<Rightarrow> SqlPredicate \<Rightarrow> unit result" where
  "validatePredicate source (Match query) =
     throw_if (trim query = []) (buildInvalidSqlError ''MATCH query must not be empty'')"
| "validatePredicate source (Like name _ _ _) = validate_column source name True"
| "validatePredicate source (Comparison name _ _) = validate_column source name False"
| "validatePredicate source (In name _ _ _) = validate_column source name False"
| "validatePredicate source (IsNull name) = validate_column source name False"
| "validatePredicate source (IsNotNull name) = validate_column source name False"
| "validatePredicate source (ArrayEquals name _) = validate_column source name False"
| "validatePredicate source (Overlap name _) = validate_column source name False"

fun validatePredicateExpression :: "SqlFromSource \<Rightarrow> SqlPredicateExpression \<Rightarrow> unit result" where
  "validatePredicateExpression source (Predicate p) = validatePredicate source p"
| "validatePredicateExpression source (And es) =
     rbind (map_r (validatePredicateExpression source) es) (\<lambda>_. Inr ())"
| "validatePredicateExpression source (Or es) =
     rbind (map_r (validatePredicateExpression source) es) (\<lambda>_. Inr ())"

definition applyPredicateExpression ::
    "query_host \<Rightarrow> SqlFromSource \<Rightarrow> SqlRow list \<Rightarrow> SqlPredicateExpression option \<Rightarrow> SqlRow list result" where
  "applyPredicateExpression h source rows predicate = (case predicate of
     None \<Rightarrow> Inr rows
   | Some e \<Rightarrow> rbind (validatePredicateExpression source e) (\<lambda>_.
       Inr (filter (\<lambda>row. rowMatchesPredicateExpression h row e) rows)))"

definition expandRowsForSource :: "SqlFromSource \<Rightarrow> SqlRow list \<Rightarrow> SqlRow list" where
  "expandRowsForSource source rows = (case (unnestAlias source, unnestColumnName source) of
     (Some alias, Some unnestColumn) \<Rightarrow> concat (map (\<lambda>row.
       map (\<lambda>value. map_set alias (Json (JStr value)) row) (normalizeStringArray (row_value row unnestColumn))) rows)
   | _ \<Rightarrow> rows)"

section \<open>Ordering\<close>

text \<open>The Fisher-Yates shuffle, from the last index down to one.\<close>

definition swap_index :: "jsnum \<Rightarrow> nat \<Rightarrow> nat" where
  "swap_index draw index = (case jfloor (jmul draw (num (int index + 1))) of Num q \<Rightarrow> nat \<lfloor>q\<rfloor> | _ \<Rightarrow> 0)"

definition swap :: "nat \<Rightarrow> nat \<Rightarrow> 'a list \<Rightarrow> 'a list" where
  "swap i j xs = xs[i := xs ! j, j := xs ! i]"

fun shuffle_from :: "(nat \<Rightarrow> jsnum) \<Rightarrow> nat \<Rightarrow> 'a list \<Rightarrow> 'a list" where
  "shuffle_from draws 0 xs = xs"
| "shuffle_from draws (Suc i) xs = shuffle_from draws i (swap (Suc i) (swap_index (draws (Suc i)) (Suc i)) xs)"

definition shuffle_rows :: "(nat \<Rightarrow> jsnum) \<Rightarrow> 'a list \<Rightarrow> 'a list" where
  "shuffle_rows draws xs = shuffle_from draws (length xs - 1) xs"

text \<open>\<open>sort\<close> reads the number its comparator returns by its sign, NaN as zero.\<close>

definition number_sign :: "jsnum \<Rightarrow> int" where
  "number_sign n = (if jlt (num 0) n then 1 else if jlt n (num 0) then -1 else 0)"

fun order_compare :: "query_host \<Rightarrow> SqlSelectOrderBy list \<Rightarrow> SqlRow \<Rightarrow> SqlRow \<Rightarrow> jsnum" where
  "order_compare h [] left right = num 0"
| "order_compare h (OrderRandom # items) left right = num 0"
| "order_compare h (OrderColumn name direction # items) left right = (let
     comparison = compareRowValues h (row_value left name) (row_value right name)
   in if \<not> jeq comparison (num 0) then (if direction = Desc then jneg comparison else comparison)
      else order_compare h items left right)"

text \<open>
  The comparator throws when it reaches a \<open>RANDOM()\<close> item. The parser never returns one beside other
  items (\<open>parseOrderBy_random\<close>); the model refuses such a list as soon as there are rows to compare.
\<close>

definition applyOrderBy :: "query_host \<Rightarrow> SqlRow list \<Rightarrow> SqlSelectOrderBy list \<Rightarrow> SqlRow list result" where
  "applyOrderBy h rows criteria =
     (if length criteria = 0 then Inr rows
      else if criteria = [OrderRandom] then Inr (shuffle_rows (host_random h) rows)
      else if 1 < length rows \<and> List.member criteria OrderRandom
      then Inl (Error ''RANDOM() must be the only ORDER BY item'')
      else Inr (sort_by (\<lambda>left right. number_sign (order_compare h criteria left right)) rows))"

fun validate_order_item :: "SqlFromSource \<Rightarrow> SqlSelectOrderBy \<Rightarrow> unit result" where
  "validate_order_item source OrderRandom = Inr ()"
| "validate_order_item source (OrderColumn name _) = (case source_column source name of
     Absent \<Rightarrow> Inl (buildInvalidSqlError (''Unknown ORDER BY target: '' @ name))
   | Inherited \<Rightarrow> Inr ()
   | Own d \<Rightarrow> throw_if (\<not> sortable d) (buildInvalidSqlError (''Column is not sortable: '' @ name)))"

definition validateRowOrderBy :: "SqlFromSource \<Rightarrow> SqlSelectOrderBy list \<Rightarrow> unit result" where
  "validateRowOrderBy source criteria = rbind (map_r (validate_order_item source) criteria) (\<lambda>_. Inr ())"

section \<open>Grouping\<close>

fun aggregate_text :: "SqlAggregateFunctionName \<Rightarrow> string" where
  "aggregate_text Count = ''count''"
| "aggregate_text Sum = ''sum''"
| "aggregate_text Avg = ''avg''"
| "aggregate_text Min = ''min''"
| "aggregate_text Max = ''max''"

definition defaultAggregateAlias :: "SqlAggregateFunctionName \<Rightarrow> string option \<Rightarrow> string" where
  "defaultAggregateAlias f name = (if f = Count then ''count''
     else aggregate_text f @ ''_'' @ (case name of None \<Rightarrow> ''value'' | Some c \<Rightarrow> c))"

definition aggregate_name :: "SqlAggregateFunctionName \<Rightarrow> string option \<Rightarrow> string option \<Rightarrow> string" where
  "aggregate_name f name alias = (case alias of Some a \<Rightarrow> a | None \<Rightarrow> defaultAggregateAlias f name)"

definition column_name :: "string option \<Rightarrow> string" where
  "column_name name = (case name of None \<Rightarrow> [] | Some c \<Rightarrow> c)"

text \<open>\<open>row[columnName] ?? null\<close>.\<close>

definition value_or_null :: "SqlRowValue option \<Rightarrow> SqlRowValue" where
  "value_or_null v = (case v of None \<Rightarrow> Json JNull | Some v \<Rightarrow> v)"

fun normalizeAggregateNumbers :: "SqlRow list \<Rightarrow> string \<Rightarrow> jsnum list" where
  "normalizeAggregateNumbers [] name = []"
| "normalizeAggregateNumbers (row # rows) name = (case row_value row name of
     Some (Json (JNum n)) \<Rightarrow> n # normalizeAggregateNumbers rows name
   | _ \<Rightarrow> normalizeAggregateNumbers rows name)"

fun is_comparable :: "SqlRowValue option \<Rightarrow> bool" where
  "is_comparable (Some (Json (JStr _))) = True"
| "is_comparable (Some (Json (JNum _))) = True"
| "is_comparable (Some (Json (JBool _))) = True"
| "is_comparable _ = False"

definition normalizeAggregateComparableValues :: "SqlRow list \<Rightarrow> string \<Rightarrow> SqlRowValue list" where
  "normalizeAggregateComparableValues rows name =
     map the (filter is_comparable (map (\<lambda>row. row_value row name) rows))"

definition is_numeric_property :: "SqlColumnDescriptor property \<Rightarrow> bool" where
  "is_numeric_property d = (case d of Own d \<Rightarrow> columnType d = IntegerType \<or> columnType d = NumberType | _ \<Rightarrow> False)"

text \<open>The names the items give to the columns of the result, when they are valid.\<close>

fun validate_aggregate_item :: "SqlSelectStatement \<Rightarrow> SqlSelectItem \<Rightarrow> string result" where
  "validate_aggregate_item st Wildcard = Inl (Error ''SELECT * cannot be mixed with aggregate projections'')"
| "validate_aggregate_item st (ColumnItem name alias) =
     (if \<not> List.member (groupBy st) name then Inl (must_group name)
      else Inr (case alias of Some a \<Rightarrow> a | None \<Rightarrow> name))"
| "validate_aggregate_item st (Aggregate f name alias) =
     (if f = Count then Inr (aggregate_name f name alias)
      else let d = source_column (selectSource st) (column_name name) in
        if d = Absent then Inl (Error (''Unknown aggregate column: '' @ column_name name))
        else if (f = Avg \<or> f = Sum) \<and> \<not> is_numeric_property d
        then Inl (buildInvalidSqlError (to_upper (aggregate_text f) @ '' only supports numeric columns''))
        else Inr (aggregate_name f name alias))"

fun validate_aggregate_order :: "SqlSelectStatement \<Rightarrow> string list \<Rightarrow> SqlSelectOrderBy \<Rightarrow> unit result" where
  "validate_aggregate_order st names OrderRandom = Inr ()"
| "validate_aggregate_order st names (OrderColumn name _) =
     throw_if (\<not> List.member names name \<and> \<not> List.member (groupBy st) name)
       (buildInvalidSqlError (''Unknown ORDER BY target: '' @ name))"

definition validateAggregateSelect :: "SqlSelectStatement \<Rightarrow> unit result" where
  "validateAggregateSelect st =
     rbind (map_r (\<lambda>name. throw_if (source_column (selectSource st) name = Absent)
       (Error (''Unknown GROUP BY column: '' @ name))) (groupBy st)) (\<lambda>_.
     rbind (map_r (validate_aggregate_item st) (selectItems st)) (\<lambda>names.
     rbind (map_r (validate_aggregate_order st names) (orderBy st)) (\<lambda>_. Inr ())))"

text \<open>\<open>JSON.stringify\<close> of the key of a group.\<close>

fun key_json :: "SqlRowValue \<Rightarrow> string" where
  "key_json (Json v) = json_text v"
| "key_json (Builtin name) = (if builtin_is_object name then ''{}'' else ''null'')"

definition group_values :: "string list \<Rightarrow> SqlRow \<Rightarrow> SqlRowValue list" where
  "group_values grouped row = map (\<lambda>name. value_or_null (row_value row name)) grouped"

definition group_key :: "string list \<Rightarrow> SqlRow \<Rightarrow> string" where
  "group_key grouped row = ''['' @ join '','' (map key_json (group_values grouped row)) @ '']''"

definition add_to_group ::
    "string list \<Rightarrow> (string \<times> SqlRow \<times> SqlRow list) list \<Rightarrow> SqlRow \<Rightarrow> (string \<times> SqlRow \<times> SqlRow list) list" where
  "add_to_group grouped groups row = (let key = group_key grouped row in
     case map_of groups key of
       None \<Rightarrow> map_set key (from_entries (zip grouped (group_values grouped row)), [row]) groups
     | Some (groupRow, groupedRows) \<Rightarrow> map_set key (groupRow, groupedRows @ [row]) groups)"

definition groupRowsForAggregateSelect :: "SqlRow list \<Rightarrow> string list \<Rightarrow> bool \<Rightarrow> (SqlRow \<times> SqlRow list) list" where
  "groupRowsForAggregateSelect rows grouped shouldReturnSingleAggregateRow =
     (if length grouped = 0
      then (if length rows = 0 \<and> \<not> shouldReturnSingleAggregateRow then [] else [([], rows)])
      else map snd (foldl (add_to_group grouped) [] rows))"

definition sum_numbers :: "jsnum list \<Rightarrow> jsnum" where
  "sum_numbers ns = foldl jadd (num 0) ns"

definition aggregate_value :: "query_host \<Rightarrow> SqlAggregateFunctionName \<Rightarrow> string \<Rightarrow> SqlRow list \<Rightarrow> SqlRowValue" where
  "aggregate_value h f name rows = (case f of
     Count \<Rightarrow> Json (JNum (num (int (length rows))))
   | Sum \<Rightarrow> Json (JNum (sum_numbers (normalizeAggregateNumbers rows name)))
   | Avg \<Rightarrow> (let ns = normalizeAggregateNumbers rows name in
       if length ns = 0 then Json JNull else Json (JNum (jdiv (sum_numbers ns) (num (int (length ns))))))
   | _ \<Rightarrow> (let vs = normalizeAggregateComparableValues rows name;
            ordered = sort_by (\<lambda>left right. number_sign (compareRowValues h (Some left) (Some right))) vs
       in if length vs = 0 then Json JNull else if f = Min then hd ordered else last ordered))"

fun aggregate_entry :: "query_host \<Rightarrow> SqlRow \<Rightarrow> SqlRow list \<Rightarrow> SqlSelectItem \<Rightarrow> (string \<times> SqlRowValue) result" where
  "aggregate_entry h groupRow groupedRows Wildcard = Inl (Error ''Aggregate SELECT cannot project *'')"
| "aggregate_entry h groupRow groupedRows (ColumnItem name alias) =
     Inr (case alias of Some a \<Rightarrow> a | None \<Rightarrow> name, value_or_null (row_value groupRow name))"
| "aggregate_entry h groupRow groupedRows (Aggregate f name alias) =
     Inr (aggregate_name f name alias, aggregate_value h f (column_name name) groupedRows)"

definition buildAggregateOutputRow :: "query_host \<Rightarrow> SqlRow \<Rightarrow> SqlRow list \<Rightarrow> SqlSelectItem list \<Rightarrow> SqlRow result" where
  "buildAggregateOutputRow h groupRow groupedRows items =
     rbind (map_r (aggregate_entry h groupRow groupedRows) items) (\<lambda>entries. Inr (from_entries entries))"

definition executeAggregateSelect :: "query_host \<Rightarrow> SqlSelectStatement \<Rightarrow> SqlRow list \<Rightarrow> SqlRow list result" where
  "executeAggregateSelect h st rows = rbind (validateAggregateSelect st) (\<lambda>_.
     rbind (map_r (\<lambda>(groupRow, groupedRows). buildAggregateOutputRow h groupRow groupedRows (selectItems st))
       (groupRowsForAggregateSelect rows (groupBy st) (list_ex is_aggregate (selectItems st)))) (\<lambda>aggregateRows.
     applyOrderBy h aggregateRows (orderBy st)))"

section \<open>Projection\<close>

fun project_entry :: "SqlRow \<Rightarrow> SqlSelectItem \<Rightarrow> (string \<times> SqlRowValue) result" where
  "project_entry row (ColumnItem name alias) =
     Inr (case alias of Some a \<Rightarrow> a | None \<Rightarrow> name, value_or_null (row_value row name))"
| "project_entry row _ = Inl (Error ''Projected SELECT can only include columns'')"

definition projectSelectRow :: "SqlRow \<Rightarrow> SqlSelectItem list \<Rightarrow> SqlRow result" where
  "projectSelectRow row items = rbind (map_r (project_entry row) items) (\<lambda>entries. Inr (from_entries entries))"

definition executeProjectedSelect :: "query_host \<Rightarrow> SqlSelectStatement \<Rightarrow> SqlRow list \<Rightarrow> SqlRow list result" where
  "executeProjectedSelect h st rows = rbind (validateRowOrderBy (selectSource st) (orderBy st)) (\<lambda>_.
     rbind (applyOrderBy h rows (orderBy st)) (\<lambda>orderedRows.
     map_r (\<lambda>row. projectSelectRow row (selectItems st)) orderedRows))"

section \<open>Executing a statement\<close>

definition isWildcardSelect :: "SqlSelectStatement \<Rightarrow> bool" where
  "isWildcardSelect st \<longleftrightarrow> selectItems st = [Wildcard]"

definition validateSelectProjection :: "SqlSelectItem list \<Rightarrow> unit result" where
  "validateSelectProjection items = throw_if (1 < length items \<and> List.member items Wildcard)
     (buildInvalidSqlError ''SELECT * cannot be mixed with other projections'')"

definition isGroupedSelect :: "SqlSelectStatement \<Rightarrow> bool" where
  "isGroupedSelect st \<longleftrightarrow> 0 < length (groupBy st) \<or> list_ex is_aggregate (selectItems st)"

text \<open>The rows of the result before they are cut into pages.\<close>

definition ordered_rows :: "query_host \<Rightarrow> SqlSelectStatement \<Rightarrow> SqlRow list \<Rightarrow> SqlRow list result" where
  "ordered_rows h st filteredRows =
     (if isWildcardSelect st
      then rbind (validateRowOrderBy (selectSource st) (orderBy st)) (\<lambda>_. applyOrderBy h filteredRows (orderBy st))
      else if isGroupedSelect st then executeAggregateSelect h st filteredRows
      else executeProjectedSelect h st filteredRows)"

definition executeSqlSelect ::
    "query_host \<Rightarrow> SqlSelectStatement \<Rightarrow> SqlRow list \<Rightarrow> jsnum \<Rightarrow> SqlSelectExecutionResult result" where
  "executeSqlSelect h st rows maximumLimit =
     rbind (validateSelectProjection (selectItems st)) (\<lambda>_.
     rbind (normalizeSqlLimit (selectLimit st) maximumLimit) (\<lambda>limit.
     rbind (normalizeSqlOffset (selectOffset st)) (\<lambda>offset.
     rbind (applyPredicateExpression h (selectSource st) (expandRowsForSource (selectSource st) rows) (selectPredicate st))
       (\<lambda>filteredRows.
     rbind (ordered_rows h st filteredRows) (\<lambda>orderedRows.
     case paginateRows orderedRows limit offset of (pageRows, moreRows) \<Rightarrow>
       Inr \<lparr>resultRows = pageRows, rowCount = length pageRows, resultLimit = limit, resultOffset = offset,
         hasMore = moreRows\<rparr>)))))"

end
