(* ===== verification/SqlSelectSpec.thy ===== *)
theory SqlSelectSpec
  imports SqlSelect
begin

text \<open>
  What the executor of the SQL dialect promises: \<open>LIKE\<close> is the matching of its two wildcards, a
  grouped \<open>SELECT\<close> divides the rows by their keys, and pages cut the ordered rows.
\<close>

section \<open>LIKE\<close>

text \<open>The reference: \<open>%\<close> is any text and \<open>_\<close> any character of one line.\<close>

definition same_char :: "bool \<Rightarrow> char \<Rightarrow> char \<Rightarrow> bool" where
  "same_char insensitive p c \<longleftrightarrow> (if insensitive then lower_char c = lower_char p else c = p)"

fun like_matches :: "bool \<Rightarrow> string \<Rightarrow> string \<Rightarrow> bool" where
  "like_matches i [] s = (s = [])"
| "like_matches i (p # ps) [] = (p = CHR ''%'' \<and> like_matches i ps [])"
| "like_matches i (p # ps) (c # s) = (if p = CHR ''%''
     then like_matches i ps (c # s) \<or> (if line_char c then like_matches i (p # ps) s else False)
     else (if p = CHR ''_'' then line_char c else same_char i p c) \<and> like_matches i ps s)"

lemma like_matches_one:
  assumes "p \<noteq> CHR ''%''"
  shows "like_matches i (p # ps) s \<longleftrightarrow>
    s \<noteq> [] \<and> (if p = CHR ''_'' then line_char (hd s) else same_char i p (hd s)) \<and> like_matches i ps (tl s)"
  using assms by (cases s) auto

lemma like_matches_any:
  "like_matches i (CHR ''%'' # ps) s \<longleftrightarrow> (\<exists>u v. s = u @ v \<and> list_all line_char u \<and> like_matches i ps v)"
proof (induction s)
  case (Cons c s)
  show ?case
  proof
    assume "like_matches i (CHR ''%'' # ps) (c # s)"
    then have "like_matches i ps (c # s) \<or> line_char c \<and> like_matches i (CHR ''%'' # ps) s"
      by (simp split: if_splits)
    then consider "like_matches i ps (c # s)" | "line_char c" "like_matches i (CHR ''%'' # ps) s" by blast
    then show "\<exists>u v. c # s = u @ v \<and> list_all line_char u \<and> like_matches i ps v"
    proof cases
      case 1
      then show ?thesis by (intro exI [of _ "[]"] exI [of _ "c # s"]) simp
    next
      case 2
      then obtain u v where "s = u @ v" "list_all line_char u" "like_matches i ps v" using Cons.IH by blast
      with 2(1) show ?thesis by (intro exI [of _ "c # u"] exI [of _ v]) simp
    qed
  next
    assume "\<exists>u v. c # s = u @ v \<and> list_all line_char u \<and> like_matches i ps v"
    then obtain u v where uv: "c # s = u @ v" "list_all line_char u" "like_matches i ps v" by blast
    show "like_matches i (CHR ''%'' # ps) (c # s)"
    proof (cases u)
      case (Cons d w)
      then have "line_char c" "like_matches i (CHR ''%'' # ps) s" using uv Cons.IH by auto
      then show ?thesis by simp
    next
      case Nil
      then have "like_matches i ps (c # s)" using uv(1,3) by simp
      then show ?thesis by simp
    qed
  qed
qed simp

lemma star_class:
  "parses (Star (One P)) u c c' \<longleftrightarrow> c' = c \<and> list_all P u"
proof
  have "parses r u c c' \<Longrightarrow> r = Star (One P) \<Longrightarrow> c' = c \<and> list_all P u" for r
    by (induction rule: parses.induct) (auto simp: parses_simps)
  then show "parses (Star (One P)) u c c' \<Longrightarrow> c' = c \<and> list_all P u" by blast
  show "c' = c \<and> list_all P u \<Longrightarrow> parses (Star (One P)) u c c'"
  proof (induction u)
    case (Cons a u)
    then have "parses (One P) [a] c c" "parses (Star (One P)) u c c" by (auto intro: parses.one)
    from star_turn [OF this(1) _ this(2)] Cons.prems show ?case by simp
  qed (auto intro: star_stop)
qed

text \<open>The source text of a pattern, one piece for each of its characters.\<close>

definition like_piece :: "char \<Rightarrow> string" where
  "like_piece c = (if c = CHR ''%'' then ''.*'' else if c = CHR ''_'' then ''.''
     else if List.member regexp_special c then [backslash, c] else [c])"

lemma like_source_Nil [simp]: "like_source [] = []"
  by (simp add: like_source_def escapeRegExp_def replace_char_def)

lemma special_chars: "\<not> List.member regexp_special (CHR ''%'')" "\<not> List.member regexp_special (CHR ''_'')"
  "List.member regexp_special (CHR ''.'')" "List.member regexp_special backslash" "List.member regexp_special (CHR ''*'')"
  by code_simp+

lemma like_source_Cons: "like_source (c # p) = like_piece c @ like_source p"
  using special_chars by (auto simp: like_source_def escapeRegExp_def replace_char_def like_piece_def)

lemma like_source_star: "take 1 (like_source p) \<noteq> ''*''"
  using special_chars by (cases p) (auto simp: like_source_Cons like_piece_def)

lemma compile_cons:
  assumes "c \<noteq> backslash" and "c = CHR ''.'' \<longrightarrow> take 1 s \<noteq> ''*''"
  shows "parses (compile_source i (c # s)) u a b
    \<longleftrightarrow> parses (Seq (if c = CHR ''.'' then One line_char else literal_char i c) (compile_source i s)) u a b"
  using assms by (cases s) (auto simp: parses_simps literal_char_def)

lemma parses_dot: "parses (Seq (One P) q) s a b \<longleftrightarrow> s \<noteq> [] \<and> P (hd s) \<and> parses q (tl s) a b"
proof -
  have "parses (Seq (One P) q) s a b \<longleftrightarrow> (\<exists>x v. s = x # v \<and> P x \<and> parses q v a b)"
    unfolding parses_simps(4) by (auto simp: parses_simps(2)) (metis append_Cons append_Nil)
  then show ?thesis by (cases s) auto
qed

lemma parses_literal: "parses (Seq (literal_char i p) q) s a b \<longleftrightarrow> s \<noteq> [] \<and> same_char i p (hd s) \<and> parses q (tl s) a b"
  by (simp add: literal_char_def parses_dot same_char_def)

lemma parses_dots:
  "parses (Seq (Star (One P)) q) s a b \<longleftrightarrow> (\<exists>u v. s = u @ v \<and> list_all P u \<and> parses q v a b)"
  by (auto simp: parses_simps(4) star_class)

lemma compile_like_source: "parses (compile_source i (like_source p)) s a b \<longleftrightarrow> b = a \<and> like_matches i p s"
proof (induction p arbitrary: s a b)
  case Nil
  show ?case by (auto simp: parses_simps)
next
  case (Cons c p)
  consider (any) "c = CHR ''%''" | (one) "c = CHR ''_''" | (special) "List.member regexp_special c"
    | (other) "c \<noteq> CHR ''%''" "c \<noteq> CHR ''_''" "\<not> List.member regexp_special c" by blast
  then show ?case
  proof cases
    case any
    have "parses (compile_source i (like_source (c # p))) s a b
        \<longleftrightarrow> parses (Seq (Star (One line_char)) (compile_source i (like_source p))) s a b"
      by (simp add: any like_source_Cons like_piece_def)
    then show ?thesis using Cons.IH by (auto simp: parses_dots any like_matches_any)
  next
    case one
    have "parses (compile_source i (like_source (c # p))) s a b
        \<longleftrightarrow> parses (Seq (One line_char) (compile_source i (like_source p))) s a b"
      using compile_cons [of "CHR ''.''" "like_source p" i s a b] like_source_star [of p]
      by (simp add: one like_source_Cons like_piece_def)
    then show ?thesis using Cons.IH by (auto simp: parses_dot one like_matches_one)
  next
    case special
    then have ne: "c \<noteq> CHR ''%''" "c \<noteq> CHR ''_''" using special_chars by auto
    then have "parses (compile_source i (like_source (c # p))) s a b
        \<longleftrightarrow> parses (Seq (literal_char i c) (compile_source i (like_source p))) s a b"
      using special by (simp add: like_source_Cons like_piece_def)
    then show ?thesis using Cons.IH like_matches_one [OF ne(1)] ne(2) by (auto simp: parses_literal)
  next
    case other
    then have "c \<noteq> backslash" "c \<noteq> CHR ''.''" using special_chars by auto
    then have "parses (compile_source i (like_source (c # p))) s a b
        \<longleftrightarrow> parses (Seq (literal_char i c) (compile_source i (like_source p))) s a b"
      using compile_cons [of c "like_source p" i s a b] other by (simp add: like_source_Cons like_piece_def)
    then show ?thesis using Cons.IH like_matches_one [OF other(1)] other(2) by (auto simp: parses_literal)
  qed
qed

lemma like_test: "test (createLikePatternRegExp p i) s \<longleftrightarrow> like_matches i p s"
proof -
  have "exec (compile_source i (like_source p)) s = None \<longleftrightarrow> \<not> like_matches i p s"
    unfolding exec_None_iff compile_like_source by simp
  then show ?thesis by (simp add: test_def createLikePatternRegExp_def)
qed

lemma lower_line_break: "lower_char c = lower_char d \<Longrightarrow> \<not> line_char c \<Longrightarrow> c = d"
proof -
  assume l: "lower_char c = lower_char d" and c: "\<not> line_char c"
  then have n: "(of_char c :: nat) = 10 \<or> (of_char c :: nat) = 13" by (auto simp: line_char_def)
  then have "lower_char c = c" by (auto simp: lower_char_def Let_def)
  with l n have m: "(of_char (lower_char d) :: nat) = 10 \<or> (of_char (lower_char d) :: nat) = 13" by simp
  have "lower_char d = d"
  proof (rule ccontr)
    assume "lower_char d \<noteq> d"
    then have "65 \<le> (of_char d :: nat)" "(of_char d :: nat) \<le> 222" "lower_char d = char_of ((of_char d :: nat) + 32)"
      by (auto simp: lower_char_def Let_def split: if_splits)
    then have "(of_char (lower_char d) :: nat) = of_char d + 32" by simp
    with m \<open>65 \<le> (of_char d :: nat)\<close> show False by auto
  qed
  with l \<open>lower_char c = c\<close> show "c = d" by simp
qed

text \<open>The wildcards match no line break: each line break of a matched text stands in the pattern.\<close>

lemma like_line_breaks: "like_matches i p s \<Longrightarrow> c \<in> set s \<Longrightarrow> \<not> line_char c \<Longrightarrow> c \<in> set p"
proof (induction i p s rule: like_matches.induct)
  case (3 i p ps d s)
  show ?case
  proof (cases "p = CHR ''%''")
    case True
    then have "like_matches i ps (d # s) \<or> line_char d \<and> like_matches i (p # ps) s"
      using "3.prems"(1) by (simp split: if_splits)
    then consider "like_matches i ps (d # s)" | "line_char d" "like_matches i (p # ps) s" by blast
    then show ?thesis
    proof cases
      case 1
      then show ?thesis using "3.IH"(1) [OF True] "3.prems"(2,3) by simp
    next
      case 2
      then have "c \<in> set s" using "3.prems"(2,3) by auto
      then show ?thesis using "3.IH"(2) [OF True] 2 "3.prems"(3) by blast
    qed
  next
    case False
    then have s: "if p = CHR ''_'' then line_char d else same_char i p d" "like_matches i ps s"
      using "3.prems"(1) by simp_all
    show ?thesis
    proof (cases "c = d")
      case True
      then have "same_char i p c" using s(1) "3.prems"(3) by (auto split: if_splits)
      then have "c = p" using lower_line_break "3.prems"(3) by (auto simp: same_char_def split: if_splits)
      then show ?thesis by simp
    next
      case c: False
      then show ?thesis using "3.IH"(3) [OF False] s "3.prems"(2,3) by simp
    qed
  qed
qed simp_all

section \<open>Groups\<close>

text \<open>The keys in the order of their first row, and the rows of each.\<close>

definition rows_with_key :: "string list \<Rightarrow> SqlRow list \<Rightarrow> string \<Rightarrow> SqlRow list" where
  "rows_with_key cols rows k = filter (\<lambda>r. group_key cols r = k) rows"

definition first_keys :: "string list \<Rightarrow> SqlRow list \<Rightarrow> string list" where
  "first_keys cols rows = rev (remdups (rev (map (group_key cols) rows)))"

lemma first_keys_snoc:
  "first_keys cols (rows @ [r]) = (if group_key cols r \<in> group_key cols ` set rows then first_keys cols rows
     else first_keys cols rows @ [group_key cols r])"
  by (auto simp: first_keys_def)

lemma first_keys_set: "set (first_keys cols rows) = group_key cols ` set rows" "distinct (first_keys cols rows)"
  by (simp_all add: first_keys_def)

definition group_of :: "string list \<Rightarrow> SqlRow list \<Rightarrow> string \<Rightarrow> SqlRow \<times> SqlRow list" where
  "group_of cols rows k = (let rs = rows_with_key cols rows k in
     (from_entries (zip cols (group_values cols (hd rs))), rs))"

lemma rows_with_key_snoc:
  "rows_with_key cols (rows @ [r]) k = (if group_key cols r = k then rows_with_key cols rows k @ [r] else rows_with_key cols rows k)"
  by (simp add: rows_with_key_def)

lemma rows_with_key_ne: "k \<in> group_key cols ` set rows \<longleftrightarrow> rows_with_key cols rows k \<noteq> []"
  by (auto simp: rows_with_key_def filter_empty_conv)

lemma map_set_present: "k \<in> fst ` set m \<Longrightarrow> distinct (map fst m) \<Longrightarrow>
    map_set k v m = map (\<lambda>e. if fst e = k then (k, v) else e) m"
proof (induction m)
  case (Cons e m)
  have "map (\<lambda>e. if fst e = k then (k, v) else e) m = m" if "k \<notin> fst ` set m"
    using that by (intro map_idI) auto
  with Cons show ?case by (cases e) auto
qed simp

lemma groups_fold:
  "foldl (add_to_group cols) [] rows = map (\<lambda>k. (k, group_of cols rows k)) (first_keys cols rows)"
proof (induction rows rule: rev_induct)
  case Nil
  then show ?case by (simp add: first_keys_def)
next
  case (snoc r rows)
  let ?k = "group_key cols r" and ?m = "map (\<lambda>k. (k, group_of cols rows k)) (first_keys cols rows)"
  have keys: "fst ` set ?m = group_key cols ` set rows" "distinct (map fst ?m)"
    by (auto simp: first_keys_set o_def image_image)
  have fold: "foldl (add_to_group cols) [] (rows @ [r]) = add_to_group cols ?m r" using snoc.IH by simp
  show ?case
  proof (cases "?k \<in> group_key cols ` set rows")
    case False
    then have "map_of ?m ?k = None" using keys(1) by (simp only: map_of_eq_None_iff not_False_eq_True)
    then have "add_to_group cols ?m r = ?m @ [(?k, from_entries (zip cols (group_values cols r)), [r])]"
      using map_set_fresh [of ?k ?m] False keys(1) by (simp add: add_to_group_def)
    moreover have "group_of cols (rows @ [r]) ?k = (from_entries (zip cols (group_values cols r)), [r])"
      using False by (simp add: group_of_def rows_with_key_snoc rows_with_key_ne)
    moreover have "group_of cols (rows @ [r]) k = group_of cols rows k" if "k \<in> set (first_keys cols rows)" for k
      using that False by (auto simp: group_of_def rows_with_key_snoc first_keys_set)
    ultimately show ?thesis using False unfolding fold by (simp add: first_keys_snoc)
  next
    case True
    then have "map_of ?m ?k = Some (group_of cols rows ?k)"
      by (intro map_of_is_SomeI [OF keys(2)]) (simp add: first_keys_set)
    then have "add_to_group cols ?m r = map_set ?k (group_of cols (rows @ [r]) ?k) ?m"
      using True by (simp add: add_to_group_def group_of_def rows_with_key_snoc rows_with_key_ne Let_def)
    also have "\<dots> = map (\<lambda>e. if fst e = ?k then (?k, group_of cols (rows @ [r]) ?k) else e) ?m"
      using map_set_present [OF _ keys(2)] True keys(1) by simp
    also have "\<dots> = map (\<lambda>k. (k, group_of cols (rows @ [r]) k)) (first_keys cols rows)"
      by (simp add: group_of_def rows_with_key_snoc)
    finally show ?thesis using True unfolding fold by (simp add: first_keys_snoc)
  qed
qed

lemma rows_divided: "mset (concat (map (rows_with_key cols rows) (first_keys cols rows))) = mset rows"
proof (induction rows rule: rev_induct)
  case Nil
  then show ?case by (simp add: first_keys_def)
next
  case (snoc r rows)
  let ?k = "group_key cols r"
  show ?case
  proof (cases "?k \<in> group_key cols ` set rows")
    case False
    have "map (rows_with_key cols (rows @ [r])) (first_keys cols rows) = map (rows_with_key cols rows) (first_keys cols rows)"
      using False by (auto simp: rows_with_key_snoc first_keys_set)
    moreover have "rows_with_key cols (rows @ [r]) ?k = [r]" using False by (simp add: rows_with_key_snoc rows_with_key_ne)
    ultimately show ?thesis using snoc.IH False by (simp add: first_keys_snoc del: map_eq_conv)
  next
    case True
    then obtain ls bs where ks: "first_keys cols rows = ls @ ?k # bs" by (metis first_keys_set(1) split_list)
    then have out: "?k \<notin> set ls" "?k \<notin> set bs" using first_keys_set(2) [of cols rows] by auto
    have same: "map (rows_with_key cols (rows @ [r])) zs = map (rows_with_key cols rows) zs" if "?k \<notin> set zs" for zs
      using that by (auto simp: rows_with_key_snoc)
    have "map (rows_with_key cols (rows @ [r])) (ls @ ?k # bs)
        = map (rows_with_key cols rows) ls @ (rows_with_key cols rows ?k @ [r]) # map (rows_with_key cols rows) bs"
      using same [OF out(1)] same [OF out(2)] by (simp add: rows_with_key_snoc del: map_eq_conv)
    then show ?thesis using snoc.IH True by (simp add: first_keys_snoc ks del: map_eq_conv)
  qed
qed

section \<open>Pages\<close>

lemma trunc_integer: "trunc_int (of_int i) = i"
  unfolding trunc_int_def by (simp flip: of_int_minus)

lemma slice_index_int: "0 \<le> i \<Longrightarrow> slice_index len (num i) = min (nat i) len"
  by (simp add: slice_index_def trunc_integer Let_def)

lemma paginate_int:
  assumes "int k + int n \<le> 2 ^ 53" and "int k + int (length rows) \<le> 2 ^ 53"
  shows "paginateRows rows (num (int n)) (num (int k)) = (take n (drop k rows), k + n < length rows)"
proof -
  have "jadd (num (int k)) (num (int n)) = num (int (k + n))" using jadd_int [of "int k" "int n"] assms(1) by simp
  then have pages: "slice (slice_index (length rows) (num (int k))) (slice_index (length rows) (jadd (num (int k)) (num (int n)))) rows
      = take n (drop k rows)"
    using slice_index_int [of "int k" "length rows"] slice_index_int [of "int (k + n)" "length rows"]
    by (auto simp: slice_def min_def simp del: of_nat_add of_int_of_nat_eq)
  have "jadd (num (int k)) (num (int (length (take n (drop k rows))))) = num (int (k + length (take n (drop k rows))))"
    using jadd_int [of "int k" "int (length (take n (drop k rows)))"] assms(2) by simp
  then have "jlt (jadd (num (int k)) (num (int (length (take n (drop k rows)))))) (num (int (length rows))) \<longleftrightarrow> k + n < length rows"
    by (auto simp flip: of_nat_add)
  with pages show ?thesis by (simp add: paginateRows_def Let_def)
qed

lemma concat_chunks: "concat (map (\<lambda>i. take n (drop (i * n) xs)) [0..<m]) = take (m * n) xs"
proof (induction m)
  case (Suc m)
  have "take (Suc m * n) xs = take (m * n) xs @ take n (drop (m * n) xs)"
    using take_add [of "m * n" n xs] by (simp add: add.commute)
  with Suc show ?case by simp
qed simp

definition page_count :: "nat \<Rightarrow> nat \<Rightarrow> nat" where
  "page_count n len = (if len = 0 then 1 else (len + n - 1) div n)"

lemma page_count_less:
  assumes "0 < n"
  shows "Suc i < page_count n len \<longleftrightarrow> Suc i * n < len" and "len \<le> page_count n len * n" and "0 < page_count n len"
proof -
  have "Suc i < (len + n - 1) div n \<longleftrightarrow> Suc (Suc i) * n \<le> len + n - 1"
    using assms by (simp add: Suc_le_eq [symmetric] less_eq_div_iff_mult_less_eq)
  then show "Suc i < page_count n len \<longleftrightarrow> Suc i * n < len" using assms by (auto simp: page_count_def)
  have "len + n - 1 < ((len + n - 1) div n + 1) * n" using assms by (simp add: dividend_less_div_times)
  then show "len \<le> page_count n len * n" using assms by (auto simp: page_count_def)
  show "0 < page_count n len" using assms by (auto simp: page_count_def div_greater_zero_iff)
qed

text \<open>The rows a \<open>SELECT\<close> keeps.\<close>

definition selected_rows :: "query_host \<Rightarrow> SqlSelectStatement \<Rightarrow> SqlRow list \<Rightarrow> SqlRow list" where
  "selected_rows h st rows = (case selectPredicate st of
     None \<Rightarrow> expandRowsForSource (selectSource st) rows
   | Some e \<Rightarrow> filter (\<lambda>row. rowMatchesPredicateExpression h row e) (expandRowsForSource (selectSource st) rows))"

lemma apply_selected: "applyPredicateExpression h (selectSource st) (expandRowsForSource (selectSource st) rows) (selectPredicate st) = Inr fs
    \<Longrightarrow> fs = selected_rows h st rows"
  by (auto simp: applyPredicateExpression_def selected_rows_def res_simps split: option.splits)

lemma ordered_permutation:
  assumes "ordered_rows h st fs = Inr all" and "isWildcardSelect st" and "\<not> List.member (orderBy st) OrderRandom"
  shows "mset all = mset fs"
  using assms by (auto simp: ordered_rows_def applyOrderBy_def res_simps split: if_splits)

lemma normalizeSqlOffset_int: "normalizeSqlOffset (Some (num (int k))) = Inr (num (int k))"
  by (simp add: normalizeSqlOffset_def)

lemma executeSqlSelect_Inr:
  assumes "executeSqlSelect h st rows (num (int M)) = Inr r" and "selectLimit st = Some (num (int n))"
    and "0 < n" and "n \<le> M"
  shows "\<exists>all. ordered_rows h st (selected_rows h st rows) = Inr all
    \<and> (\<forall>k. int k + int n \<le> 2 ^ 53 \<longrightarrow> int k + int (length all) \<le> 2 ^ 53 \<longrightarrow>
      (\<exists>r. executeSqlSelect h (st\<lparr>selectOffset := Some (num (int k))\<rparr>) rows (num (int M)) = Inr r
        \<and> resultRows r = take n (drop k all) \<and> (hasMore r \<longleftrightarrow> k + n < length all)))"
proof -
  have limit: "normalizeSqlLimit (selectLimit st) (num (int M)) = Inr (num (int n))"
    using assms(2-4) by (auto simp: normalizeSqlLimit_def jeq_def jmin_def)
  from assms(1) obtain fs all where v: "validateSelectProjection (selectItems st) = Inr ()"
    and fs: "applyPredicateExpression h (selectSource st) (expandRowsForSource (selectSource st) rows) (selectPredicate st) = Inr fs"
    and all: "ordered_rows h st fs = Inr all"
    unfolding executeSqlSelect_def by (auto simp: res_simps)
  have checks: "validate_aggregate_item (st\<lparr>selectOffset := x\<rparr>) = validate_aggregate_item st"
    "validate_aggregate_order (st\<lparr>selectOffset := x\<rparr>) = validate_aggregate_order st" for x
  proof -
    have "validate_aggregate_item (st\<lparr>selectOffset := x\<rparr>) i = validate_aggregate_item st i" for i
      by (cases i) simp_all
    then show "validate_aggregate_item (st\<lparr>selectOffset := x\<rparr>) = validate_aggregate_item st" by (rule ext)
    have "validate_aggregate_order (st\<lparr>selectOffset := x\<rparr>) ns i = validate_aggregate_order st ns i" for ns i
      by (cases i) simp_all
    then show "validate_aggregate_order (st\<lparr>selectOffset := x\<rparr>) = validate_aggregate_order st" by (intro ext)
  qed
  have same: "ordered_rows h (st\<lparr>selectOffset := x\<rparr>) fs = ordered_rows h st fs" for x
    by (simp add: checks ordered_rows_def isWildcardSelect_def isGroupedSelect_def executeAggregateSelect_def executeProjectedSelect_def
        validateAggregateSelect_def)
  have pages: "executeSqlSelect h (st\<lparr>selectOffset := Some (num (int k))\<rparr>) rows (num (int M))
      = (case paginateRows all (num (int n)) (num (int k)) of (pageRows, moreRows) \<Rightarrow>
          Inr \<lparr>resultRows = pageRows, rowCount = length pageRows, resultLimit = num (int n), resultOffset = num (int k),
            hasMore = moreRows\<rparr>)" for k
    using v fs limit same all normalizeSqlOffset_int
    by (simp add: executeSqlSelect_def del: of_int_of_nat_eq)
  show ?thesis
  proof (rule exI [of _ all], intro conjI allI impI)
    show "ordered_rows h st (selected_rows h st rows) = Inr all" using all apply_selected [OF fs] by simp
    fix k :: nat
    assume k: "int k + int n \<le> 2 ^ 53" "int k + int (length all) \<le> 2 ^ 53"
    show "\<exists>r. executeSqlSelect h (st\<lparr>selectOffset := Some (num (int k))\<rparr>) rows (num (int M)) = Inr r
        \<and> resultRows r = take n (drop k all) \<and> (hasMore r \<longleftrightarrow> k + n < length all)"
      unfolding pages paginate_int [OF k] by simp
  qed
qed

end
