(* ===== verification/SqlProperties.thy ===== *)
theory SqlProperties
  imports SqlNesting SqlSelectSpec
begin

text \<open>
  The properties of the SQL dialect: splitting a batch, literals, \<open>WHERE\<close> clauses, and the
  execution of a \<open>SELECT\<close>.
\<close>

section \<open>Splitting and literals\<close>

text \<open>
  C34. A batch is split into its statements: texts whose quotes and parentheses are closed and that
  have no semicolon outside them, joined by semicolons, with or without a last one, come back
  trimmed and in order.
\<close>

theorem statements_roundtrip:
  assumes "list_all is_statement (s # ss)" and "tail = [] \<or> tail = '';''"
    and "trim (join '';'' (s # ss) @ tail) = join '';'' (s # ss) @ tail"
  shows "splitSqlStatements (join '';'' (s # ss) @ tail) = Inr (map trim (s # ss))"
proof -
  have "join '';'' (s # ss) @ tail \<noteq> []" using join_not_space [OF assms(1)] by (auto simp: trim_eq_Nil_iff)
  then show ?thesis using split_statements_join [OF assms(1,2), of "[]"] by (simp add: splitSqlStatements_def assms(3))
qed

text \<open>A semicolon inside quotes, and one inside parentheses.\<close>

lemma sample_statements:
  "is_statement (''a '' @ sql_quote '';'')" "is_statement ('' b'' @ ''('' @ '';'' @ '')'' @ [])"
proof -
  have "closed False (sql_quote '';'' @ [])" by (intro closed.intros) simp
  then have "closed False (''a '' @ sql_quote '';'')" by (auto intro!: closed.intros)
  moreover have "closed True '';''" by (auto intro!: closed.intros)
  then have "closed False (''('' @ '';'' @ '')'' @ [])" by (rule closed_group) (rule closed_nil)
  then have "closed False ('' b'' @ ''('' @ '';'' @ '')'' @ [])" by (auto intro!: closed.intros(2))
  ultimately show "is_statement (''a '' @ sql_quote '';'')" "is_statement ('' b'' @ ''('' @ '';'' @ '')'' @ [])"
    by (simp_all add: is_statement_def trim_eq_Nil_iff is_space_def)
qed

theorem statements_roundtrip_witness:
  "splitSqlStatements (join '';'' [''a '' @ sql_quote '';'', '' b(;)''] @ '';'') = Inr [''a '' @ sql_quote '';'', ''b(;)'']"
proof -
  have "list_all is_statement [''a '' @ sql_quote '';'', '' b(;)'']" using sample_statements by simp
  moreover have "trim (join '';'' [''a '' @ sql_quote '';'', '' b(;)''] @ '';'') = join '';'' [''a '' @ sql_quote '';'', '' b(;)''] @ '';''"
    "trim (''a '' @ sql_quote '';'') = ''a '' @ sql_quote '';''" "trim '' b(;)'' = ''b(;)''"
    by (simp_all add: trim_def trim_start_def sql_quote_def is_space_def)
  ultimately show ?thesis using statements_roundtrip [of "''a '' @ sql_quote '';''" "['' b(;)'']" "'';''"] by simp
qed

text \<open>
  C35. Printing inverts reading for every text, whatever quotes, commas, brackets and line breaks it
  holds: a quoted text reads back as itself, and a parenthesized list of quoted texts as the list.
\<close>

theorem literals_roundtrip:
  "parseSqlLiteral (sql_quote s) = Inr (StrLiteral s) \<and> parseStringArrayLiteralList (print_texts ts) name = Inr ts"
  by (simp add: parseSqlLiteral_quote parse_texts)

section \<open>Executing a SELECT\<close>

text \<open>
  C36. The regular expression compiled from a \<open>LIKE\<close> pattern, with its escapes and wildcards, accepts
  the texts the reference matcher accepts, for every pattern; \<open>%\<close> accepts exactly the texts without a
  line break.
\<close>

theorem like_is_reference:
  "(test (createLikePatternRegExp p i) s \<longleftrightarrow> like_matches i p s)
   \<and> (test (createLikePatternRegExp ''%'' i) s \<longleftrightarrow> list_all line_char s)"
proof -
  have "like_matches i ''%'' s \<longleftrightarrow> list_all line_char s" by (simp add: like_matches_any)
  then show ?thesis by (simp add: like_test)
qed

text \<open>
  C37. Grouping by columns divides the rows: the groups stand in the order of the first row of each
  key, a group holds the rows of its key in their order with the values of their first row, and the
  groups together hold every row exactly as often as it was there.
\<close>

theorem groups_divide_rows:
  "groupRowsForAggregateSelect rows (c # cs) b = map (group_of (c # cs) rows) (first_keys (c # cs) rows)
   \<and> mset (concat (map snd (groupRowsForAggregateSelect rows (c # cs) b))) = mset rows"
proof -
  have eq: "groupRowsForAggregateSelect rows (c # cs) b = map (group_of (c # cs) rows) (first_keys (c # cs) rows)"
    by (simp add: groupRowsForAggregateSelect_def groups_fold o_def)
  have "map (snd \<circ> group_of (c # cs) rows) ks = map (rows_with_key (c # cs) rows) ks" for ks
    by (simp add: group_of_def Let_def)
  then show ?thesis unfolding eq by (simp only: rows_divided map_map)
qed

lemma half_bound:
  fixes x y l B :: int
  assumes "x \<le> l" and "2 * (y + l) \<le> B" and "0 \<le> y" and "0 \<le> l"
  shows "x + y \<le> B" and "x + l \<le> B"
  using assms by auto

text \<open>
  C38. Reading a wildcard \<open>SELECT\<close> page by page comes to its end: when the statement executes, it
  executes at each offset that is a multiple of its limit; the flag for more rows holds exactly
  before the last page, of which there are as many as the rows fill; and the pages together are the
  rows the statement selects, each as often as it is selected.
\<close>

theorem pages_cover_rows:
  assumes "executeSqlSelect h st rows (num (int M)) = Inr r0" and "selectLimit st = Some (num (int n))"
    and "0 < n" and "n \<le> M" and "isWildcardSelect st" and "\<not> List.member (orderBy st) OrderRandom"
    and "2 * (int n + int (length (selected_rows h st rows))) \<le> 2 ^ 53"
  shows "\<exists>pages. length pages = page_count n (length (selected_rows h st rows))
    \<and> (\<forall>i < length pages. \<exists>r. executeSqlSelect h (st\<lparr>selectOffset := Some (num (int (i * n)))\<rparr>) rows (num (int M)) = Inr r
        \<and> resultRows r = pages ! i \<and> (hasMore r \<longleftrightarrow> Suc i < length pages))
    \<and> mset (concat pages) = mset (selected_rows h st rows)"
proof -
  obtain all where all: "ordered_rows h st (selected_rows h st rows) = Inr all"
    and page: "\<And>k. int k + int n \<le> 2 ^ 53 \<Longrightarrow> int k + int (length all) \<le> 2 ^ 53 \<Longrightarrow>
      \<exists>r. executeSqlSelect h (st\<lparr>selectOffset := Some (num (int k))\<rparr>) rows (num (int M)) = Inr r
        \<and> resultRows r = take n (drop k all) \<and> (hasMore r \<longleftrightarrow> k + n < length all)"
    using executeSqlSelect_Inr [OF assms(1-4)] by blast
  have same: "mset all = mset (selected_rows h st rows)" by (rule ordered_permutation [OF all assms(5,6)])
  then have len: "length (selected_rows h st rows) = length all" by (metis size_mset)
  let ?m = "page_count n (length all)"
  let ?pages = "map (\<lambda>i. take n (drop (i * n) all)) [0..<?m]"
  have few: "i * n \<le> length all" if "i < ?m" for i
    using that page_count_less(1) [OF assms(3), of "i - 1" "length all"] by (cases i) auto
  show ?thesis
  proof (intro exI [of _ ?pages] conjI allI impI)
    show "length ?pages = page_count n (length (selected_rows h st rows))" by (simp add: len)
    have "concat ?pages = all" using page_count_less(2) [OF assms(3), of "length all"] by (simp add: concat_chunks)
    then show "mset (concat ?pages) = mset (selected_rows h st rows)" using same by simp
    fix i
    assume i: "i < length ?pages"
    then have "i * n \<le> length all" using few [of i] by simp
    then have "int (i * n) \<le> int (length all)" by (simp only: of_nat_le_iff)
    then have k: "int (i * n) + int n \<le> 2 ^ 53" "int (i * n) + int (length all) \<le> 2 ^ 53"
      using half_bound [OF _ assms(7) [unfolded len]] by simp_all
    show "\<exists>r. executeSqlSelect h (st\<lparr>selectOffset := Some (num (int (i * n)))\<rparr>) rows (num (int M)) = Inr r
        \<and> resultRows r = ?pages ! i \<and> (hasMore r \<longleftrightarrow> Suc i < length ?pages)"
      using page [OF k] i page_count_less(1) [OF assms(3), of i "length all"] by (simp add: add.commute)
  qed
qed

text \<open>Three of four cards are due; two fit a page.\<close>

definition sample_host :: query_host where
  "sample_host = \<lparr>host_compare = \<lambda>a b. int (length a) - int (length b), host_now = [], host_random = \<lambda>_. num 0\<rparr>"

definition sample_select :: SqlSelectStatement where
  "sample_select = \<lparr>selectSource = \<lparr>sourceName = CardsResource, unnestColumnName = None, unnestAlias = None\<rparr>,
     selectItems = [Wildcard], selectPredicate = Some (Predicate (IsNotNull ''due_at'')),
     groupBy = [], orderBy = [OrderColumn ''due_at'' Desc], selectLimit = Some (num (int 2)), selectOffset = None,
     selectSql = []\<rparr>"

definition sample_rows :: "SqlRow list" where
  "sample_rows = map (\<lambda>v. [(''due_at'', Json v)]) [JStr ''a'', JNull, JStr ''abc'', JStr ''ab'']"

lemma sample_selected: "selected_rows sample_host sample_select sample_rows
    = map (\<lambda>s. [(''due_at'', Json (JStr s))]) [''a'', ''abc'', ''ab'']"
  by (simp add: selected_rows_def sample_select_def expandRowsForSource_def sample_rows_def row_value_def get_property_def)

lemma due_at_column: "validate_column (selectSource sample_select) ''due_at'' False = Inr ()"
  "validate_order_item (selectSource sample_select) (OrderColumn ''due_at'' Desc) = Inr ()"
  by code_simp+

lemma sample_executes: "\<exists>r. executeSqlSelect sample_host sample_select sample_rows (num (int 100)) = Inr r"
proof -
  have "validateSelectProjection (selectItems sample_select) = Inr ()" "normalizeSqlOffset (selectOffset sample_select) = Inr (num 0)"
    "normalizeSqlLimit (selectLimit sample_select) (num (int 100)) = Inr (num (int 2))"
    by (simp_all add: validateSelectProjection_def normalizeSqlOffset_def normalizeSqlLimit_def sample_select_def jeq_def jmin_def)
  moreover obtain fs where "applyPredicateExpression sample_host (selectSource sample_select)
      (expandRowsForSource (selectSource sample_select) sample_rows) (selectPredicate sample_select) = Inr fs"
    using due_at_column by (simp add: applyPredicateExpression_def sample_select_def)
  moreover obtain all where "ordered_rows sample_host sample_select fs = Inr all"
    using due_at_column by (simp add: ordered_rows_def isWildcardSelect_def validateRowOrderBy_def applyOrderBy_def sample_select_def)
  ultimately show ?thesis by (simp add: executeSqlSelect_def split: prod.split)
qed

theorem pages_cover_rows_witness:
  "\<exists>pages. length pages = 2
    \<and> (\<forall>i < length pages. \<exists>r. executeSqlSelect sample_host (sample_select\<lparr>selectOffset := Some (num (int (i * 2)))\<rparr>)
          sample_rows (num (int 100)) = Inr r \<and> resultRows r = pages ! i \<and> (hasMore r \<longleftrightarrow> Suc i < length pages))
    \<and> mset (concat pages) = mset (map (\<lambda>s. [(''due_at'', Json (JStr s))]) [''a'', ''abc'', ''ab''])"
proof -
  obtain r where r: "executeSqlSelect sample_host sample_select sample_rows (num (int 100)) = Inr r" using sample_executes ..
  have st: "selectLimit sample_select = Some (num (int 2))" "isWildcardSelect sample_select"
    "\<not> List.member (orderBy sample_select) OrderRandom"
    by (simp_all add: sample_select_def isWildcardSelect_def)
  have m: "page_count 2 (length (map (\<lambda>s. [(''due_at'', Json (JStr s))]) [''a'', ''abc'', ''ab''])) = 2"
    by (simp add: page_count_def)
  show ?thesis using pages_cover_rows [OF r st(1) _ _ st(2,3)] unfolding sample_selected m by simp
qed

section \<open>Nested groups\<close>

text \<open>
  Parentheses around a balanced condition only count towards the limit: \<open>n\<close> of them read as the
  condition itself, \<open>n\<close> levels deeper, and fail with the error about the depth exactly when the level
  passes 16, whatever the condition is.
\<close>

theorem nested_groups:
  assumes "balanced s"
  shows "parsePredicateExpression source (nest n s) d
    = (if MAXIMUM_PREDICATE_GROUP_DEPTH < d + int n then Inl depth_error else parsePredicateExpression source s (d + int n))"
  by (rule parse_nest [OF assms])

theorem nested_groups_witness:
  "parsePredicateExpression (selectSource sample_select) (nest 17 (''x = '' @ sql_quote '')'')) 0 = Inl depth_error
   \<and> parsePredicateExpression (selectSource sample_select) (nest 16 (''x = '' @ sql_quote '')'')) 0
     = parsePredicateExpression (selectSource sample_select) (''x = '' @ sql_quote '')'') 16"
proof -
  have "balanced (sql_quote '')'' @ [])" by (intro balanced.intros) simp
  then have "balanced (''x = '' @ sql_quote '')'')" by (auto intro!: balanced_char simp: plain_def is_open_def is_close_def)
  from nested_groups [OF this, of "selectSource sample_select" 17 0] nested_groups [OF this, of "selectSource sample_select" 16 0] show ?thesis
    by (simp add: MAXIMUM_PREDICATE_GROUP_DEPTH_def)
qed

section \<open>Inputs the dialect reads in an unexpected way\<close>

text \<open>A connective without a right operand is dropped.\<close>

lemma trailing_connective:
  "parsePredicateExpression source ''reps > 3 or'' d = parsePredicateExpression source ''reps > 3'' d"
proof -
  have t: "trim ''reps > 3 or'' = ''reps > 3 or''" "trim ''reps > 3'' = ''reps > 3''" by code_simp+
  have o: "splitTopLevelByKeyword ''reps > 3 or'' ''OR'' = [''reps > 3'']" "splitTopLevelByKeyword ''reps > 3'' ''OR'' = [''reps > 3'']"
    by code_simp+
  show ?thesis by (subst (1 2) parsePredicateExpression.simps) (simp add: t o del: parsePredicateExpression.simps)
qed

text \<open>An item of \<open>VALUES\<close> that does not open a parenthesis is dropped.\<close>

lemma unparenthesized_row_dropped:
  "filter (\<lambda>row. starts_with row ''('') (map trim (splitTopLevel ''(1), 2, (3)'' '','')) = [''(1)'', ''(3)'']"
  by code_simp

text \<open>A property every object inherits passes for a column.\<close>

lemma inherited_column_accepted:
  "ensureSqlSourceColumnExists \<lparr>sourceName = CardsResource, unnestColumnName = None, unnestAlias = None\<rparr> ''constructor'' = Inr ()"
  by code_simp

text \<open>The right side of a comparison is one line.\<close>

lemma comparison_line_break: "\<not> test comparison_pattern (''x = '' @ [quote, char_of (10::nat), quote])"
  by code_simp

end
