(* ===== verification/CloudDb.thy ===== *)
theory CloudDb
  imports ReviewCards WorkspaceSettings
begin

text \<open>
  The tables the study data of a workspace lives in, as an explicit state: cards
  (\<open>cards/types.ts\<close>), decks (\<open>decks/index.ts\<close>), review events, active review days, activity facts
  and the ledger of applied operations, next to the workspaces and the hot change log of
  \<open>WorkspaceSettings\<close>; the conversion of stored cards (\<open>cards/shared.ts\<close>); and the error a write
  of an identifier of another workspace ends in (\<open>sync/conflicts/fork.ts\<close>).
\<close>

section \<open>The host\<close>

text \<open>
  What a transaction reads of its surroundings: the host's reading of dates, the start of the
  transaction (\<open>now()\<close>), the clock (\<open>new Date()\<close>), the user and their public profile, the host's time
  zones (the name in use of a valid zone, and the calendar date of an instant in it).
\<close>

record cloud_env =
  env_parse :: "string \<Rightarrow> js_date"
  env_now :: js_date
  env_clock :: js_date
  env_user :: string
  env_profile :: string
  env_zone :: "string \<Rightarrow> bool"
  env_local_date :: "js_date \<Rightarrow> string \<Rightarrow> string"

section \<open>Rows\<close>

record CloudCardSourceMetadata =
  source_label :: "string option"
  source_author :: "string option"
  source_comment :: "string option"
  source_createdAt :: "string option"
  source_importedAt :: "string option"
  source_importId :: "string option"

text \<open>\<open>version\<close> is always 1.\<close>

record CloudCardMetadata =
  metadata_source :: "CloudCardSourceMetadata option"

record stored_card =
  k_workspace_id :: string
  k_card_id :: string
  k_front_text :: string
  k_back_text :: string
  k_card_type :: string
  k_metadata :: js_value
  k_tags :: "string list"
  k_due_at :: "js_date option"
  k_created_at :: js_date
  k_reps :: int
  k_lapses :: int
  k_state :: FsrsCardState
  k_step_index :: "int option"
  k_stability :: "jsnum option"
  k_difficulty :: "jsnum option"
  k_last_reviewed_at :: "js_date option"
  k_scheduled_days :: "jsnum option"
  k_client_updated_at :: js_date
  k_replica_id :: string
  k_operation_id :: string
  k_updated_at :: js_date
  k_deleted_at :: "js_date option"

record stored_deck =
  d_workspace_id :: string
  d_deck_id :: string
  d_name :: string
  d_filter_definition :: js_value
  d_created_at :: js_date
  d_client_updated_at :: js_date
  d_replica_id :: string
  d_operation_id :: string
  d_updated_at :: js_date
  d_deleted_at :: "js_date option"

datatype ReviewTimeZoneSource = ClientZone | UserSettingsZone

record stored_review =
  v_review_event_id :: string
  v_workspace_id :: string
  v_card_id :: string
  v_replica_id :: string
  v_client_event_id :: string
  v_rating :: int
  v_reviewed_at_client :: js_date
  v_reviewed_at_server :: js_date
  v_reviewed_by :: string
  v_time_zone :: "string option"
  v_local_date :: "string option"
  v_zone_source :: "ReviewTimeZoneSource option"

record active_day =
  a_user :: string
  a_local_date :: string
  a_review_count :: int
  a_first :: js_date
  a_last :: js_date
  a_time_zone :: string
  a_zone_source :: ReviewTimeZoneSource

record activity_fact =
  f_review_event_id :: string
  f_metric_version :: string
  f_profile :: string
  f_user :: string
  f_rating :: int
  f_at_client :: string
  f_at_server :: string
  f_countable :: bool
  f_exclusion :: "string option"

text \<open>The kinds of entities of a push; \<open>EntityHot\<close> are those with a hot change.\<close>

datatype PushEntityType = EntityHot SyncEntityType | EntityReviewEvent

record applied_operation =
  o_workspace_id :: string
  o_replica_id :: string
  o_operation_id :: string
  o_entity_type :: PushEntityType
  o_entity_id :: string
  o_client_updated_at :: string
  o_hot_change_id :: "int option"
  o_applied_at :: js_date

text \<open>A media asset, joined with the blob it names; other parts of the service write it.\<close>

record stored_media =
  m_media_asset_id :: string
  m_workspace_id :: string
  m_mime_type :: string
  m_size_bytes :: int
  m_sha256 :: string
  m_source_url :: "string option"
  m_created_at :: js_date
  m_client_updated_at :: js_date
  m_replica_id :: string
  m_operation_id :: string
  m_updated_at :: js_date
  m_deleted_at :: "js_date option"

record cloud_db =
  cd_settings :: settings_db
  cd_cards :: "stored_card list"
  cd_decks :: "stored_deck list"
  cd_reviews :: "stored_review list"
  cd_days :: "active_day list"
  cd_facts :: "activity_fact list"
  cd_applied :: "applied_operation list"
  cd_media :: "stored_media list"
  cd_zones :: "(string \<times> string) list"

abbreviation cd_sync :: "cloud_db \<Rightarrow> sync_store" where
  "cd_sync db \<equiv> db_sync (cd_settings db)"

definition with_sync :: "sync_store \<Rightarrow> cloud_db \<Rightarrow> cloud_db" where
  "with_sync sync db = db\<lparr>cd_settings := cd_settings db\<lparr>db_sync := sync\<rparr>\<rparr>"

lemma with_sync_simps [simp]:
  "cd_sync (with_sync s db) = s" "cd_cards (with_sync s db) = cd_cards db" "cd_decks (with_sync s db) = cd_decks db"
  "cd_reviews (with_sync s db) = cd_reviews db" "cd_days (with_sync s db) = cd_days db"
  "cd_facts (with_sync s db) = cd_facts db" "cd_applied (with_sync s db) = cd_applied db"
  "cd_media (with_sync s db) = cd_media db" "cd_zones (with_sync s db) = cd_zones db"
  "db_workspaces (cd_settings (with_sync s db)) = db_workspaces (cd_settings db)"
  by (simp_all add: with_sync_def)

section \<open>Dates\<close>

definition optional_iso :: "js_date option \<Rightarrow> string option result" where
  "optional_iso d = (case d of None \<Rightarrow> Inr None | Some d \<Rightarrow> rbind (to_iso_string d) (\<lambda>s. Inr (Some s)))"

definition optional_timestamp :: "(string \<Rightarrow> js_date) \<Rightarrow> string option \<Rightarrow> string \<Rightarrow> string option result" where
  "optional_timestamp p v fieldName = (case v of None \<Rightarrow> Inr None
     | Some s \<Rightarrow> rbind (normalizeIsoTimestamp p s fieldName) (\<lambda>s. Inr (Some s)))"

section \<open>Metadata of cards\<close>

definition normalizeCardType :: "string option \<Rightarrow> string" where
  "normalizeCardType cardType = (case cardType of
     None \<Rightarrow> ''basic''
   | Some t \<Rightarrow> if trim t = [] then ''basic'' else trim t)"

definition expectCardMetadataRecord :: "js_value option \<Rightarrow> string \<Rightarrow> (string \<times> js_value) list result" where
  "expectCardMetadataRecord v context = (case v of
     Some (JObj obj) \<Rightarrow> Inr obj
   | _ \<Rightarrow> Inl (Error (context @ '' must be a JSON object'')))"

definition expectNullableCardMetadataString :: "js_value option \<Rightarrow> string \<Rightarrow> string option result" where
  "expectNullableCardMetadataString v fieldName = (case v of
     Some JNull \<Rightarrow> Inr None
   | Some (JStr s) \<Rightarrow> Inr (Some s)
   | _ \<Rightarrow> Inl (Error (fieldName @ '' must be a string or null'')))"

definition normalizeCardSourceMetadata :: "js_value option \<Rightarrow> CloudCardSourceMetadata option result" where
  "normalizeCardSourceMetadata v = (if v = Some JNull then Inr None
     else rbind (expectCardMetadataRecord v ''metadata.source'') (\<lambda>r.
       rbind (expectNullableCardMetadataString (map_of r ''label'') ''metadata.source.label'') (\<lambda>l.
       rbind (expectNullableCardMetadataString (map_of r ''author'') ''metadata.source.author'') (\<lambda>a.
       rbind (expectNullableCardMetadataString (map_of r ''comment'') ''metadata.source.comment'') (\<lambda>c.
       rbind (expectNullableCardMetadataString (map_of r ''createdAt'') ''metadata.source.createdAt'') (\<lambda>made.
       rbind (expectNullableCardMetadataString (map_of r ''importedAt'') ''metadata.source.importedAt'') (\<lambda>imported.
       rbind (expectNullableCardMetadataString (map_of r ''importId'') ''metadata.source.importId'') (\<lambda>i.
       Inr (Some \<lparr>source_label = l, source_author = a, source_comment = c, source_createdAt = made,
         source_importedAt = imported, source_importId = i\<rparr>)))))))))"

definition normalizeCardMetadata :: "js_value \<Rightarrow> CloudCardMetadata result" where
  "normalizeCardMetadata v = rbind (expectCardMetadataRecord (Some v) ''metadata'') (\<lambda>r.
     if map_of r ''version'' \<noteq> Some (JNum (num 1)) then Inl (Error ''metadata.version must be 1'')
     else rbind (normalizeCardSourceMetadata (map_of r ''source'')) (\<lambda>source. Inr \<lparr>metadata_source = source\<rparr>))"

text \<open>\<open>JSON.stringify\<close> of the metadata, as the column of type \<open>jsonb\<close> gives it back.\<close>

definition nullable_json :: "string option \<Rightarrow> js_value" where
  "nullable_json v = (case v of None \<Rightarrow> JNull | Some s \<Rightarrow> JStr s)"

definition source_json :: "CloudCardSourceMetadata \<Rightarrow> js_value" where
  "source_json s = JObj [(''label'', nullable_json (source_label s)), (''author'', nullable_json (source_author s)),
     (''comment'', nullable_json (source_comment s)), (''createdAt'', nullable_json (source_createdAt s)),
     (''importedAt'', nullable_json (source_importedAt s)), (''importId'', nullable_json (source_importId s))]"

definition metadata_json :: "CloudCardMetadata \<Rightarrow> js_value" where
  "metadata_json m = JObj [(''version'', JNum (num 1)),
     (''source'', case metadata_source m of None \<Rightarrow> JNull | Some s \<Rightarrow> source_json s)]"

lemma nullable_string: "expectNullableCardMetadataString (Some (nullable_json v)) f = Inr v"
  by (simp add: expectNullableCardMetadataString_def nullable_json_def split: option.split)

lemma normalize_source_json: "normalizeCardSourceMetadata (Some (source_json s)) = Inr (Some s)"
  by (simp add: normalizeCardSourceMetadata_def source_json_def expectCardMetadataRecord_def nullable_string)

text \<open>Stored metadata reads back as it was written.\<close>

lemma normalize_metadata_json: "normalizeCardMetadata (metadata_json m) = Inr m"
proof (cases "metadata_source m")
  case None
  then show ?thesis
    by (simp add: normalizeCardMetadata_def metadata_json_def expectCardMetadataRecord_def normalizeCardSourceMetadata_def)
next
  case (Some s)
  then show ?thesis
    by (simp add: normalizeCardMetadata_def metadata_json_def expectCardMetadataRecord_def normalize_source_json)
qed

definition createDefaultCardSourceMetadata :: "(string \<Rightarrow> js_date) \<Rightarrow> string \<Rightarrow> CloudCardSourceMetadata result" where
  "createDefaultCardSourceMetadata p made =
     rbind (normalizeIsoTimestamp p made ''metadata.source.createdAt'') (\<lambda>stamp.
       Inr \<lparr>source_label = None, source_author = None, source_comment = None, source_createdAt = Some stamp,
         source_importedAt = None, source_importId = None\<rparr>)"

definition createDefaultCardMetadata :: "(string \<Rightarrow> js_date) \<Rightarrow> string \<Rightarrow> CloudCardMetadata result" where
  "createDefaultCardMetadata p made =
     rbind (createDefaultCardSourceMetadata p made) (\<lambda>source. Inr \<lparr>metadata_source = Some source\<rparr>)"

section \<open>Cards\<close>

record CloudCard =
  c_card_id :: string
  c_front_text :: string
  c_back_text :: string
  c_card_type :: string
  c_metadata :: CloudCardMetadata
  c_tags :: "string list"
  c_due_at :: "string option"
  c_created_at :: string
  c_fsrs_reps :: int
  c_fsrs_lapses :: int
  c_fsrs_state :: FsrsCardState
  c_fsrs_step_index :: "int option"
  c_fsrs_stability :: "jsnum option"
  c_fsrs_difficulty :: "jsnum option"
  c_fsrs_last_reviewed_at :: "string option"
  c_fsrs_scheduled_days :: "jsnum option"
  c_client_updated_at :: string
  c_replica_id :: string
  c_operation_id :: string
  c_updated_at :: string
  c_deleted_at :: "string option"

definition mapCard :: "stored_card \<Rightarrow> CloudCard result" where
  "mapCard row = rbind (normalizeCardMetadata (k_metadata row)) (\<lambda>metadata.
     rbind (optional_iso (k_due_at row)) (\<lambda>due.
     rbind (to_iso_string (k_created_at row)) (\<lambda>created.
     rbind (optional_iso (k_last_reviewed_at row)) (\<lambda>reviewed.
     rbind (to_iso_string (k_client_updated_at row)) (\<lambda>stamp.
     rbind (to_iso_string (k_updated_at row)) (\<lambda>updated.
     rbind (optional_iso (k_deleted_at row)) (\<lambda>removed.
     Inr \<lparr>c_card_id = k_card_id row, c_front_text = k_front_text row, c_back_text = k_back_text row,
       c_card_type = normalizeCardType (Some (k_card_type row)), c_metadata = metadata, c_tags = k_tags row,
       c_due_at = due, c_created_at = created, c_fsrs_reps = k_reps row, c_fsrs_lapses = k_lapses row,
       c_fsrs_state = k_state row, c_fsrs_step_index = k_step_index row, c_fsrs_stability = k_stability row,
       c_fsrs_difficulty = k_difficulty row, c_fsrs_last_reviewed_at = reviewed,
       c_fsrs_scheduled_days = k_scheduled_days row, c_client_updated_at = stamp, c_replica_id = k_replica_id row,
       c_operation_id = k_operation_id row, c_updated_at = updated, c_deleted_at = removed\<rparr>)))))))"

definition toCardLwwMetadata :: "CloudCard \<Rightarrow> LwwMetadata" where
  "toCardLwwMetadata crd = \<lparr>clientUpdatedAt = c_client_updated_at crd, lastModifiedByReplicaId = c_replica_id crd,
     lastOperationId = c_operation_id crd\<rparr>"

definition normalizeCardMutationMetadata :: "(string \<Rightarrow> js_date) \<Rightarrow> LwwMetadata \<Rightarrow> LwwMetadata result" where
  "normalizeCardMutationMetadata p md = rbind (normalizeIsoTimestamp p (clientUpdatedAt md) ''clientUpdatedAt'')
     (\<lambda>stamp. Inr \<lparr>clientUpdatedAt = stamp, lastModifiedByReplicaId = lastModifiedByReplicaId md,
       lastOperationId = lastOperationId md\<rparr>)"

definition recordCardSyncChange ::
    "(string \<Rightarrow> js_date) \<Rightarrow> sync_store \<Rightarrow> string \<Rightarrow> HotChangeWriteLock \<Rightarrow> CloudCard \<Rightarrow> (int \<times> sync_store) result" where
  "recordCardSyncChange p st workspaceId lock crd = insertSyncChange p st workspaceId lock CardEntity (c_card_id crd)
     Upsert (c_replica_id crd) (c_operation_id crd) (c_client_updated_at crd)"

text \<open>The statements on the table: the row of a workspace, and an update of it.\<close>

definition is_card :: "string \<Rightarrow> string \<Rightarrow> stored_card \<Rightarrow> bool" where
  "is_card workspaceId cardId row \<longleftrightarrow> k_workspace_id row = workspaceId \<and> k_card_id row = cardId"

definition loadCardRowForMutation :: "cloud_db \<Rightarrow> string \<Rightarrow> string \<Rightarrow> stored_card option" where
  "loadCardRowForMutation db workspaceId cardId = find (is_card workspaceId cardId) (cd_cards db)"

section \<open>Identifiers of another workspace\<close>

text \<open>\<open>sync.find_conflicting_workspace_id\<close>: the owner of an identifier, across workspaces.\<close>

datatype SyncConflictEntityType = ConflictCard | ConflictDeck | ConflictReviewEvent

fun findSyncConflictWorkspaceIdInExecutor :: "cloud_db \<Rightarrow> SyncConflictEntityType \<Rightarrow> string \<Rightarrow> string option" where
  "findSyncConflictWorkspaceIdInExecutor db ConflictCard i =
     map_option k_workspace_id (find (\<lambda>r. k_card_id r = i) (cd_cards db))"
| "findSyncConflictWorkspaceIdInExecutor db ConflictDeck i =
     map_option d_workspace_id (find (\<lambda>r. d_deck_id r = i) (cd_decks db))"
| "findSyncConflictWorkspaceIdInExecutor db ConflictReviewEvent i =
     map_option v_workspace_id (find (\<lambda>r. v_review_event_id r = i) (cd_reviews db))"

text \<open>The details the error carries for the client are not part of the model's errors.\<close>

definition createSyncConflictHttpError :: js_error where
  "createSyncConflictHttpError = HttpError 409
     ''Sync detected content copied from another workspace. Retry after forking ids.''
     (Some ''SYNC_WORKSPACE_FORK_REQUIRED'')"

end
