(* ===== verification/CloudCards.thy ===== *)
theory CloudCards
  imports CloudDb
begin

text \<open>
  Writing cards (\<open>cards/mutations.ts\<close>): the snapshot a client pushes, which the last writer wins, and
  the creation, the change and the deletion of cards one by one and in batches. Every function runs
  in a transaction over \<open>cloud_db\<close>; the event it reports to the analytics is left out.
\<close>

definition MAX_CARD_BATCH_SIZE :: nat where
  "MAX_CARD_BATCH_SIZE = 100"

section \<open>Inputs\<close>

record CardSnapshotInput =
  ci_cardId :: string
  ci_frontText :: string
  ci_backText :: string
  ci_cardType :: "string option"
  ci_metadata :: "CloudCardMetadata option"
  ci_tags :: "string list"
  ci_dueAt :: "string option"
  ci_createdAt :: string
  ci_reps :: int
  ci_lapses :: int
  ci_state :: FsrsCardState
  ci_stepIndex :: "int option"
  ci_stability :: "jsnum option"
  ci_difficulty :: "jsnum option"
  ci_lastReviewedAt :: "string option"
  ci_scheduledDays :: "jsnum option"
  ci_deletedAt :: "string option"

record CreateCardInput =
  cc_frontText :: string
  cc_backText :: string
  cc_cardType :: "string option"
  cc_metadata :: "CloudCardMetadata option"
  cc_tags :: "string list"

record UpdateCardInput =
  cu_frontText :: "string option"
  cu_backText :: "string option"
  cu_cardType :: "string option"
  cu_metadata :: "CloudCardMetadata option"
  cu_tags :: "string list option"

record CardMutationResult =
  cr_card :: CloudCard
  cr_applied :: bool
  cr_changeId :: "int option"

definition normalizeRequiredCardText :: "string \<Rightarrow> string \<Rightarrow> string result" where
  "normalizeRequiredCardText v fieldName = (if trim v = []
     then Inl (HttpError 400 (fieldName @ '' must not be empty'') None) else Inr (trim v))"

definition normalizeOptionalCardText :: "string \<Rightarrow> string" where
  "normalizeOptionalCardText v = trim v"

definition dedupeCardTags :: "string list \<Rightarrow> string list" where
  "dedupeCardTags tags = dedupe_tags [] tags"

text \<open>A field that may be missing.\<close>

definition when_given :: "('a \<Rightarrow> 'b result) \<Rightarrow> 'a option \<Rightarrow> 'b option result" where
  "when_given f v = (case v of None \<Rightarrow> Inr None | Some x \<Rightarrow> rbind (f x) (\<lambda>y. Inr (Some y)))"

definition normalizeCreateCardInput :: "CreateCardInput \<Rightarrow> CreateCardInput result" where
  "normalizeCreateCardInput input =
     rbind (normalizeRequiredCardText (cc_frontText input) ''frontText'') (\<lambda>front.
     rbind (when_given (\<lambda>m. normalizeCardMetadata (metadata_json m)) (cc_metadata input)) (\<lambda>metadata.
     Inr \<lparr>cc_frontText = front, cc_backText = normalizeOptionalCardText (cc_backText input),
       cc_cardType = map_option (\<lambda>t. normalizeCardType (Some t)) (cc_cardType input), cc_metadata = metadata,
       cc_tags = dedupeCardTags (cc_tags input)\<rparr>))"

definition normalizeUpdateCardInput :: "UpdateCardInput \<Rightarrow> UpdateCardInput result" where
  "normalizeUpdateCardInput input =
     rbind (when_given (\<lambda>v. normalizeRequiredCardText v ''frontText'') (cu_frontText input)) (\<lambda>front.
     rbind (when_given (\<lambda>m. normalizeCardMetadata (metadata_json m)) (cu_metadata input)) (\<lambda>metadata.
     Inr \<lparr>cu_frontText = front, cu_backText = map_option normalizeOptionalCardText (cu_backText input),
       cu_cardType = map_option (\<lambda>t. normalizeCardType (Some t)) (cu_cardType input), cu_metadata = metadata,
       cu_tags = map_option dedupeCardTags (cu_tags input)\<rparr>))"

text \<open>The assignments of an update, in the order of the statement.\<close>

definition buildCardUpdateQueryParts :: "UpdateCardInput \<Rightarrow> (stored_card \<Rightarrow> stored_card) list" where
  "buildCardUpdateQueryParts input = concat [
     (case cu_frontText input of None \<Rightarrow> [] | Some v \<Rightarrow> [k_front_text_update (\<lambda>_. v)]),
     (case cu_backText input of None \<Rightarrow> [] | Some v \<Rightarrow> [k_back_text_update (\<lambda>_. v)]),
     (case cu_cardType input of None \<Rightarrow> [] | Some v \<Rightarrow> [k_card_type_update (\<lambda>_. v)]),
     (case cu_metadata input of None \<Rightarrow> [] | Some v \<Rightarrow> [k_metadata_update (\<lambda>_. metadata_json v)]),
     (case cu_tags input of None \<Rightarrow> [] | Some v \<Rightarrow> [k_tags_update (\<lambda>_. v)])]"

definition validateCardBatchCount :: "nat \<Rightarrow> unit result" where
  "validateCardBatchCount n =
     (if n < 1 then Inl (HttpError 400 ''Card batch must contain at least one item'' None)
      else if n > MAX_CARD_BATCH_SIZE then Inl (HttpError 400 ''Card batch must contain at most 100 items'' None)
      else Inr ())"

definition validateUniqueCardIds :: "string list \<Rightarrow> unit result" where
  "validateUniqueCardIds cardIds = throw_if (card (set cardIds) \<noteq> length cardIds)
     (HttpError 400 ''Card batch must not contain duplicate cardId values'' None)"

section \<open>Snapshots\<close>

text \<open>The FSRS fields of a snapshot, for the consistency check.\<close>

definition snapshot_fsrs :: "(string \<Rightarrow> js_date) \<Rightarrow> CardSnapshotInput \<Rightarrow> CardRow" where
  "snapshot_fsrs p input = \<lparr>card_id = ci_cardId input, due_at = map_option (new_date_text p) (ci_dueAt input),
     r_reps = ci_reps input, r_lapses = ci_lapses input, fsrs_card_state = ci_state input,
     fsrs_step_index = ci_stepIndex input, fsrs_stability = ci_stability input, fsrs_difficulty = ci_difficulty input,
     fsrs_last_reviewed_at = map_option (new_date_text p) (ci_lastReviewedAt input),
     fsrs_scheduled_days = ci_scheduledDays input, client_updated_at = [], last_modified_by_replica_id = [],
     last_operation_id = [], deleted = False\<rparr>"

definition normalizeCardSnapshotInput :: "(string \<Rightarrow> js_date) \<Rightarrow> CardSnapshotInput \<Rightarrow> CardSnapshotInput result" where
  "normalizeCardSnapshotInput p input =
     rbind (normalizeRequiredCardText (ci_frontText input) ''frontText'') (\<lambda>front.
     rbind (when_given (\<lambda>m. normalizeCardMetadata (metadata_json m)) (ci_metadata input)) (\<lambda>metadata.
     rbind (optional_timestamp p (ci_dueAt input) ''dueAt'') (\<lambda>due.
     rbind (normalizeIsoTimestamp p (ci_createdAt input) ''createdAt'') (\<lambda>created.
     rbind (optional_timestamp p (ci_lastReviewedAt input) ''fsrsLastReviewedAt'') (\<lambda>reviewed.
     rbind (optional_timestamp p (ci_deletedAt input) ''deletedAt'') (\<lambda>removed.
     let normalizedSnapshot = input\<lparr>ci_frontText := front, ci_backText := normalizeOptionalCardText (ci_backText input),
       ci_cardType := map_option (\<lambda>t. normalizeCardType (Some t)) (ci_cardType input), ci_metadata := metadata,
       ci_tags := dedupeCardTags (ci_tags input), ci_dueAt := due, ci_createdAt := created,
       ci_lastReviewedAt := reviewed, ci_deletedAt := removed\<rparr>
     in rbind (assertConsistentFsrsState (snapshot_fsrs p normalizedSnapshot)) (\<lambda>_. Inr normalizedSnapshot)))))))"

text \<open>A normalised timestamp as the column of type \<open>timestamptz\<close> holds it.\<close>

definition snapshot_row ::
    "cloud_env \<Rightarrow> string \<Rightarrow> CardSnapshotInput \<Rightarrow> CloudCardMetadata \<Rightarrow> LwwMetadata \<Rightarrow> stored_card" where
  "snapshot_row e workspaceId input cardMetadata metadata = (let date = new_date_text (env_parse e) in
     \<lparr>k_workspace_id = workspaceId, k_card_id = ci_cardId input, k_front_text = ci_frontText input,
      k_back_text = ci_backText input,
      k_card_type = (case ci_cardType input of None \<Rightarrow> ''basic'' | Some t \<Rightarrow> t),
      k_metadata = metadata_json cardMetadata, k_tags = ci_tags input, k_due_at = map_option date (ci_dueAt input),
      k_created_at = date (ci_createdAt input), k_reps = ci_reps input, k_lapses = ci_lapses input,
      k_state = ci_state input, k_step_index = ci_stepIndex input, k_stability = ci_stability input,
      k_difficulty = ci_difficulty input, k_last_reviewed_at = map_option date (ci_lastReviewedAt input),
      k_scheduled_days = ci_scheduledDays input, k_client_updated_at = date (clientUpdatedAt metadata),
      k_replica_id = lastModifiedByReplicaId metadata, k_operation_id = lastOperationId metadata,
      k_updated_at = env_now e, k_deleted_at = map_option date (ci_deletedAt input)\<rparr>)"

text \<open>\<open>INSERT ... ON CONFLICT DO NOTHING\<close>: the primary key is the card's identifier in any workspace.\<close>

definition insertCardRowForSnapshotInExecutor ::
    "cloud_env \<Rightarrow> cloud_db \<Rightarrow> string \<Rightarrow> CardSnapshotInput \<Rightarrow> LwwMetadata \<Rightarrow> (stored_card option \<times> cloud_db) result" where
  "insertCardRowForSnapshotInExecutor e db workspaceId input metadata =
     rbind (case ci_metadata input of Some m \<Rightarrow> Inr m
       | None \<Rightarrow> createDefaultCardMetadata (env_parse e) (ci_createdAt input)) (\<lambda>cardMetadata.
     let row = snapshot_row e workspaceId input cardMetadata metadata in
     if list_ex (\<lambda>r. k_card_id r = ci_cardId input) (cd_cards db) then Inr (None, db)
     else Inr (Some row, db\<lparr>cd_cards := cd_cards db @ [row]\<rparr>))"

definition resolveCardSnapshotInsertConflictInExecutor :: "cloud_db \<Rightarrow> string \<Rightarrow> string \<Rightarrow> stored_card result" where
  "resolveCardSnapshotInsertConflictInExecutor db workspaceId cardId =
     (case findSyncConflictWorkspaceIdInExecutor db ConflictCard cardId of
       None \<Rightarrow> Inl (Error (''Card insert was skipped but no conflicting workspace was found for '' @ cardId))
     | Some conflictingWorkspaceId \<Rightarrow>
       if conflictingWorkspaceId \<noteq> workspaceId then Inl createSyncConflictHttpError
       else (case loadCardRowForMutation db workspaceId cardId of
           None \<Rightarrow> Inl (Error (''Card insert was skipped but the current workspace row was not found for '' @ cardId))
         | Some existingRow \<Rightarrow> Inr existingRow))"

text \<open>The row the \<open>UPDATE\<close> of the snapshot leaves.\<close>

definition updated_card_row ::
    "cloud_env \<Rightarrow> stored_card \<Rightarrow> CloudCard \<Rightarrow> CardSnapshotInput \<Rightarrow> LwwMetadata \<Rightarrow> stored_card" where
  "updated_card_row e row existingCard input metadata = (let date = new_date_text (env_parse e) in
     row\<lparr>k_front_text := ci_frontText input, k_back_text := ci_backText input,
      k_card_type := (case ci_cardType input of None \<Rightarrow> c_card_type existingCard | Some t \<Rightarrow> t),
      k_metadata := metadata_json (case ci_metadata input of None \<Rightarrow> c_metadata existingCard | Some m \<Rightarrow> m),
      k_tags := ci_tags input, k_due_at := map_option date (ci_dueAt input), k_reps := ci_reps input,
      k_lapses := ci_lapses input, k_state := ci_state input, k_step_index := ci_stepIndex input,
      k_stability := ci_stability input, k_difficulty := ci_difficulty input,
      k_last_reviewed_at := map_option date (ci_lastReviewedAt input), k_scheduled_days := ci_scheduledDays input,
      k_deleted_at := map_option date (ci_deletedAt input), k_client_updated_at := date (clientUpdatedAt metadata),
      k_replica_id := lastModifiedByReplicaId metadata, k_operation_id := lastOperationId metadata,
      k_updated_at := env_now e\<rparr>)"

definition put_card :: "string \<Rightarrow> string \<Rightarrow> stored_card \<Rightarrow> cloud_db \<Rightarrow> cloud_db" where
  "put_card workspaceId cardId row db =
     db\<lparr>cd_cards := map (\<lambda>r. if is_card workspaceId cardId r then row else r) (cd_cards db)\<rparr>"

text \<open>The change of a card the transaction wrote, and what the caller gets.\<close>

definition applied_card ::
    "cloud_env \<Rightarrow> string \<Rightarrow> HotChangeWriteLock \<Rightarrow> stored_card \<Rightarrow> cloud_db \<Rightarrow> (CardMutationResult \<times> cloud_db) result" where
  "applied_card e workspaceId lock row db = rbind (mapCard row) (\<lambda>written.
     rbind (recordCardSyncChange (env_parse e) (cd_sync db) workspaceId lock written) (\<lambda>(changeId, sync).
     Inr (\<lparr>cr_card = written, cr_applied = True, cr_changeId = Some changeId\<rparr>, with_sync sync db)))"

definition update_card_snapshot ::
    "cloud_env \<Rightarrow> cloud_db \<Rightarrow> string \<Rightarrow> HotChangeWriteLock \<Rightarrow> stored_card \<Rightarrow> CardSnapshotInput \<Rightarrow> LwwMetadata
     \<Rightarrow> (CardMutationResult \<times> cloud_db) result" where
  "update_card_snapshot e db workspaceId lock existingRow input metadata =
     rbind (mapCard existingRow) (\<lambda>existingCard.
     if \<not> incomingLwwMetadataWins (env_parse e) metadata (toCardLwwMetadata existingCard)
     then Inr (\<lparr>cr_card = existingCard, cr_applied = False,
       cr_changeId = findLatestSyncChangeId (cd_sync db) workspaceId CardEntity (c_card_id existingCard)\<rparr>, db)
     else let row = updated_card_row e existingRow existingCard input metadata
       in applied_card e workspaceId lock row (put_card workspaceId (ci_cardId input) row db))"

definition upsertCardSnapshotInExecutor ::
    "cloud_env \<Rightarrow> cloud_db \<Rightarrow> string \<Rightarrow> CardSnapshotInput \<Rightarrow> LwwMetadata \<Rightarrow> (CardMutationResult \<times> cloud_db) result" where
  "upsertCardSnapshotInExecutor e db workspaceId input metadata =
     rbind (lockWorkspaceSyncMetadataForHotChangesInExecutor (cd_sync db) workspaceId) (\<lambda>(lock, sync).
     let db = with_sync sync db in
     rbind (normalizeCardSnapshotInput (env_parse e) input) (\<lambda>input.
     rbind (normalizeCardMutationMetadata (env_parse e) metadata) (\<lambda>metadata.
     case loadCardRowForMutation db workspaceId (ci_cardId input) of
       Some existingRow \<Rightarrow> update_card_snapshot e db workspaceId lock existingRow input metadata
     | None \<Rightarrow> rbind (insertCardRowForSnapshotInExecutor e db workspaceId input metadata) (\<lambda>(insertedRow, db).
         case insertedRow of
           Some row \<Rightarrow> applied_card e workspaceId lock row db
         | None \<Rightarrow> rbind (resolveCardSnapshotInsertConflictInExecutor db workspaceId (ci_cardId input)) (\<lambda>existingRow.
             update_card_snapshot e db workspaceId lock existingRow input metadata)))))"

section \<open>Single cards\<close>

definition duplicate_key :: js_error where
  "duplicate_key = Error ''duplicate key value violates unique constraint''"

text \<open>\<open>newId\<close> is the fresh identifier \<open>randomUUID()\<close> returns.\<close>

definition new_card_row ::
    "cloud_env \<Rightarrow> string \<Rightarrow> string \<Rightarrow> CreateCardInput \<Rightarrow> CloudCardMetadata \<Rightarrow> string \<Rightarrow> LwwMetadata \<Rightarrow> stored_card" where
  "new_card_row e workspaceId newId input cardMetadata created metadata =
     \<lparr>k_workspace_id = workspaceId, k_card_id = newId, k_front_text = cc_frontText input,
      k_back_text = cc_backText input, k_card_type = (case cc_cardType input of None \<Rightarrow> ''basic'' | Some t \<Rightarrow> t),
      k_metadata = metadata_json cardMetadata, k_tags = cc_tags input, k_due_at = None,
      k_created_at = new_date_text (env_parse e) created, k_reps = 0, k_lapses = 0, k_state = New,
      k_step_index = None, k_stability = None, k_difficulty = None, k_last_reviewed_at = None,
      k_scheduled_days = None, k_client_updated_at = new_date_text (env_parse e) (clientUpdatedAt metadata),
      k_replica_id = lastModifiedByReplicaId metadata, k_operation_id = lastOperationId metadata,
      k_updated_at = env_now e, k_deleted_at = None\<rparr>"

definition createCardInExecutor ::
    "cloud_env \<Rightarrow> string \<Rightarrow> cloud_db \<Rightarrow> string \<Rightarrow> CreateCardInput \<Rightarrow> LwwMetadata \<Rightarrow> (CloudCard \<times> cloud_db) result" where
  "createCardInExecutor e newId db workspaceId input metadata =
     rbind (lockWorkspaceSyncMetadataForHotChangesInExecutor (cd_sync db) workspaceId) (\<lambda>(lock, sync).
     let db = with_sync sync db in
     rbind (normalizeCreateCardInput input) (\<lambda>input.
     rbind (normalizeCardMutationMetadata (env_parse e) metadata) (\<lambda>metadata.
     rbind (normalizeIsoTimestamp (env_parse e) (clientUpdatedAt metadata) ''clientUpdatedAt'') (\<lambda>created.
     rbind (case cc_metadata input of Some m \<Rightarrow> Inr m | None \<Rightarrow> createDefaultCardMetadata (env_parse e) created)
       (\<lambda>cardMetadata.
     let row = new_card_row e workspaceId newId input cardMetadata created metadata in
     if list_ex (\<lambda>r. k_card_id r = newId) (cd_cards db) then Inl duplicate_key
     else rbind (applied_card e workspaceId lock row (db\<lparr>cd_cards := cd_cards db @ [row]\<rparr>)) (\<lambda>(r, db).
       Inr (cr_card r, db)))))))"

text \<open>An \<open>UPDATE\<close> of a card that is not deleted; \<open>None\<close> when there is none.\<close>

definition is_live_card :: "string \<Rightarrow> string \<Rightarrow> stored_card \<Rightarrow> bool" where
  "is_live_card workspaceId cardId row \<longleftrightarrow> is_card workspaceId cardId row \<and> k_deleted_at row = None"

definition stamp_card :: "cloud_env \<Rightarrow> LwwMetadata \<Rightarrow> stored_card \<Rightarrow> stored_card" where
  "stamp_card e metadata row = row\<lparr>k_client_updated_at := new_date_text (env_parse e) (clientUpdatedAt metadata),
     k_replica_id := lastModifiedByReplicaId metadata, k_operation_id := lastOperationId metadata,
     k_updated_at := env_now e\<rparr>"

definition update_live_card ::
    "cloud_env \<Rightarrow> cloud_db \<Rightarrow> string \<Rightarrow> HotChangeWriteLock \<Rightarrow> string \<Rightarrow> (stored_card \<Rightarrow> stored_card)
     \<Rightarrow> (CloudCard \<times> cloud_db) result" where
  "update_live_card e db workspaceId lock cardId f = (case find (is_live_card workspaceId cardId) (cd_cards db) of
     None \<Rightarrow> Inl (HttpError 404 ''Card not found'' None)
   | Some row \<Rightarrow> rbind (applied_card e workspaceId lock (f row) (put_card workspaceId cardId (f row) db)) (\<lambda>(r, db).
       Inr (cr_card r, db)))"

definition updateCardInExecutor ::
    "cloud_env \<Rightarrow> cloud_db \<Rightarrow> string \<Rightarrow> string \<Rightarrow> UpdateCardInput \<Rightarrow> LwwMetadata \<Rightarrow> (CloudCard \<times> cloud_db) result" where
  "updateCardInExecutor e db workspaceId cardId input metadata =
     rbind (lockWorkspaceSyncMetadataForHotChangesInExecutor (cd_sync db) workspaceId) (\<lambda>(lock, sync).
     let db = with_sync sync db in
     rbind (normalizeUpdateCardInput input) (\<lambda>input.
     rbind (normalizeCardMutationMetadata (env_parse e) metadata) (\<lambda>metadata.
     let assignments = buildCardUpdateQueryParts input in
     if length assignments = 0 then Inl (HttpError 400 ''At least one editable field must be provided'' None)
     else update_live_card e db workspaceId lock cardId
       (\<lambda>row. stamp_card e metadata (foldl (\<lambda>r f. f r) row assignments)))))"

definition deleteCardInExecutor ::
    "cloud_env \<Rightarrow> cloud_db \<Rightarrow> string \<Rightarrow> string \<Rightarrow> LwwMetadata \<Rightarrow> (CloudCard \<times> cloud_db) result" where
  "deleteCardInExecutor e db workspaceId cardId metadata =
     rbind (lockWorkspaceSyncMetadataForHotChangesInExecutor (cd_sync db) workspaceId) (\<lambda>(lock, sync).
     let db = with_sync sync db in
     rbind (normalizeCardMutationMetadata (env_parse e) metadata) (\<lambda>metadata.
     update_live_card e db workspaceId lock cardId (\<lambda>row. stamp_card e metadata
       (row\<lparr>k_deleted_at := Some (new_date_text (env_parse e) (clientUpdatedAt metadata))\<rparr>))))"

section \<open>Batches\<close>

text \<open>A loop over items in a transaction; the first error ends it.\<close>

fun each_r :: "('a \<Rightarrow> 's \<Rightarrow> ('b \<times> 's) result) \<Rightarrow> 'a list \<Rightarrow> 's \<Rightarrow> ('b list \<times> 's) result" where
  "each_r f [] s = Inr ([], s)"
| "each_r f (x # xs) s = rbind (f x s) (\<lambda>(y, s). rbind (each_r f xs s) (\<lambda>(ys, s). Inr (y # ys, s)))"

definition createCards ::
    "cloud_env \<Rightarrow> cloud_db \<Rightarrow> string \<Rightarrow> (string \<times> CreateCardInput \<times> LwwMetadata) list \<Rightarrow> (CloudCard list \<times> cloud_db) result" where
  "createCards e db workspaceId items = rbind (validateCardBatchCount (length items)) (\<lambda>_.
     each_r (\<lambda>(newId, input, metadata) db. createCardInExecutor e newId db workspaceId input metadata) items db)"

definition updateCards ::
    "cloud_env \<Rightarrow> cloud_db \<Rightarrow> string \<Rightarrow> (string \<times> UpdateCardInput \<times> LwwMetadata) list \<Rightarrow> (CloudCard list \<times> cloud_db) result" where
  "updateCards e db workspaceId items = rbind (validateCardBatchCount (length items)) (\<lambda>_.
     rbind (validateUniqueCardIds (map fst items)) (\<lambda>_.
     each_r (\<lambda>(cardId, input, metadata) db. updateCardInExecutor e db workspaceId cardId input metadata) items db))"

definition deleteCards ::
    "cloud_env \<Rightarrow> cloud_db \<Rightarrow> string \<Rightarrow> (string \<times> LwwMetadata) list \<Rightarrow> ((string list \<times> nat) \<times> cloud_db) result" where
  "deleteCards e db workspaceId items = rbind (validateCardBatchCount (length items)) (\<lambda>_.
     rbind (validateUniqueCardIds (map fst items)) (\<lambda>_.
     rbind (each_r (\<lambda>(cardId, metadata) db. deleteCardInExecutor e db workspaceId cardId metadata) items db)
       (\<lambda>(deletedCards, db). Inr ((map c_card_id deletedCards, length deletedCards), db))))"

end
