(* ===== verification/CloudDecks.thy ===== *)
theory CloudDecks
  imports CloudCards
begin

text \<open>
  Writing decks (\<open>decks/index.ts\<close>): the parsing of filter definitions, the snapshot the last writer
  wins, and the creation, the change and the deletion of decks, which all go through the snapshot.
\<close>

definition MAX_DECK_BATCH_SIZE :: nat where
  "MAX_DECK_BATCH_SIZE = 100"

text \<open>\<open>version\<close> is always 2.\<close>

record CloudDeckFilter =
  df_tags :: "string list"

record CloudDeck =
  e_deckId :: string
  e_workspaceId :: string
  e_name :: string
  e_filterDefinition :: CloudDeckFilter
  e_createdAt :: string
  e_clientUpdatedAt :: string
  e_replicaId :: string
  e_operationId :: string
  e_updatedAt :: string
  e_deletedAt :: "string option"

record CreateDeckInput =
  dc_name :: string
  dc_filterDefinition :: CloudDeckFilter

record DeckSnapshotInput =
  di_deckId :: string
  di_name :: string
  di_filterDefinition :: CloudDeckFilter
  di_createdAt :: string
  di_deletedAt :: "string option"

record DeckMutationResult =
  dr_deck :: CloudDeck
  dr_applied :: bool
  dr_changeId :: "int option"

section \<open>Filter definitions\<close>

definition createRequestError :: "string \<Rightarrow> js_error" where
  "createRequestError message = HttpError 400 message None"

definition stored_filter_error :: "string \<Rightarrow> js_error" where
  "stored_filter_error message = Error (''Stored deck filter definition is invalid: '' @ message)"

definition expectRecord :: "js_value \<Rightarrow> string \<Rightarrow> (string \<Rightarrow> js_error) \<Rightarrow> (string \<times> js_value) list result" where
  "expectRecord v context errorFactory = (case v of
     JObj obj \<Rightarrow> Inr obj
   | _ \<Rightarrow> Inl (errorFactory (context @ '' must be a JSON object'')))"

fun expectOnlyAllowedKeys ::
    "(string \<times> js_value) list \<Rightarrow> string list \<Rightarrow> string \<Rightarrow> (string \<Rightarrow> js_error) \<Rightarrow> unit result" where
  "expectOnlyAllowedKeys [] allowedKeys context errorFactory = Inr ()"
| "expectOnlyAllowedKeys ((key, _) # obj) allowedKeys context errorFactory =
     (if \<not> List.member allowedKeys key then Inl (errorFactory (context @ '' contains unsupported field: '' @ key))
      else expectOnlyAllowedKeys obj allowedKeys context errorFactory)"

definition expectNonEmptyString :: "string \<Rightarrow> string \<Rightarrow> (string \<Rightarrow> js_error) \<Rightarrow> string result" where
  "expectNonEmptyString v fieldName errorFactory = (if trim v = []
     then Inl (errorFactory (fieldName @ '' must not be empty'')) else Inr (trim v))"

fun legacy_effort :: "js_value \<Rightarrow> LegacyEffortLevel option" where
  "legacy_effort (JStr s) = (if s = ''fast'' then Some Fast else if s = ''medium'' then Some Medium
     else if s = ''long'' then Some Long else None)"
| "legacy_effort _ = None"

text \<open>\<open>new Set\<close> of the items in their order: the first of equal items stays.\<close>

definition normalizeLegacyDeckEffortLevels ::
    "js_value option \<Rightarrow> string \<Rightarrow> (string \<Rightarrow> js_error) \<Rightarrow> LegacyEffortLevel list result" where
  "normalizeLegacyDeckEffortLevels v fieldName errorFactory = (case v of
     None \<Rightarrow> Inr []
   | Some (JArr items) \<Rightarrow> rbind (map_r (\<lambda>item. case legacy_effort item of
         None \<Rightarrow> Inl (errorFactory (fieldName @ '' must contain only fast, medium, or long''))
       | Some l \<Rightarrow> Inr l) items) (\<lambda>ls. Inr (rev (remdups (rev ls))))
   | _ \<Rightarrow> Inl (errorFactory (fieldName @ '' must be an array'')))"

definition normalize_deck_tag :: "string \<Rightarrow> (string \<Rightarrow> js_error) \<Rightarrow> js_value \<Rightarrow> string result" where
  "normalize_deck_tag fieldName errorFactory item = (case item of
     JStr s \<Rightarrow> if trim s = [] then Inl (errorFactory (fieldName @ '' must contain only non-empty tags'')) else Inr (trim s)
   | _ \<Rightarrow> Inl (errorFactory (fieldName @ '' must be an array of strings'')))"

definition normalizeDeckTags :: "js_value option \<Rightarrow> string \<Rightarrow> (string \<Rightarrow> js_error) \<Rightarrow> string list result" where
  "normalizeDeckTags v fieldName errorFactory = (case v of
     Some (JArr items) \<Rightarrow> rbind (map_r (normalize_deck_tag fieldName errorFactory) items)
       (\<lambda>tags. Inr (dedupe_tags [] tags))
   | _ \<Rightarrow> Inl (errorFactory (fieldName @ '' must be an array of strings'')))"

definition appendLegacyDeckEffortTags :: "string list \<Rightarrow> LegacyEffortLevel list \<Rightarrow> string list" where
  "appendLegacyDeckEffortTags tags effortLevels = foldl (\<lambda>tags l. appendLegacyEffortTag tags (Some l)) tags effortLevels"

definition normalizeDeckFilterDefinitionValues :: "string list \<Rightarrow> LegacyEffortLevel list \<Rightarrow> CloudDeckFilter" where
  "normalizeDeckFilterDefinitionValues tags effortLevels = \<lparr>df_tags = appendLegacyDeckEffortTags tags effortLevels\<rparr>"

definition parseDeckFilterDefinitionWithFactory :: "js_value \<Rightarrow> (string \<Rightarrow> js_error) \<Rightarrow> CloudDeckFilter result" where
  "parseDeckFilterDefinitionWithFactory v errorFactory =
     rbind (expectRecord v ''filterDefinition'' errorFactory) (\<lambda>obj.
     rbind (expectOnlyAllowedKeys obj [''version'', ''effortLevels'', ''tags''] ''filterDefinition'' errorFactory) (\<lambda>_.
     if map_of obj ''version'' \<noteq> Some (JNum (num 2)) then Inl (errorFactory ''filterDefinition version must be 2'')
     else rbind (normalizeDeckTags (map_of obj ''tags'') ''filterDefinition tags'' errorFactory) (\<lambda>tags.
       rbind (normalizeLegacyDeckEffortLevels (map_of obj ''effortLevels'') ''filterDefinition effortLevels'' errorFactory)
         (\<lambda>effortLevels. Inr (normalizeDeckFilterDefinitionValues tags effortLevels)))))"

definition normalizeTypedDeckFilterDefinition :: "CloudDeckFilter \<Rightarrow> CloudDeckFilter result" where
  "normalizeTypedDeckFilterDefinition f =
     rbind (normalizeDeckTags (Some (JArr (map JStr (df_tags f)))) ''filterDefinition tags'' createRequestError)
       (\<lambda>tags. Inr (normalizeDeckFilterDefinitionValues tags []))"

text \<open>\<open>JSON.stringify\<close> of a filter definition, as the column of type \<open>jsonb\<close> gives it back.\<close>

definition filter_json :: "CloudDeckFilter \<Rightarrow> js_value" where
  "filter_json f = JObj [(''version'', JNum (num 2)), (''tags'', JArr (map JStr (df_tags f)))]"

section \<open>Decks\<close>

definition mapDeck :: "stored_deck \<Rightarrow> CloudDeck result" where
  "mapDeck row = rbind (parseDeckFilterDefinitionWithFactory (d_filter_definition row) stored_filter_error) (\<lambda>f.
     rbind (to_iso_string (d_created_at row)) (\<lambda>created.
     rbind (to_iso_string (d_client_updated_at row)) (\<lambda>stamp.
     rbind (to_iso_string (d_updated_at row)) (\<lambda>updated.
     rbind (optional_iso (d_deleted_at row)) (\<lambda>removed.
     Inr \<lparr>e_deckId = d_deck_id row, e_workspaceId = d_workspace_id row, e_name = d_name row, e_filterDefinition = f,
       e_createdAt = created, e_clientUpdatedAt = stamp, e_replicaId = d_replica_id row,
       e_operationId = d_operation_id row, e_updatedAt = updated, e_deletedAt = removed\<rparr>)))))"

definition normalizeDeckMutationMetadata :: "(string \<Rightarrow> js_date) \<Rightarrow> LwwMetadata \<Rightarrow> LwwMetadata result" where
  "normalizeDeckMutationMetadata p md = rbind (normalizeIsoTimestamp p (clientUpdatedAt md) ''clientUpdatedAt'')
     (\<lambda>stamp. Inr \<lparr>clientUpdatedAt = stamp, lastModifiedByReplicaId = lastModifiedByReplicaId md,
       lastOperationId = lastOperationId md\<rparr>)"

definition toDeckLwwMetadata :: "CloudDeck \<Rightarrow> LwwMetadata" where
  "toDeckLwwMetadata deck = \<lparr>clientUpdatedAt = e_clientUpdatedAt deck, lastModifiedByReplicaId = e_replicaId deck,
     lastOperationId = e_operationId deck\<rparr>"

definition recordDeckSyncChange ::
    "(string \<Rightarrow> js_date) \<Rightarrow> sync_store \<Rightarrow> string \<Rightarrow> HotChangeWriteLock \<Rightarrow> CloudDeck \<Rightarrow> (int \<times> sync_store) result" where
  "recordDeckSyncChange p st workspaceId lock deck = insertSyncChange p st workspaceId lock DeckEntity (e_deckId deck)
     Upsert (e_replicaId deck) (e_operationId deck) (e_clientUpdatedAt deck)"

definition normalizeDeckSnapshotInput :: "(string \<Rightarrow> js_date) \<Rightarrow> DeckSnapshotInput \<Rightarrow> DeckSnapshotInput result" where
  "normalizeDeckSnapshotInput p input =
     rbind (normalizeTypedDeckFilterDefinition (di_filterDefinition input)) (\<lambda>f.
     rbind (normalizeIsoTimestamp p (di_createdAt input) ''createdAt'') (\<lambda>created.
     rbind (optional_timestamp p (di_deletedAt input) ''deletedAt'') (\<lambda>removed.
     Inr (input\<lparr>di_filterDefinition := f, di_createdAt := created, di_deletedAt := removed\<rparr>))))"

definition normalizeDeckName :: "string \<Rightarrow> string result" where
  "normalizeDeckName name = expectNonEmptyString name ''name'' createRequestError"

text \<open>The inputs of a creation and of a change have the same fields and the same rules.\<close>

definition normalizeCreateDeckInput :: "CreateDeckInput \<Rightarrow> CreateDeckInput result" where
  "normalizeCreateDeckInput input = rbind (normalizeDeckName (dc_name input)) (\<lambda>name.
     rbind (normalizeTypedDeckFilterDefinition (dc_filterDefinition input)) (\<lambda>f.
     Inr \<lparr>dc_name = name, dc_filterDefinition = f\<rparr>))"

definition validateDeckBatchCount :: "nat \<Rightarrow> unit result" where
  "validateDeckBatchCount n =
     (if n < 1 then Inl (createRequestError ''Deck batch must contain at least one item'')
      else if n > MAX_DECK_BATCH_SIZE then Inl (createRequestError ''Deck batch must contain at most 100 items'')
      else Inr ())"

definition validateUniqueDeckIds :: "string list \<Rightarrow> unit result" where
  "validateUniqueDeckIds deckIds = throw_if (card (set deckIds) \<noteq> length deckIds)
     (createRequestError ''Deck batch must not contain duplicate deckId values'')"

section \<open>Snapshots\<close>

definition is_deck :: "string \<Rightarrow> string \<Rightarrow> stored_deck \<Rightarrow> bool" where
  "is_deck workspaceId deckId row \<longleftrightarrow> d_workspace_id row = workspaceId \<and> d_deck_id row = deckId"

definition deck_row :: "cloud_env \<Rightarrow> string \<Rightarrow> DeckSnapshotInput \<Rightarrow> LwwMetadata \<Rightarrow> stored_deck" where
  "deck_row e workspaceId input metadata = (let date = new_date_text (env_parse e) in
     \<lparr>d_workspace_id = workspaceId, d_deck_id = di_deckId input, d_name = di_name input,
      d_filter_definition = filter_json (di_filterDefinition input), d_created_at = date (di_createdAt input),
      d_client_updated_at = date (clientUpdatedAt metadata), d_replica_id = lastModifiedByReplicaId metadata,
      d_operation_id = lastOperationId metadata, d_updated_at = env_now e,
      d_deleted_at = map_option date (di_deletedAt input)\<rparr>)"

definition put_deck :: "string \<Rightarrow> string \<Rightarrow> stored_deck \<Rightarrow> cloud_db \<Rightarrow> cloud_db" where
  "put_deck workspaceId deckId row db =
     db\<lparr>cd_decks := map (\<lambda>r. if is_deck workspaceId deckId r then row else r) (cd_decks db)\<rparr>"

definition applied_deck ::
    "cloud_env \<Rightarrow> string \<Rightarrow> HotChangeWriteLock \<Rightarrow> stored_deck \<Rightarrow> cloud_db \<Rightarrow> (DeckMutationResult \<times> cloud_db) result" where
  "applied_deck e workspaceId lock row db = rbind (mapDeck row) (\<lambda>deck.
     rbind (recordDeckSyncChange (env_parse e) (cd_sync db) workspaceId lock deck) (\<lambda>(changeId, sync).
     Inr (\<lparr>dr_deck = deck, dr_applied = True, dr_changeId = Some changeId\<rparr>, with_sync sync db)))"

text \<open>The \<open>UPDATE\<close> writes every column but the key, so its row is that of the insert.\<close>

definition update_deck_snapshot ::
    "cloud_env \<Rightarrow> cloud_db \<Rightarrow> string \<Rightarrow> HotChangeWriteLock \<Rightarrow> stored_deck \<Rightarrow> DeckSnapshotInput \<Rightarrow> LwwMetadata
     \<Rightarrow> (DeckMutationResult \<times> cloud_db) result" where
  "update_deck_snapshot e db workspaceId lock existingRow input metadata =
     rbind (mapDeck existingRow) (\<lambda>existingDeck.
     if \<not> incomingLwwMetadataWins (env_parse e) metadata (toDeckLwwMetadata existingDeck)
     then Inr (\<lparr>dr_deck = existingDeck, dr_applied = False,
       dr_changeId = findLatestSyncChangeId (cd_sync db) workspaceId DeckEntity (e_deckId existingDeck)\<rparr>, db)
     else let row = deck_row e workspaceId input metadata
       in applied_deck e workspaceId lock row (put_deck workspaceId (di_deckId input) row db))"

text \<open>\<open>INSERT ... ON CONFLICT DO NOTHING\<close>, and what follows a skipped insert.\<close>

definition insert_deck_snapshot ::
    "cloud_env \<Rightarrow> cloud_db \<Rightarrow> string \<Rightarrow> HotChangeWriteLock \<Rightarrow> DeckSnapshotInput \<Rightarrow> LwwMetadata
     \<Rightarrow> (DeckMutationResult \<times> cloud_db) result" where
  "insert_deck_snapshot e db workspaceId lock input metadata = (let row = deck_row e workspaceId input metadata in
     if \<not> list_ex (\<lambda>r. d_deck_id r = di_deckId input) (cd_decks db)
     then applied_deck e workspaceId lock row (db\<lparr>cd_decks := cd_decks db @ [row]\<rparr>)
     else case findSyncConflictWorkspaceIdInExecutor db ConflictDeck (di_deckId input) of
         None \<Rightarrow> Inl (Error (''Deck insert was skipped but no conflicting workspace was found for '' @ di_deckId input))
       | Some conflictingWorkspaceId \<Rightarrow>
         if conflictingWorkspaceId \<noteq> workspaceId then Inl createSyncConflictHttpError
         else (case find (is_deck workspaceId (di_deckId input)) (cd_decks db) of
             None \<Rightarrow> Inl (Error (''Deck insert was skipped but the current workspace row was not found for '' @ di_deckId input))
           | Some existingRow \<Rightarrow> update_deck_snapshot e db workspaceId lock existingRow input metadata))"

definition upsertDeckSnapshotInExecutor ::
    "cloud_env \<Rightarrow> cloud_db \<Rightarrow> string \<Rightarrow> DeckSnapshotInput \<Rightarrow> LwwMetadata \<Rightarrow> (DeckMutationResult \<times> cloud_db) result" where
  "upsertDeckSnapshotInExecutor e db workspaceId input metadata =
     rbind (lockWorkspaceSyncMetadataForHotChangesInExecutor (cd_sync db) workspaceId) (\<lambda>(lock, sync).
     let db = with_sync sync db in
     rbind (normalizeDeckSnapshotInput (env_parse e) input) (\<lambda>input.
     rbind (normalizeDeckMutationMetadata (env_parse e) metadata) (\<lambda>metadata.
     case find (is_deck workspaceId (di_deckId input)) (cd_decks db) of
       Some existingRow \<Rightarrow> update_deck_snapshot e db workspaceId lock existingRow input metadata
     | None \<Rightarrow> insert_deck_snapshot e db workspaceId lock input metadata)))"

section \<open>Single decks\<close>

definition live_deck :: "cloud_db \<Rightarrow> string \<Rightarrow> string \<Rightarrow> stored_deck result" where
  "live_deck db workspaceId deckId =
     (case find (\<lambda>r. is_deck workspaceId deckId r \<and> d_deleted_at r = None) (cd_decks db) of
        None \<Rightarrow> Inl (HttpError 404 ''Deck not found'' None) | Some row \<Rightarrow> Inr row)"

definition createDeckInExecutor ::
    "cloud_env \<Rightarrow> string \<Rightarrow> cloud_db \<Rightarrow> string \<Rightarrow> CreateDeckInput \<Rightarrow> LwwMetadata \<Rightarrow> (CloudDeck \<times> cloud_db) result" where
  "createDeckInExecutor e newId db workspaceId input metadata =
     rbind (normalizeCreateDeckInput input) (\<lambda>input.
     rbind (normalizeIsoTimestamp (env_parse e) (clientUpdatedAt metadata) ''clientUpdatedAt'') (\<lambda>stamp.
     rbind (upsertDeckSnapshotInExecutor e db workspaceId \<lparr>di_deckId = newId, di_name = dc_name input,
         di_filterDefinition = dc_filterDefinition input, di_createdAt = stamp, di_deletedAt = None\<rparr> metadata)
       (\<lambda>(r, db). Inr (dr_deck r, db))))"

definition updateDeckInExecutor ::
    "cloud_env \<Rightarrow> cloud_db \<Rightarrow> string \<Rightarrow> string \<Rightarrow> CreateDeckInput \<Rightarrow> LwwMetadata \<Rightarrow> (CloudDeck \<times> cloud_db) result" where
  "updateDeckInExecutor e db workspaceId deckId input metadata =
     rbind (live_deck db workspaceId deckId) (\<lambda>row.
     rbind (mapDeck row) (\<lambda>existingDeck.
     rbind (normalizeCreateDeckInput input) (\<lambda>input.
     rbind (upsertDeckSnapshotInExecutor e db workspaceId \<lparr>di_deckId = deckId, di_name = dc_name input,
         di_filterDefinition = dc_filterDefinition input, di_createdAt = e_createdAt existingDeck,
         di_deletedAt = None\<rparr> metadata)
       (\<lambda>(r, db). Inr (dr_deck r, db)))))"

definition deleteDeckInExecutor ::
    "cloud_env \<Rightarrow> cloud_db \<Rightarrow> string \<Rightarrow> string \<Rightarrow> LwwMetadata \<Rightarrow> (CloudDeck \<times> cloud_db) result" where
  "deleteDeckInExecutor e db workspaceId deckId metadata =
     rbind (lockWorkspaceSyncMetadataForHotChangesInExecutor (cd_sync db) workspaceId) (\<lambda>(_, sync).
     let db = with_sync sync db in
     rbind (live_deck db workspaceId deckId) (\<lambda>row.
     rbind (mapDeck row) (\<lambda>existingDeck.
     rbind (normalizeDeckMutationMetadata (env_parse e) metadata) (\<lambda>metadata.
     rbind (upsertDeckSnapshotInExecutor e db workspaceId \<lparr>di_deckId = deckId, di_name = e_name existingDeck,
         di_filterDefinition = e_filterDefinition existingDeck, di_createdAt = e_createdAt existingDeck,
         di_deletedAt = Some (clientUpdatedAt metadata)\<rparr> metadata)
       (\<lambda>(r, db). Inr (dr_deck r, db))))))"

section \<open>Batches\<close>

definition createDecks ::
    "cloud_env \<Rightarrow> cloud_db \<Rightarrow> string \<Rightarrow> (string \<times> CreateDeckInput \<times> LwwMetadata) list \<Rightarrow> (CloudDeck list \<times> cloud_db) result" where
  "createDecks e db workspaceId items = rbind (validateDeckBatchCount (length items)) (\<lambda>_.
     each_r (\<lambda>(newId, input, metadata) db. createDeckInExecutor e newId db workspaceId input metadata) items db)"

definition updateDecks ::
    "cloud_env \<Rightarrow> cloud_db \<Rightarrow> string \<Rightarrow> (string \<times> CreateDeckInput \<times> LwwMetadata) list \<Rightarrow> (CloudDeck list \<times> cloud_db) result" where
  "updateDecks e db workspaceId items = rbind (validateDeckBatchCount (length items)) (\<lambda>_.
     rbind (validateUniqueDeckIds (map fst items)) (\<lambda>_.
     each_r (\<lambda>(deckId, input, metadata) db. updateDeckInExecutor e db workspaceId deckId input metadata) items db))"

definition deleteDecks ::
    "cloud_env \<Rightarrow> cloud_db \<Rightarrow> string \<Rightarrow> (string \<times> LwwMetadata) list \<Rightarrow> ((string list \<times> nat) \<times> cloud_db) result" where
  "deleteDecks e db workspaceId items = rbind (validateDeckBatchCount (length items)) (\<lambda>_.
     rbind (validateUniqueDeckIds (map fst items)) (\<lambda>_.
     rbind (each_r (\<lambda>(deckId, metadata) db. deleteDeckInExecutor e db workspaceId deckId metadata) items db)
       (\<lambda>(deletedDecks, db). Inr ((map e_deckId deletedDecks, length deletedDecks), db))))"

end
