(* ===== verification/CloudReviews.thy ===== *)
theory CloudReviews
  imports CloudDecks
begin

text \<open>
  Review events (\<open>cards/review/reviews.ts\<close>, \<open>progress/activeReviewDays/activeReviewDays.ts\<close>,
  \<open>community/reviewActivityFacts.ts\<close>): appending an event once, the day it makes active, the fact it
  leaves for the public activity, and the transaction of a submitted review with its event, its card
  and its change. The analytics the events are reported to are left out.
\<close>

record ReviewEvent =
  re_reviewEventId :: string
  re_workspaceId :: string
  re_cardId :: string
  re_replicaId :: string
  re_clientEventId :: string
  re_rating :: int
  re_reviewedAtClient :: string
  re_reviewedAtServer :: string
  re_reviewedTimeZone :: "string option"

record ReviewEventAppendResult =
  ra_reviewEvent :: ReviewEvent
  ra_applied :: bool

definition mapReviewHistoryItem :: "stored_review \<Rightarrow> ReviewEvent result" where
  "mapReviewHistoryItem row = rbind (to_iso_string (v_reviewed_at_client row)) (\<lambda>c.
     rbind (to_iso_string (v_reviewed_at_server row)) (\<lambda>s.
     Inr \<lparr>re_reviewEventId = v_review_event_id row, re_workspaceId = v_workspace_id row, re_cardId = v_card_id row,
       re_replicaId = v_replica_id row, re_clientEventId = v_client_event_id row, re_rating = v_rating row,
       re_reviewedAtClient = c, re_reviewedAtServer = s, re_reviewedTimeZone = v_time_zone row\<rparr>))"

section \<open>Active days\<close>

record ReviewActiveDayWriteInput =
  w_reviewEventId :: string
  w_reviewedByUserId :: string
  w_reviewedAtClient :: string
  w_reviewedTimeZone :: "string option"
  w_fallbackProgressTimeZone :: "string option"

record ReviewActiveDayWriteResult =
  wr_reviewedLocalDate :: "string option"
  wr_reviewedTimeZone :: "string option"
  wr_reviewedTimeZoneSource :: "ReviewTimeZoneSource option"

definition requireIanaTimeZone :: "cloud_env \<Rightarrow> string \<Rightarrow> string \<Rightarrow> string result" where
  "requireIanaTimeZone e v fieldName = (if trim v = [] then Inl (Error (fieldName @ '' is required''))
     else if env_zone e (trim v) then Inr (trim v)
     else Inl (Error (fieldName @ '' must be a valid IANA timezone'')))"

definition parseReviewedAtClient :: "cloud_env \<Rightarrow> string \<Rightarrow> string \<Rightarrow> js_date result" where
  "parseReviewedAtClient e v reviewEventId = (let d = new_date_text (env_parse e) v in
     if get_time d = NaN
     then Inl (Error (''reviewedAtClient must be a valid ISO timestamp for reviewEventId='' @ reviewEventId))
     else Inr d)"

definition selectReviewTimeZone ::
    "cloud_env \<Rightarrow> ReviewActiveDayWriteInput \<Rightarrow> (string \<times> ReviewTimeZoneSource) option result" where
  "selectReviewTimeZone e input = (case w_reviewedTimeZone input of
     Some z \<Rightarrow> rbind (requireIanaTimeZone e z ''reviewedTimeZone'') (\<lambda>z. Inr (Some (z, ClientZone)))
   | None \<Rightarrow> (case w_fallbackProgressTimeZone input of
       Some z \<Rightarrow> rbind (requireIanaTimeZone e z ''progressTimeZone'') (\<lambda>z. Inr (Some (z, UserSettingsZone)))
     | None \<Rightarrow> Inr None))"

definition updateReviewEventReviewTimeZoneInExecutor ::
    "cloud_db \<Rightarrow> ReviewActiveDayWriteInput \<Rightarrow> string \<Rightarrow> string \<times> ReviewTimeZoneSource \<Rightarrow> cloud_db result" where
  "updateReviewEventReviewTimeZoneInExecutor db input reviewedLocalDate selected = (let
     mine = (\<lambda>r. v_review_event_id r = w_reviewEventId input \<and> v_reviewed_by r = w_reviewedByUserId input)
   in if \<not> list_ex mine (cd_reviews db)
      then Inl (Error (''Review event timezone update did not return a row for reviewEventId='' @ w_reviewEventId input))
      else Inr (db\<lparr>cd_reviews := map (\<lambda>r. if mine r then r\<lparr>v_time_zone := Some (fst selected),
        v_local_date := Some reviewedLocalDate, v_zone_source := Some (snd selected)\<rparr> else r) (cd_reviews db)\<rparr>))"

text \<open>Stored instants are valid dates; \<open>LEAST\<close> and \<open>GREATEST\<close> compare them.\<close>

fun instant :: "js_date \<Rightarrow> int" where
  "instant (Date t) = t"
| "instant InvalidDate = 0"

definition is_day :: "string \<Rightarrow> string \<Rightarrow> active_day \<Rightarrow> bool" where
  "is_day user localDate r \<longleftrightarrow> a_user r = user \<and> a_local_date r = localDate"

definition count_review :: "js_date \<Rightarrow> string \<times> ReviewTimeZoneSource \<Rightarrow> active_day \<Rightarrow> active_day" where
  "count_review reviewedAt selected r = (let earlier = instant reviewedAt < instant (a_first r) in
     r\<lparr>a_review_count := a_review_count r + 1,
      a_first := (if earlier then reviewedAt else a_first r),
      a_last := (if instant (a_last r) < instant reviewedAt then reviewedAt else a_last r),
      a_time_zone := (if earlier then fst selected else a_time_zone r),
      a_zone_source := (if earlier then snd selected else a_zone_source r)\<rparr>)"

definition upsertUserActiveReviewDayInExecutor ::
    "cloud_db \<Rightarrow> ReviewActiveDayWriteInput \<Rightarrow> js_date \<Rightarrow> string \<Rightarrow> string \<times> ReviewTimeZoneSource \<Rightarrow> cloud_db" where
  "upsertUserActiveReviewDayInExecutor db input reviewedAt reviewedLocalDate selected = (let
     mine = is_day (w_reviewedByUserId input) reviewedLocalDate
   in if list_ex mine (cd_days db)
      then db\<lparr>cd_days := map (\<lambda>r. if mine r then count_review reviewedAt selected r else r) (cd_days db)\<rparr>
      else db\<lparr>cd_days := cd_days db @ [\<lparr>a_user = w_reviewedByUserId input, a_local_date = reviewedLocalDate,
        a_review_count = 1, a_first = reviewedAt, a_last = reviewedAt, a_time_zone = fst selected,
        a_zone_source = snd selected\<rparr>]\<rparr>)"

definition storeActiveReviewDayForReviewEventInExecutor ::
    "cloud_env \<Rightarrow> cloud_db \<Rightarrow> ReviewActiveDayWriteInput \<Rightarrow> (ReviewActiveDayWriteResult \<times> cloud_db) result" where
  "storeActiveReviewDayForReviewEventInExecutor e db input = rbind (selectReviewTimeZone e input) (\<lambda>selected.
     case selected of
       None \<Rightarrow> Inr (\<lparr>wr_reviewedLocalDate = None, wr_reviewedTimeZone = None, wr_reviewedTimeZoneSource = None\<rparr>, db)
     | Some selected \<Rightarrow>
       rbind (parseReviewedAtClient e (w_reviewedAtClient input) (w_reviewEventId input)) (\<lambda>reviewedAt.
       let reviewedLocalDate = env_local_date e reviewedAt (fst selected) in
       rbind (updateReviewEventReviewTimeZoneInExecutor db input reviewedLocalDate selected) (\<lambda>db.
       Inr (\<lparr>wr_reviewedLocalDate = Some reviewedLocalDate, wr_reviewedTimeZone = Some (fst selected),
          wr_reviewedTimeZoneSource = Some (snd selected)\<rparr>,
         upsertUserActiveReviewDayInExecutor db input reviewedAt reviewedLocalDate selected))))"

section \<open>Activity facts\<close>

definition QUALIFIED_REVIEWS_METRIC_VERSION :: string where
  "QUALIFIED_REVIEWS_METRIC_VERSION = ''qualified_reviews_v1''"

definition classifyQualifiedReviewActivity :: "int \<Rightarrow> bool \<times> string option" where
  "classifyQualifiedReviewActivity rating = (if rating = 0 then (False, Some ''again'') else (True, None))"

definition recordQualifiedReviewActivityFactInExecutor :: "cloud_env \<Rightarrow> cloud_db \<Rightarrow> ReviewEvent \<Rightarrow> cloud_db" where
  "recordQualifiedReviewActivityFactInExecutor e db input = (let
     (isCountable, exclusionReason) = classifyQualifiedReviewActivity (re_rating input);
     fact = \<lparr>f_review_event_id = re_reviewEventId input, f_metric_version = QUALIFIED_REVIEWS_METRIC_VERSION,
       f_profile = env_profile e, f_user = env_user e, f_rating = re_rating input,
       f_at_client = re_reviewedAtClient input, f_at_server = re_reviewedAtServer input,
       f_countable = isCountable, f_exclusion = exclusionReason\<rparr>
   in if list_ex (\<lambda>f. f_review_event_id f = re_reviewEventId input
        \<and> f_metric_version f = QUALIFIED_REVIEWS_METRIC_VERSION) (cd_facts db)
      then db else db\<lparr>cd_facts := cd_facts db @ [fact]\<rparr>)"

section \<open>Appending an event\<close>

definition loadProgressTimeZoneForUserInExecutor :: "cloud_db \<Rightarrow> string \<Rightarrow> string option" where
  "loadProgressTimeZoneForUserInExecutor db userId = map_of (cd_zones db) userId"

definition review_row :: "cloud_env \<Rightarrow> string \<Rightarrow> ReviewEvent \<Rightarrow> stored_review" where
  "review_row e workspaceId ev = \<lparr>v_review_event_id = re_reviewEventId ev, v_workspace_id = workspaceId,
     v_card_id = re_cardId ev, v_replica_id = re_replicaId ev, v_client_event_id = re_clientEventId ev,
     v_rating = re_rating ev, v_reviewed_at_client = new_date_text (env_parse e) (re_reviewedAtClient ev),
     v_reviewed_at_server = new_date_text (env_parse e) (re_reviewedAtServer ev), v_reviewed_by = env_user e,
     v_time_zone = None, v_local_date = None, v_zone_source = None\<rparr>"

text \<open>The two unique constraints of the table.\<close>

definition same_client_event :: "string \<Rightarrow> ReviewEvent \<Rightarrow> stored_review \<Rightarrow> bool" where
  "same_client_event workspaceId ev r \<longleftrightarrow> v_workspace_id r = workspaceId \<and> v_replica_id r = re_replicaId ev
     \<and> v_client_event_id r = re_clientEventId ev"

definition review_conflicts :: "string \<Rightarrow> ReviewEvent \<Rightarrow> stored_review \<Rightarrow> bool" where
  "review_conflicts workspaceId ev r \<longleftrightarrow> v_review_event_id r = re_reviewEventId ev \<or> same_client_event workspaceId ev r"

text \<open>
  The constraints of the table that an insert can violate: the rating is one of the four, and the card
  exists. \<open>None\<close> is a row the insert skipped.
\<close>

definition insert_review :: "cloud_env \<Rightarrow> cloud_db \<Rightarrow> string \<Rightarrow> ReviewEvent \<Rightarrow> (stored_review option \<times> cloud_db) result" where
  "insert_review e db workspaceId ev =
     (if \<not> (0 \<le> re_rating ev \<and> re_rating ev \<le> 3) then Inl (Error ''new row violates check constraint'')
      else if list_ex (review_conflicts workspaceId ev) (cd_reviews db) then Inr (None, db)
      else if \<not> list_ex (\<lambda>r. k_card_id r = re_cardId ev) (cd_cards db)
      then Inl (Error ''insert violates foreign key constraint'')
      else Inr (Some (review_row e workspaceId ev), db\<lparr>cd_reviews := cd_reviews db @ [review_row e workspaceId ev]\<rparr>))"

text \<open>\<open>ORDER BY reviewed_at_server DESC LIMIT 1\<close>.\<close>

definition latest_review :: "stored_review list \<Rightarrow> stored_review option" where
  "latest_review rs = (case rs of [] \<Rightarrow> None
     | r # rs \<Rightarrow> Some (foldl (\<lambda>a b. if instant (v_reviewed_at_server a) < instant (v_reviewed_at_server b) then b else a) r rs))"

definition stored_review_for :: "cloud_db \<Rightarrow> string \<Rightarrow> ReviewEvent \<Rightarrow> stored_review option" where
  "stored_review_for db workspaceId ev = latest_review (filter (\<lambda>r. v_workspace_id r = workspaceId
     \<and> (v_review_event_id r = re_reviewEventId ev
        \<or> v_replica_id r = re_replicaId ev \<and> v_client_event_id r = re_clientEventId ev)) (cd_reviews db))"

definition appended_review ::
    "cloud_env \<Rightarrow> cloud_db \<Rightarrow> ReviewEvent \<Rightarrow> stored_review \<Rightarrow> (ReviewEventAppendResult \<times> cloud_db) result" where
  "appended_review e db ev row = rbind (mapReviewHistoryItem row) (\<lambda>inserted. let
     fallbackProgressTimeZone = (if re_reviewedTimeZone ev = None
       then loadProgressTimeZoneForUserInExecutor db (env_user e) else None)
   in rbind (storeActiveReviewDayForReviewEventInExecutor e db
       \<lparr>w_reviewEventId = re_reviewEventId inserted, w_reviewedByUserId = env_user e,
        w_reviewedAtClient = re_reviewedAtClient inserted, w_reviewedTimeZone = re_reviewedTimeZone ev,
        w_fallbackProgressTimeZone = fallbackProgressTimeZone\<rparr>) (\<lambda>(activeDayWrite, db).
     Inr (\<lparr>ra_reviewEvent = inserted\<lparr>re_reviewedTimeZone := wr_reviewedTimeZone activeDayWrite\<rparr>, ra_applied = True\<rparr>,
       recordQualifiedReviewActivityFactInExecutor e db inserted)))"

definition appendReviewEventSnapshotInExecutor ::
    "cloud_env \<Rightarrow> cloud_db \<Rightarrow> string \<Rightarrow> ReviewEvent \<Rightarrow> string \<Rightarrow> (ReviewEventAppendResult \<times> cloud_db) result" where
  "appendReviewEventSnapshotInExecutor e db workspaceId ev operationId =
     rbind (insert_review e db workspaceId ev) (\<lambda>(insertedRow, db).
     case insertedRow of
       Some row \<Rightarrow> appended_review e db ev row
     | None \<Rightarrow> (let conflictingWorkspaceId =
           findSyncConflictWorkspaceIdInExecutor db ConflictReviewEvent (re_reviewEventId ev)
         in if conflictingWorkspaceId \<noteq> None \<and> conflictingWorkspaceId \<noteq> Some workspaceId
         then Inl createSyncConflictHttpError
         else case stored_review_for db workspaceId ev of
             None \<Rightarrow> Inl (Error (''Review event insert deduped but no stored review event was found for '' @ operationId))
           | Some existingRow \<Rightarrow> rbind (mapReviewHistoryItem existingRow) (\<lambda>existing.
               Inr (\<lparr>ra_reviewEvent = existing, ra_applied = False\<rparr>, db))))"

section \<open>Submitting a review\<close>

record CloudSubmitReviewInput =
  si_cardId :: string
  si_rating :: ReviewRating
  si_reviewedAtClient :: string
  si_reviewedTimeZone :: "string option"
  si_reviewEventId :: "string option"
  si_clientEventId :: "string option"

fun submitted_rating :: "ReviewRating \<Rightarrow> int" where
  "submitted_rating Again = 0"
| "submitted_rating Hard = 1"
| "submitted_rating Good = 2"
| "submitted_rating Easy = 3"

text \<open>The columns of a card the scheduler reads.\<close>

definition reviewable_row :: "stored_card \<Rightarrow> CardRow" where
  "reviewable_row row = \<lparr>card_id = k_card_id row, due_at = k_due_at row, r_reps = k_reps row, r_lapses = k_lapses row,
     fsrs_card_state = k_state row, fsrs_step_index = k_step_index row, fsrs_stability = k_stability row,
     fsrs_difficulty = k_difficulty row, fsrs_last_reviewed_at = k_last_reviewed_at row,
     fsrs_scheduled_days = k_scheduled_days row, client_updated_at = [], last_modified_by_replica_id = k_replica_id row,
     last_operation_id = k_operation_id row, deleted = (k_deleted_at row \<noteq> None)\<rparr>"

definition scheduled_card_row :: "cloud_env \<Rightarrow> ReviewSchedule \<Rightarrow> LwwMetadata \<Rightarrow> stored_card \<Rightarrow> stored_card" where
  "scheduled_card_row e schedule metadata row = stamp_card e metadata (row\<lparr>k_due_at := Some (s_dueAt schedule),
     k_reps := s_reps schedule, k_lapses := s_lapses schedule, k_state := s_state schedule,
     k_step_index := s_stepIndex schedule, k_stability := Some (s_stability schedule),
     k_difficulty := Some (s_difficulty schedule), k_last_reviewed_at := Some (s_lastReviewedAt schedule),
     k_scheduled_days := Some (s_scheduledDays schedule)\<rparr>)"

definition option_default :: "'a \<Rightarrow> 'a option \<Rightarrow> 'a" where
  "option_default d v = (case v of None \<Rightarrow> d | Some x \<Rightarrow> x)"

text \<open>\<open>newIds\<close> are the identifiers \<open>randomUUID()\<close> gives for a missing event and client event.\<close>

definition submitReview ::
    "js_math \<Rightarrow> cloud_env \<Rightarrow> string \<times> string \<Rightarrow> cloud_db \<Rightarrow> string \<Rightarrow> string \<Rightarrow> CloudSubmitReviewInput \<Rightarrow> LwwMetadata
     \<Rightarrow> ((CloudCard \<times> string) \<times> cloud_db) result" where
  "submitReview m e newIds db workspaceId replicaId input metadata = (let
     reviewedAtClient = new_date_text (env_parse e) (si_reviewedAtClient input)
   in if get_time reviewedAtClient = NaN
      then Inl (HttpError 400 ''reviewedAtClient must be a valid ISO timestamp'' None)
      else
      rbind (normalizeCardMutationMetadata (env_parse e) metadata) (\<lambda>metadata.
      rbind (lockWorkspaceSyncMetadataForHotChangesInExecutor (cd_sync db) workspaceId) (\<lambda>(lock, sync).
      let db = with_sync sync db;
          candidates = filter (is_card workspaceId (si_cardId input)) (cd_cards db)
      in rbind (loadReviewableCardForUpdate (map (\<lambda>r. (si_cardId input, reviewable_row r)) candidates) (si_cardId input))
        (\<lambda>existingCard.
      rbind (getWorkspaceSchedulerConfig (cd_settings db) workspaceId) (\<lambda>schedulerConfig.
      rbind (computeReviewSchedule m (toReviewableCardScheduleState existingCard) schedulerConfig (si_rating input)
          reviewedAtClient) (\<lambda>schedule.
      rbind (to_iso_string reviewedAtClient) (\<lambda>atClient.
      rbind (to_iso_string (env_clock e)) (\<lambda>atServer.
      rbind (appendReviewEventSnapshotInExecutor e db workspaceId
          \<lparr>re_reviewEventId = option_default (fst newIds) (si_reviewEventId input), re_workspaceId = workspaceId,
           re_cardId = si_cardId input, re_replicaId = replicaId,
           re_clientEventId = option_default (snd newIds) (si_clientEventId input),
           re_rating = submitted_rating (si_rating input), re_reviewedAtClient = atClient,
           re_reviewedAtServer = atServer, re_reviewedTimeZone = si_reviewedTimeZone input\<rparr>
          (lastOperationId metadata)) (\<lambda>(_, db).
      case loadCardRowForMutation db workspaceId (si_cardId input) of
        None \<Rightarrow> Inl (Error ''Card review update did not return a row'')
      | Some row \<Rightarrow> (let row = scheduled_card_row e schedule metadata row in
          rbind (applied_card e workspaceId lock row (put_card workspaceId (si_cardId input) row db)) (\<lambda>(r, db).
          rbind (to_iso_string (s_dueAt schedule)) (\<lambda>nextDueAt. Inr ((cr_card r, nextDueAt), db)))))))))))))"

end
