(* ===== verification/SyncPush.thy ===== *)
theory SyncPush
  imports CloudReviews
begin

text \<open>
  A push of operations (\<open>sync/replication/push.ts\<close>, \<open>sync/contracts/snapshots.ts\<close>): each operation of a
  batch is applied once, in order, in one transaction, and recorded in the ledger that tells the
  operations of a repeated batch. Registering the installation the batch comes from, and the
  analytics, are left out.
\<close>

section \<open>Operations\<close>

text \<open>The payload of a card may carry the legacy effort level, that of a deck legacy effort levels.\<close>

record CardSnapshotPayload =
  cp_snapshot :: CardSnapshotInput
  cp_effortLevel :: "LegacyEffortLevel option"

record DeckSnapshotPayload =
  dp_snapshot :: DeckSnapshotInput
  dp_effortLevels :: "LegacyEffortLevel list"

record ReviewEventPayload =
  rp_reviewEventId :: string
  rp_cardId :: string
  rp_clientEventId :: string
  rp_rating :: int
  rp_reviewedAtClient :: string
  rp_reviewedTimeZone :: "string option"

datatype SyncPushPayload =
    CardUpsert CardSnapshotPayload
  | DeckUpsert DeckSnapshotPayload
  | SettingsUpsert WorkspaceSchedulerSettingsSnapshotInput
  | MediaUpsert string string
  | ReviewAppend ReviewEventPayload

record PushedOperation =
  p_operationId :: string
  p_entityId :: string
  p_clientUpdatedAt :: string
  p_payload :: SyncPushPayload

fun push_entity_type :: "SyncPushPayload \<Rightarrow> PushEntityType" where
  "push_entity_type (CardUpsert _) = EntityHot CardEntity"
| "push_entity_type (DeckUpsert _) = EntityHot DeckEntity"
| "push_entity_type (SettingsUpsert _) = EntityHot WorkspaceSchedulerSettingsEntity"
| "push_entity_type (MediaUpsert _ _) = EntityHot MediaAssetEntity"
| "push_entity_type (ReviewAppend _) = EntityReviewEvent"

datatype PushStatus = Applied | Ignored | Duplicate | Rejected

record SyncPushOperationResult =
  pr_operationId :: string
  pr_entityType :: PushEntityType
  pr_entityId :: string
  pr_status :: PushStatus
  pr_resultingHotChangeId :: "int option"
  pr_error :: "string option"

definition toCardSnapshotInput :: "CardSnapshotPayload \<Rightarrow> CardSnapshotInput" where
  "toCardSnapshotInput payload = (cp_snapshot payload)
     \<lparr>ci_cardType := map_option (\<lambda>t. normalizeCardType (Some t)) (ci_cardType (cp_snapshot payload)),
      ci_tags := appendLegacyEffortTag (ci_tags (cp_snapshot payload)) (cp_effortLevel payload)\<rparr>"

definition toDeckSnapshotInput :: "DeckSnapshotPayload \<Rightarrow> DeckSnapshotInput" where
  "toDeckSnapshotInput payload = (dp_snapshot payload)\<lparr>di_filterDefinition :=
     \<lparr>df_tags = foldl (\<lambda>tags l. appendLegacyEffortTag tags (Some l))
       (df_tags (di_filterDefinition (dp_snapshot payload))) (dp_effortLevels payload)\<rparr>\<rparr>"

text \<open>The metadata of an operation, for cards, decks and settings alike.\<close>

definition operation_metadata :: "string \<Rightarrow> PushedOperation \<Rightarrow> LwwMetadata" where
  "operation_metadata replicaId operation = \<lparr>clientUpdatedAt = p_clientUpdatedAt operation,
     lastModifiedByReplicaId = replicaId, lastOperationId = p_operationId operation\<rparr>"

section \<open>The ledger\<close>

definition is_applied :: "string \<Rightarrow> string \<Rightarrow> string \<Rightarrow> applied_operation \<Rightarrow> bool" where
  "is_applied workspaceId replicaId operationId r \<longleftrightarrow> o_workspace_id r = workspaceId \<and> o_replica_id r = replicaId
     \<and> o_operation_id r = operationId"

text \<open>\<open>SELECT DISTINCT ON (operation_id) ... ORDER BY operation_id, applied_at DESC\<close>, for one operation.\<close>

definition latest_applied :: "applied_operation list \<Rightarrow> applied_operation option" where
  "latest_applied rs = (case rs of [] \<Rightarrow> None
     | r # rs \<Rightarrow> Some (foldl (\<lambda>a b. if instant (o_applied_at a) < instant (o_applied_at b) then b else a) r rs))"

definition loadExistingAppliedOperations ::
    "cloud_db \<Rightarrow> string \<Rightarrow> string \<Rightarrow> string list \<Rightarrow> string \<Rightarrow> int option option" where
  "loadExistingAppliedOperations db workspaceId replicaId operationIds = (\<lambda>operationId.
     if \<not> List.member operationIds operationId then None
     else map_option o_hot_change_id (latest_applied (filter (is_applied workspaceId replicaId operationId) (cd_applied db))))"

text \<open>The primary key holds the time of the transaction beside workspace, replica and operation.\<close>

definition recordAppliedOperation ::
    "cloud_env \<Rightarrow> cloud_db \<Rightarrow> string \<Rightarrow> string \<Rightarrow> PushedOperation \<Rightarrow> int option \<Rightarrow> cloud_db result" where
  "recordAppliedOperation e db workspaceId replicaId operation changeId =
     rbind (normalizeIsoTimestamp (env_parse e) (p_clientUpdatedAt operation) ''clientUpdatedAt'') (\<lambda>stamp.
     if list_ex (\<lambda>r. is_applied workspaceId replicaId (p_operationId operation) r \<and> o_applied_at r = env_now e)
       (cd_applied db)
     then Inl duplicate_key
     else Inr (db\<lparr>cd_applied := cd_applied db @ [\<lparr>o_workspace_id = workspaceId, o_replica_id = replicaId,
       o_operation_id = p_operationId operation, o_entity_type = push_entity_type (p_payload operation),
       o_entity_id = p_entityId operation, o_client_updated_at = stamp, o_hot_change_id = changeId,
       o_applied_at = env_now e\<rparr>]\<rparr>))"

section \<open>One operation\<close>

definition push_result ::
    "PushedOperation \<Rightarrow> PushStatus \<Rightarrow> int option \<Rightarrow> string option \<Rightarrow> SyncPushOperationResult" where
  "push_result operation status changeId err = \<lparr>pr_operationId = p_operationId operation,
     pr_entityType = push_entity_type (p_payload operation), pr_entityId = p_entityId operation,
     pr_status = status, pr_resultingHotChangeId = changeId, pr_error = err\<rparr>"

definition mediaAssetSyncWriteRejectedMessage :: string where
  "mediaAssetSyncWriteRejectedMessage =
     ''media_asset sync writes are not accepted; use the media upload API to create or update media assets.''"

definition pushed_review :: "cloud_env \<Rightarrow> string \<Rightarrow> string \<Rightarrow> ReviewEventPayload \<Rightarrow> string \<Rightarrow> string \<Rightarrow> ReviewEvent" where
  "pushed_review e workspaceId replicaId payload atClient atServer =
     \<lparr>re_reviewEventId = rp_reviewEventId payload, re_workspaceId = workspaceId, re_cardId = rp_cardId payload,
      re_replicaId = replicaId, re_clientEventId = rp_clientEventId payload, re_rating = rp_rating payload,
      re_reviewedAtClient = atClient, re_reviewedAtServer = atServer,
      re_reviewedTimeZone = rp_reviewedTimeZone payload\<rparr>"

text \<open>
  What an operation does before it is recorded: rejected with a message, or a status, the change it
  resulted in, and the database.
\<close>

datatype push_outcome = Reject string | Outcome bool "int option" cloud_db

definition process_review ::
    "cloud_env \<Rightarrow> cloud_db \<Rightarrow> string \<Rightarrow> string \<Rightarrow> PushedOperation \<Rightarrow> ReviewEventPayload \<Rightarrow> push_outcome result" where
  "process_review e db workspaceId replicaId operation payload =
     (if p_entityId operation \<noteq> rp_reviewEventId payload
      then Inr (Reject ''review_event entityId must match payload.reviewEventId'')
      else rbind (normalizeIsoTimestamp (env_parse e) (p_clientUpdatedAt operation) ''clientUpdatedAt'') (\<lambda>stamp.
      rbind (normalizeIsoTimestamp (env_parse e) (rp_reviewedAtClient payload) ''reviewedAtClient'') (\<lambda>atClient.
      if stamp \<noteq> atClient then Inr (Reject ''review_event clientUpdatedAt must match reviewedAtClient'')
      else if loadCardRowForMutation db workspaceId (rp_cardId payload) = None
      then Inr (Reject ''review_event payload.cardId must reference an existing card'')
      else rbind (to_iso_string (env_clock e)) (\<lambda>atServer.
      rbind (appendReviewEventSnapshotInExecutor e db workspaceId
          (pushed_review e workspaceId replicaId payload atClient atServer) (p_operationId operation)) (\<lambda>(r, db).
      Inr (Outcome (ra_applied r) None db))))))"

definition process_payload ::
    "cloud_env \<Rightarrow> cloud_db \<Rightarrow> string \<Rightarrow> string \<Rightarrow> PushedOperation \<Rightarrow> push_outcome result" where
  "process_payload e db workspaceId replicaId operation = (let metadata = operation_metadata replicaId operation
   in case p_payload operation of
       CardUpsert payload \<Rightarrow>
         if p_entityId operation \<noteq> ci_cardId (cp_snapshot payload)
         then Inr (Reject ''card entityId must match payload.cardId'')
         else rbind (upsertCardSnapshotInExecutor e db workspaceId (toCardSnapshotInput payload) metadata) (\<lambda>(r, db).
           Inr (Outcome (cr_applied r) (cr_changeId r) db))
     | DeckUpsert payload \<Rightarrow>
         if p_entityId operation \<noteq> di_deckId (dp_snapshot payload)
         then Inr (Reject ''deck entityId must match payload.deckId'')
         else rbind (upsertDeckSnapshotInExecutor e db workspaceId (toDeckSnapshotInput payload) metadata) (\<lambda>(r, db).
           Inr (Outcome (dr_applied r) (dr_changeId r) db))
     | SettingsUpsert payload \<Rightarrow>
         if p_entityId operation \<noteq> workspaceId
         then Inr (Reject ''workspace_scheduler_settings entityId must match the authenticated workspaceId'')
         else rbind (applyWorkspaceSchedulerSettingsSnapshotInExecutor (env_parse e) (env_now e) (cd_settings db)
             workspaceId payload metadata) (\<lambda>(r, settings).
           Inr (Outcome (r_applied r) (r_changeId r) (db\<lparr>cd_settings := settings\<rparr>)))
     | MediaUpsert mediaAssetId mediaWorkspaceId \<Rightarrow>
         if p_entityId operation \<noteq> mediaAssetId
         then Inr (Reject ''media_asset entityId must match payload.mediaAssetId'')
         else if mediaWorkspaceId \<noteq> workspaceId
         then Inr (Reject ''media_asset payload.workspaceId must match the authenticated workspaceId'')
         else Inr (Reject mediaAssetSyncWriteRejectedMessage)
     | ReviewAppend payload \<Rightarrow> process_review e db workspaceId replicaId operation payload)"

definition processOperationInExecutor ::
    "cloud_env \<Rightarrow> string \<Rightarrow> string \<Rightarrow> PushedOperation \<Rightarrow> cloud_db \<Rightarrow> (SyncPushOperationResult \<times> cloud_db) result" where
  "processOperationInExecutor e workspaceId replicaId operation db =
     rbind (process_payload e db workspaceId replicaId operation) (\<lambda>outcome. case outcome of
       Reject message \<Rightarrow> Inr (push_result operation Rejected None (Some message), db)
     | Outcome applied changeId db \<Rightarrow> rbind (recordAppliedOperation e db workspaceId replicaId operation changeId) (\<lambda>db.
         Inr (push_result operation (if applied then Applied else Ignored) changeId None, db)))"

section \<open>A batch\<close>

text \<open>The ledger is read once, before the first operation.\<close>

definition push_one ::
    "cloud_env \<Rightarrow> string \<Rightarrow> string \<Rightarrow> (string \<Rightarrow> int option option) \<Rightarrow> PushedOperation \<Rightarrow> cloud_db
     \<Rightarrow> (SyncPushOperationResult \<times> cloud_db) result" where
  "push_one e workspaceId replicaId existing operation db = (case existing (p_operationId operation) of
     Some changeId \<Rightarrow> Inr (push_result operation Duplicate changeId None, db)
   | None \<Rightarrow> processOperationInExecutor e workspaceId replicaId operation db)"

definition processSyncPushOperationsInExecutor ::
    "cloud_env \<Rightarrow> cloud_db \<Rightarrow> string \<Rightarrow> string \<Rightarrow> PushedOperation list \<Rightarrow> (SyncPushOperationResult list \<times> cloud_db) result" where
  "processSyncPushOperationsInExecutor e db workspaceId replicaId operations = (let
     db = with_sync (ensureWorkspaceSyncMetadataInExecutor (cd_sync db) workspaceId) db;
     existing = loadExistingAppliedOperations db workspaceId replicaId (map p_operationId operations)
   in each_r (push_one e workspaceId replicaId existing) operations db)"

end
