(* ===== verification/SyncPull.thy ===== *)
theory SyncPull
  imports SyncPush
begin

text \<open>
  A pull of changes (\<open>sync/replication/hotPull.ts\<close>): the latest change of every entity after a cursor,
  a page at a time, each with the entity as it is now. Registering the installation that pulls is left
  out.
\<close>

section \<open>Payloads\<close>

text \<open>
  Cards and decks carry the legacy fields with a constant value; a media asset is as
  \<open>mediaAssets/persistence/rows.ts\<close> maps its row.
\<close>

record LegacySyncCardPayload = CloudCard +
  l_effortLevel :: LegacyEffortLevel

record MediaAsset =
  a_mediaAssetId :: string
  a_workspaceId :: string
  a_mimeType :: string
  a_sizeBytes :: int
  a_sha256 :: string
  a_sourceUrl :: "string option"
  a_createdAt :: string
  a_clientUpdatedAt :: string
  a_lastModifiedByReplicaId :: string
  a_lastOperationId :: string
  a_updatedAt :: string
  a_deletedAt :: "string option"

definition toSafeNumber :: "int \<Rightarrow> string \<Rightarrow> int result" where
  "toSafeNumber v fieldName = (if \<bar>v\<bar> \<le> 2 ^ 53 - 1 then Inr v
     else Inl (Error (fieldName @ '' must be a safe integer'')))"

definition mapMediaAssetRow :: "stored_media \<Rightarrow> MediaAsset result" where
  "mapMediaAssetRow row =
     rbind (toSafeNumber (m_size_bytes row) ''size_bytes'') (\<lambda>size.
     rbind (to_iso_string (m_created_at row)) (\<lambda>created.
     rbind (to_iso_string (m_client_updated_at row)) (\<lambda>stamp.
     rbind (to_iso_string (m_updated_at row)) (\<lambda>updated.
     rbind (optional_iso (m_deleted_at row)) (\<lambda>removed.
     Inr \<lparr>a_mediaAssetId = m_media_asset_id row, a_workspaceId = m_workspace_id row, a_mimeType = m_mime_type row,
       a_sizeBytes = size, a_sha256 = m_sha256 row, a_sourceUrl = m_source_url row, a_createdAt = created,
       a_clientUpdatedAt = stamp, a_lastModifiedByReplicaId = m_replica_id row, a_lastOperationId = m_operation_id row,
       a_updatedAt = updated, a_deletedAt = removed\<rparr>)))))"

datatype HotPayload =
    CardPayload LegacySyncCardPayload
  | DeckPayload CloudDeck "LegacyEffortLevel list"
  | SettingsPayload WorkspaceSchedulerSettings
  | MediaPayload MediaAsset

record SyncHotChange =
  h_changeId :: int
  h_entityType :: SyncEntityType
  h_entityId :: string
  h_payload :: HotPayload

record SyncPullInput =
  afterHotChangeId :: int
  pullLimit :: nat
  includeMediaAssets :: bool

record SyncPullResult =
  pullChanges :: "SyncHotChange list"
  nextHotChangeId :: int
  pullHasMore :: bool

definition toLegacySyncCardPayload :: "CloudCard \<Rightarrow> LegacySyncCardPayload" where
  "toLegacySyncCardPayload crd = CloudCard.extend crd (LegacySyncCardPayload.fields Fast)"

definition toLegacySyncDeckPayload :: "CloudDeck \<Rightarrow> HotPayload" where
  "toLegacySyncDeckPayload deck = DeckPayload deck []"

section \<open>Loading entities\<close>

text \<open>
  \<open>new Map(rows.map(...))\<close>: every row of the statement is converted, a row that cannot be fails the
  pull.
\<close>

definition loadCardsByIdsInExecutor :: "cloud_db \<Rightarrow> string \<Rightarrow> string list \<Rightarrow> (string \<times> CloudCard) list result" where
  "loadCardsByIdsInExecutor db workspaceId cardIds =
     (if cardIds = [] then Inr []
      else map_r (\<lambda>row. rbind (mapCard row) (\<lambda>crd. Inr (k_card_id row, crd)))
        (filter (\<lambda>row. k_workspace_id row = workspaceId \<and> List.member cardIds (k_card_id row)) (cd_cards db)))"

definition loadDecksByIdsInExecutor :: "cloud_db \<Rightarrow> string \<Rightarrow> string list \<Rightarrow> (string \<times> CloudDeck) list result" where
  "loadDecksByIdsInExecutor db workspaceId deckIds =
     (if deckIds = [] then Inr []
      else map_r (\<lambda>row. rbind (mapDeck row) (\<lambda>deck. Inr (d_deck_id row, deck)))
        (filter (\<lambda>row. d_workspace_id row = workspaceId \<and> List.member deckIds (d_deck_id row)) (cd_decks db)))"

definition loadMediaAssetsByIdsInExecutor :: "cloud_db \<Rightarrow> string \<Rightarrow> string list \<Rightarrow> (string \<times> MediaAsset) list result" where
  "loadMediaAssetsByIdsInExecutor db workspaceId mediaAssetIds =
     (if mediaAssetIds = [] then Inr []
      else map_r (\<lambda>row. rbind (mapMediaAssetRow row) (\<lambda>asset. Inr (m_media_asset_id row, asset)))
        (filter (\<lambda>row. m_workspace_id row = workspaceId \<and> List.member mediaAssetIds (m_media_asset_id row)) (cd_media db)))"

definition loadWorkspaceSchedulerSettingsInExecutor :: "cloud_db \<Rightarrow> string \<Rightarrow> WorkspaceSchedulerSettings result" where
  "loadWorkspaceSchedulerSettingsInExecutor db workspaceId =
     (case map_of (db_workspaces (cd_settings db)) workspaceId of
       None \<Rightarrow> Inl (Error ''Workspace scheduler settings row is missing'')
     | Some row \<Rightarrow> mapWorkspaceSchedulerSettings row)"

text \<open>The entity of a change, from the maps; the latest of equal keys is what a map keeps.\<close>

definition hot_payload ::
    "(string \<times> CloudCard) list \<Rightarrow> (string \<times> CloudDeck) list \<Rightarrow> (string \<times> MediaAsset) list
     \<Rightarrow> WorkspaceSchedulerSettings option \<Rightarrow> hot_change \<Rightarrow> HotPayload result" where
  "hot_payload cardsById decksById mediaById settings row = (let entityId = hc_entity_id row in
     case hc_entity_type row of
       CardEntity \<Rightarrow> (case map_of (rev cardsById) entityId of
           None \<Rightarrow> Inl (Error (''Hot sync card '' @ entityId @ '' is missing''))
         | Some crd \<Rightarrow> Inr (CardPayload (toLegacySyncCardPayload crd)))
     | DeckEntity \<Rightarrow> (case map_of (rev decksById) entityId of
           None \<Rightarrow> Inl (Error (''Hot sync deck '' @ entityId @ '' is missing''))
         | Some deck \<Rightarrow> Inr (toLegacySyncDeckPayload deck))
     | MediaAssetEntity \<Rightarrow> (case map_of (rev mediaById) entityId of
           None \<Rightarrow> Inl (Error (''Hot sync media asset '' @ entityId @ '' is missing''))
         | Some v \<Rightarrow> Inr (MediaPayload v))
     | WorkspaceSchedulerSettingsEntity \<Rightarrow> (case settings of
           None \<Rightarrow> Inl (Error ''Hot sync workspace scheduler settings row is missing'')
         | Some s \<Rightarrow> Inr (SettingsPayload s)))"

definition ids_of :: "SyncEntityType \<Rightarrow> hot_change list \<Rightarrow> string list" where
  "ids_of t rows = map hc_entity_id (filter (\<lambda>row. hc_entity_type row = t) rows)"

definition buildHotChangesFromRows :: "cloud_db \<Rightarrow> string \<Rightarrow> hot_change list \<Rightarrow> SyncHotChange list result" where
  "buildHotChangesFromRows db workspaceId rows =
     rbind (loadCardsByIdsInExecutor db workspaceId (ids_of CardEntity rows)) (\<lambda>cardsById.
     rbind (loadDecksByIdsInExecutor db workspaceId (ids_of DeckEntity rows)) (\<lambda>decksById.
     rbind (loadMediaAssetsByIdsInExecutor db workspaceId (ids_of MediaAssetEntity rows)) (\<lambda>mediaById.
     rbind (if list_ex (\<lambda>row. hc_entity_type row = WorkspaceSchedulerSettingsEntity) rows
         then rbind (loadWorkspaceSchedulerSettingsInExecutor db workspaceId) (\<lambda>s. Inr (Some s)) else Inr None) (\<lambda>settings.
     map_r (\<lambda>row. rbind (hot_payload cardsById decksById mediaById settings row) (\<lambda>payload.
       Inr \<lparr>h_changeId = change_id row, h_entityType = hc_entity_type row, h_entityId = hc_entity_id row,
         h_payload = payload\<rparr>)) rows))))"

section \<open>The page\<close>

text \<open>
  \<open>latest_changes\<close> of the statement: the change with the greatest identifier of each entity among
  those after the cursor; \<open>visible_page\<close> puts them in the order of their identifiers.
\<close>

definition pulled :: "string \<Rightarrow> SyncPullInput \<Rightarrow> hot_change \<Rightarrow> bool" where
  "pulled workspaceId input r \<longleftrightarrow> hc_workspace_id r = workspaceId \<and> afterHotChangeId input < change_id r
     \<and> (includeMediaAssets input \<or> hc_entity_type r \<noteq> MediaAssetEntity)"

definition is_latest :: "hot_change list \<Rightarrow> hot_change \<Rightarrow> bool" where
  "is_latest rows r \<longleftrightarrow> list_all (\<lambda>q. hc_entity_type q = hc_entity_type r \<and> hc_entity_id q = hc_entity_id r
     \<longrightarrow> change_id q \<le> change_id r) rows"

definition latest_changes :: "sync_store \<Rightarrow> string \<Rightarrow> SyncPullInput \<Rightarrow> hot_change list" where
  "latest_changes st workspaceId input = (let rows = filter (pulled workspaceId input) (hot_changes st) in
     sort_key change_id (filter (is_latest rows) rows))"

definition current_max :: "sync_store \<Rightarrow> string \<Rightarrow> int" where
  "current_max st workspaceId = (case max_change_id (filter (\<lambda>r. hc_workspace_id r = workspaceId) (hot_changes st)) of
     None \<Rightarrow> 0 | Some m \<Rightarrow> m)"

definition resolveNextHotChangeId :: "int \<Rightarrow> SyncHotChange list \<Rightarrow> int option \<Rightarrow> bool \<Rightarrow> int" where
  "resolveNextHotChangeId after changes currentMax hasMorePages =
     (if changes \<noteq> []
      then (let lastVisibleChangeId = h_changeId (last changes) in
        if hasMorePages \<or> currentMax = None then lastVisibleChangeId else max lastVisibleChangeId (the currentMax))
      else if hasMorePages then after
      else case currentMax of None \<Rightarrow> after | Some m \<Rightarrow> max after m)"

definition processSyncPull :: "cloud_db \<Rightarrow> string \<Rightarrow> SyncPullInput \<Rightarrow> (SyncPullResult \<times> cloud_db) result" where
  "processSyncPull db workspaceId input = (let
     db = with_sync (ensureWorkspaceSyncMetadataInExecutor (cd_sync db) workspaceId) db
   in rbind (loadMinAvailableHotChangeId (cd_sync db) workspaceId) (\<lambda>(minAvailable, sync).
     let db = with_sync sync db in
     if 0 < afterHotChangeId input \<and> afterHotChangeId input < minAvailable
     then Inl (HttpError 409 ''Cloud sync requires a fresh bootstrap.'' (Some ''SYNC_BOOTSTRAP_REQUIRED''))
     else let projection = take (pullLimit input + 1) (latest_changes (cd_sync db) workspaceId input);
         hasMorePages = pullLimit input < length projection;
         visibleRows = (if hasMorePages then take (pullLimit input) projection else projection)
       in rbind (buildHotChangesFromRows db workspaceId visibleRows) (\<lambda>changes. let
         currentMax = (if \<not> includeMediaAssets input \<and> \<not> hasMorePages then Some (current_max (cd_sync db) workspaceId) else None)
       in Inr (\<lparr>pullChanges = changes,
           nextHotChangeId = resolveNextHotChangeId (afterHotChangeId input) changes currentMax hasMorePages,
           pullHasMore = hasMorePages\<rparr>, db))))"

end
