(* ===== verification/SyncEvolve.thy ===== *)
theory SyncEvolve
  imports SyncPull
begin

text \<open>
  What every write promises the pull: an entity that changed has a new change in the log, and every
  entity with a change can be loaded. All operations on cards, decks, settings and reviews keep this
  promise, and so does a batch of a push.
\<close>

section \<open>Entities\<close>

datatype stored_entity =
    StoredCard stored_card
  | StoredDeck stored_deck
  | StoredSettings WorkspaceSchedulerSettingsRow
  | StoredMedia stored_media

fun entity_row :: "cloud_db \<Rightarrow> string \<Rightarrow> SyncEntityType \<Rightarrow> string \<Rightarrow> stored_entity option" where
  "entity_row db w CardEntity i = map_option StoredCard (loadCardRowForMutation db w i)"
| "entity_row db w DeckEntity i = map_option StoredDeck (find (is_deck w i) (cd_decks db))"
| "entity_row db w WorkspaceSchedulerSettingsEntity i =
     (if i = w then map_option StoredSettings (map_of (db_workspaces (cd_settings db)) w) else None)"
| "entity_row db w MediaAssetEntity i =
     map_option StoredMedia (find (\<lambda>r. m_workspace_id r = w \<and> m_media_asset_id r = i) (cd_media db))"

fun row_payload :: "stored_entity \<Rightarrow> HotPayload result" where
  "row_payload (StoredCard row) = rbind (mapCard row) (\<lambda>crd. Inr (CardPayload (toLegacySyncCardPayload crd)))"
| "row_payload (StoredDeck row) = rbind (mapDeck row) (\<lambda>deck. Inr (toLegacySyncDeckPayload deck))"
| "row_payload (StoredSettings row) = rbind (mapWorkspaceSchedulerSettings row) (\<lambda>s. Inr (SettingsPayload s))"
| "row_payload (StoredMedia row) = rbind (mapMediaAssetRow row) (\<lambda>asset. Inr (MediaPayload asset))"

text \<open>The entity as a pull delivers it, and its latest change.\<close>

definition served :: "cloud_db \<Rightarrow> string \<Rightarrow> SyncEntityType \<Rightarrow> string \<Rightarrow> HotPayload option" where
  "served db w t i = (case entity_row db w t i of None \<Rightarrow> None
     | Some row \<Rightarrow> (case row_payload row of Inl _ \<Rightarrow> None | Inr p \<Rightarrow> Some p))"

abbreviation latest :: "cloud_db \<Rightarrow> string \<Rightarrow> SyncEntityType \<Rightarrow> string \<Rightarrow> int option" where
  "latest db w t i \<equiv> findLatestSyncChangeId (cd_sync db) w t i"

definition pull_floor :: "cloud_db \<Rightarrow> string \<Rightarrow> int" where
  "pull_floor db w = option_default 0 (map_of (sync_metadata (cd_sync db)) w)"

section \<open>The invariant\<close>

definition servable :: "cloud_db \<Rightarrow> hot_change \<Rightarrow> bool" where
  "servable db r \<longleftrightarrow> served db (hc_workspace_id r) (hc_entity_type r) (hc_entity_id r) \<noteq> None"

definition db_ok :: "cloud_db \<Rightarrow> bool" where
  "db_ok db \<longleftrightarrow> change_log_ok (cd_sync db) \<and> 0 < next_change_id (cd_sync db)
     \<and> distinct (map k_card_id (cd_cards db)) \<and> distinct (map d_deck_id (cd_decks db))
     \<and> distinct (map m_media_asset_id (cd_media db)) \<and> list_all (servable db) (hot_changes (cd_sync db))
     \<and> list_all (\<lambda>r. 0 < change_id r) (hot_changes (cd_sync db))"

definition evolves :: "cloud_db \<Rightarrow> cloud_db \<Rightarrow> bool" where
  "evolves db db' \<longleftrightarrow> (db_ok db \<longrightarrow> db_ok db' \<and> next_change_id (cd_sync db) \<le> next_change_id (cd_sync db')
     \<and> (\<forall>w. pull_floor db' w = pull_floor db w)
     \<and> (\<forall>w t i. entity_row db' w t i = entity_row db w t i \<and> latest db' w t i = latest db w t i
         \<or> (\<exists>c. latest db' w t i = Some c \<and> next_change_id (cd_sync db) \<le> c)))"

lemma evolves_refl: "evolves db db"
  by (simp add: evolves_def)

lemma evolves_trans: "evolves a b \<Longrightarrow> evolves b c \<Longrightarrow> evolves a c"
proof -
  assume ab: "evolves a b" and bc: "evolves b c"
  show "evolves a c"
    unfolding evolves_def
  proof (intro impI conjI allI)
    assume ok: "db_ok a"
    then have b: "db_ok b" using ab by (simp add: evolves_def)
    then show "db_ok c" using bc by (simp add: evolves_def)
    show le: "next_change_id (cd_sync a) \<le> next_change_id (cd_sync c)"
      using ab bc ok b by (auto simp: evolves_def)
    show "pull_floor c w = pull_floor a w" for w using ab bc ok b by (simp add: evolves_def)
    fix w t i
    from bc b have "entity_row c w t i = entity_row b w t i \<and> latest c w t i = latest b w t i
        \<or> (\<exists>x. latest c w t i = Some x \<and> next_change_id (cd_sync b) \<le> x)" by (simp add: evolves_def)
    then show "entity_row c w t i = entity_row a w t i \<and> latest c w t i = latest a w t i
        \<or> (\<exists>x. latest c w t i = Some x \<and> next_change_id (cd_sync a) \<le> x)"
    proof
      assume same: "entity_row c w t i = entity_row b w t i \<and> latest c w t i = latest b w t i"
      from ab ok have "entity_row b w t i = entity_row a w t i \<and> latest b w t i = latest a w t i
          \<or> (\<exists>x. latest b w t i = Some x \<and> next_change_id (cd_sync a) \<le> x)" by (simp add: evolves_def)
      with same show ?thesis by auto
    next
      assume "\<exists>x. latest c w t i = Some x \<and> next_change_id (cd_sync b) \<le> x"
      moreover have "next_change_id (cd_sync a) \<le> next_change_id (cd_sync b)" using ab ok by (simp add: evolves_def)
      ultimately show ?thesis by force
    qed
  qed
qed

lemma evolves_ok: "evolves db db' \<Longrightarrow> db_ok db \<Longrightarrow> db_ok db'"
  by (simp add: evolves_def)

text \<open>A write that leaves the entities and the log alone.\<close>

lemma evolves_same:
  assumes "cd_cards db' = cd_cards db" and "cd_decks db' = cd_decks db" and "cd_settings db' = cd_settings db"
    and "cd_media db' = cd_media db"
  shows "evolves db db'"
proof -
  have e: "entity_row db' w t i = entity_row db w t i" for w t i
    using assms by (cases t) (simp_all add: loadCardRowForMutation_def)
  then have s: "served db' w t i = served db w t i" for w t i by (simp add: served_def)
  then have "servable db' = servable db" by (simp add: servable_def fun_eq_iff)
  then show ?thesis using assms e by (simp add: evolves_def db_ok_def pull_floor_def)
qed

text \<open>Making the metadata row of a workspace.\<close>

lemma evolves_ensure: "evolves db (with_sync (ensureWorkspaceSyncMetadataInExecutor (cd_sync db) w) db)"
proof -
  let ?db = "with_sync (ensureWorkspaceSyncMetadataInExecutor (cd_sync db) w) db"
  have e: "entity_row ?db w' t i = entity_row db w' t i" for w' t i
    by (cases t) (simp_all add: loadCardRowForMutation_def)
  then have s: "served ?db w' t i = served db w' t i" for w' t i by (simp add: served_def)
  then have v: "servable ?db = servable db" by (simp add: servable_def fun_eq_iff)
  have l: "latest ?db w' t i = latest db w' t i" for w' t i by (simp add: findLatestSyncChangeId_def)
  have "pull_floor ?db w' = pull_floor db w'" for w'
    by (auto simp: pull_floor_def ensureWorkspaceSyncMetadataInExecutor_def option_default_def map_add_def split: option.splits)
  then show ?thesis using e l v by (simp add: evolves_def db_ok_def log_ok_ensure)
qed

text \<open>
  The core of every write: only the entity \<open>(w, t, i)\<close> changed, its new row can be loaded, and a
  change of it is recorded.
\<close>

definition only_changed :: "cloud_db \<Rightarrow> cloud_db \<Rightarrow> string \<Rightarrow> SyncEntityType \<Rightarrow> string \<Rightarrow> bool" where
  "only_changed db db' w t i \<longleftrightarrow> cd_sync db' = cd_sync db \<and> cd_media db' = cd_media db
     \<and> (\<forall>w' t' i'. (w', t', i') \<noteq> (w, t, i) \<longrightarrow> entity_row db' w' t' i' = entity_row db w' t' i')
     \<and> (db_ok db \<longrightarrow> distinct (map k_card_id (cd_cards db')) \<and> distinct (map d_deck_id (cd_decks db')))"

lemma insertSyncChange_fields:
  assumes "insertSyncChange p st w l t i a replica op stamp = Inr (c, st')"
  shows "c = next_change_id st" and "next_change_id st' = next_change_id st + 1" and "sync_metadata st' = sync_metadata st"
    and "\<exists>r. hot_changes st' = hot_changes st @ [r] \<and> hc_workspace_id r = w \<and> hc_entity_type r = t \<and> hc_entity_id r = i
    \<and> change_id r = c"
  using assms by (auto simp: insertSyncChange_def res_simps split: if_splits)

lemma entity_row_with_sync [simp]: "entity_row (with_sync s db) w t i = entity_row db w t i"
  by (cases t) (simp_all add: loadCardRowForMutation_def)

lemma evolves_record:
  assumes "only_changed db db1 w t i" and "served db1 w t i \<noteq> None"
    and "insertSyncChange p (cd_sync db1) w l t i a replica op stamp = Inr (c, sync)"
  shows "evolves db (with_sync sync db1)"
proof -
  have s: "cd_sync db1 = cd_sync db" using assms(1) by (simp add: only_changed_def)
  note f = insertSyncChange_fields [OF assms(3) [unfolded s]]
  have served: "served (with_sync sync db1) w' t' i' = served db1 w' t' i'" for w' t' i' by (simp add: served_def)
  show ?thesis
    unfolding evolves_def
  proof (intro impI conjI allI)
    assume ok: "db_ok db"
    then have log: "change_log_ok (cd_sync db)" by (simp add: db_ok_def)
    obtain r where r: "hot_changes sync = hot_changes (cd_sync db) @ [r]" "hc_workspace_id r = w" "hc_entity_type r = t"
        "hc_entity_id r = i" "change_id r = next_change_id (cd_sync db)" using f(1,4) by blast
    have old: "servable (with_sync sync db1) q" if q: "q \<in> set (hot_changes (cd_sync db))" for q
    proof (cases "(hc_workspace_id q, hc_entity_type q, hc_entity_id q) = (w, t, i)")
      case True
      then show ?thesis using assms(2) by (auto simp: servable_def served)
    next
      case False
      then have "served db1 (hc_workspace_id q) (hc_entity_type q) (hc_entity_id q)
          = served db (hc_workspace_id q) (hc_entity_type q) (hc_entity_id q)"
        using assms(1) by (simp add: only_changed_def served_def)
      moreover have "servable db q" using ok q by (simp add: db_ok_def list_all_iff)
      ultimately show ?thesis by (simp add: servable_def served)
    qed
    have new: "servable (with_sync sync db1) r" using assms(2) by (simp add: servable_def served r)
    show "db_ok (with_sync sync db1)"
      using ok assms(1) insertSyncChange_log_ok [OF assms(3) [unfolded s] log] old new f(2)
      by (auto simp: db_ok_def only_changed_def r(1,5) list_all_iff)
    show "next_change_id (cd_sync db) \<le> next_change_id (cd_sync (with_sync sync db1))" using f(2) by simp
    show "pull_floor (with_sync sync db1) w' = pull_floor db w'" for w' by (simp add: pull_floor_def f(3))
    fix w' t' i'
    have late: "latest (with_sync sync db1) w' t' i' = (if (w', t', i') = (w, t, i) then Some c else latest db w' t' i')"
      using findLatest_insert [OF assms(3) [unfolded s] log] by simp
    show "entity_row (with_sync sync db1) w' t' i' = entity_row db w' t' i' \<and> latest (with_sync sync db1) w' t' i' = latest db w' t' i'
      \<or> (\<exists>c. latest (with_sync sync db1) w' t' i' = Some c \<and> next_change_id (cd_sync db) \<le> c)"
      using assms(1) late f(1) by (auto simp: only_changed_def)
  qed
qed

end
