(* ===== verification/SyncWrites.thy ===== *)
theory SyncWrites
  imports SyncEvolve
begin

text \<open>Every write keeps the promise of \<open>SyncEvolve\<close>.\<close>

named_theorems evolving \<open>operations that keep the promise to the pull\<close>

section \<open>Tables\<close>

lemma find_put:
  assumes "find P xs \<noteq> None" and "P y"
  shows "find P (map (\<lambda>x. if P x then y else x) xs) = Some y"
  using assms by (induction xs) (auto split: if_splits)

lemma find_untouched:
  assumes "\<And>x. Q x \<Longrightarrow> \<not> P x" and "\<not> Q y"
  shows "find Q (map (\<lambda>x. if P x then y else x) xs) = find Q xs"
  using assms by (induction xs) auto

lemma find_add: "find P xs = None \<Longrightarrow> P y \<Longrightarrow> find P (xs @ [y]) = Some y"
  by (induction xs) (auto split: if_splits)

lemma find_add_other: "\<not> P y \<Longrightarrow> find P (xs @ [y]) = find P xs"
  by (induction xs) auto

lemma map_put_same: "(\<And>x. P x \<Longrightarrow> k y = k x) \<Longrightarrow> map k (map (\<lambda>x. if P x then y else x) xs) = map k xs"
  by (induction xs) auto

lemma find_SomeD: "find P xs = Some x \<Longrightarrow> P x \<and> x \<in> set xs"
  by (auto simp: find_Some_iff)

section \<open>Cards\<close>

lemma mapCard_id: "mapCard row = Inr crd \<Longrightarrow> c_card_id crd = k_card_id row"
  by (auto simp: mapCard_def res_simps)

lemma put_card_changed:
  assumes "is_card w i row" and "loadCardRowForMutation db w i \<noteq> None"
  shows "only_changed db (put_card w i row db) w CardEntity i" and "loadCardRowForMutation (put_card w i row db) w i = Some row"
proof -
  have k: "map k_card_id (cd_cards (put_card w i row db)) = map k_card_id (cd_cards db)"
    unfolding put_card_def cloud_db.select_convs cloud_db.update_convs cloud_db.simps
    using assms(1) by (auto simp: is_card_def)
  have row: "entity_row (put_card w i row db) w' t' i' = entity_row db w' t' i'" if "(w', t', i') \<noteq> (w, CardEntity, i)" for w' t' i'
  proof (cases t')
    case CardEntity
    then have "find (is_card w' i') (map (\<lambda>r. if is_card w i r then row else r) (cd_cards db)) = find (is_card w' i') (cd_cards db)"
      using that assms(1) by (intro find_untouched) (auto simp: is_card_def)
    with CardEntity show ?thesis by (simp add: loadCardRowForMutation_def put_card_def)
  qed (simp_all add: put_card_def)
  have "cd_sync (put_card w i row db) = cd_sync db" "cd_decks (put_card w i row db) = cd_decks db"
    "cd_media (put_card w i row db) = cd_media db" by (simp_all add: put_card_def)
  then show "only_changed db (put_card w i row db) w CardEntity i" using row k by (simp add: only_changed_def db_ok_def)
  show "loadCardRowForMutation (put_card w i row db) w i = Some row"
    using find_put [of "is_card w i"] assms by (simp add: loadCardRowForMutation_def put_card_def)
qed

lemma add_card_changed:
  assumes "\<not> list_ex (\<lambda>r. k_card_id r = i) (cd_cards db)" and "is_card w i row"
  shows "only_changed db (db\<lparr>cd_cards := cd_cards db @ [row]\<rparr>) w CardEntity i"
    and "loadCardRowForMutation (db\<lparr>cd_cards := cd_cards db @ [row]\<rparr>) w i = Some row"
proof -
  let ?db = "db\<lparr>cd_cards := cd_cards db @ [row]\<rparr>"
  have no: "find (is_card w i) (cd_cards db) = None" using assms(1) by (auto simp: find_None_iff is_card_def list_ex_iff)
  have row: "entity_row ?db w' t' i' = entity_row db w' t' i'" if "(w', t', i') \<noteq> (w, CardEntity, i)" for w' t' i'
  proof (cases t')
    case CardEntity
    then have "\<not> is_card w' i' row" using that assms(2) by (auto simp: is_card_def)
    with CardEntity show ?thesis by (simp add: loadCardRowForMutation_def find_add_other)
  qed simp_all
  have "k_card_id row \<notin> k_card_id ` set (cd_cards db)" using assms by (auto simp: is_card_def list_ex_iff)
  then show "only_changed db ?db w CardEntity i" using row by (simp add: only_changed_def db_ok_def)
  show "loadCardRowForMutation ?db w i = Some row" using no assms(2) by (simp add: loadCardRowForMutation_def find_add)
qed

lemma applied_card_evolves:
  assumes "applied_card e w lock row db1 = Inr (r, db')" and "only_changed db db1 w CardEntity (k_card_id row)"
    and "loadCardRowForMutation db1 w (k_card_id row) = Some row"
  shows "evolves db db'"
proof -
  obtain crd c sync where crd: "mapCard row = Inr crd"
    and rec: "recordCardSyncChange (env_parse e) (cd_sync db1) w lock crd = Inr (c, sync)" and db': "db' = with_sync sync db1"
    using assms(1) by (auto simp: applied_card_def res_simps)
  have "served db1 w CardEntity (k_card_id row) \<noteq> None" by (simp add: served_def assms(3) crd)
  then show ?thesis
    using evolves_record [OF assms(2) _ rec [unfolded recordCardSyncChange_def mapCard_id [OF crd]]] db' by simp
qed

lemma updated_card_row_key: "is_card w i row \<Longrightarrow> is_card w i (updated_card_row e row crd input md)"
  by (simp add: is_card_def updated_card_row_def Let_def)

lemma update_card_snapshot_evolves:
  assumes "update_card_snapshot e db w lock row input md = Inr (r, db')" and "loadCardRowForMutation db w (ci_cardId input) = Some row"
  shows "evolves db db'"
proof -
  have key: "is_card w (ci_cardId input) row" using assms(2) by (auto simp: loadCardRowForMutation_def dest: find_SomeD)
  obtain crd where crd: "mapCard row = Inr crd" using assms(1) by (auto simp: update_card_snapshot_def res_simps)
  let ?row = "updated_card_row e row crd input md"
  have k: "is_card w (ci_cardId input) ?row" by (rule updated_card_row_key [OF key])
  then have i: "k_card_id ?row = ci_cardId input" by (simp add: is_card_def)
  show ?thesis
  proof (cases "incomingLwwMetadataWins (env_parse e) md (toCardLwwMetadata crd)")
    case True
    then have run: "applied_card e w lock ?row (put_card w (ci_cardId input) ?row db) = Inr (r, db')"
      using assms(1) crd by (simp add: update_card_snapshot_def Let_def)
    have "loadCardRowForMutation db w (ci_cardId input) \<noteq> None" using assms(2) by simp
    note changed = put_card_changed [OF k this]
    show ?thesis using applied_card_evolves [OF run, of db] changed unfolding i by simp
  next
    case False
    then show ?thesis using assms(1) crd evolves_refl by (simp add: update_card_snapshot_def)
  qed
qed

lemma lock_evolves:
  "lockWorkspaceSyncMetadataForHotChangesInExecutor (cd_sync db) w = Inr (lock, sync) \<Longrightarrow> evolves db (with_sync sync db)"
  by (auto simp: lock_returns evolves_ensure)

lemma snapshot_row_key: "is_card w (ci_cardId input) (snapshot_row e w input m md)"
  by (simp add: is_card_def snapshot_row_def Let_def)

lemma upsertCardSnapshot_evolves [evolving]:
  assumes "upsertCardSnapshotInExecutor e db w input md = Inr (r, db')"
  shows "evolves db db'"
proof -
  obtain lock sync n md' where lock: "lockWorkspaceSyncMetadataForHotChangesInExecutor (cd_sync db) w = Inr (lock, sync)"
    and run: "(case loadCardRowForMutation (with_sync sync db) w (ci_cardId n) of
       Some existingRow \<Rightarrow> update_card_snapshot e (with_sync sync db) w lock existingRow n md'
     | None \<Rightarrow> rbind (insertCardRowForSnapshotInExecutor e (with_sync sync db) w n md') (\<lambda>(insertedRow, db).
         case insertedRow of
           Some row \<Rightarrow> applied_card e w lock row db
         | None \<Rightarrow> rbind (resolveCardSnapshotInsertConflictInExecutor db w (ci_cardId n)) (\<lambda>existingRow.
             update_card_snapshot e db w lock existingRow n md'))) = Inr (r, db')"
    using assms by (auto simp: upsertCardSnapshotInExecutor_def res_simps Let_def)
  let ?db = "with_sync sync db"
  have first: "evolves db ?db" by (rule lock_evolves [OF lock])
  have "evolves ?db db'"
  proof (cases "loadCardRowForMutation ?db w (ci_cardId n)")
    case (Some row)
    with run show ?thesis by (auto intro: update_card_snapshot_evolves)
  next
    case None
    then obtain inserted db1 where ins: "insertCardRowForSnapshotInExecutor e ?db w n md' = Inr (inserted, db1)"
      and rest: "(case inserted of Some row \<Rightarrow> applied_card e w lock row db1
         | None \<Rightarrow> rbind (resolveCardSnapshotInsertConflictInExecutor db1 w (ci_cardId n)) (\<lambda>existingRow.
             update_card_snapshot e db1 w lock existingRow n md')) = Inr (r, db')"
      using run by (auto simp: res_simps)
    show ?thesis
    proof (cases inserted)
      case no: None
      then have db1: "db1 = ?db" using ins by (auto simp: insertCardRowForSnapshotInExecutor_def res_simps Let_def split: if_splits)
      obtain row where row: "resolveCardSnapshotInsertConflictInExecutor db1 w (ci_cardId n) = Inr row"
        and up: "update_card_snapshot e db1 w lock row n md' = Inr (r, db')" using rest no by (auto simp: res_simps)
      have "loadCardRowForMutation db1 w (ci_cardId n) = Some row"
        using row by (auto simp: resolveCardSnapshotInsertConflictInExecutor_def split: option.splits if_splits)
      with up show ?thesis unfolding db1 by (rule update_card_snapshot_evolves)
    next
      case (Some row)
      then obtain m where row: "row = snapshot_row e w n m md'" and db1: "db1 = ?db\<lparr>cd_cards := cd_cards ?db @ [row]\<rparr>"
        and fresh: "\<not> list_ex (\<lambda>r. k_card_id r = ci_cardId n) (cd_cards ?db)"
        using ins by (auto simp: insertCardRowForSnapshotInExecutor_def res_simps Let_def split: if_splits)
      have key: "is_card w (ci_cardId n) row" unfolding row by (rule snapshot_row_key)
      then have i: "k_card_id row = ci_cardId n" by (simp add: is_card_def)
      show ?thesis using applied_card_evolves [of e w lock row db1 r db' ?db] rest Some add_card_changed [OF fresh key]
        unfolding i db1 by simp
    qed
  qed
  with first show ?thesis by (rule evolves_trans)
qed

lemma createCard_evolves [evolving]:
  assumes "createCardInExecutor e newId db w input md = Inr (crd, db')"
  shows "evolves db db'"
proof -
  obtain lock sync n m created md' r where lock: "lockWorkspaceSyncMetadataForHotChangesInExecutor (cd_sync db) w = Inr (lock, sync)"
    and fresh: "\<not> list_ex (\<lambda>r. k_card_id r = newId) (cd_cards (with_sync sync db))"
    and run: "applied_card e w lock (new_card_row e w newId n m created md')
      ((with_sync sync db)\<lparr>cd_cards := cd_cards (with_sync sync db) @ [new_card_row e w newId n m created md']\<rparr>) = Inr (r, db')"
    using assms by (auto simp: createCardInExecutor_def res_simps Let_def split: if_splits)
  let ?row = "new_card_row e w newId n m created md'"
  have key: "is_card w newId ?row" "k_card_id ?row = newId" by (simp_all add: is_card_def new_card_row_def)
  have "evolves (with_sync sync db) db'"
    using applied_card_evolves [OF run, of "with_sync sync db"] add_card_changed [OF fresh key(1)] unfolding key(2) by simp
  then show ?thesis using lock_evolves [OF lock] evolves_trans by blast
qed

lemma update_live_card_evolves:
  assumes "update_live_card e db w lock i f = Inr (crd, db')" and "\<And>row. is_card w i row \<Longrightarrow> is_card w i (f row)"
  shows "evolves db db'"
proof -
  obtain row r where row: "find (is_live_card w i) (cd_cards db) = Some row"
    and run: "applied_card e w lock (f row) (put_card w i (f row) db) = Inr (r, db')"
    using assms(1) by (auto simp: update_live_card_def res_simps split: option.splits)
  have key: "is_card w i row" "row \<in> set (cd_cards db)" using row by (auto simp: is_live_card_def dest: find_SomeD)
  then have "loadCardRowForMutation db w i \<noteq> None" by (auto simp: loadCardRowForMutation_def find_None_iff)
  note changed = put_card_changed [OF assms(2) [OF key(1)] this]
  have "k_card_id (f row) = i" using assms(2) [OF key(1)] by (simp add: is_card_def)
  then show ?thesis using applied_card_evolves [OF run, of db] changed by simp
qed

lemma assignments_key:
  "is_card w i row \<Longrightarrow> fs = buildCardUpdateQueryParts input \<Longrightarrow> is_card w i (foldl (\<lambda>r f. f r) row fs)"
  by (auto simp: buildCardUpdateQueryParts_def is_card_def split: option.splits)

lemma stamp_key: "is_card w i (stamp_card e md row) = is_card w i row"
  by (simp add: stamp_card_def is_card_def)

lemma updateCard_evolves [evolving]:
  assumes "updateCardInExecutor e db w i input md = Inr (crd, db')"
  shows "evolves db db'"
proof -
  obtain lock sync n md' where lock: "lockWorkspaceSyncMetadataForHotChangesInExecutor (cd_sync db) w = Inr (lock, sync)"
    and run: "update_live_card e (with_sync sync db) w lock i
      (\<lambda>row. stamp_card e md' (foldl (\<lambda>r f. f r) row (buildCardUpdateQueryParts n))) = Inr (crd, db')"
    using assms by (auto simp: updateCardInExecutor_def res_simps Let_def split: if_splits)
  have "evolves (with_sync sync db) db'"
    by (rule update_live_card_evolves [OF run]) (simp add: stamp_key assignments_key [OF _ refl])
  then show ?thesis using lock_evolves [OF lock] evolves_trans by blast
qed

lemma deleteCard_evolves [evolving]:
  assumes "deleteCardInExecutor e db w i md = Inr (crd, db')"
  shows "evolves db db'"
proof -
  obtain lock sync f where lock: "lockWorkspaceSyncMetadataForHotChangesInExecutor (cd_sync db) w = Inr (lock, sync)"
    and run: "update_live_card e (with_sync sync db) w lock i f = Inr (crd, db')"
    and key: "\<And>row. is_card w i (f row) = is_card w i row"
    using assms by (auto simp: deleteCardInExecutor_def res_simps Let_def is_card_def stamp_card_def)
  have "evolves (with_sync sync db) db'" by (rule update_live_card_evolves [OF run]) (simp add: key)
  then show ?thesis using lock_evolves [OF lock] evolves_trans by blast
qed

text \<open>Loops of such operations.\<close>

lemma each_r_evolves:
  assumes "each_r f xs db = Inr (ys, db')" and "\<And>x db y db'. x \<in> set xs \<Longrightarrow> f x db = Inr (y, db') \<Longrightarrow> evolves db db'"
  shows "evolves db db'"
  using assms
proof (induction xs arbitrary: db ys)
  case Nil
  then show ?case by (simp add: evolves_refl)
next
  case (Cons x xs)
  then obtain y db1 ys' where "f x db = Inr (y, db1)" "each_r f xs db1 = Inr (ys', db')" by (auto simp: res_simps)
  then show ?case using Cons.prems(2) [of x] Cons.IH [of db1 ys'] Cons.prems(2) evolves_trans by (meson list.set_intros)
qed

lemma createCards_evolves [evolving]: "createCards e db w items = Inr (r, db') \<Longrightarrow> evolves db db'"
  by (auto simp: createCards_def res_simps elim!: each_r_evolves intro: evolving)

lemma updateCards_evolves [evolving]: "updateCards e db w items = Inr (r, db') \<Longrightarrow> evolves db db'"
  by (auto simp: updateCards_def res_simps elim!: each_r_evolves intro: evolving)

lemma deleteCards_evolves [evolving]: "deleteCards e db w items = Inr (r, db') \<Longrightarrow> evolves db db'"
  by (auto simp: deleteCards_def res_simps elim!: each_r_evolves intro: evolving)

section \<open>Decks\<close>

lemma mapDeck_id: "mapDeck row = Inr deck \<Longrightarrow> e_deckId deck = d_deck_id row"
  by (auto simp: mapDeck_def res_simps)

lemma deck_row_key: "is_deck w (di_deckId input) (deck_row e w input md)"
  by (simp add: is_deck_def deck_row_def Let_def)

lemma put_deck_changed:
  assumes "is_deck w i row" and "find (is_deck w i) (cd_decks db) \<noteq> None"
  shows "only_changed db (put_deck w i row db) w DeckEntity i" and "find (is_deck w i) (cd_decks (put_deck w i row db)) = Some row"
proof -
  have k: "map d_deck_id (cd_decks (put_deck w i row db)) = map d_deck_id (cd_decks db)"
    unfolding put_deck_def cloud_db.select_convs cloud_db.update_convs cloud_db.simps
    using assms(1) by (auto simp: is_deck_def)
  have row: "entity_row (put_deck w i row db) w' t' i' = entity_row db w' t' i'" if "(w', t', i') \<noteq> (w, DeckEntity, i)" for w' t' i'
  proof (cases t')
    case DeckEntity
    then have "find (is_deck w' i') (map (\<lambda>r. if is_deck w i r then row else r) (cd_decks db)) = find (is_deck w' i') (cd_decks db)"
      using that assms(1) by (intro find_untouched) (auto simp: is_deck_def)
    with DeckEntity show ?thesis by (simp add: put_deck_def)
  qed (simp_all add: put_deck_def loadCardRowForMutation_def)
  have "cd_sync (put_deck w i row db) = cd_sync db" "cd_cards (put_deck w i row db) = cd_cards db"
    "cd_media (put_deck w i row db) = cd_media db" by (simp_all add: put_deck_def)
  then show "only_changed db (put_deck w i row db) w DeckEntity i" using row k by (simp add: only_changed_def db_ok_def)
  show "find (is_deck w i) (cd_decks (put_deck w i row db)) = Some row"
    using find_put [of "is_deck w i"] assms by (simp add: put_deck_def)
qed

lemma add_deck_changed:
  assumes "\<not> list_ex (\<lambda>r. d_deck_id r = i) (cd_decks db)" and "is_deck w i row"
  shows "only_changed db (db\<lparr>cd_decks := cd_decks db @ [row]\<rparr>) w DeckEntity i"
    and "find (is_deck w i) (cd_decks (db\<lparr>cd_decks := cd_decks db @ [row]\<rparr>)) = Some row"
proof -
  let ?db = "db\<lparr>cd_decks := cd_decks db @ [row]\<rparr>"
  have no: "find (is_deck w i) (cd_decks db) = None" using assms(1) by (auto simp: find_None_iff is_deck_def list_ex_iff)
  have row: "entity_row ?db w' t' i' = entity_row db w' t' i'" if "(w', t', i') \<noteq> (w, DeckEntity, i)" for w' t' i'
  proof (cases t')
    case DeckEntity
    then have "\<not> is_deck w' i' row" using that assms(2) by (auto simp: is_deck_def)
    with DeckEntity show ?thesis by (simp add: find_add_other)
  qed (simp_all add: loadCardRowForMutation_def)
  have "d_deck_id row \<notin> d_deck_id ` set (cd_decks db)" using assms by (auto simp: is_deck_def list_ex_iff)
  then show "only_changed db ?db w DeckEntity i" using row by (simp add: only_changed_def db_ok_def)
  show "find (is_deck w i) (cd_decks ?db) = Some row" using no assms(2) by (simp add: find_add)
qed

lemma applied_deck_evolves:
  assumes "applied_deck e w lock row db1 = Inr (r, db')" and "only_changed db db1 w DeckEntity (d_deck_id row)"
    and "find (is_deck w (d_deck_id row)) (cd_decks db1) = Some row"
  shows "evolves db db'"
proof -
  obtain deck c sync where deck: "mapDeck row = Inr deck"
    and rec: "recordDeckSyncChange (env_parse e) (cd_sync db1) w lock deck = Inr (c, sync)" and db': "db' = with_sync sync db1"
    using assms(1) by (auto simp: applied_deck_def res_simps)
  have "served db1 w DeckEntity (d_deck_id row) \<noteq> None" by (simp add: served_def assms(3) deck)
  then show ?thesis
    using evolves_record [OF assms(2) _ rec [unfolded recordDeckSyncChange_def mapDeck_id [OF deck]]] db' by simp
qed

lemma update_deck_snapshot_evolves:
  assumes "update_deck_snapshot e db w lock row input md = Inr (r, db')"
    and "find (is_deck w (di_deckId input)) (cd_decks db) = Some row"
  shows "evolves db db'"
proof -
  obtain deck where deck: "mapDeck row = Inr deck" using assms(1) by (auto simp: update_deck_snapshot_def res_simps)
  let ?row = "deck_row e w input md"
  have k: "is_deck w (di_deckId input) ?row" by (rule deck_row_key)
  then have i: "d_deck_id ?row = di_deckId input" by (simp add: is_deck_def)
  show ?thesis
  proof (cases "incomingLwwMetadataWins (env_parse e) md (toDeckLwwMetadata deck)")
    case True
    then have run: "applied_deck e w lock ?row (put_deck w (di_deckId input) ?row db) = Inr (r, db')"
      using assms(1) deck by (simp add: update_deck_snapshot_def Let_def)
    have "find (is_deck w (di_deckId input)) (cd_decks db) \<noteq> None" using assms(2) by simp
    note changed = put_deck_changed [OF k this]
    show ?thesis using applied_deck_evolves [OF run, of db] changed unfolding i by simp
  next
    case False
    then show ?thesis using assms(1) deck evolves_refl by (simp add: update_deck_snapshot_def)
  qed
qed

lemma upsertDeckSnapshot_evolves [evolving]:
  assumes "upsertDeckSnapshotInExecutor e db w input md = Inr (r, db')"
  shows "evolves db db'"
proof -
  obtain lock sync n md' where lock: "lockWorkspaceSyncMetadataForHotChangesInExecutor (cd_sync db) w = Inr (lock, sync)"
    and run: "(case find (is_deck w (di_deckId n)) (cd_decks (with_sync sync db)) of
       Some existingRow \<Rightarrow> update_deck_snapshot e (with_sync sync db) w lock existingRow n md'
     | None \<Rightarrow> insert_deck_snapshot e (with_sync sync db) w lock n md') = Inr (r, db')"
    using assms by (auto simp: upsertDeckSnapshotInExecutor_def res_simps Let_def)
  let ?db = "with_sync sync db"
  have "evolves ?db db'"
  proof (cases "find (is_deck w (di_deckId n)) (cd_decks ?db)")
    case (Some row)
    with run show ?thesis by (auto intro: update_deck_snapshot_evolves)
  next
    case None
    then have fresh: "\<not> list_ex (\<lambda>r. d_deck_id r = di_deckId n) (cd_decks ?db)"
      and new: "applied_deck e w lock (deck_row e w n md') (?db\<lparr>cd_decks := cd_decks ?db @ [deck_row e w n md']\<rparr>) = Inr (r, db')"
      using run by (auto simp: insert_deck_snapshot_def Let_def split: if_splits option.splits)
    have key: "is_deck w (di_deckId n) (deck_row e w n md')" by (rule deck_row_key)
    then have i: "d_deck_id (deck_row e w n md') = di_deckId n" by (simp add: is_deck_def)
    show ?thesis using applied_deck_evolves [OF new, of ?db] add_deck_changed [OF fresh key] unfolding i by simp
  qed
  with lock_evolves [OF lock] show ?thesis by (rule evolves_trans)
qed

lemma createDeck_evolves [evolving]: "createDeckInExecutor e newId db w input md = Inr (r, db') \<Longrightarrow> evolves db db'"
  by (auto simp: createDeckInExecutor_def res_simps intro: evolving)

lemma updateDeck_evolves [evolving]: "updateDeckInExecutor e db w i input md = Inr (r, db') \<Longrightarrow> evolves db db'"
  by (auto simp: updateDeckInExecutor_def res_simps intro: evolving)

lemma deleteDeck_evolves [evolving]:
  assumes "deleteDeckInExecutor e db w i md = Inr (r, db')"
  shows "evolves db db'"
proof -
  obtain lock sync where lock: "lockWorkspaceSyncMetadataForHotChangesInExecutor (cd_sync db) w = Inr (lock, sync)"
    and rest: "evolves (with_sync sync db) db'"
    using assms by (auto simp: deleteDeckInExecutor_def res_simps Let_def intro: evolving)
  from evolves_trans [OF lock_evolves [OF lock] rest] show ?thesis .
qed

lemma createDecks_evolves [evolving]: "createDecks e db w items = Inr (r, db') \<Longrightarrow> evolves db db'"
  by (auto simp: createDecks_def res_simps elim!: each_r_evolves intro: evolving)

lemma updateDecks_evolves [evolving]: "updateDecks e db w items = Inr (r, db') \<Longrightarrow> evolves db db'"
  by (auto simp: updateDecks_def res_simps elim!: each_r_evolves intro: evolving)

lemma deleteDecks_evolves [evolving]: "deleteDecks e db w items = Inr (r, db') \<Longrightarrow> evolves db db'"
  by (auto simp: deleteDecks_def res_simps elim!: each_r_evolves intro: evolving)

section \<open>Settings\<close>

lemma put_settings_changed:
  assumes "db1 = db\<lparr>cd_settings := (cd_settings db)\<lparr>db_workspaces := map_set w row (db_workspaces (cd_settings db))\<rparr>\<rparr>"
  shows "only_changed db db1 w WorkspaceSchedulerSettingsEntity w"
    and "entity_row db1 w WorkspaceSchedulerSettingsEntity w = Some (StoredSettings row)"
proof -
  have "entity_row db1 w' t' i' = entity_row db w' t' i'" if "(w', t', i') \<noteq> (w, WorkspaceSchedulerSettingsEntity, w)" for w' t' i'
    using that by (cases t') (auto simp: assms loadCardRowForMutation_def)
  then show "only_changed db db1 w WorkspaceSchedulerSettingsEntity w" by (simp add: only_changed_def assms db_ok_def)
  show "entity_row db1 w WorkspaceSchedulerSettingsEntity w = Some (StoredSettings row)" by (simp add: assms)
qed

lemma settings_evolves:
  assumes "applyWorkspaceSchedulerSettingsSnapshotInExecutor p now (cd_settings db) w input md = Inr (r, settings)"
  shows "evolves db (db\<lparr>cd_settings := settings\<rparr>)"
proof -
  obtain lock sync where lock: "lockWorkspaceSyncMetadataForHotChangesInExecutor (cd_sync db) w = Inr (lock, sync)"
    by (simp add: lock_returns)
  note run = assms [unfolded applyWorkspaceSchedulerSettingsSnapshotInExecutor_def lock rbind_simps prod.case]
  from run obtain v md' row s where v: "validateWorkspaceSchedulerSettingsInput (UpdateWorkspaceSchedulerSettingsInput.truncate input) = Inr v"
      "normalizeWorkspaceSchedulerMutationMetadata p md = Inr md'" "map_of (db_workspaces (cd_settings db)) w = Some row"
      "mapWorkspaceSchedulerSettings row = Inr s"
    by (auto simp: res_simps split: if_splits option.splits)
  note run = run [unfolded v rbind_simps option.case]
  let ?db = "with_sync sync db"
  have first: "evolves db ?db" by (rule lock_evolves [OF lock])
  show ?thesis
  proof (cases "incomingLwwMetadataWins p md' (toWorkspaceSchedulerLwwMetadata s)")
    case False
    then have "db\<lparr>cd_settings := settings\<rparr> = ?db" using run by (simp add: with_sync_def split: if_splits)
    with first show ?thesis by simp
  next
    case True
    let ?row = "updated_settings_row p now row v md'"
    let ?db1 = "?db\<lparr>cd_settings := (cd_settings ?db)\<lparr>db_workspaces := map_set w ?row (db_workspaces (cd_settings ?db))\<rparr>\<rparr>"
    obtain s' c sync' where s': "mapWorkspaceSchedulerSettings ?row = Inr s'"
      and rec: "recordWorkspaceSchedulerSyncChange p (cd_sync ?db1) w lock s' = Inr (c, sync')"
      and settings: "settings = (cd_settings db)\<lparr>db_workspaces := map_set w ?row (db_workspaces (cd_settings db)), db_sync := sync'\<rparr>"
      using run True by (auto simp: res_simps Let_def split: if_splits)
    note changed = put_settings_changed [where ?db1.0 = ?db1 and db = ?db and w = w and row = ?row, OF refl]
    have "served ?db1 w WorkspaceSchedulerSettingsEntity w \<noteq> None" unfolding served_def changed(2) by (simp add: s')
    then have "evolves ?db (with_sync sync' ?db1)"
      by (rule evolves_record [OF changed(1) _ rec [unfolded recordWorkspaceSchedulerSyncChange_def]])
    moreover have "with_sync sync' ?db1 = db\<lparr>cd_settings := settings\<rparr>" by (simp add: with_sync_def settings)
    ultimately show ?thesis using evolves_trans [OF first] by simp
  qed
qed

lemma updateSettings_evolves:
  "updateWorkspaceSchedulerSettings p now (cd_settings db) w input md = Inr (r, settings)
    \<Longrightarrow> evolves db (db\<lparr>cd_settings := settings\<rparr>)"
  by (auto simp: updateWorkspaceSchedulerSettings_def res_simps intro: settings_evolves)

section \<open>Reviews\<close>

lemma activeDay_same:
  assumes "storeActiveReviewDayForReviewEventInExecutor e db input = Inr (r, db')"
  shows "cd_cards db' = cd_cards db" and "cd_decks db' = cd_decks db" and "cd_settings db' = cd_settings db" and "cd_media db' = cd_media db"
  using assms
  by (auto simp: storeActiveReviewDayForReviewEventInExecutor_def updateReviewEventReviewTimeZoneInExecutor_def
      upsertUserActiveReviewDayInExecutor_def Let_def res_simps split: option.splits if_splits)

lemma appendReview_same:
  assumes "appendReviewEventSnapshotInExecutor e db w ev op = Inr (r, db')"
  shows "cd_cards db' = cd_cards db \<and> cd_decks db' = cd_decks db \<and> cd_settings db' = cd_settings db \<and> cd_media db' = cd_media db"
proof -
  obtain inserted db1 where ins: "insert_review e db w ev = Inr (inserted, db1)"
    using assms by (auto simp: appendReviewEventSnapshotInExecutor_def res_simps)
  then have one: "cd_cards db1 = cd_cards db \<and> cd_decks db1 = cd_decks db \<and> cd_settings db1 = cd_settings db \<and> cd_media db1 = cd_media db"
    by (auto simp: insert_review_def split: if_splits)
  note run = assms [unfolded appendReviewEventSnapshotInExecutor_def ins rbind_simps prod.case]
  show ?thesis
  proof (cases inserted)
    case None
    then have "db' = db1" using run by (auto simp: Let_def res_simps split: if_splits option.splits)
    then show ?thesis using one by simp
  next
    case (Some row)
    then obtain ev' z wr db2 where "storeActiveReviewDayForReviewEventInExecutor e db1 z = Inr (wr, db2)"
      "db' = recordQualifiedReviewActivityFactInExecutor e db2 ev'"
      using run by (auto simp: appended_review_def Let_def res_simps)
    then show ?thesis using activeDay_same one
      by (auto simp: recordQualifiedReviewActivityFactInExecutor_def Let_def classifyQualifiedReviewActivity_def)
  qed
qed

lemma appendReview_evolves [evolving]: "appendReviewEventSnapshotInExecutor e db w ev op = Inr (r, db') \<Longrightarrow> evolves db db'"
  using appendReview_same by (blast intro: evolves_same)

lemma submitReview_evolves [evolving]:
  assumes "submitReview m e newIds db w replicaId input md = Inr (r, db')"
  shows "evolves db db'"
proof -
  obtain lock sync db1 ev op a row schedule md' r' where lock: "lockWorkspaceSyncMetadataForHotChangesInExecutor (cd_sync db) w = Inr (lock, sync)"
    and app: "appendReviewEventSnapshotInExecutor e (with_sync sync db) w ev op = Inr (a, db1)"
    and load: "loadCardRowForMutation db1 w (si_cardId input) = Some row"
    and run: "applied_card e w lock (scheduled_card_row e schedule md' row)
      (put_card w (si_cardId input) (scheduled_card_row e schedule md' row) db1) = Inr (r', db')"
    using assms by (auto simp: submitReview_def Let_def res_simps split: if_splits option.splits)
  let ?row = "scheduled_card_row e schedule md' row"
  have "is_card w (si_cardId input) row" using load by (auto simp: loadCardRowForMutation_def dest: find_SomeD)
  then have key: "is_card w (si_cardId input) ?row" by (simp add: scheduled_card_row_def stamp_card_def is_card_def)
  then have i: "k_card_id ?row = si_cardId input" by (simp add: is_card_def)
  have "loadCardRowForMutation db1 w (si_cardId input) \<noteq> None" using load by simp
  note changed = put_card_changed [OF key this]
  have "evolves db1 db'" using applied_card_evolves [OF run, of db1] changed unfolding i by simp
  with appendReview_evolves [OF app] lock_evolves [OF lock] show ?thesis using evolves_trans by blast
qed

section \<open>A push\<close>

lemma recordApplied_evolves: "recordAppliedOperation e db w replicaId operation c = Inr db' \<Longrightarrow> evolves db db'"
  by (rule evolves_same) (auto simp: recordAppliedOperation_def res_simps split: if_splits)

lemma process_payload_evolves:
  "process_payload e db w replicaId operation = Inr (Outcome a c db') \<Longrightarrow> evolves db db'"
  by (cases "p_payload operation")
    (auto simp: process_payload_def process_review_def Let_def res_simps split: if_splits intro: evolving settings_evolves)

lemma processOperation_evolves:
  assumes "processOperationInExecutor e w replicaId operation db = Inr (r, db')"
  shows "evolves db db'"
proof -
  obtain outcome where o: "process_payload e db w replicaId operation = Inr outcome"
    using assms by (auto simp: processOperationInExecutor_def res_simps)
  show ?thesis
  proof (cases outcome)
    case (Reject message)
    then show ?thesis using assms o evolves_refl by (simp add: processOperationInExecutor_def)
  next
    case (Outcome a c db1)
    then have "recordAppliedOperation e db1 w replicaId operation c = Inr db'"
      using assms o by (auto simp: processOperationInExecutor_def res_simps)
    then show ?thesis using process_payload_evolves [OF o [unfolded Outcome]] recordApplied_evolves evolves_trans by blast
  qed
qed

lemma push_evolves [evolving]:
  assumes "processSyncPushOperationsInExecutor e db w replicaId operations = Inr (rs, db')"
  shows "evolves db db'"
proof -
  let ?db = "with_sync (ensureWorkspaceSyncMetadataInExecutor (cd_sync db) w) db"
  have "evolves ?db db'"
    using assms unfolding processSyncPushOperationsInExecutor_def Let_def
    by (rule each_r_evolves) (auto simp: push_one_def evolves_refl intro: processOperation_evolves split: option.splits)
  with evolves_ensure show ?thesis by (rule evolves_trans)
qed

end
