(* ===== verification/SyncRetry.thy ===== *)
theory SyncRetry
  imports SyncWrites
begin

text \<open>
  A client that does not see the answer to a push sends the batch again. The ledger of applied
  operations makes the repetition harmless: every operation that was recorded is answered from the
  ledger.
\<close>

section \<open>What an operation leaves alone\<close>

text \<open>
  Until it is recorded, an operation leaves the ledger alone, and the metadata rows, once the workspace
  has its own.
\<close>

definition ledger_kept :: "cloud_db \<Rightarrow> cloud_db \<Rightarrow> bool" where
  "ledger_kept db db' \<longleftrightarrow> cd_applied db' = cd_applied db \<and> sync_metadata (cd_sync db') = sync_metadata (cd_sync db)"

definition known_workspace :: "cloud_db \<Rightarrow> string \<Rightarrow> bool" where
  "known_workspace db w \<longleftrightarrow> map_of (sync_metadata (cd_sync db)) w \<noteq> None"

text \<open>Cards, decks and settings are written without touching the tables of the reviews.\<close>

definition content_only :: "cloud_db \<Rightarrow> cloud_db \<Rightarrow> bool" where
  "content_only db db' \<longleftrightarrow> ledger_kept db db' \<and> cd_reviews db' = cd_reviews db \<and> cd_days db' = cd_days db"

lemma content_only_trans: "content_only a b \<Longrightarrow> content_only b c \<Longrightarrow> content_only a c"
  by (simp add: content_only_def ledger_kept_def)

lemma content_ledger: "content_only db db' \<Longrightarrow> ledger_kept db db'"
  by (simp add: content_only_def)

lemma known_ensured: "known_workspace db w \<Longrightarrow> ensureWorkspaceSyncMetadataInExecutor (cd_sync db) w = cd_sync db"
  by (auto simp: known_workspace_def ensureWorkspaceSyncMetadataInExecutor_def)

lemma lock_kept:
  "lockWorkspaceSyncMetadataForHotChangesInExecutor (cd_sync db) w = Inr (l, sync) \<Longrightarrow> known_workspace db w \<Longrightarrow> sync = cd_sync db"
  by (simp add: lock_returns known_ensured)

lemma applied_card_kept: "applied_card e w l row db = Inr (r, db') \<Longrightarrow> content_only db db'"
  by (auto simp: applied_card_def res_simps content_only_def ledger_kept_def recordCardSyncChange_def dest: insertSyncChange_fields(3))

lemma put_card_kept: "content_only db (put_card w i row db)"
  by (simp add: content_only_def ledger_kept_def put_card_def)

lemma update_card_kept: "update_card_snapshot e db w l row i md = Inr (r, db') \<Longrightarrow> content_only db db'"
  by (auto simp: update_card_snapshot_def Let_def res_simps split: if_splits
      intro: content_only_trans [OF put_card_kept] applied_card_kept) (simp add: content_only_def ledger_kept_def)

lemma insert_card_kept: "insertCardRowForSnapshotInExecutor e db w i md = Inr (r, db') \<Longrightarrow> content_only db db'"
  by (auto simp: insertCardRowForSnapshotInExecutor_def Let_def res_simps content_only_def ledger_kept_def split: if_splits)

lemma with_same_sync [simp]: "with_sync (cd_sync db) db = db"
  by (simp add: with_sync_def)

lemma upsert_card_kept:
  assumes "upsertCardSnapshotInExecutor e db w i md = Inr (r, db')"
  shows "content_only (with_sync (ensureWorkspaceSyncMetadataInExecutor (cd_sync db) w) db) db'"
  using assms by (auto simp: upsertCardSnapshotInExecutor_def lock_returns Let_def res_simps
      split: option.splits dest!: update_card_kept insert_card_kept applied_card_kept intro: content_only_trans)

lemma applied_deck_kept: "applied_deck e w l row db = Inr (r, db') \<Longrightarrow> content_only db db'"
  by (auto simp: applied_deck_def res_simps content_only_def ledger_kept_def recordDeckSyncChange_def dest: insertSyncChange_fields(3))

lemma deck_tables_kept: "content_only db (put_deck w i row db)" "content_only db (db\<lparr>cd_decks := ds\<rparr>)"
  by (simp_all add: content_only_def ledger_kept_def put_deck_def)

lemma update_deck_kept: "update_deck_snapshot e db w l row i md = Inr (r, db') \<Longrightarrow> content_only db db'"
  by (auto simp: update_deck_snapshot_def Let_def res_simps split: if_splits
      intro: content_only_trans [OF deck_tables_kept(1)] applied_deck_kept) (simp add: content_only_def ledger_kept_def)

lemma upsert_deck_kept:
  assumes "upsertDeckSnapshotInExecutor e db w i md = Inr (r, db')"
  shows "content_only (with_sync (ensureWorkspaceSyncMetadataInExecutor (cd_sync db) w) db) db'"
  using assms by (auto simp: upsertDeckSnapshotInExecutor_def insert_deck_snapshot_def lock_returns
      Let_def res_simps split: option.splits if_splits
      dest!: update_deck_kept applied_deck_kept intro: content_only_trans [OF deck_tables_kept(2)])

lemma settings_kept:
  assumes "applyWorkspaceSchedulerSettingsSnapshotInExecutor p now (cd_settings db) w input md = Inr (r, settings)"
    and known: "known_workspace db w"
  shows "content_only db (db\<lparr>cd_settings := settings\<rparr>)"
  using assms(1) by (auto simp: applyWorkspaceSchedulerSettingsSnapshotInExecutor_def lock_returns known_ensured [OF known]
      Let_def res_simps content_only_def ledger_kept_def recordWorkspaceSchedulerSyncChange_def split: option.splits if_splits
      dest: insertSyncChange_fields(3))

lemma active_day_ledger:
  "storeActiveReviewDayForReviewEventInExecutor e db i = Inr (r, db') \<Longrightarrow> cd_applied db' = cd_applied db"
  by (auto simp: storeActiveReviewDayForReviewEventInExecutor_def upsertUserActiveReviewDayInExecutor_def
      updateReviewEventReviewTimeZoneInExecutor_def Let_def res_simps split: option.splits if_splits)

lemma fact_ledger: "cd_applied (recordQualifiedReviewActivityFactInExecutor e db i) = cd_applied db"
  by (simp add: recordQualifiedReviewActivityFactInExecutor_def Let_def split: prod.split)

lemma append_review_kept:
  assumes "appendReviewEventSnapshotInExecutor e db w ev op = Inr (r, db')"
  shows "ledger_kept db db'"
proof -
  obtain inserted db1 where i: "insert_review e db w ev = Inr (inserted, db1)"
    using assms by (auto simp: appendReviewEventSnapshotInExecutor_def res_simps)
  then have same: "cd_applied db1 = cd_applied db" by (auto simp: insert_review_def split: if_splits)
  have "cd_applied db' = cd_applied db"
  proof (cases inserted)
    case None
    then show ?thesis using assms i same
      by (auto simp: appendReviewEventSnapshotInExecutor_def Let_def res_simps split: if_splits option.splits)
  next
    case (Some row)
    then have "appended_review e db1 ev row = Inr (r, db')" using assms i by (simp add: appendReviewEventSnapshotInExecutor_def)
    then show ?thesis
      using same by (auto simp: appended_review_def Let_def res_simps fact_ledger dest!: active_day_ledger split: if_splits)
  qed
  then show ?thesis using appendReview_same [OF assms] by (simp add: ledger_kept_def)
qed

lemma process_payload_kept:
  assumes "process_payload e db w replica operation = Inr (Outcome a c db')" and known: "known_workspace db w"
  shows "ledger_kept db db'"
  using assms upsert_card_kept [of e db w, unfolded known_ensured [OF known] with_same_sync]
    upsert_deck_kept [of e db w, unfolded known_ensured [OF known] with_same_sync]
  by (cases "p_payload operation")
    (auto simp: process_payload_def process_review_def Let_def res_simps split: if_splits
      intro: content_ledger append_review_kept settings_kept)

section \<open>One operation\<close>

text \<open>The ledger of an operation after it was processed: what its result says, once.\<close>

definition ledger :: "cloud_db \<Rightarrow> string \<Rightarrow> string \<Rightarrow> string \<Rightarrow> applied_operation list" where
  "ledger db w replica operationId = filter (is_applied w replica operationId) (cd_applied db)"

lemma process_ledger:
  assumes "processOperationInExecutor e w replica operation db = Inr (r, db')" and known: "known_workspace db w"
  shows "pr_status r = Rejected \<and> db' = db \<or> pr_status r \<noteq> Rejected
    \<and> sync_metadata (cd_sync db') = sync_metadata (cd_sync db)
    \<and> (\<forall>i. i \<noteq> p_operationId operation \<longrightarrow> ledger db' w replica i = ledger db w replica i)
    \<and> (\<exists>row. o_hot_change_id row = pr_resultingHotChangeId r \<and> o_applied_at row = env_now e
        \<and> list_all (\<lambda>q. o_applied_at q \<noteq> env_now e) (ledger db w replica (p_operationId operation))
        \<and> ledger db' w replica (p_operationId operation) = ledger db w replica (p_operationId operation) @ [row])"
proof -
  obtain outcome where o: "process_payload e db w replica operation = Inr outcome"
    using assms(1) by (auto simp: processOperationInExecutor_def res_simps)
  show ?thesis
  proof (cases outcome)
    case (Reject message)
    then show ?thesis using assms(1) o by (auto simp: processOperationInExecutor_def push_result_def)
  next
    case (Outcome a c db1)
    have same: "cd_applied db1 = cd_applied db" "sync_metadata (cd_sync db1) = sync_metadata (cd_sync db)"
      using process_payload_kept [OF o [unfolded Outcome] known] by (simp_all add: ledger_kept_def)
    obtain db2 where rec: "recordAppliedOperation e db1 w replica operation c = Inr db2"
      and r: "r = push_result operation (if a then Applied else Ignored) c None" "db' = db2"
      using assms(1) o Outcome by (auto simp: processOperationInExecutor_def res_simps)
    have meta: "sync_metadata (cd_sync db') = sync_metadata (cd_sync db)"
      using rec r(2) same(2) by (auto simp: recordAppliedOperation_def res_simps split: if_splits)
    have fresh: "list_all (\<lambda>q. o_applied_at q \<noteq> env_now e) (ledger db w replica (p_operationId operation))"
      using rec same by (auto simp: recordAppliedOperation_def ledger_def list_all_iff list_ex_iff res_simps split: if_splits)
    obtain row where row: "cd_applied db' = cd_applied db @ [row]" "is_applied w replica (p_operationId operation) row"
        "o_hot_change_id row = c" "o_applied_at row = env_now e"
      using rec r(2) same by (auto simp: recordAppliedOperation_def is_applied_def res_simps split: if_splits)
    have "is_applied w replica i row \<longleftrightarrow> i = p_operationId operation" for i using row(2) by (auto simp: is_applied_def)
    then show ?thesis using row r(1) fresh meta by (auto simp: ledger_def push_result_def)
  qed
qed

section \<open>A batch\<close>

definition marked :: "cloud_env \<Rightarrow> cloud_db \<Rightarrow> string \<Rightarrow> string \<Rightarrow> string \<Rightarrow> bool" where
  "marked e db w replica i \<longleftrightarrow> list_ex (\<lambda>q. o_applied_at q = env_now e) (ledger db w replica i)"

lemma push_one_known:
  assumes "push_one e w replica existing op db = Inr (r, db')" and "known_workspace db w"
  shows "known_workspace db' w"
proof (cases "existing (p_operationId op)")
  case None
  then have "processOperationInExecutor e w replica op db = Inr (r, db')" using assms(1) by (simp add: push_one_def)
  from process_ledger [OF this assms(2)] show ?thesis using assms(2) by (auto simp: known_workspace_def)
qed (use assms in \<open>simp add: push_one_def\<close>)

lemma batch_known:
  "each_r (push_one e w replica existing) ops db = Inr (rs, db') \<Longrightarrow> known_workspace db w \<Longrightarrow> known_workspace db' w"
  by (induction ops arbitrary: db rs) (auto simp: res_simps dest: push_one_known)

text \<open>An operation recorded by this transaction, or before it, is not recorded again.\<close>

lemma batch_keeps:
  assumes "each_r (push_one e w replica existing) ops db = Inr (rs, db')" and "\<forall>r \<in> set rs. pr_status r \<noteq> Rejected"
    and "known_workspace db w" and "marked e db w replica i \<or> existing i \<noteq> None"
  shows "ledger db' w replica i = ledger db w replica i"
  using assms
proof (induction ops arbitrary: db rs)
  case (Cons op ops)
  obtain r rs' db1 where r: "push_one e w replica existing op db = Inr (r, db1)"
      "each_r (push_one e w replica existing) ops db1 = Inr (rs', db')" "rs = r # rs'"
    using Cons.prems(1) by (auto simp: res_simps)
  have same: "ledger db1 w replica i = ledger db w replica i"
  proof (cases "existing (p_operationId op)")
    case None
    then have p: "processOperationInExecutor e w replica op db = Inr (r, db1)" using r(1) by (simp add: push_one_def)
    note l = process_ledger [OF p Cons.prems(3)]
    have ok: "pr_status r \<noteq> Rejected" using Cons.prems(2) r(3) by simp
    have "i \<noteq> p_operationId op" using Cons.prems(4) l ok None by (auto simp: marked_def list_ex_iff list_all_iff)
    then show ?thesis using l ok by blast
  qed (use r(1) in \<open>simp add: push_one_def\<close>)
  then show ?case using Cons.IH [OF r(2) _ push_one_known [OF r(1) Cons.prems(3)]] Cons.prems(2,4) r(3) by (simp add: marked_def)
qed simp

lemma batch_records:
  assumes "each_r (push_one e w replica existing) ops db = Inr (rs, db')" and "\<forall>r \<in> set rs. pr_status r \<noteq> Rejected"
    and "known_workspace db w" and "\<And>op. op \<in> set ops \<Longrightarrow> existing (p_operationId op) = None \<Longrightarrow>
      ledger db w replica (p_operationId op) = [] \<or> marked e db w replica (p_operationId op)"
  shows "list_all2 (\<lambda>op r. case existing (p_operationId op) of
      None \<Rightarrow> map_option o_hot_change_id (latest_applied (ledger db' w replica (p_operationId op))) = Some (pr_resultingHotChangeId r)
    | Some c \<Rightarrow> pr_resultingHotChangeId r = c) ops rs"
  using assms
proof (induction ops arbitrary: db rs)
  case (Cons op ops)
  let ?i = "p_operationId op"
  obtain r rs' db1 where r: "push_one e w replica existing op db = Inr (r, db1)"
      "each_r (push_one e w replica existing) ops db1 = Inr (rs', db')" "rs = r # rs'"
    using Cons.prems(1) by (auto simp: res_simps)
  have ok: "pr_status r \<noteq> Rejected" "\<forall>r \<in> set rs'. pr_status r \<noteq> Rejected" using Cons.prems(2) r(3) by simp_all
  have known: "known_workspace db1 w" using push_one_known [OF r(1) Cons.prems(3)] .
  show ?case
  proof (cases "existing ?i")
    case (Some c)
    then have "db1 = db" "pr_resultingHotChangeId r = c" using r(1) by (auto simp: push_one_def push_result_def)
    then show ?thesis using Cons.IH [OF r(2) ok(2) known] Cons.prems(4) Some r(3) by simp
  next
    case None
    then have p: "processOperationInExecutor e w replica op db = Inr (r, db1)" using r(1) by (simp add: push_one_def)
    obtain row where row: "o_hot_change_id row = pr_resultingHotChangeId r" "o_applied_at row = env_now e"
        "list_all (\<lambda>q. o_applied_at q \<noteq> env_now e) (ledger db w replica ?i)"
        "ledger db1 w replica ?i = ledger db w replica ?i @ [row]"
      using process_ledger [OF p Cons.prems(3)] ok(1) by blast
    have "\<not> marked e db w replica ?i" using row(3) by (auto simp: marked_def list_ex_iff list_all_iff)
    then have one: "ledger db1 w replica ?i = [row]" using row(4) Cons.prems(4) [of op] None by simp
    then have "marked e db1 w replica ?i" using row(2) by (simp add: marked_def)
    then have kept: "ledger db' w replica ?i = [row]" using batch_keeps [OF r(2) ok(2) known] one by simp
    have "ledger db1 w replica (p_operationId o') = [] \<or> marked e db1 w replica (p_operationId o')"
      if o': "o' \<in> set ops" "existing (p_operationId o') = None" for o'
    proof (cases "p_operationId o' = ?i")
      case True
      then show ?thesis using \<open>marked e db1 w replica ?i\<close> by simp
    next
      case False
      then have "ledger db1 w replica (p_operationId o') = ledger db w replica (p_operationId o')"
        using process_ledger [OF p Cons.prems(3)] ok(1) by blast
      then show ?thesis using Cons.prems(4) [of o'] o' by (simp add: marked_def)
    qed
    then show ?thesis using Cons.IH [OF r(2) ok(2) known] None r(3) kept row(1) by (simp add: latest_applied_def)
  qed
qed simp

section \<open>Sending a batch again\<close>

definition duplicates :: "PushedOperation list \<Rightarrow> SyncPushOperationResult list \<Rightarrow> SyncPushOperationResult list" where
  "duplicates ops rs = map2 (\<lambda>op r. push_result op Duplicate (pr_resultingHotChangeId r) None) ops rs"

lemma all_duplicates:
  "list_all2 (\<lambda>op r. existing (p_operationId op) = Some (pr_resultingHotChangeId r)) ops rs
    \<Longrightarrow> each_r (push_one e w replica existing) ops db = Inr (duplicates ops rs, db)"
  by (induction ops rs rule: list_all2_induct) (simp_all add: push_one_def duplicates_def)

lemma existing_ledger:
  "i \<in> set ids \<Longrightarrow> loadExistingAppliedOperations db w replica ids i = map_option o_hot_change_id (latest_applied (ledger db w replica i))"
  by (simp add: loadExistingAppliedOperations_def ledger_def)

lemma latest_applied_None: "latest_applied rs = None \<longleftrightarrow> rs = []"
  by (cases rs) (simp_all add: latest_applied_def)

lemma push_retry:
  assumes push: "processSyncPushOperationsInExecutor e db w replica ops = Inr (rs, db')"
    and ok: "\<forall>r \<in> set rs. pr_status r \<noteq> Rejected"
  shows "processSyncPushOperationsInExecutor e' db' w replica ops
    = Inr (duplicates ops rs, db')"
proof -
  let ?db = "with_sync (ensureWorkspaceSyncMetadataInExecutor (cd_sync db) w) db"
  let ?ids = "map p_operationId ops"
  let ?existing = "loadExistingAppliedOperations ?db w replica ?ids"
  let ?existing' = "loadExistingAppliedOperations db' w replica ?ids"
  have run: "each_r (push_one e w replica ?existing) ops ?db = Inr (rs, db')"
    using push by (simp add: processSyncPushOperationsInExecutor_def Let_def)
  have known: "known_workspace ?db w" using ensure_total by (simp add: known_workspace_def)
  have ensured: "with_sync (ensureWorkspaceSyncMetadataInExecutor (cd_sync db') w) db' = db'"
    using batch_known [OF run known] by (simp add: known_ensured)
  have "ledger ?db w replica (p_operationId op) = []" if "op \<in> set ops" "?existing (p_operationId op) = None" for op
    using that existing_ledger [of "p_operationId op" ?ids ?db w replica] by (simp add: latest_applied_None)
  then have recorded: "list_all2 (\<lambda>op r. case ?existing (p_operationId op) of
      None \<Rightarrow> map_option o_hot_change_id (latest_applied (ledger db' w replica (p_operationId op))) = Some (pr_resultingHotChangeId r)
    | Some c \<Rightarrow> pr_resultingHotChangeId r = c) ops rs"
    by (intro batch_records [OF run ok known]) blast
  have again: "?existing' (p_operationId op) = Some (pr_resultingHotChangeId r)"
    if op: "op \<in> set ops" and r: "case ?existing (p_operationId op) of
      None \<Rightarrow> map_option o_hot_change_id (latest_applied (ledger db' w replica (p_operationId op))) = Some (pr_resultingHotChangeId r)
    | Some c \<Rightarrow> pr_resultingHotChangeId r = c" for op r
  proof -
    have mem: "p_operationId op \<in> set ?ids" using op by simp
    have e': "?existing' (p_operationId op) = map_option o_hot_change_id (latest_applied (ledger db' w replica (p_operationId op)))"
      using existing_ledger [OF mem] by simp
    show ?thesis
    proof (cases "?existing (p_operationId op)")
      case None
      then show ?thesis using r e' by simp
    next
      case (Some c)
      then have "ledger db' w replica (p_operationId op) = ledger ?db w replica (p_operationId op)"
        by (intro batch_keeps [OF run ok known]) simp
      then show ?thesis using r e' Some existing_ledger [OF mem, of ?db w replica] by simp
    qed
  qed
  have "list_all2 (\<lambda>op r. ?existing' (p_operationId op) = Some (pr_resultingHotChangeId r)) ops rs"
    by (rule list.rel_mono_strong [OF recorded]) (rule again)
  then show ?thesis unfolding processSyncPushOperationsInExecutor_def Let_def ensured by (rule all_duplicates)
qed

end
