(* ===== verification/WebStore.thy ===== *)
theory WebStore
  imports WebEditing SyncPull
begin

text \<open>
  The browser database of the web client (\<open>apps/web/src/localDb\<close>): cards with their derived due
  times, the index of their tags, decks, media assets, scheduler settings and the sync state, each
  store a map from its key; and applying a page of pulled changes to it. A transaction that throws
  is aborted, so a failed operation has no next store. The current time is an argument.
\<close>

section \<open>Stored cards\<close>

record StoredCard = Card +
  st_workspaceId :: string
  st_dueAtMillis :: "int option"
  st_dueAtBucketMillis :: int
  st_fsrsLastReviewedAtMillis :: "int option"

definition toStoredCard :: "string \<Rightarrow> Card \<Rightarrow> StoredCard result" where
  "toStoredCard wsp crd =
     rbind (deriveDueAtMillis (dueAt crd)) (\<lambda>dueMillis.
     rbind (deriveDueAtBucketMillis (dueAt crd)) (\<lambda>bucket.
     rbind (case fsrsLastReviewedAt crd of None \<Rightarrow> Inr None | Some s \<Rightarrow> deriveDueAtMillis (Some s)) (\<lambda>reviewedMillis.
     Inr (Card.extend crd \<lparr>st_workspaceId = wsp, st_dueAtMillis = dueMillis, st_dueAtBucketMillis = bucket,
       st_fsrsLastReviewedAtMillis = reviewedMillis\<rparr>))))"

definition toCard :: "StoredCard \<Rightarrow> Card" where
  "toCard r = Card.truncate r"

section \<open>The stores\<close>

text \<open>A record of \<open>cardTags\<close> is its key.\<close>

record WorkspaceSyncStateRecord =
  ss_lastAppliedHotChangeId :: int
  ss_lastAppliedReviewSequenceId :: int
  ss_hasHydratedHotState :: bool
  ss_hasHydratedReviewHistory :: bool
  ss_hotStateHydratedAt :: "string option"
  ss_reviewHistoryHydratedAt :: "string option"
  ss_updatedAt :: string

record web_store =
  ws_cards :: "string \<times> string \<rightharpoonup> StoredCard"
  ws_cardTags :: "(string \<times> string \<times> string) list"
  ws_decks :: "string \<times> string \<rightharpoonup> Deck"
  ws_mediaAssets :: "string \<times> string \<rightharpoonup> MediaAsset"
  ws_workspaceSettings :: "string \<rightharpoonup> WorkspaceSchedulerSettings"
  ws_workspaceSyncState :: "string \<rightharpoonup> WorkspaceSyncStateRecord"

definition put_tag :: "(string \<times> string \<times> string) list \<Rightarrow> string \<times> string \<times> string \<Rightarrow> (string \<times> string \<times> string) list" where
  "put_tag recs k = (if List.member recs k then recs else recs @ [k])"

definition putCardTags :: "string \<Rightarrow> Card \<Rightarrow> (string \<times> string \<times> string) list \<Rightarrow> (string \<times> string \<times> string) list" where
  "putCardTags wsp crd recs = (if deletedAt crd \<noteq> None then recs
     else fold (\<lambda>tag recs. if tag = [] then recs else put_tag recs (wsp, cardId crd, tag)) (tags crd) recs)"

text \<open>The records of the card are deleted under a cursor, then its tags are put.\<close>

definition writeCardTagRecords :: "string \<Rightarrow> Card \<Rightarrow> (string \<times> string \<times> string) list \<Rightarrow> (string \<times> string \<times> string) list" where
  "writeCardTagRecords wsp crd recs =
     putCardTags wsp crd (filter (\<lambda>(w, i, _). (w, i) \<noteq> (wsp, cardId crd)) recs)"

definition putCardInTransaction :: "string \<Rightarrow> Card \<Rightarrow> web_store \<Rightarrow> web_store result" where
  "putCardInTransaction wsp crd s = rbind (toStoredCard wsp crd) (\<lambda>stored.
     Inr (s\<lparr>ws_cards := (ws_cards s)((wsp, cardId crd) \<mapsto> stored),
       ws_cardTags := writeCardTagRecords wsp crd (ws_cardTags s)\<rparr>))"

definition putDeckInTransaction :: "Deck \<Rightarrow> web_store \<Rightarrow> web_store" where
  "putDeckInTransaction deck s = s\<lparr>ws_decks := (ws_decks s)((deckWorkspaceId deck, deckId deck) \<mapsto> deck)\<rparr>"

definition putMediaAssetInTransaction :: "MediaAsset \<Rightarrow> web_store \<Rightarrow> web_store" where
  "putMediaAssetInTransaction asset s =
     s\<lparr>ws_mediaAssets := (ws_mediaAssets s)((a_workspaceId asset, a_mediaAssetId asset) \<mapsto> asset)\<rparr>"

definition putWorkspaceSettingsInTransaction :: "string \<Rightarrow> WorkspaceSchedulerSettings \<Rightarrow> web_store \<Rightarrow> web_store" where
  "putWorkspaceSettingsInTransaction wsp settings s =
     s\<lparr>ws_workspaceSettings := (ws_workspaceSettings s)(wsp \<mapsto> settings)\<rparr>"

text \<open>All cards of a workspace anew: those stored are deleted, with their tags.\<close>

definition replace_one :: "string \<Rightarrow> web_store \<Rightarrow> Card \<Rightarrow> web_store result" where
  "replace_one wsp s crd = rbind (toStoredCard wsp crd) (\<lambda>stored.
     Inr (s\<lparr>ws_cards := (ws_cards s)((wsp, cardId crd) \<mapsto> stored), ws_cardTags := putCardTags wsp crd (ws_cardTags s)\<rparr>))"

definition replaceCards :: "string \<Rightarrow> Card list \<Rightarrow> web_store \<Rightarrow> web_store result" where
  "replaceCards wsp new s = fold_r (replace_one wsp)
     (s\<lparr>ws_cards := (\<lambda>k. if fst k = wsp then None else ws_cards s k),
       ws_cardTags := filter (\<lambda>(w, _). w \<noteq> wsp) (ws_cardTags s)\<rparr>) new"

section \<open>The sync state\<close>

definition buildWorkspaceSyncStateRecord ::
    "string \<Rightarrow> WorkspaceSyncStateRecord option \<Rightarrow> int \<Rightarrow> int \<Rightarrow> bool \<Rightarrow> bool \<Rightarrow> WorkspaceSyncStateRecord" where
  "buildWorkspaceSyncStateRecord now currentRecord hotId reviewId hot reviews = \<lparr>
     ss_lastAppliedHotChangeId = hotId, ss_lastAppliedReviewSequenceId = reviewId,
     ss_hasHydratedHotState = hot, ss_hasHydratedReviewHistory = reviews,
     ss_hotStateHydratedAt = (if hot then Some (or_else (Option.bind currentRecord ss_hotStateHydratedAt) now) else None),
     ss_reviewHistoryHydratedAt =
       (if reviews then Some (or_else (Option.bind currentRecord ss_reviewHistoryHydratedAt) now) else None),
     ss_updatedAt = now\<rparr>"

definition current_or :: "WorkspaceSyncStateRecord option \<Rightarrow> (WorkspaceSyncStateRecord \<Rightarrow> 'a) \<Rightarrow> 'a \<Rightarrow> 'a" where
  "current_or r f d = (case r of None \<Rightarrow> d | Some r \<Rightarrow> f r)"

definition buildHotSyncStateRecord ::
    "string \<Rightarrow> WorkspaceSyncStateRecord option \<Rightarrow> int \<Rightarrow> bool \<Rightarrow> WorkspaceSyncStateRecord" where
  "buildHotSyncStateRecord now r hotId markHydrated = buildWorkspaceSyncStateRecord now r hotId
     (current_or r ss_lastAppliedReviewSequenceId 0) (current_or r ss_hasHydratedHotState False \<or> markHydrated)
     (current_or r ss_hasHydratedReviewHistory False)"

definition buildReviewHistorySyncStateRecord ::
    "string \<Rightarrow> WorkspaceSyncStateRecord option \<Rightarrow> int \<Rightarrow> bool \<Rightarrow> WorkspaceSyncStateRecord" where
  "buildReviewHistorySyncStateRecord now r reviewId markHydrated = buildWorkspaceSyncStateRecord now r
     (current_or r ss_lastAppliedHotChangeId 0) reviewId (current_or r ss_hasHydratedHotState False)
     (current_or r ss_hasHydratedReviewHistory False \<or> markHydrated)"

definition put_sync_state :: "string \<Rightarrow> WorkspaceSyncStateRecord \<Rightarrow> web_store \<Rightarrow> web_store" where
  "put_sync_state wsp r s = s\<lparr>ws_workspaceSyncState := (ws_workspaceSyncState s)(wsp \<mapsto> r)\<rparr>"

definition loadLastAppliedHotChangeId :: "string \<Rightarrow> web_store \<Rightarrow> int" where
  "loadLastAppliedHotChangeId wsp s = current_or (ws_workspaceSyncState s wsp) ss_lastAppliedHotChangeId 0"

definition setLastAppliedHotChangeId :: "string \<Rightarrow> string \<Rightarrow> int \<Rightarrow> web_store \<Rightarrow> web_store" where
  "setLastAppliedHotChangeId now wsp hotId s = (let r = ws_workspaceSyncState s wsp in
     put_sync_state wsp (buildWorkspaceSyncStateRecord now r hotId (current_or r ss_lastAppliedReviewSequenceId 0)
       (current_or r ss_hasHydratedHotState False) (current_or r ss_hasHydratedReviewHistory False)) s)"

definition setHotStateHydrated :: "string \<Rightarrow> string \<Rightarrow> bool \<Rightarrow> web_store \<Rightarrow> web_store" where
  "setHotStateHydrated now wsp hydrated s = (let r = ws_workspaceSyncState s wsp in
     put_sync_state wsp (buildWorkspaceSyncStateRecord now r (current_or r ss_lastAppliedHotChangeId 0)
       (current_or r ss_lastAppliedReviewSequenceId 0) hydrated (current_or r ss_hasHydratedReviewHistory False)) s)"

section \<open>A page of changes\<close>

text \<open>
  An entity as the response carries it: the payload of the server, field by field. The constant
  legacy fields add no tag when the client reads them.
\<close>

datatype web_entity =
    WebCard Card
  | WebDeck Deck
  | WebSettings WorkspaceSchedulerSettings
  | WebMedia MediaAsset

definition wire_source :: "CloudCardSourceMetadata \<Rightarrow> CardSourceMetadata" where
  "wire_source s = \<lparr>label = source_label s, author = source_author s, comment = source_comment s,
     sourceCreatedAt = source_createdAt s, importedAt = source_importedAt s, importId = source_importId s\<rparr>"

definition wire_card :: "CloudCard \<Rightarrow> Card" where
  "wire_card c = \<lparr>cardId = c_card_id c, frontText = c_front_text c, backText = c_back_text c, cardType = c_card_type c,
     metadata = \<lparr>metadataVersion = 1, metadataSource = map_option wire_source (metadata_source (c_metadata c))\<rparr>,
     tags = c_tags c, dueAt = c_due_at c, createdAt = c_created_at c, reps = c_fsrs_reps c, lapses = c_fsrs_lapses c,
     fsrsCardState = c_fsrs_state c, fsrsStepIndex = c_fsrs_step_index c, fsrsStability = c_fsrs_stability c,
     fsrsDifficulty = c_fsrs_difficulty c, fsrsLastReviewedAt = c_fsrs_last_reviewed_at c,
     fsrsScheduledDays = c_fsrs_scheduled_days c, cardClientUpdatedAt = c_client_updated_at c,
     cardReplicaId = c_replica_id c, cardOperationId = c_operation_id c, updatedAt = c_updated_at c,
     deletedAt = c_deleted_at c\<rparr>"

definition wire_deck :: "CloudDeck \<Rightarrow> Deck" where
  "wire_deck d = \<lparr>deckId = e_deckId d, deckWorkspaceId = e_workspaceId d, deckName = e_name d,
     filterDefinition = \<lparr>filterVersion = 2, filterTags = df_tags (e_filterDefinition d)\<rparr>, deckCreatedAt = e_createdAt d,
     deckClientUpdatedAt = e_clientUpdatedAt d, deckReplicaId = e_replicaId d, deckOperationId = e_operationId d,
     deckUpdatedAt = e_updatedAt d, deckDeletedAt = e_deletedAt d\<rparr>"

fun web_payload :: "HotPayload \<Rightarrow> web_entity" where
  "web_payload (CardPayload c) = WebCard (wire_card (CloudCard.truncate c))"
| "web_payload (DeckPayload d _) = WebDeck (wire_deck d)"
| "web_payload (SettingsPayload s) = WebSettings s"
| "web_payload (MediaPayload m) = WebMedia m"

definition apply_entry :: "string \<Rightarrow> web_store \<Rightarrow> web_entity \<Rightarrow> web_store result" where
  "apply_entry wsp s entry = (case entry of
     WebCard crd \<Rightarrow> putCardInTransaction wsp crd s
   | WebDeck deck \<Rightarrow>
       if deckWorkspaceId deck \<noteq> wsp
       then Inl (Error (''Deck sync payload workspace mismatch: '' @ deckWorkspaceId deck))
       else Inr (putDeckInTransaction deck s)
   | WebMedia asset \<Rightarrow>
       if a_workspaceId asset \<noteq> wsp
       then Inl (Error (''Media asset sync payload workspace mismatch: '' @ a_workspaceId asset))
       else Inr (putMediaAssetInTransaction asset s)
   | WebSettings settings \<Rightarrow> Inr (putWorkspaceSettingsInTransaction wsp settings s))"

definition applyHotSyncPage :: "string \<Rightarrow> string \<Rightarrow> web_entity list \<Rightarrow> (int \<times> bool) option \<Rightarrow> web_store \<Rightarrow> web_store result" where
  "applyHotSyncPage now wsp entries syncStateUpdate s =
     rbind (fold_r (apply_entry wsp) s entries) (\<lambda>s'.
     Inr (case syncStateUpdate of
       None \<Rightarrow> s'
     | Some (hotId, markHydrated) \<Rightarrow>
         put_sync_state wsp (buildHotSyncStateRecord now (ws_workspaceSyncState s wsp) hotId markHydrated) s'))"

section \<open>Pulling\<close>

definition findLastWorkspaceSettingsEntry :: "web_entity list \<Rightarrow> WorkspaceSchedulerSettings option" where
  "findLastWorkspaceSettingsEntry entries =
     fold (\<lambda>e last. case e of WebSettings s \<Rightarrow> Some s | _ \<Rightarrow> last) entries None"

definition doHotSyncEntriesAffectReviewSchedule :: "string \<Rightarrow> web_store \<Rightarrow> web_entity list \<Rightarrow> bool" where
  "doHotSyncEntriesAffectReviewSchedule wsp s entries =
     list_ex (\<lambda>e. case e of
         WebCard crd \<Rightarrow> doesCardMutationAffectReviewSchedule (map_option toCard (ws_cards s (wsp, cardId crd))) crd
       | _ \<Rightarrow> False) entries"

record pull_run =
  run_store :: web_store
  run_db :: cloud_db
  run_didChangeReviewSchedule :: bool
  run_published :: "WorkspaceSchedulerSettings list"

text \<open>One turn of the loop, in a run that is neither failed nor discarded.\<close>

definition pull_page :: "string \<Rightarrow> string \<Rightarrow> nat \<Rightarrow> pull_run \<Rightarrow> int \<Rightarrow> (pull_run \<times> int \<times> bool) result" where
  "pull_page now wsp pageSize run after =
     rbind (processSyncPull (run_db run) wsp
       \<lparr>afterHotChangeId = after, pullLimit = pageSize, includeMediaAssets = True\<rparr>) (\<lambda>(pullResult, db). let
       entries = map (\<lambda>c. web_payload (h_payload c)) (pullChanges pullResult)
     in rbind (applyHotSyncPage now wsp entries (Some (nextHotChangeId pullResult, False)) (run_store run)) (\<lambda>s.
       Inr (\<lparr>run_store = s, run_db = db,
           run_didChangeReviewSchedule = run_didChangeReviewSchedule run
             \<or> doHotSyncEntriesAffectReviewSchedule wsp (run_store run) entries,
           run_published = run_published run @ (case findLastWorkspaceSettingsEntry entries of None \<Rightarrow> [] | Some x \<Rightarrow> [x])\<rparr>,
         nextHotChangeId pullResult, pullHasMore pullResult)))"

text \<open>The loop, \<open>None\<close> when the fuel is spent before the last page.\<close>

fun pull_pages :: "nat \<Rightarrow> string \<Rightarrow> string \<Rightarrow> nat \<Rightarrow> pull_run \<Rightarrow> int \<Rightarrow> pull_run result option" where
  "pull_pages 0 now w n run after = None"
| "pull_pages (Suc fuel) now w n run after = (case pull_page now w n run after of
     Inl e \<Rightarrow> Some (Inl e)
   | Inr (run', after', hasMore) \<Rightarrow> if hasMore then pull_pages fuel now w n run' after' else Some (Inr run'))"

definition syncIncrementalPageSize :: nat where
  "syncIncrementalPageSize = 500"

definition pullHotChanges :: "nat \<Rightarrow> string \<Rightarrow> string \<Rightarrow> cloud_db \<Rightarrow> web_store \<Rightarrow> pull_run result option" where
  "pullHotChanges fuel now wsp db s = pull_pages fuel now wsp syncIncrementalPageSize
     \<lparr>run_store = s, run_db = db, run_didChangeReviewSchedule = False, run_published = []\<rparr>
     (loadLastAppliedHotChangeId wsp s)"

section \<open>The index of tags\<close>

text \<open>The invariant of the index: a record for every tag, not empty, of a card that is not deleted.\<close>

definition tags_indexed :: "web_store \<Rightarrow> bool" where
  "tags_indexed s \<longleftrightarrow> (\<forall>w i tag. (w, i, tag) \<in> set (ws_cardTags s) \<longleftrightarrow>
     (\<exists>r. ws_cards s (w, i) = Some r \<and> deletedAt r = None \<and> tag \<in> set (tags r) \<and> tag \<noteq> []))"

lemma set_put_tag [simp]: "set (put_tag recs k) = insert k (set recs)"
  by (auto simp: put_tag_def)

lemma set_fold_put_tag:
  "set (fold (\<lambda>tag recs. if tag = [] then recs else put_tag recs (w, i, tag)) ts recs)
     = set recs \<union> (\<lambda>tag. (w, i, tag)) ` {tag \<in> set ts. tag \<noteq> []}"
  by (induction ts arbitrary: recs) auto

lemma set_putCardTags:
  "set (putCardTags w c recs) = set recs \<union> (if deletedAt c = None then (\<lambda>tag. (w, cardId c, tag)) ` {tag \<in> set (tags c). tag \<noteq> []} else {})"
  by (auto simp: putCardTags_def set_fold_put_tag)

lemma toStoredCard_fields:
  "toStoredCard w c = Inr r \<Longrightarrow> deletedAt r = deletedAt c \<and> tags r = tags c \<and> toCard r = c"
  by (cases c) (auto simp: toStoredCard_def toCard_def Card.defs res_simps)

lemma putCard_tags:
  assumes "putCardInTransaction w c s = Inr s'" and "tags_indexed s"
  shows "tags_indexed s'"
proof -
  obtain r where r: "toStoredCard w c = Inr r" and s': "s' = s\<lparr>ws_cards := (ws_cards s)((w, cardId c) \<mapsto> r),
      ws_cardTags := writeCardTagRecords w c (ws_cardTags s)\<rparr>"
    using assms(1) by (auto simp: putCardInTransaction_def res_simps)
  show ?thesis
    using assms(2) toStoredCard_fields [OF r] unfolding tags_indexed_def s'
    by (auto simp: writeCardTagRecords_def set_putCardTags)
qed

lemma apply_entry_tags: "apply_entry w s e = Inr s' \<Longrightarrow> tags_indexed s \<Longrightarrow> tags_indexed s'"
proof (cases e)
  case (WebCard c)
  assume "apply_entry w s e = Inr s'" and "tags_indexed s"
  then show ?thesis using WebCard putCard_tags by (simp add: apply_entry_def)
qed (auto simp: apply_entry_def putDeckInTransaction_def putMediaAssetInTransaction_def
      putWorkspaceSettingsInTransaction_def tags_indexed_def split: if_splits)

lemma applyHotSyncPage_tags:
  assumes "applyHotSyncPage now w es u s = Inr s'" and "tags_indexed s"
  shows "tags_indexed s'"
proof -
  obtain s1 where "fold_r (apply_entry w) s es = Inr s1" and s': "ws_cards s' = ws_cards s1" "ws_cardTags s' = ws_cardTags s1"
    using assms(1) by (auto simp: applyHotSyncPage_def res_simps put_sync_state_def split: option.splits)
  then have "tags_indexed s1" using assms(2) apply_entry_tags by (auto intro: fold_r_invariant [where P = tags_indexed])
  then show ?thesis by (simp add: tags_indexed_def s')
qed

text \<open>
  Replacing all cards: the index is not cleared card by card, so it is right for a list that names
  no card twice.
\<close>

lemma replace_cards_tags:
  assumes "fold_r (replace_one w) s cs = Inr s'" and "tags_indexed s" and "distinct (map cardId cs)"
    and "\<And>c. c \<in> set cs \<Longrightarrow> ws_cards s (w, cardId c) = None"
  shows "tags_indexed s'"
  using assms
proof (induction cs arbitrary: s)
  case (Cons c cs)
  obtain r where r: "toStoredCard w c = Inr r" using Cons.prems(1) by (auto simp: replace_one_def res_simps)
  let ?s = "s\<lparr>ws_cards := (ws_cards s)((w, cardId c) \<mapsto> r), ws_cardTags := putCardTags w c (ws_cardTags s)\<rparr>"
  have rest: "fold_r (replace_one w) ?s cs = Inr s'" using Cons.prems(1) r by (simp add: replace_one_def [of w s c])
  have fresh: "ws_cards s (w, cardId c) = None" using Cons.prems(4) by simp
  have "tags_indexed ?s"
    using Cons.prems(2) fresh toStoredCard_fields [OF r] unfolding tags_indexed_def by (auto simp: set_putCardTags)
  moreover have "ws_cards ?s (w, cardId d) = None" if d: "d \<in> set cs" for d
  proof -
    have "cardId d \<in> cardId ` set cs" using d by (rule imageI)
    then have "cardId d \<noteq> cardId c" using Cons.prems(3) by auto
    then show ?thesis using Cons.prems(4) [of d] d by simp
  qed
  ultimately show ?case using Cons.IH [OF rest] Cons.prems(3) by simp
qed simp

lemma replaceCards_tags:
  assumes "replaceCards w cs s = Inr s'" and "tags_indexed s" and "distinct (map cardId cs)"
  shows "tags_indexed s'"
proof -
  let ?s = "s\<lparr>ws_cards := (\<lambda>k. if fst k = w then None else ws_cards s k), ws_cardTags := filter (\<lambda>(w', _). w' \<noteq> w) (ws_cardTags s)\<rparr>"
  have "tags_indexed ?s" using assms(2) by (auto simp: tags_indexed_def)
  then show ?thesis using replace_cards_tags [OF assms(1) [unfolded replaceCards_def]] assms(3) by simp
qed

end
