(* ===== verification/SyncConverge.thy ===== *)
theory SyncConverge
  imports SyncWrites WebStore
begin

text \<open>
  A client that pulls while the workspace is written to: after every step, the client holds the
  current state of each entity whose latest change its cursor has passed; and pulling page by page
  comes to an end with the client up to date.
\<close>

section \<open>Loading the entities of a page\<close>

lemma rows_of_workspace:
  assumes "distinct (map key xs)" and "x \<in> set xs" and "P x" and "\<And>y. P y \<Longrightarrow> key y = key x"
  shows "find P xs = Some x"
  using assms
proof (induction xs)
  case (Cons y xs)
  show ?case
  proof (cases "P y")
    case True
    then have "key y = key x" using Cons.prems(4) by blast
    have "x \<notin> set xs"
    proof
      assume "x \<in> set xs"
      then have "key x \<in> key ` set xs" by (rule imageI)
      then show False using \<open>key y = key x\<close> Cons.prems(1) by simp
    qed
    then have "x = y" using Cons.prems(2) by simp
    then show ?thesis using True by simp
  next
    case False
    then have "x \<in> set xs" using Cons.prems(2,3) by auto
    moreover have "distinct (map key xs)" using Cons.prems(1) by simp
    ultimately have "find P xs = Some x" using Cons.prems(3,4) by (intro Cons.IH)
    then show ?thesis using False by simp
  qed
qed simp

definition right :: "'a result \<Rightarrow> 'a" where
  "right r = (case r of Inr x \<Rightarrow> x | Inl _ \<Rightarrow> undefined)"

lemma right_Inr [simp]: "right (Inr x) = x"
  by (simp add: right_def)

text \<open>The shape of the two loads of rows: converted rows by their key.\<close>

lemma loaded_rows:
  assumes "\<And>x. x \<in> set xs \<Longrightarrow> Q x \<Longrightarrow> \<exists>c. conv x = Inr c"
  shows "map_r (\<lambda>x. rbind (conv x) (\<lambda>c. Inr (key x, c))) (filter Q xs) = Inr (map (\<lambda>x. (key x, right (conv x))) (filter Q xs))"
proof (rule map_r_total)
  fix x
  assume "x \<in> set (filter Q xs)"
  then obtain c where "conv x = Inr c" using assms [of x] by auto
  then show "rbind (conv x) (\<lambda>c. Inr (key x, c)) = Inr (key x, right (conv x))" by simp
qed

lemma loaded_find:
  assumes "distinct (map key xs)" and "x \<in> set xs" and "Q x"
  shows "map_of (rev (map (\<lambda>x. (key x, f x)) (filter Q xs))) (key x) = Some (f x)"
proof -
  have "distinct (map fst (rev (map (\<lambda>x. (key x, f x)) (filter Q xs))))"
    using assms(1) by (simp add: rev_map [symmetric] o_def distinct_map_filter)
  then show ?thesis using assms(2,3) by (intro map_of_is_SomeI) auto
qed

lemma served_card:
  assumes "db_ok db" and "served db w CardEntity i \<noteq> None" and "row \<in> set (cd_cards db)" and "is_card w i row"
  shows "\<exists>crd. mapCard row = Inr crd \<and> served db w CardEntity i = Some (CardPayload (toLegacySyncCardPayload crd))"
proof -
  have "find (is_card w i) (cd_cards db) = Some row"
    using assms(1,3,4) by (intro rows_of_workspace [of k_card_id]) (auto simp: db_ok_def is_card_def)
  then show ?thesis using assms(2) by (cases "mapCard row") (auto simp: served_def loadCardRowForMutation_def)
qed

lemma served_deck:
  assumes "db_ok db" and "served db w DeckEntity i \<noteq> None" and "row \<in> set (cd_decks db)" and "is_deck w i row"
  shows "\<exists>deck. mapDeck row = Inr deck \<and> served db w DeckEntity i = Some (toLegacySyncDeckPayload deck)"
proof -
  have "find (is_deck w i) (cd_decks db) = Some row"
    using assms(1,3,4) by (intro rows_of_workspace [of d_deck_id]) (auto simp: db_ok_def is_deck_def)
  then show ?thesis using assms(2) by (cases "mapDeck row") (auto simp: served_def)
qed

lemma served_media:
  assumes "db_ok db" and "served db w MediaAssetEntity i \<noteq> None" and "row \<in> set (cd_media db)"
    and "m_workspace_id row = w" and "m_media_asset_id row = i"
  shows "\<exists>asset. mapMediaAssetRow row = Inr asset \<and> served db w MediaAssetEntity i = Some (MediaPayload asset)"
proof -
  have "find (\<lambda>r. m_workspace_id r = w \<and> m_media_asset_id r = i) (cd_media db) = Some row"
    using assms(1,3,4,5) by (intro rows_of_workspace [of m_media_asset_id]) (auto simp: db_ok_def)
  then show ?thesis using assms(2) by (cases "mapMediaAssetRow row") (auto simp: served_def)
qed

lemma served_row: "served db w t i \<noteq> None \<Longrightarrow> entity_row db w t i \<noteq> None"
  by (cases "entity_row db w t i") (simp_all add: served_def)

lemma ids_of_mem: "i \<in> set (ids_of t rows) \<longleftrightarrow> (\<exists>r \<in> set rows. hc_entity_type r = t \<and> hc_entity_id r = i)"
  by (auto simp: ids_of_def)

definition as_change :: "cloud_db \<Rightarrow> string \<Rightarrow> hot_change \<Rightarrow> SyncHotChange" where
  "as_change db w r = \<lparr>h_changeId = change_id r, h_entityType = hc_entity_type r, h_entityId = hc_entity_id r,
     h_payload = the (served db w (hc_entity_type r) (hc_entity_id r))\<rparr>"

lemma build_changes:
  assumes ok: "db_ok db"
    and rows: "\<And>r. r \<in> set rows \<Longrightarrow> served db w (hc_entity_type r) (hc_entity_id r) \<noteq> None"
  shows "buildHotChangesFromRows db w rows = Inr (map (as_change db w) rows)"
proof -
  let ?qc = "\<lambda>row. k_workspace_id row = w \<and> List.member (ids_of CardEntity rows) (k_card_id row)"
  let ?qd = "\<lambda>row. d_workspace_id row = w \<and> List.member (ids_of DeckEntity rows) (d_deck_id row)"
  let ?qm = "\<lambda>row. m_workspace_id row = w \<and> List.member (ids_of MediaAssetEntity rows) (m_media_asset_id row)"
  let ?cards = "map (\<lambda>x. (k_card_id x, right (mapCard x))) (filter ?qc (cd_cards db))"
  let ?decks = "map (\<lambda>x. (d_deck_id x, right (mapDeck x))) (filter ?qd (cd_decks db))"
  let ?media = "map (\<lambda>x. (m_media_asset_id x, right (mapMediaAssetRow x))) (filter ?qm (cd_media db))"
  have dist: "distinct (map k_card_id (cd_cards db))" "distinct (map d_deck_id (cd_decks db))"
    "distinct (map m_media_asset_id (cd_media db))" using ok by (simp_all add: db_ok_def)
  have c: "\<exists>crd. mapCard row = Inr crd \<and> served db w CardEntity (k_card_id row) = Some (CardPayload (toLegacySyncCardPayload crd))"
    if row: "row \<in> set (cd_cards db)" and q: "?qc row" for row
  proof -
    obtain r where "r \<in> set rows" "hc_entity_type r = CardEntity" "hc_entity_id r = k_card_id row" using q by (auto simp: ids_of_mem)
    with rows [of r] have "served db w CardEntity (k_card_id row) \<noteq> None" by auto
    with served_card [OF ok this row] q show ?thesis by (simp add: is_card_def)
  qed
  have d: "\<exists>deck. mapDeck row = Inr deck \<and> served db w DeckEntity (d_deck_id row) = Some (toLegacySyncDeckPayload deck)"
    if row: "row \<in> set (cd_decks db)" and q: "?qd row" for row
  proof -
    obtain r where "r \<in> set rows" "hc_entity_type r = DeckEntity" "hc_entity_id r = d_deck_id row" using q by (auto simp: ids_of_mem)
    with rows [of r] have "served db w DeckEntity (d_deck_id row) \<noteq> None" by auto
    with served_deck [OF ok this row] q show ?thesis by (simp add: is_deck_def)
  qed
  have m: "\<exists>asset. mapMediaAssetRow row = Inr asset \<and> served db w MediaAssetEntity (m_media_asset_id row) = Some (MediaPayload asset)"
    if row: "row \<in> set (cd_media db)" and q: "?qm row" for row
  proof -
    obtain r where "r \<in> set rows" "hc_entity_type r = MediaAssetEntity" "hc_entity_id r = m_media_asset_id row" using q by (auto simp: ids_of_mem)
    with rows [of r] have "served db w MediaAssetEntity (m_media_asset_id row) \<noteq> None" by auto
    with served_media [OF ok this row] q show ?thesis by simp
  qed
  have lc: "loadCardsByIdsInExecutor db w (ids_of CardEntity rows) = Inr ?cards"
    using loaded_rows [of "cd_cards db" ?qc mapCard k_card_id] c unfolding loadCardsByIdsInExecutor_def by (cases "ids_of CardEntity rows") auto
  have ld: "loadDecksByIdsInExecutor db w (ids_of DeckEntity rows) = Inr ?decks"
    using loaded_rows [of "cd_decks db" ?qd mapDeck d_deck_id] d unfolding loadDecksByIdsInExecutor_def by (cases "ids_of DeckEntity rows") auto
  have lm: "loadMediaAssetsByIdsInExecutor db w (ids_of MediaAssetEntity rows) = Inr ?media"
    using loaded_rows [of "cd_media db" ?qm mapMediaAssetRow m_media_asset_id] m unfolding loadMediaAssetsByIdsInExecutor_def by (cases "ids_of MediaAssetEntity rows") auto
  let ?any = "list_ex (\<lambda>row. hc_entity_type row = WorkspaceSchedulerSettingsEntity) rows"
  have "\<exists>s. (?any \<longrightarrow> (\<exists>row. map_of (db_workspaces (cd_settings db)) w = Some row \<and> mapWorkspaceSchedulerSettings row = Inr s))"
  proof (cases ?any)
    case True
    then obtain r where r: "r \<in> set rows" "hc_entity_type r = WorkspaceSchedulerSettingsEntity" by (auto simp: list_ex_iff)
    with rows [OF r(1)] show ?thesis by (auto simp: served_def split: if_splits option.splits sum.splits elim!: rbind_InrE)
  qed simp
  then obtain s where s: "?any \<Longrightarrow> \<exists>row. map_of (db_workspaces (cd_settings db)) w = Some row \<and> mapWorkspaceSchedulerSettings row = Inr s"
    by blast
  let ?settings = "if ?any then Some s else None"
  have ls: "(if ?any then rbind (loadWorkspaceSchedulerSettingsInExecutor db w) (\<lambda>s. Inr (Some s)) else Inr None) = Inr ?settings"
    using s by (auto simp: loadWorkspaceSchedulerSettingsInExecutor_def)
  have payload: "hot_payload ?cards ?decks ?media ?settings r = Inr (the (served db w (hc_entity_type r) (hc_entity_id r)))"
    if r: "r \<in> set rows" for r
  proof (cases "hc_entity_type r")
    case CardEntity
    then obtain row where row: "row \<in> set (cd_cards db)" "is_card w (hc_entity_id r) row"
      using served_row [OF rows [OF r]] find_SomeD by (fastforce simp: loadCardRowForMutation_def CardEntity)
    then have q: "?qc row" "k_card_id row = hc_entity_id r" using r CardEntity by (auto simp: is_card_def ids_of_mem)
    from loaded_find [of k_card_id "cd_cards db", OF dist(1) row(1), of ?qc "\<lambda>x. right (mapCard x)"] q(1) c [OF row(1) q(1)]
    show ?thesis unfolding q(2) hot_payload_def Let_def CardEntity by auto
  next
    case DeckEntity
    then obtain row where row: "row \<in> set (cd_decks db)" "is_deck w (hc_entity_id r) row"
      using served_row [OF rows [OF r]] find_SomeD by (fastforce simp: DeckEntity)
    then have q: "?qd row" "d_deck_id row = hc_entity_id r" using r DeckEntity by (auto simp: is_deck_def ids_of_mem)
    from loaded_find [of d_deck_id "cd_decks db", OF dist(2) row(1), of ?qd "\<lambda>x. right (mapDeck x)"] q(1) d [OF row(1) q(1)]
    show ?thesis unfolding q(2) hot_payload_def Let_def DeckEntity by auto
  next
    case WorkspaceSchedulerSettingsEntity
    then have any: "?any" using r by (auto simp: list_ex_iff)
    obtain row where row: "map_of (db_workspaces (cd_settings db)) w = Some row" "mapWorkspaceSchedulerSettings row = Inr s"
      using s [OF any] by blast
    have "hc_entity_id r = w" using rows [OF r] WorkspaceSchedulerSettingsEntity by (auto simp: served_def split: if_splits)
    then show ?thesis using any WorkspaceSchedulerSettingsEntity row by (simp add: hot_payload_def served_def)
  next
    case MediaAssetEntity
    then obtain row where row: "row \<in> set (cd_media db)" "m_workspace_id row = w" "m_media_asset_id row = hc_entity_id r"
      using served_row [OF rows [OF r]] find_SomeD by (fastforce simp: MediaAssetEntity)
    then have q: "?qm row" using r MediaAssetEntity by (auto simp: ids_of_mem)
    from loaded_find [of m_media_asset_id "cd_media db", OF dist(3) row(1), of ?qm "\<lambda>x. right (mapMediaAssetRow x)"] q m [OF row(1) q]
    show ?thesis unfolding row(3) hot_payload_def Let_def MediaAssetEntity by auto
  qed
  have "map_r (\<lambda>row. rbind (hot_payload ?cards ?decks ?media ?settings row) (\<lambda>payload.
       Inr \<lparr>h_changeId = change_id row, h_entityType = hc_entity_type row, h_entityId = hc_entity_id row,
         h_payload = payload\<rparr>)) rows = Inr (map (as_change db w) rows)"
    by (rule map_r_total) (simp only: payload rbind_simps as_change_def)
  then show ?thesis unfolding buildHotChangesFromRows_def lc ld lm rbind_simps Let_def ls by simp
qed

section \<open>The changes of a page\<close>

lemma max_change_id_mem: "max_change_id rows = Some c \<Longrightarrow> (\<exists>r \<in> set rows. change_id r = c) \<and> (\<forall>r \<in> set rows. change_id r \<le> c)"
proof (cases rows)
  case (Cons r rs)
  assume "max_change_id rows = Some c"
  then have "c = Max (change_id ` set rows)" using Cons by (simp add: max_change_id_def foldl_max)
  moreover have "finite (change_id ` set rows)" "change_id ` set rows \<noteq> {}" using Cons by auto
  ultimately show ?thesis using Max_in [of "change_id ` set rows"] Max_ge [of "change_id ` set rows"] by fastforce
qed (simp add: max_change_id_def)

lemma latest_mem:
  assumes "latest db w t i = Some c"
  obtains r where "r \<in> set (hot_changes (cd_sync db))" and "about_entity w t i r" and "change_id r = c"
  using max_change_id_mem assms that unfolding findLatestSyncChangeId_def by fastforce

lemma latest_iff:
  assumes "r \<in> set (hot_changes (cd_sync db))" and "about_entity w t i r"
  shows "latest db w t i = Some (change_id r)
    \<longleftrightarrow> (\<forall>q \<in> set (hot_changes (cd_sync db)). about_entity w t i q \<longrightarrow> change_id q \<le> change_id r)"
proof
  assume "latest db w t i = Some (change_id r)"
  then show "\<forall>q \<in> set (hot_changes (cd_sync db)). about_entity w t i q \<longrightarrow> change_id q \<le> change_id r"
    unfolding findLatestSyncChangeId_def by (auto dest: max_change_id_mem)
next
  assume "\<forall>q \<in> set (hot_changes (cd_sync db)). about_entity w t i q \<longrightarrow> change_id q \<le> change_id r"
  then show "latest db w t i = Some (change_id r)"
    unfolding findLatestSyncChangeId_def using assms by (intro max_change_id_Some) auto
qed

abbreviation web_pull :: "int \<Rightarrow> nat \<Rightarrow> SyncPullInput" where
  "web_pull after n \<equiv> \<lparr>afterHotChangeId = after, pullLimit = n, includeMediaAssets = True\<rparr>"

lemma latest_changes_filter:
  assumes "change_log_ok (cd_sync db)"
  shows "latest_changes (cd_sync db) w (web_pull after n) = filter (\<lambda>r. hc_workspace_id r = w \<and> after < change_id r
    \<and> latest db w (hc_entity_type r) (hc_entity_id r) = Some (change_id r)) (hot_changes (cd_sync db))"
proof -
  let ?log = "hot_changes (cd_sync db)"
  let ?rows = "filter (pulled w (web_pull after n)) ?log"
  have eq: "pulled w (web_pull after n) r \<and> is_latest ?rows r \<longleftrightarrow> hc_workspace_id r = w \<and> after < change_id r
    \<and> latest db w (hc_entity_type r) (hc_entity_id r) = Some (change_id r)" if r: "r \<in> set ?log" for r
  proof -
    have "is_latest ?rows r \<longleftrightarrow> (\<forall>q \<in> set ?log. about_entity w (hc_entity_type r) (hc_entity_id r) q \<longrightarrow> change_id q \<le> change_id r)"
      if "pulled w (web_pull after n) r"
      using that unfolding is_latest_def list_all_iff by (fastforce simp: pulled_def about_entity_def)
    then show ?thesis using latest_iff [OF r] by (auto simp: pulled_def about_entity_def)
  qed
  have sorted: "sorted (map change_id (filter (is_latest ?rows) ?rows))"
  proof -
    have "sorted_wrt (<) (map change_id ?log)" using assms by (simp add: change_log_ok_def)
    then have "sorted (map change_id ?log)" by (rule strict_sorted_imp_sorted)
    then show ?thesis by (intro sorted_filter)
  qed
  have "filter (is_latest ?rows) ?rows = filter (\<lambda>r. hc_workspace_id r = w \<and> after < change_id r
    \<and> latest db w (hc_entity_type r) (hc_entity_id r) = Some (change_id r)) ?log"
    unfolding filter_filter by (rule filter_cong [OF refl]) (rule eq)
  then show ?thesis using sorted unfolding latest_changes_def Let_def by (simp add: sorted_sort_id sort_key_id_if_sorted)
qed

section \<open>Views\<close>

text \<open>What the client stores of an entity, and what the server has to offer of it.\<close>

fun client_view :: "web_store \<Rightarrow> string \<Rightarrow> SyncEntityType \<Rightarrow> string \<Rightarrow> web_entity option" where
  "client_view s w CardEntity i = map_option (\<lambda>r. WebCard (toCard r)) (ws_cards s (w, i))"
| "client_view s w DeckEntity i = map_option WebDeck (ws_decks s (w, i))"
| "client_view s w WorkspaceSchedulerSettingsEntity i =
     (if i = w then map_option WebSettings (ws_workspaceSettings s w) else None)"
| "client_view s w MediaAssetEntity i = map_option WebMedia (ws_mediaAssets s (w, i))"

definition server_view :: "cloud_db \<Rightarrow> string \<Rightarrow> SyncEntityType \<Rightarrow> string \<Rightarrow> web_entity option" where
  "server_view db w t i = map_option web_payload (served db w t i)"

fun entry_key :: "string \<Rightarrow> web_entity \<Rightarrow> SyncEntityType \<times> string" where
  "entry_key w (WebCard c) = (CardEntity, cardId c)"
| "entry_key w (WebDeck d) = (DeckEntity, deckId d)"
| "entry_key w (WebSettings s) = (WorkspaceSchedulerSettingsEntity, w)"
| "entry_key w (WebMedia m) = (MediaAssetEntity, a_mediaAssetId m)"

fun entry_of :: "string \<Rightarrow> web_entity \<Rightarrow> bool" where
  "entry_of w (WebDeck d) = (deckWorkspaceId d = w)"
| "entry_of w (WebMedia m) = (a_workspaceId m = w)"
| "entry_of w _ = True"

lemma toStoredCard_returns: "\<exists>r. toStoredCard w c = Inr r \<and> toCard r = c"
  by (cases c) (auto simp: toStoredCard_def deriveDueAtMillis_def deriveDueAtBucketMillis_def parseDueAtMillis_returns
      toCard_def Card.defs split: option.splits)

lemma apply_entry_view:
  assumes "entry_of w e"
  obtains s' where "apply_entry w s e = Inr s'" and "ws_workspaceSyncState s' = ws_workspaceSyncState s"
    and "\<And>t i. client_view s' w t i = (if (t, i) = entry_key w e then Some e else client_view s w t i)"
proof (cases e)
  case (WebCard c)
  obtain r where r: "toStoredCard w c = Inr r" "toCard r = c" using toStoredCard_returns by blast
  let ?s = "s\<lparr>ws_cards := (ws_cards s)((w, cardId c) \<mapsto> r), ws_cardTags := writeCardTagRecords w c (ws_cardTags s)\<rparr>"
  have "client_view ?s w t i = (if (t, i) = entry_key w e then Some e else client_view s w t i)" for t i
    using WebCard r by (cases t) auto
  with WebCard r show thesis by (intro that [of ?s]) (simp_all add: apply_entry_def putCardInTransaction_def)
next
  case (WebDeck d)
  let ?s = "putDeckInTransaction d s"
  have "client_view ?s w t i = (if (t, i) = entry_key w e then Some e else client_view s w t i)" for t i
    using WebDeck assms by (cases t) (auto simp: putDeckInTransaction_def)
  with WebDeck assms show thesis by (intro that [of ?s]) (simp_all add: apply_entry_def putDeckInTransaction_def)
next
  case (WebSettings x)
  let ?s = "putWorkspaceSettingsInTransaction w x s"
  have "client_view ?s w t i = (if (t, i) = entry_key w e then Some e else client_view s w t i)" for t i
    using WebSettings by (cases t) (auto simp: putWorkspaceSettingsInTransaction_def)
  with WebSettings show thesis by (intro that [of ?s]) (simp_all add: apply_entry_def putWorkspaceSettingsInTransaction_def)
next
  case (WebMedia m)
  let ?s = "putMediaAssetInTransaction m s"
  have "client_view ?s w t i = (if (t, i) = entry_key w e then Some e else client_view s w t i)" for t i
    using WebMedia assms by (cases t) (auto simp: putMediaAssetInTransaction_def)
  with WebMedia assms show thesis by (intro that [of ?s]) (simp_all add: apply_entry_def putMediaAssetInTransaction_def)
qed

text \<open>A page whose entries are about different entities.\<close>

lemma apply_page_view:
  assumes "list_all (entry_of w) es" and "distinct (map (entry_key w) es)"
  obtains s' where "fold_r (apply_entry w) s es = Inr s'"
    and "ws_workspaceSyncState s' = ws_workspaceSyncState s"
    and "\<And>e. e \<in> set es \<Longrightarrow> client_view s' w (fst (entry_key w e)) (snd (entry_key w e)) = Some e"
    and "\<And>t i. (t, i) \<notin> entry_key w ` set es \<Longrightarrow> client_view s' w t i = client_view s w t i"
  using assms
proof (induction es arbitrary: s thesis)
  case Nil
  from Nil(1) [of s] show ?case by simp
next
  case (Cons e es)
  from Cons.prems(2) have "entry_of w e" by simp
  then obtain s1 where s1: "apply_entry w s e = Inr s1" "ws_workspaceSyncState s1 = ws_workspaceSyncState s"
      "\<And>t i. client_view s1 w t i = (if (t, i) = entry_key w e then Some e else client_view s w t i)"
    by (rule apply_entry_view [of w e s]) blast
  have rest: "list_all (entry_of w) es" "distinct (map (entry_key w) es)" using Cons.prems(2,3) by simp_all
  from Cons.IH [OF _ rest, of s1] obtain s' where s': "fold_r (apply_entry w) s1 es = Inr s'"
      "ws_workspaceSyncState s' = ws_workspaceSyncState s1"
      "\<And>e. e \<in> set es \<Longrightarrow> client_view s' w (fst (entry_key w e)) (snd (entry_key w e)) = Some e"
      "\<And>t i. (t, i) \<notin> entry_key w ` set es \<Longrightarrow> client_view s' w t i = client_view s1 w t i" by blast
  have new: "entry_key w e \<notin> entry_key w ` set es" using Cons.prems(3) by simp
  show ?case
  proof (rule Cons.prems(1))
    show "fold_r (apply_entry w) s (e # es) = Inr s'" using s1(1) s'(1) by simp
    show "ws_workspaceSyncState s' = ws_workspaceSyncState s" using s1(2) s'(2) by simp
    show "client_view s' w (fst (entry_key w x)) (snd (entry_key w x)) = Some x" if "x \<in> set (e # es)" for x
      using that s'(3) s'(4) [of "fst (entry_key w e)" "snd (entry_key w e)"] s1(3) new by auto
    show "client_view s' w t i = client_view s w t i" if "(t, i) \<notin> entry_key w ` set (e # es)" for t i
      using that s'(4) [of t i] s1(3) [of t i] by auto
  qed
qed

section \<open>A page of the server\<close>

lemma served_entry:
  assumes "served db w t i = Some p"
  shows "entry_key w (web_payload p) = (t, i)" and "entry_of w (web_payload p)"
  using assms
  by (cases t; auto simp: served_def loadCardRowForMutation_def wire_card_def wire_deck_def toLegacySyncCardPayload_def
      toLegacySyncDeckPayload_def CloudCard.defs mapCard_def mapDeck_def mapMediaAssetRow_def is_card_def is_deck_def
      dest!: find_SomeD split: option.splits sum.splits if_splits elim!: rbind_InrE)+

abbreviation changes_after :: "cloud_db \<Rightarrow> string \<Rightarrow> int \<Rightarrow> hot_change list" where
  "changes_after db w after \<equiv> latest_changes (cd_sync db) w (web_pull after 0)"

lemma changes_after_limit: "latest_changes st w (web_pull after n) = latest_changes st w (web_pull after 0)"
proof -
  have "pulled w (web_pull after n) = pulled w (web_pull after 0)" by (simp add: fun_eq_iff pulled_def)
  then show ?thesis unfolding latest_changes_def by simp
qed

definition may_pull :: "cloud_db \<Rightarrow> string \<Rightarrow> int \<Rightarrow> bool" where
  "may_pull db w after \<longleftrightarrow> after \<le> 0 \<or> pull_floor db w \<le> after"

definition ensured :: "cloud_db \<Rightarrow> string \<Rightarrow> cloud_db" where
  "ensured db w = with_sync (ensureWorkspaceSyncMetadataInExecutor (cd_sync db) w) db"

lemma ensure_idem:
  "ensureWorkspaceSyncMetadataInExecutor (ensureWorkspaceSyncMetadataInExecutor st w) w = ensureWorkspaceSyncMetadataInExecutor st w"
  using ensure_total [of st w] by (subst ensureWorkspaceSyncMetadataInExecutor_def) auto

lemma min_available:
  "\<exists>m. loadMinAvailableHotChangeId (ensureWorkspaceSyncMetadataInExecutor (cd_sync db) w) w
     = Inr (m, ensureWorkspaceSyncMetadataInExecutor (cd_sync db) w) \<and> m = pull_floor db w"
proof -
  obtain m where m: "map_of (sync_metadata (ensureWorkspaceSyncMetadataInExecutor (cd_sync db) w)) w = Some m"
    using ensure_total by blast
  then have "m = pull_floor db w"
    by (cases "map_of (sync_metadata (cd_sync db)) w")
      (auto simp: ensureWorkspaceSyncMetadataInExecutor_def pull_floor_def option_default_def map_add_def)
  with m show ?thesis by (simp add: loadMinAvailableHotChangeId_def ensure_idem)
qed

lemma ensured_served: "served (ensured db w) = served db"
proof (intro ext)
  fix w' t i
  show "served (ensured db w) w' t i = served db w' t i" by (simp add: served_def ensured_def)
qed

lemma latest_changes_ensured: "latest_changes (cd_sync (ensured db w)) w' inp = latest_changes (cd_sync db) w' inp"
  by (simp add: ensured_def latest_changes_def)

lemma changes_after_served:
  assumes "db_ok db" and "r \<in> set (changes_after db w after)"
  shows "served db w (hc_entity_type r) (hc_entity_id r) \<noteq> None"
proof -
  have "r \<in> set (hot_changes (cd_sync db))" "hc_workspace_id r = w"
    using assms by (auto simp: latest_changes_filter db_ok_def)
  then show ?thesis using assms(1) by (auto simp: db_ok_def list_all_iff servable_def)
qed

lemma take_limit: "(if n < length (take (n + 1) xs) then take n (take (n + 1) xs) else take (n + 1) xs) = take n xs"
  by (auto simp: min_def)

lemma pulled_page:
  assumes ok: "db_ok db" and may: "may_pull db w after"
  shows "processSyncPull db w (web_pull after n) = Inr (\<lparr>
      pullChanges = map (as_change db w) (take n (changes_after db w after)),
      nextHotChangeId = (if take n (changes_after db w after) = [] then after
        else change_id (last (take n (changes_after db w after)))),
      pullHasMore = (n < length (changes_after db w after))\<rparr>, ensured db w)"
proof -
  let ?L = "changes_after db w after"
  obtain m where m: "loadMinAvailableHotChangeId (ensureWorkspaceSyncMetadataInExecutor (cd_sync db) w) w
     = Inr (m, ensureWorkspaceSyncMetadataInExecutor (cd_sync db) w)" "m = pull_floor db w" using min_available by blast
  have guard: "\<not> (0 < after \<and> after < m)" using may m(2) by (auto simp: may_pull_def)
  have ok': "db_ok (ensured db w)" using evolves_ok [OF evolves_ensure ok] by (simp add: ensured_def)
  have "buildHotChangesFromRows (ensured db w) w (take n ?L) = Inr (map (as_change (ensured db w) w) (take n ?L))"
    using changes_after_served [OF ok] by (intro build_changes [OF ok']) (auto simp: ensured_served dest: in_set_takeD)
  moreover have "as_change (ensured db w) w = as_change db w" by (simp add: as_change_def fun_eq_iff ensured_served)
  ultimately have build: "buildHotChangesFromRows (ensured db w) w (take n ?L) = Inr (map (as_change db w) (take n ?L))" by simp
  have len: "n < length (take (n + 1) ?L) \<longleftrightarrow> n < length ?L" by auto
  have esync: "cd_sync (ensured db w) = ensureWorkspaceSyncMetadataInExecutor (cd_sync db) w" by (simp add: ensured_def)
  have sync: "with_sync (ensureWorkspaceSyncMetadataInExecutor (cd_sync db) w) (ensured db w) = ensured db w"
    by (simp add: ensured_def with_sync_def)
  have lst: "take n ?L \<noteq> [] \<Longrightarrow> h_changeId (last (map (as_change db w) (take n ?L))) = change_id (last (take n ?L))"
    by (simp add: last_map as_change_def)
  show ?thesis
    unfolding processSyncPull_def Let_def
    by (simp only: esync m(1) rbind_simps split_conv ensured_def [symmetric] sync SyncPullInput.simps guard if_False
        latest_changes_ensured [of db w, unfolded esync] changes_after_limit [of _ _ _ n] take_limit build)
      (simp add: resolveNextHotChangeId_def lst len del: take_eq_Nil)
qed

section \<open>One page at the client\<close>

definition synced :: "string \<Rightarrow> cloud_db \<Rightarrow> web_store \<Rightarrow> bool" where
  "synced w db s \<longleftrightarrow> loadLastAppliedHotChangeId w s < next_change_id (cd_sync db)
     \<and> (\<forall>t i c. latest db w t i = Some c \<longrightarrow> c \<le> loadLastAppliedHotChangeId w s \<longrightarrow> client_view s w t i = server_view db w t i)"

definition up_to_date :: "string \<Rightarrow> cloud_db \<Rightarrow> web_store \<Rightarrow> bool" where
  "up_to_date w db s \<longleftrightarrow> (\<forall>t i. latest db w t i \<noteq> None \<longrightarrow> client_view s w t i = server_view db w t i)"

lemma changes_after_mem:
  assumes "db_ok db"
  shows "r \<in> set (changes_after db w after) \<longleftrightarrow> r \<in> set (hot_changes (cd_sync db)) \<and> hc_workspace_id r = w \<and> after < change_id r
    \<and> latest db w (hc_entity_type r) (hc_entity_id r) = Some (change_id r)"
  using assms by (auto simp: latest_changes_filter db_ok_def)

lemma changes_after_sorted: "db_ok db \<Longrightarrow> sorted_wrt (<) (map change_id (changes_after db w after))"
  by (simp add: latest_changes_filter db_ok_def change_log_ok_def sorted_wrt_filter sorted_wrt_map)

lemma changes_after_keys:
  assumes "db_ok db"
  shows "distinct (map (\<lambda>r. (hc_entity_type r, hc_entity_id r)) (changes_after db w after))"
proof -
  let ?L = "changes_after db w after"
  have d: "distinct (map change_id ?L)" using changes_after_sorted [OF assms] by (simp add: strict_sorted_iff)
  have "inj_on (\<lambda>r. (hc_entity_type r, hc_entity_id r)) (set ?L)"
  proof (rule inj_onI)
    fix q r
    assume qr: "q \<in> set ?L" "r \<in> set ?L" "(hc_entity_type q, hc_entity_id q) = (hc_entity_type r, hc_entity_id r)"
    then have "change_id q = change_id r" using changes_after_mem [OF assms] by auto
    with qr d show "q = r" by (auto simp: distinct_map inj_on_def)
  qed
  with d show ?thesis by (simp add: distinct_map)
qed

lemma up_to_last:
  assumes "sorted_wrt (<) (map change_id L)" and "take n L \<noteq> []" and "r \<in> set L"
  shows "change_id r \<le> change_id (last (take n L)) \<longleftrightarrow> r \<in> set (take n L)"
proof -
  have L: "L = take n L @ drop n L" by simp
  have front: "take n L = butlast (take n L) @ [last (take n L)]" using assms(2) by simp
  have srt: "sorted_wrt (<) (map change_id (take n L) @ map change_id (drop n L))"
    using assms(1) L by (metis map_append)
  have inner: "sorted_wrt (<) (map change_id (butlast (take n L) @ [last (take n L)]))"
    using srt front by (metis sorted_wrt_append)
  have le: "change_id q \<le> change_id (last (take n L))" if q: "q \<in> set (take n L)" for q
  proof -
    have "q \<in> set (butlast (take n L) @ [last (take n L)])" using q front by simp
    then show ?thesis using inner by (auto simp: sorted_wrt_append less_imp_le)
  qed
  have lt: "q \<in> set (drop n L) \<Longrightarrow> change_id (last (take n L)) < change_id q" for q
    using srt assms(2) by (auto simp: sorted_wrt_append)
  show ?thesis using le [of r] lt [of r] assms(3) L by (metis Un_iff not_le set_append)
qed

definition page_entries :: "cloud_db \<Rightarrow> string \<Rightarrow> hot_change list \<Rightarrow> web_entity list" where
  "page_entries db w rows = map (\<lambda>r. the (server_view db w (hc_entity_type r) (hc_entity_id r))) rows"

lemma as_change_entries: "list_all (\<lambda>r. served db w (hc_entity_type r) (hc_entity_id r) \<noteq> None) rows
    \<Longrightarrow> map (\<lambda>c. web_payload (h_payload c)) (map (as_change db w) rows) = page_entries db w rows"
  by (induction rows) (auto simp: page_entries_def as_change_def server_view_def)

lemma page_entry:
  assumes "served db w (hc_entity_type r) (hc_entity_id r) \<noteq> None"
  shows "entry_key w (the (server_view db w (hc_entity_type r) (hc_entity_id r))) = (hc_entity_type r, hc_entity_id r)"
    and "entry_of w (the (server_view db w (hc_entity_type r) (hc_entity_id r)))"
  using assms served_entry by (auto simp: server_view_def)

lemma evolves_ensured: "evolves db (ensured db w)"
  unfolding ensured_def by (rule evolves_ensure)

lemma latest_ensured: "latest (ensured db w') w t i = latest db w t i"
  by (simp add: ensured_def findLatestSyncChangeId_def)

lemma server_view_ensured: "server_view (ensured db w') w t i = server_view db w t i"
  by (simp add: server_view_def ensured_served)

lemma hot_state_cursor: "loadLastAppliedHotChangeId w (put_sync_state w (buildHotSyncStateRecord now r hotId m) s) = hotId"
  by (simp add: loadLastAppliedHotChangeId_def put_sync_state_def current_or_def buildHotSyncStateRecord_def
      buildWorkspaceSyncStateRecord_def)

lemma put_sync_state_view: "client_view (put_sync_state w r s) w' t i = client_view s w' t i"
  by (cases t) (simp_all add: put_sync_state_def)

definition page_end :: "cloud_db \<Rightarrow> string \<Rightarrow> int \<Rightarrow> nat \<Rightarrow> int" where
  "page_end db w after n = (let page = take n (changes_after db w after) in
     if page = [] then after else change_id (last page))"

lemma page_end_mono:
  assumes "db_ok db"
  shows "after \<le> page_end db w after n"
    and "after < next_change_id (cd_sync db) \<Longrightarrow> page_end db w after n < next_change_id (cd_sync db)"
    and "0 < n \<Longrightarrow> changes_after db w after \<noteq> [] \<Longrightarrow> \<exists>r \<in> set (changes_after db w after). change_id r = page_end db w after n"
proof -
  let ?page = "take n (changes_after db w after)"
  have last: "last ?page \<in> set (changes_after db w after)" if "?page \<noteq> []" using that last_in_set in_set_takeD by fast
  show "after \<le> page_end db w after n" using last changes_after_mem [OF assms] by (auto simp: page_end_def Let_def)
  show "page_end db w after n < next_change_id (cd_sync db)" if "after < next_change_id (cd_sync db)"
    using that last changes_after_mem [OF assms] assms by (auto simp: page_end_def Let_def db_ok_def change_log_ok_def)
  show "\<exists>r \<in> set (changes_after db w after). change_id r = page_end db w after n"
    if "0 < n" "changes_after db w after \<noteq> []" using that last by (auto simp: page_end_def Let_def)
qed

text \<open>The entities whose latest change is on the page are those between the cursor and the end of the page.\<close>

lemma page_covers:
  assumes ok: "db_ok db" and c: "latest db w t i = Some c" and after: "after < c"
  shows "c \<le> page_end db w after n
    \<longleftrightarrow> (\<exists>r \<in> set (take n (changes_after db w after)). hc_entity_type r = t \<and> hc_entity_id r = i)"
proof -
  let ?L = "changes_after db w after"
  obtain r where r: "r \<in> set (hot_changes (cd_sync db))" "about_entity w t i r" "change_id r = c" using latest_mem [OF c] .
  then have L: "r \<in> set ?L" using c after changes_after_mem [OF ok] by (auto simp: about_entity_def)
  have only: "q = r" if "q \<in> set ?L" "hc_entity_type q = t" "hc_entity_id q = i" for q
    using changes_after_keys [OF ok, of w after] that L r(2) by (auto simp: distinct_map inj_on_def about_entity_def)
  have "c \<le> page_end db w after n \<longleftrightarrow> r \<in> set (take n ?L)"
  proof (cases "take n ?L = []")
    case True
    then show ?thesis using after by (simp only: page_end_def Let_def) simp
  next
    case False
    then show ?thesis using up_to_last [OF changes_after_sorted [OF ok] False L] r(3) by (simp add: page_end_def)
  qed
  also have "\<dots> \<longleftrightarrow> (\<exists>r \<in> set (take n ?L). hc_entity_type r = t \<and> hc_entity_id r = i)"
    using only r(2) by (metis about_entity_def in_set_takeD)
  finally show ?thesis .
qed

lemma page_views:
  assumes ok: "db_ok db"
  obtains s' where "fold_r (apply_entry w) s (page_entries db w (take n (changes_after db w after))) = Inr s'"
    and "ws_workspaceSyncState s' = ws_workspaceSyncState s"
    and "\<And>t i c. latest db w t i = Some c \<Longrightarrow> c \<le> page_end db w after n \<Longrightarrow>
      client_view s' w t i = (if after < c then server_view db w t i else client_view s w t i)"
proof -
  let ?page = "take n (changes_after db w after)"
  let ?es = "page_entries db w ?page"
  have served: "served db w (hc_entity_type r) (hc_entity_id r) \<noteq> None" if "r \<in> set ?page" for r
    using changes_after_served [OF ok] that by (auto dest: in_set_takeD)
  have keys: "map (entry_key w) ?es = map (\<lambda>r. (hc_entity_type r, hc_entity_id r)) ?page"
    using page_entry(1) [OF served] by (simp add: page_entries_def)
  have d: "distinct (map (entry_key w) ?es)"
    unfolding keys take_map [symmetric] using changes_after_keys [OF ok] by (rule distinct_take)
  have e: "list_all (entry_of w) ?es" using page_entry(2) [OF served] by (simp add: page_entries_def list_all_iff)
  obtain s' where s': "fold_r (apply_entry w) s ?es = Inr s'" "ws_workspaceSyncState s' = ws_workspaceSyncState s"
      "\<And>e. e \<in> set ?es \<Longrightarrow> client_view s' w (fst (entry_key w e)) (snd (entry_key w e)) = Some e"
      "\<And>t i. (t, i) \<notin> entry_key w ` set ?es \<Longrightarrow> client_view s' w t i = client_view s w t i"
    using apply_page_view [OF e d, of s] by blast
  have on_page: "(t, i) \<in> entry_key w ` set ?es \<longleftrightarrow> (\<exists>r \<in> set ?page. hc_entity_type r = t \<and> hc_entity_id r = i)" for t i
  proof -
    have "(t, i) \<in> entry_key w ` set ?es \<longleftrightarrow> (t, i) \<in> set (map (entry_key w) ?es)" by simp
    also have "\<dots> \<longleftrightarrow> (\<exists>r \<in> set ?page. hc_entity_type r = t \<and> hc_entity_id r = i)" unfolding keys by auto
    finally show ?thesis .
  qed
  have "client_view s' w t i = (if after < c then server_view db w t i else client_view s w t i)"
    if c: "latest db w t i = Some c" "c \<le> page_end db w after n" for t i c
  proof (cases "after < c")
    case True
    then obtain r where r: "r \<in> set ?page" "hc_entity_type r = t" "hc_entity_id r = i"
      using page_covers [OF ok c(1) True] c(2) by blast
    then have "the (server_view db w t i) \<in> set ?es" by (auto simp: page_entries_def)
    then show ?thesis using s'(3) page_entry(1) [OF served [OF r(1)]] served [OF r(1)] r(2,3) True by (fastforce simp: server_view_def)
  next
    case False
    then have "(t, i) \<notin> entry_key w ` set ?es"
      using on_page changes_after_mem [OF ok] c(1) by (auto dest: in_set_takeD)
    then show ?thesis using s'(4) False by simp
  qed
  with s' that show thesis by blast
qed

lemma pull_page_step:
  assumes ok: "db_ok (run_db run)" and may: "may_pull (run_db run) w after"
  obtains run' where "pull_page now w n run after
      = Inr (run', page_end (run_db run) w after n, n < length (changes_after (run_db run) w after))"
    and "run_db run' = ensured (run_db run) w"
    and "loadLastAppliedHotChangeId w (run_store run') = page_end (run_db run) w after n"
    and "\<And>t i c. latest (run_db run) w t i = Some c \<Longrightarrow> c \<le> page_end (run_db run) w after n \<Longrightarrow>
      client_view (run_store run') w t i = (if after < c then server_view (run_db run) w t i else client_view (run_store run) w t i)"
proof -
  let ?db = "run_db run"
  let ?s = "run_store run"
  let ?page = "take n (changes_after ?db w after)"
  let ?es = "page_entries ?db w ?page"
  have es: "map (\<lambda>c. web_payload (h_payload c)) (map (as_change ?db w) ?page) = ?es"
    using changes_after_served [OF ok] by (intro as_change_entries) (auto simp: list_all_iff dest: in_set_takeD)
  obtain s' where s': "fold_r (apply_entry w) ?s ?es = Inr s'" "ws_workspaceSyncState s' = ws_workspaceSyncState ?s"
      "\<And>t i c. latest ?db w t i = Some c \<Longrightarrow> c \<le> page_end ?db w after n \<Longrightarrow>
        client_view s' w t i = (if after < c then server_view ?db w t i else client_view ?s w t i)"
    using page_views [OF ok, of w ?s n after] by blast
  let ?store = "put_sync_state w (buildHotSyncStateRecord now (ws_workspaceSyncState ?s w) (page_end ?db w after n) False) s'"
  let ?run = "\<lparr>run_store = ?store, run_db = ensured ?db w,
    run_didChangeReviewSchedule = run_didChangeReviewSchedule run \<or> doHotSyncEntriesAffectReviewSchedule w ?s ?es,
    run_published = run_published run @ (case findLastWorkspaceSettingsEntry ?es of None \<Rightarrow> [] | Some x \<Rightarrow> [x])\<rparr>"
  have page: "pull_page now w n run after = Inr (?run, page_end ?db w after n, n < length (changes_after ?db w after))"
    unfolding pull_page_def pulled_page [OF ok may] rbind_simps split_conv Let_def SyncPullResult.simps es
      page_end_def [unfolded Let_def, symmetric]
    by (simp only: applyHotSyncPage_def s'(1) rbind_simps option.case split_conv s'(2))
  show thesis
  proof (rule that [OF page])
    show "loadLastAppliedHotChangeId w (run_store ?run) = page_end ?db w after n" by (simp add: hot_state_cursor)
    show "client_view (run_store ?run) w t i = (if after < c then server_view ?db w t i else client_view ?s w t i)"
      if "latest ?db w t i = Some c" "c \<le> page_end ?db w after n" for t i c
      using s'(3) [OF that] by (simp add: put_sync_state_view)
  qed simp
qed

lemma pull_page_synced:
  assumes ok: "db_ok db" and syn: "synced w db s" and after: "loadLastAppliedHotChangeId w s = after"
    and cursor: "loadLastAppliedHotChangeId w s' = page_end db w after n"
    and view: "\<And>t i c. latest db w t i = Some c \<Longrightarrow> c \<le> page_end db w after n \<Longrightarrow>
      client_view s' w t i = (if after < c then server_view db w t i else client_view s w t i)"
  shows "synced w (ensured db w) s'"
    and "length (changes_after db w after) \<le> n \<Longrightarrow> up_to_date w (ensured db w) s'"
proof -
  have new: "client_view s' w t i = server_view db w t i" if "latest db w t i = Some c" "c \<le> page_end db w after n" for t i c
    using view [OF that] syn that(1) after by (auto simp: synced_def)
  have "next_change_id (cd_sync (ensured db w)) = next_change_id (cd_sync db)" by (simp add: ensured_def)
  with new show "synced w (ensured db w) s'"
    using page_end_mono(2) [OF ok] syn after cursor by (simp add: synced_def latest_ensured server_view_ensured)
  show "up_to_date w (ensured db w) s'" if all: "length (changes_after db w after) \<le> n"
  proof -
    have "c \<le> page_end db w after n" if c: "latest db w t i = Some c" for t i c
    proof (cases "after < c")
      case True
      obtain r where r: "r \<in> set (hot_changes (cd_sync db))" "about_entity w t i r" "change_id r = c" using latest_mem [OF c] .
      then have "r \<in> set (changes_after db w after)" using c True changes_after_mem [OF ok] by (auto simp: about_entity_def)
      then show ?thesis using page_covers [OF ok c True, of n] r(2) all by (auto simp: about_entity_def)
    next
      case False
      then show ?thesis using page_end_mono(1) [OF ok, of after w n] by linarith
    qed
    with new show ?thesis by (auto simp: up_to_date_def latest_ensured server_view_ensured)
  qed
qed

end
