(* ===== verification/SyncSystem.thy ===== *)
theory SyncSystem
  imports SyncConverge
begin

text \<open>
  A server and one client as a transition system: the writes of any user and any workspace, each a
  transaction, and the pages the client pulls. Writers of one workspace hold the lock of its
  metadata row until they commit, so the transactions of a workspace are taken one after the other.
\<close>

section \<open>Steps\<close>

inductive server_write :: "cloud_db \<Rightarrow> cloud_db \<Rightarrow> bool" where
  push: "processSyncPushOperationsInExecutor e db w replicaId operations = Inr (rs, db') \<Longrightarrow> server_write db db'"
| review: "submitReview m e newIds db w replicaId input md = Inr (r, db') \<Longrightarrow> server_write db db'"
| create_cards: "createCards e db w new_cards = Inr (r, db') \<Longrightarrow> server_write db db'"
| update_cards: "updateCards e db w edits = Inr (r, db') \<Longrightarrow> server_write db db'"
| delete_cards: "deleteCards e db w items = Inr (r, db') \<Longrightarrow> server_write db db'"
| create_decks: "createDecks e db w new_decks = Inr (r, db') \<Longrightarrow> server_write db db'"
| update_decks: "updateDecks e db w deck_edits = Inr (r, db') \<Longrightarrow> server_write db db'"
| delete_decks: "deleteDecks e db w items = Inr (r, db') \<Longrightarrow> server_write db db'"
| settings: "updateWorkspaceSchedulerSettings p now (cd_settings db) w input md = Inr (r, s)
    \<Longrightarrow> server_write db (db\<lparr>cd_settings := s\<rparr>)"

inductive sync_step :: "string \<Rightarrow> cloud_db \<times> web_store \<Rightarrow> cloud_db \<times> web_store \<Rightarrow> bool" for w where
  served_write: "server_write db db' \<Longrightarrow> sync_step w (db, s) (db', s)"
| pull: "pull_page now w n run (loadLastAppliedHotChangeId w (run_store run)) = Inr (run', after, rest) \<Longrightarrow> 0 < n
    \<Longrightarrow> sync_step w (run_db run, run_store run) (run_db run', run_store run')"

inductive_cases sync_stepE: "sync_step w (db, s) x"

text \<open>
  Any server whose data is consistent and which keeps its whole log, and a client that has not
  pulled.
\<close>

definition sync_start :: "string \<Rightarrow> cloud_db \<times> web_store \<Rightarrow> bool" where
  "sync_start w x = (case x of (db, s) \<Rightarrow> db_ok db \<and> pull_floor db w = 0 \<and> loadLastAppliedHotChangeId w s = 0)"

inductive sync_reachable :: "string \<Rightarrow> cloud_db \<times> web_store \<Rightarrow> bool" for w where
  start: "sync_start w x \<Longrightarrow> sync_reachable w x"
| step: "sync_reachable w x \<Longrightarrow> sync_step w x y \<Longrightarrow> sync_reachable w y"

section \<open>The invariant\<close>

definition sync_inv :: "string \<Rightarrow> cloud_db \<times> web_store \<Rightarrow> bool" where
  "sync_inv w x = (case x of (db, s) \<Rightarrow> db_ok db \<and> pull_floor db w = 0 \<and> synced w db s)"

lemma server_write_evolves: "server_write db db' \<Longrightarrow> evolves db db'"
  by (induction rule: server_write.induct) (auto intro: evolving updateSettings_evolves)

lemma synced_evolves:
  assumes "evolves db db'" and "db_ok db" and "synced w db s"
  shows "synced w db' s"
proof -
  have le: "next_change_id (cd_sync db) \<le> next_change_id (cd_sync db')" using assms(1,2) by (simp add: evolves_def)
  have "client_view s w t i = server_view db' w t i"
    if c: "latest db' w t i = Some c" "c \<le> loadLastAppliedHotChangeId w s" for t i c
  proof -
    have "\<not> next_change_id (cd_sync db) \<le> c" using c(2) assms(3) by (simp add: synced_def)
    moreover have "entity_row db' w t i = entity_row db w t i \<and> latest db' w t i = latest db w t i
        \<or> (\<exists>c. latest db' w t i = Some c \<and> next_change_id (cd_sync db) \<le> c)"
      using assms(1,2) unfolding evolves_def by blast
    ultimately have same: "entity_row db' w t i = entity_row db w t i" "latest db w t i = Some c" using c(1) by auto
    have "client_view s w t i = server_view db w t i" using assms(3) c(2) same(2) unfolding synced_def by blast
    also have "\<dots> = server_view db' w t i" by (simp add: server_view_def served_def same(1))
    finally show ?thesis .
  qed
  then show ?thesis using assms(3) le by (auto simp: synced_def)
qed

lemma refused_pull: "db_ok db \<Longrightarrow> \<not> may_pull db w after \<Longrightarrow>
  processSyncPull db w (web_pull after n) = Inl (HttpError 409 ''Cloud sync requires a fresh bootstrap.'' (Some ''SYNC_BOOTSTRAP_REQUIRED''))"
  using min_available [of db w] by (auto simp: processSyncPull_def Let_def may_pull_def)

lemma pull_page_inv:
  assumes "db_ok (run_db run)" and "synced w (run_db run) (run_store run)"
    and "pull_page now w n run (loadLastAppliedHotChangeId w (run_store run)) = Inr (run', after, rest)"
  shows "db_ok (run_db run')" and "synced w (run_db run') (run_store run')"
    and "after = loadLastAppliedHotChangeId w (run_store run')"
    and "\<not> rest \<Longrightarrow> up_to_date w (run_db run') (run_store run')"
    and "run_db run' = ensured (run_db run) w"
proof -
  let ?after = "loadLastAppliedHotChangeId w (run_store run)"
  have may: "may_pull (run_db run) w ?after"
    using assms(3) refused_pull [OF assms(1)] by (cases "may_pull (run_db run) w ?after") (auto simp: pull_page_def)
  obtain x where x: "pull_page now w n run ?after
        = Inr (x, page_end (run_db run) w ?after n, n < length (changes_after (run_db run) w ?after))"
      "run_db x = ensured (run_db run) w" "loadLastAppliedHotChangeId w (run_store x) = page_end (run_db run) w ?after n"
      "\<And>t i c. latest (run_db run) w t i = Some c \<Longrightarrow> c \<le> page_end (run_db run) w ?after n \<Longrightarrow>
        client_view (run_store x) w t i = (if ?after < c then server_view (run_db run) w t i else client_view (run_store run) w t i)"
    by (rule pull_page_step [OF assms(1) may, of now n]) (rule that)
  have eq: "x = run'" "after = page_end (run_db run) w ?after n" "rest = (n < length (changes_after (run_db run) w ?after))"
    using x(1) assms(3) by simp_all
  note r = x(2,3) [unfolded eq(1)] eq(2,3)
  note v = x(4) [unfolded eq(1)]
  show "db_ok (run_db run')" unfolding r(1) using evolves_ensured assms(1) by (rule evolves_ok)
  show "synced w (run_db run') (run_store run')" unfolding r(1) by (rule pull_page_synced [OF assms(1,2) refl r(2) v])
  show "after = loadLastAppliedHotChangeId w (run_store run')" using r(2,3) by simp
  show "up_to_date w (run_db run') (run_store run')" if "\<not> rest"
    unfolding r(1) using that r(4) by (intro pull_page_synced(2) [OF assms(1,2) refl r(2) v]) auto
  show "run_db run' = ensured (run_db run) w" by (rule r(1))
qed

lemma pull_floor_ensured: "pull_floor (ensured db w) w = pull_floor db w"
  by (cases "map_of (sync_metadata (cd_sync db)) w")
    (simp_all add: ensured_def pull_floor_def ensureWorkspaceSyncMetadataInExecutor_def option_default_def map_add_def)

lemma sync_step_inv: "sync_step w x y \<Longrightarrow> sync_inv w x \<Longrightarrow> sync_inv w y"
proof (induction rule: sync_step.induct)
  case (served_write db db' s)
  then have inv: "db_ok db" "synced w db s" "pull_floor db w = 0" by (simp_all add: sync_inv_def)
  note ev = server_write_evolves [OF served_write(1)]
  have "pull_floor db' w = 0" using ev inv(1,3) by (simp add: evolves_def)
  then show ?case using evolves_ok [OF ev inv(1)] synced_evolves [OF ev inv(1,2)] by (simp add: sync_inv_def)
next
  case (pull now n run run' after rest)
  then have inv: "db_ok (run_db run)" "synced w (run_db run) (run_store run)" "pull_floor (run_db run) w = 0"
    by (simp_all add: sync_inv_def)
  note page = pull_page_inv [OF inv(1,2) pull(1)]
  show ?case using page(1,2) inv(3) by (simp add: sync_inv_def page(5) pull_floor_ensured)
qed

lemma reachable_inv: "sync_reachable w x \<Longrightarrow> sync_inv w x"
proof (induction rule: sync_reachable.induct)
  case (start x)
  obtain db s where x: "x = (db, s)" by (cases x)
  with start have ok: "db_ok db" "pull_floor db w = 0" "loadLastAppliedHotChangeId w s = 0" by (simp_all add: sync_start_def)
  have "0 < c" if c: "latest db w t i = Some c" for t i c
  proof -
    obtain r where "r \<in> set (hot_changes (cd_sync db))" "change_id r = c" using latest_mem [OF c] .
    then show ?thesis using ok(1) by (auto simp: db_ok_def list_all_iff)
  qed
  then have "synced w db s" using ok by (fastforce simp: synced_def db_ok_def)
  with ok x show ?case by (simp add: sync_inv_def)
qed (rule sync_step_inv)

section \<open>A pull comes to an end\<close>

text \<open>No change of the workspace is older than the oldest a client may still ask for.\<close>

definition floor_kept :: "cloud_db \<Rightarrow> string \<Rightarrow> bool" where
  "floor_kept db w \<longleftrightarrow> list_all (\<lambda>r. hc_workspace_id r = w \<longrightarrow> pull_floor db w \<le> change_id r) (hot_changes (cd_sync db))"

lemma floor_kept_ensured: "floor_kept (ensured db w) w = floor_kept db w"
  by (simp add: floor_kept_def pull_floor_ensured) (simp add: ensured_def)

lemma may_pull_ensured: "may_pull (ensured db w) w after = may_pull db w after"
  by (simp add: may_pull_def pull_floor_ensured)

lemma ensured_twice: "ensured (ensured db w) w = ensured db w"
  using ensure_idem [of "cd_sync db" w] by (simp add: ensured_def with_sync_def)

lemma latest_served:
  assumes "db_ok db" and "latest db w t i \<noteq> None"
  shows "server_view db w t i \<noteq> None"
proof -
  obtain c where "latest db w t i = Some c" using assms(2) by blast
  then obtain r where "r \<in> set (hot_changes (cd_sync db))" "about_entity w t i r" by (rule latest_mem)
  then show ?thesis using assms(1) by (auto simp: db_ok_def list_all_iff servable_def about_entity_def server_view_def)
qed

lemma changes_after_page:
  assumes ok: "db_ok db" and "0 < n" and "changes_after db w after \<noteq> []"
  shows "length (changes_after (ensured db w) w (page_end db w after n)) < length (changes_after db w after)"
proof -
  let ?stop = "page_end db w after n"
  have "changes_after db w ?stop = filter (\<lambda>r. ?stop < change_id r) (changes_after db w after)"
    using ok page_end_mono(1) [OF ok, of after w n] by (auto simp: latest_changes_filter db_ok_def intro: filter_cong)
  moreover obtain r where "r \<in> set (changes_after db w after)" "change_id r = ?stop"
    using page_end_mono(3) [OF ok assms(2,3)] by blast
  then have "length (filter (\<lambda>r. ?stop < change_id r) (changes_after db w after)) < length (changes_after db w after)"
    by (intro length_filter_less) auto
  ultimately show ?thesis by (simp add: latest_changes_ensured)
qed

lemma pull_pages_return:
  assumes "db_ok (run_db run)" and "synced w (run_db run) (run_store run)"
    and "loadLastAppliedHotChangeId w (run_store run) = after" and "may_pull (run_db run) w after" and "0 < n"
    and "floor_kept (run_db run) w" and "length (changes_after (run_db run) w after) < fuel"
  shows "\<exists>run'. pull_pages fuel now w n run after = Some (Inr run') \<and> up_to_date w (run_db run') (run_store run')
    \<and> run_db run' = ensured (run_db run) w"
  using assms
proof (induction fuel arbitrary: run after)
  case (Suc fuel)
  let ?L = "changes_after (run_db run) w after"
  obtain x where x: "pull_page now w n run after = Inr (x, page_end (run_db run) w after n, n < length ?L)"
      "run_db x = ensured (run_db run) w" "loadLastAppliedHotChangeId w (run_store x) = page_end (run_db run) w after n"
    by (rule pull_page_step [OF Suc.prems(1,4), of now n]) (rule that)
  note inv = pull_page_inv [OF Suc.prems(1,2), unfolded Suc.prems(3), OF x(1)]
  show ?case
  proof (cases "n < length ?L")
    case True
    then have ne: "?L \<noteq> []" by auto
    obtain r where "r \<in> set ?L" "change_id r = page_end (run_db run) w after n"
      using page_end_mono(3) [OF Suc.prems(1,5) ne] by blast
    then have "pull_floor (run_db run) w \<le> page_end (run_db run) w after n"
      using Suc.prems(6) changes_after_mem [OF Suc.prems(1)] by (auto simp: floor_kept_def list_all_iff)
    then have "may_pull (run_db x) w (page_end (run_db run) w after n)" by (simp add: x(2) pull_floor_ensured may_pull_def)
    moreover have "floor_kept (run_db x) w" using Suc.prems(6) by (simp add: x(2) floor_kept_ensured)
    moreover have "length (changes_after (run_db x) w (page_end (run_db run) w after n)) < fuel"
      using changes_after_page [OF Suc.prems(1,5) ne] Suc.prems(7) by (simp add: x(2))
    moreover have "ensured (run_db x) w = ensured (run_db run) w" by (simp add: x(2) ensured_twice)
    ultimately show ?thesis using Suc.IH [OF inv(1,2) x(3) _ Suc.prems(5)] x(1) True by simp
  next
    case False
    then show ?thesis using x(1) inv(4,5) by simp
  qed
qed simp

end
