(* ===== verification/ReviewCounts.thy ===== *)
theory ReviewCounts
  imports SyncRetry SyncSystem
begin

text \<open>
  The days a streak is made of (\<open>progress/activeReviewDays/activeReviewDays.ts\<close>): beside every review event the day on
  which it counts for its user is stored, and the row of a day counts the reviews of that day.
\<close>

section \<open>The invariant\<close>

definition counted_on :: "string \<Rightarrow> string \<Rightarrow> stored_review \<Rightarrow> bool" where
  "counted_on user day r \<longleftrightarrow> v_reviewed_by r = user \<and> v_local_date r = Some day"

definition day_count :: "active_day list \<Rightarrow> string \<Rightarrow> string \<Rightarrow> int" where
  "day_count days user day = (case find (is_day user day) days of None \<Rightarrow> 0 | Some d \<Rightarrow> a_review_count d)"

definition days_counted :: "cloud_db \<Rightarrow> bool" where
  "days_counted db \<longleftrightarrow> distinct (map v_review_event_id (cd_reviews db))
     \<and> distinct (map (\<lambda>d. (a_user d, a_local_date d)) (cd_days db))
     \<and> (\<forall>user day. day_count (cd_days db) user day = int (length (filter (counted_on user day) (cd_reviews db))))"

lemma count_review_key [simp]: "is_day u d (count_review t s r) = is_day u d r"
  "a_user (count_review t s r) = a_user r" "a_local_date (count_review t s r) = a_local_date r"
  "a_review_count (count_review t s r) = a_review_count r + 1"
  by (simp_all add: is_day_def count_review_def Let_def)

lemma is_day_key: "is_day u d r \<longleftrightarrow> (a_user r, a_local_date r) = (u, d)"
  by (auto simp: is_day_def)

section \<open>Counting a review\<close>

lemma count_day:
  assumes "list_ex (is_day u d) days"
  shows "day_count (map (\<lambda>r. if is_day u d r then count_review t s r else r) days) u' d'
    = day_count days u' d' + (if (u', d') = (u, d) then 1 else 0)"
  using assms
proof (induction days)
  case (Cons x days)
  show ?case
  proof (cases "is_day u d x")
    case True
    then have "is_day u' d' x \<longleftrightarrow> (u', d') = (u, d)" by (auto simp: is_day_key)
    moreover have "find (is_day u' d') (map (\<lambda>r. if is_day u d r then count_review t s r else r) days)
        = find (is_day u' d') days" if "(u', d') \<noteq> (u, d)"
      using that by (induction days) (auto simp: is_day_key)
    ultimately show ?thesis using True by (auto simp: day_count_def)
  next
    case False
    then show ?thesis using Cons by (auto simp: day_count_def)
  qed
qed simp

lemma upsert_day_counts:
  assumes "days_counted db" and "cd_days db = cd_days db0"
  shows "day_count (cd_days (upsertUserActiveReviewDayInExecutor db0 input t day s)) u' d'
      = day_count (cd_days db0) u' d' + (if (u', d') = (w_reviewedByUserId input, day) then 1 else 0)"
    and "distinct (map (\<lambda>d. (a_user d, a_local_date d)) (cd_days (upsertUserActiveReviewDayInExecutor db0 input t day s)))"
proof -
  let ?u = "w_reviewedByUserId input"
  let ?new = "\<lparr>a_user = ?u, a_local_date = day, a_review_count = 1, a_first = t, a_last = t, a_time_zone = fst s,
    a_zone_source = snd s\<rparr>"
  have d: "distinct (map (\<lambda>d. (a_user d, a_local_date d)) (cd_days db0))" using assms by (simp add: days_counted_def)
  show "day_count (cd_days (upsertUserActiveReviewDayInExecutor db0 input t day s)) u' d'
      = day_count (cd_days db0) u' d' + (if (u', d') = (?u, day) then 1 else 0)"
  proof (cases "list_ex (is_day ?u day) (cd_days db0)")
    case True
    then show ?thesis using count_day by (simp add: upsertUserActiveReviewDayInExecutor_def Let_def)
  next
    case False
    then have none: "find (is_day ?u day) (cd_days db0) = None" by (auto simp: find_None_iff list_ex_iff)
    have "find (is_day u' d') (cd_days db0 @ [?new]) = (if (u', d') = (?u, day) then Some ?new else find (is_day u' d') (cd_days db0))"
      using none find_add [of "is_day ?u day" "cd_days db0" ?new] find_add_other [of "is_day u' d'" ?new] by (auto simp: is_day_def)
    then show ?thesis using False none by (simp add: upsertUserActiveReviewDayInExecutor_def Let_def day_count_def)
  qed
  have "(?u, day) \<notin> (\<lambda>d. (a_user d, a_local_date d)) ` set (cd_days db0)" if "\<not> list_ex (is_day ?u day) (cd_days db0)"
    using that by (auto simp: list_ex_iff is_day_def)
  then show "distinct (map (\<lambda>d. (a_user d, a_local_date d)) (cd_days (upsertUserActiveReviewDayInExecutor db0 input t day s)))"
    using d by (auto simp: upsertUserActiveReviewDayInExecutor_def Let_def o_def if_distrib cong: if_cong)
qed

section \<open>Appending an event\<close>

lemma inserted_review:
  assumes "insert_review e db w ev = Inr (Some row, db1)" and "days_counted db"
  shows "days_counted db1" and "row = review_row e w ev" and "cd_reviews db1 = cd_reviews db @ [row]"
    and "v_review_event_id row \<notin> v_review_event_id ` set (cd_reviews db)"
proof -
  have i: "row = review_row e w ev" "db1 = db\<lparr>cd_reviews := cd_reviews db @ [row]\<rparr>"
      "\<not> list_ex (review_conflicts w ev) (cd_reviews db)"
    using assms(1) by (auto simp: insert_review_def split: if_splits)
  then show r: "row = review_row e w ev" "cd_reviews db1 = cd_reviews db @ [row]" by simp_all
  show fresh: "v_review_event_id row \<notin> v_review_event_id ` set (cd_reviews db)"
    using i by (auto simp: list_ex_iff review_conflicts_def review_row_def)
  have "\<not> counted_on u d row" for u d by (simp add: r(1) counted_on_def review_row_def)
  then show "days_counted db1" using assms(2) fresh i(2) by (simp add: days_counted_def)
qed

text \<open>The event of a fresh row is the only one its identifier finds.\<close>

lemma only_event_moved:
  assumes "cd_reviews db = rs @ [row]" and "i \<notin> v_review_event_id ` set rs" and "i = v_review_event_id row"
    and "v_reviewed_by row = u" and "v_local_date row = None"
  shows "length (filter (counted_on u' d') (map (\<lambda>r. if v_review_event_id r = i \<and> v_reviewed_by r = u
      then r\<lparr>v_time_zone := z, v_local_date := Some d, v_zone_source := src\<rparr> else r) (cd_reviews db)))
    = length (filter (counted_on u' d') (cd_reviews db)) + (if (u', d') = (u, d) then 1 else 0)"
proof -
  let ?f = "\<lambda>r. if v_review_event_id r = i \<and> v_reviewed_by r = u
      then r\<lparr>v_time_zone := z, v_local_date := Some d, v_zone_source := src\<rparr> else r"
  have "map ?f rs = rs" using assms(2) by (intro map_idI) auto
  then show ?thesis using assms by (auto simp: counted_on_def)
qed

lemma store_day_counts:
  assumes ok: "days_counted db" and reviews: "cd_reviews db = rs @ [row]"
    and i: "w_reviewEventId input = v_review_event_id row" and u: "w_reviewedByUserId input = v_reviewed_by row"
    and none: "v_local_date row = None"
    and run: "storeActiveReviewDayForReviewEventInExecutor e db input = Inr (r, db')"
  shows "days_counted db'"
proof -
  obtain selected where sel: "selectReviewTimeZone e input = Inr selected"
    using run by (auto simp: storeActiveReviewDayForReviewEventInExecutor_def res_simps)
  show ?thesis
  proof (cases selected)
    case None
    then show ?thesis using run sel ok by (simp add: storeActiveReviewDayForReviewEventInExecutor_def)
  next
    case (Some zone)
    obtain t where t: "parseReviewedAtClient e (w_reviewedAtClient input) (w_reviewEventId input) = Inr t"
      using run sel Some by (auto simp: storeActiveReviewDayForReviewEventInExecutor_def res_simps)
    let ?day = "env_local_date e t (fst zone)"
    obtain db1 where db1: "updateReviewEventReviewTimeZoneInExecutor db input ?day zone = Inr db1"
        and db': "db' = upsertUserActiveReviewDayInExecutor db1 input t ?day zone"
      using run sel Some t by (auto simp: storeActiveReviewDayForReviewEventInExecutor_def Let_def res_simps)
    have fresh: "w_reviewEventId input \<notin> v_review_event_id ` set rs" using ok reviews i by (auto simp: days_counted_def)
    have moved: "cd_reviews db1 = map (\<lambda>r. if v_review_event_id r = w_reviewEventId input \<and> v_reviewed_by r = w_reviewedByUserId input
        then r\<lparr>v_time_zone := Some (fst zone), v_local_date := Some ?day, v_zone_source := Some (snd zone)\<rparr> else r) (cd_reviews db)"
      and days: "cd_days db1 = cd_days db"
      using db1 by (auto simp: updateReviewEventReviewTimeZoneInExecutor_def Let_def split: if_splits)
    have ids: "map v_review_event_id (cd_reviews db1) = map v_review_event_id (cd_reviews db)"
      unfolding moved by (simp add: o_def if_distrib cong: if_cong)
    have same: "cd_reviews db' = cd_reviews db1" by (simp add: db' upsertUserActiveReviewDayInExecutor_def Let_def)
    have count: "int (length (filter (counted_on u' d') (cd_reviews db1)))
        = int (length (filter (counted_on u' d') (cd_reviews db))) + (if (u', d') = (w_reviewedByUserId input, ?day) then 1 else 0)" for u' d'
      unfolding moved using only_event_moved [OF reviews fresh i _ none] u by simp
    show ?thesis
      unfolding days_counted_def
    proof (intro conjI allI)
      show "distinct (map v_review_event_id (cd_reviews db'))" using ok ids same by (simp add: days_counted_def)
      show "distinct (map (\<lambda>d. (a_user d, a_local_date d)) (cd_days db'))"
        unfolding db' by (rule upsert_day_counts(2) [OF ok days [symmetric]])
      show "day_count (cd_days db') u' d' = int (length (filter (counted_on u' d') (cd_reviews db')))" for u' d'
      proof -
        have "day_count (cd_days db') u' d' = day_count (cd_days db) u' d' + (if (u', d') = (w_reviewedByUserId input, ?day) then 1 else 0)"
          unfolding db' upsert_day_counts(1) [OF ok days [symmetric]] days by (rule refl)
        then show ?thesis unfolding same count using ok by (simp add: days_counted_def)
      qed
    qed
  qed
qed

lemma fact_days: "days_counted (recordQualifiedReviewActivityFactInExecutor e db i) = days_counted db"
  by (simp add: recordQualifiedReviewActivityFactInExecutor_def Let_def days_counted_def split: prod.split)

lemma append_review_days:
  assumes run: "appendReviewEventSnapshotInExecutor e db w ev op = Inr (r, db')" and ok: "days_counted db"
  shows "days_counted db'"
proof -
  obtain inserted db1 where i: "insert_review e db w ev = Inr (inserted, db1)"
    using run by (auto simp: appendReviewEventSnapshotInExecutor_def res_simps)
  show ?thesis
  proof (cases inserted)
    case None
    then have "db1 = db" using i by (auto simp: insert_review_def split: if_splits)
    then show ?thesis using run i None ok
      by (auto simp: appendReviewEventSnapshotInExecutor_def Let_def res_simps split: if_splits option.splits)
  next
    case (Some row)
    note ins = inserted_review [OF i [unfolded Some] ok]
    have app: "appended_review e db1 ev row = Inr (r, db')" using run i Some by (simp add: appendReviewEventSnapshotInExecutor_def)
    obtain written where m: "mapReviewHistoryItem row = Inr written" using app by (auto simp: appended_review_def res_simps)
    let ?input = "\<lparr>w_reviewEventId = re_reviewEventId written, w_reviewedByUserId = env_user e,
      w_reviewedAtClient = re_reviewedAtClient written, w_reviewedTimeZone = re_reviewedTimeZone ev,
      w_fallbackProgressTimeZone = (if re_reviewedTimeZone ev = None
        then loadProgressTimeZoneForUserInExecutor db1 (env_user e) else None)\<rparr>"
    obtain r1 db2 where day: "storeActiveReviewDayForReviewEventInExecutor e db1 ?input = Inr (r1, db2)"
      and db': "db' = recordQualifiedReviewActivityFactInExecutor e db2 written"
      using app m by (auto simp: appended_review_def Let_def res_simps)
    have "w_reviewEventId ?input = v_review_event_id row" "w_reviewedByUserId ?input = v_reviewed_by row" "v_local_date row = None"
      using m ins(2) by (auto simp: mapReviewHistoryItem_def res_simps review_row_def)
    then show ?thesis unfolding db' fact_days using store_day_counts [OF ins(1,3)] day by blast
  qed
qed

section \<open>Every write\<close>

text \<open>The other writes leave the reviews, the days and the ledger of pushed operations alone.\<close>

definition reviews_kept :: "cloud_db \<Rightarrow> cloud_db \<Rightarrow> bool" where
  "reviews_kept db db' \<longleftrightarrow> cd_reviews db' = cd_reviews db \<and> cd_days db' = cd_days db \<and> cd_applied db' = cd_applied db"

named_theorems reviewless \<open>writes that leave reviews alone\<close>

lemma reviews_kept_days: "reviews_kept db db' \<Longrightarrow> days_counted db' = days_counted db"
  by (simp add: reviews_kept_def days_counted_def)

lemma content_reviews: "content_only (with_sync sync db) db' \<Longrightarrow> reviews_kept db db'"
  by (simp add: content_only_def ledger_kept_def reviews_kept_def)

lemma update_live_card_reviews [reviewless]:
  "update_live_card e (with_sync sync db) w lock i f = Inr (r, db') \<Longrightarrow> reviews_kept db db'"
  by (auto simp: update_live_card_def res_simps split: option.splits
      intro: content_reviews [of sync] content_only_trans [OF put_card_kept] dest: applied_card_kept)

lemma createCard_reviews [reviewless]: "createCardInExecutor e i db w input md = Inr (r, db') \<Longrightarrow> reviews_kept db db'"
  by (auto simp: createCardInExecutor_def res_simps Let_def reviews_kept_def content_only_def ledger_kept_def split: if_splits
      dest!: applied_card_kept)

lemma updateCard_reviews [reviewless]: "updateCardInExecutor e db w i input md = Inr (r, db') \<Longrightarrow> reviews_kept db db'"
  by (auto simp: updateCardInExecutor_def res_simps Let_def split: if_splits intro: reviewless)

lemma deleteCard_reviews [reviewless]: "deleteCardInExecutor e db w i md = Inr (r, db') \<Longrightarrow> reviews_kept db db'"
  by (auto simp: deleteCardInExecutor_def res_simps Let_def intro: reviewless)

lemma upsertDeck_reviews [reviewless]: "upsertDeckSnapshotInExecutor e db w i md = Inr (r, db') \<Longrightarrow> reviews_kept db db'"
  by (rule content_reviews [OF upsert_deck_kept])

lemma createDeck_reviews [reviewless]: "createDeckInExecutor e i db w input md = Inr (r, db') \<Longrightarrow> reviews_kept db db'"
  by (auto simp: createDeckInExecutor_def res_simps intro: reviewless)

lemma updateDeck_reviews [reviewless]: "updateDeckInExecutor e db w i input md = Inr (r, db') \<Longrightarrow> reviews_kept db db'"
  by (auto simp: updateDeckInExecutor_def res_simps intro: reviewless)

lemma deleteDeck_reviews [reviewless]:
  assumes "deleteDeckInExecutor e db w i md = Inr (r, db')"
  shows "reviews_kept db db'"
proof -
  obtain sync input md' r' where "upsertDeckSnapshotInExecutor e (with_sync sync db) w input md' = Inr (r', db')"
    using assms by (auto simp: deleteDeckInExecutor_def res_simps Let_def)
  then show ?thesis using upsertDeck_reviews by (fastforce simp: reviews_kept_def)
qed

lemma each_r_reviews:
  assumes "each_r f xs db = Inr (ys, db')" and "\<And>x db y db'. f x db = Inr (y, db') \<Longrightarrow> reviews_kept db db'"
  shows "reviews_kept db db'"
  using assms(1)
proof (induction xs arbitrary: db ys)
  case Nil
  then show ?case by (simp add: reviews_kept_def)
next
  case (Cons x xs)
  then obtain y db1 ys' where "f x db = Inr (y, db1)" "each_r f xs db1 = Inr (ys', db')" by (auto simp: res_simps)
  then show ?case using assms(2) Cons.IH by (fastforce simp: reviews_kept_def)
qed

lemma batches_reviews:
  "createCards e db w new_cards = Inr (r, db') \<Longrightarrow> reviews_kept db db'"
  "updateCards e db w edits = Inr (r, db') \<Longrightarrow> reviews_kept db db'"
  "deleteCards e db w items = Inr (d, db') \<Longrightarrow> reviews_kept db db'"
  "createDecks e db w new_decks = Inr (rd, db') \<Longrightarrow> reviews_kept db db'"
  "updateDecks e db w deck_edits = Inr (rd, db') \<Longrightarrow> reviews_kept db db'"
  "deleteDecks e db w items = Inr (d, db') \<Longrightarrow> reviews_kept db db'"
  by (auto simp: createCards_def updateCards_def deleteCards_def createDecks_def updateDecks_def deleteDecks_def res_simps
      elim!: each_r_reviews intro: reviewless)

section \<open>Pushes and reviews\<close>

lemma payload_days:
  assumes "process_payload e db w replica operation = Inr (Outcome a c db')" and "days_counted db"
  shows "days_counted db'"
proof -
  have "reviews_kept db db' \<or> (\<exists>ev op r. appendReviewEventSnapshotInExecutor e db w ev op = Inr (r, db'))"
    using assms(1) by (cases "p_payload operation")
      (auto simp: process_payload_def process_review_def Let_def res_simps split: if_splits
        intro: reviewless content_reviews [OF upsert_card_kept], auto simp: reviews_kept_def)
  then show ?thesis using assms(2) reviews_kept_days append_review_days by blast
qed

lemma operation_days:
  assumes "processOperationInExecutor e w replica operation db = Inr (r, db')" and "days_counted db"
  shows "days_counted db'"
proof -
  obtain outcome where o: "process_payload e db w replica operation = Inr outcome"
    using assms(1) by (auto simp: processOperationInExecutor_def res_simps)
  show ?thesis
  proof (cases outcome)
    case (Reject message)
    then show ?thesis using assms o by (simp add: processOperationInExecutor_def)
  next
    case (Outcome a c db1)
    then have "recordAppliedOperation e db1 w replica operation c = Inr db'"
      using assms(1) o by (auto simp: processOperationInExecutor_def res_simps)
    then have "cd_reviews db' = cd_reviews db1" "cd_days db' = cd_days db1"
      by (auto simp: recordAppliedOperation_def res_simps split: if_splits)
    then show ?thesis using payload_days [OF o [unfolded Outcome] assms(2)] by (simp add: days_counted_def)
  qed
qed

lemma push_days:
  assumes "processSyncPushOperationsInExecutor e db w replica ops = Inr (rs, db')" and "days_counted db"
  shows "days_counted db'"
proof -
  have "days_counted (with_sync sync db) = days_counted db" for sync by (simp add: days_counted_def)
  moreover have "each_r (push_one e w replica existing) ops db1 = Inr (rs, db2) \<Longrightarrow> days_counted db1 \<Longrightarrow> days_counted db2"
    for existing db1 db2 rs
    by (induction ops arbitrary: db1 rs) (auto simp: res_simps push_one_def dest: operation_days split: option.splits)
  ultimately show ?thesis using assms by (auto simp: processSyncPushOperationsInExecutor_def Let_def)
qed

lemma review_days:
  assumes "submitReview m e newIds db w replica input md = Inr (r, db')" and "days_counted db"
  shows "days_counted db'"
proof -
  obtain sync db1 ev op a row row' lock r' where
    app: "appendReviewEventSnapshotInExecutor e (with_sync sync db) w ev op = Inr (a, db1)"
    and run: "applied_card e w lock row' (put_card w (si_cardId input) row' db1) = Inr (r', db')"
    using assms(1) by (auto simp: submitReview_def Let_def res_simps split: if_splits option.splits)
  have "days_counted (with_sync sync db)" using assms(2) by (simp add: days_counted_def)
  note days = append_review_days [OF app this]
  have "content_only db1 db'" using content_only_trans [OF put_card_kept applied_card_kept [OF run]] .
  then show ?thesis using days by (simp add: content_only_def days_counted_def)
qed

lemma write_days: "server_write db db' \<Longrightarrow> days_counted db \<Longrightarrow> days_counted db'"
proof (induction rule: server_write.induct)
  case (settings p now db w input md r s)
  then show ?case by (simp add: days_counted_def)
qed (auto intro: push_days review_days dest: batches_reviews simp: reviews_kept_days)

end
