(* ===== verification/SyncProperties.thy ===== *)
theory SyncProperties
  imports ReviewCounts SettingsProperties
begin

text \<open>
  The properties of a client that pulls from the server, with concrete witnesses: a workspace whose
  settings changed once, and a client that has stored nothing.
\<close>

section \<open>Concrete inputs of the witnesses\<close>

definition one_change :: hot_change where
  "one_change = \<lparr>change_id = 1, hc_workspace_id = ''w'', hc_entity_type = WorkspaceSchedulerSettingsEntity,
     hc_entity_id = ''w'', hc_action = Upsert, hc_replica_id = ''a'', hc_operation_id = ''1'', hc_client_updated_at = ''now''\<rparr>"

definition small_cloud :: cloud_db where
  "small_cloud = \<lparr>cd_settings = sample_db\<lparr>db_sync := \<lparr>hot_changes = [one_change], next_change_id = 2, sync_metadata = []\<rparr>\<rparr>,
     cd_cards = [], cd_decks = [], cd_reviews = [], cd_days = [], cd_facts = [], cd_applied = [], cd_media = [], cd_zones = []\<rparr>"

definition empty_store :: web_store where
  "empty_store = \<lparr>ws_cards = (\<lambda>_. None), ws_cardTags = [], ws_decks = (\<lambda>_. None), ws_mediaAssets = (\<lambda>_. None),
     ws_workspaceSettings = (\<lambda>_. None), ws_workspaceSyncState = (\<lambda>_. None)\<rparr>"

lemma small_cloud_served: "served small_cloud ''w'' WorkspaceSchedulerSettingsEntity ''w'' \<noteq> None"
  using sample_row_mapped by (auto simp: served_def small_cloud_def sample_db_def)

lemma small_cloud_ok: "db_ok small_cloud"
proof -
  have "servable small_cloud one_change" using small_cloud_served by (simp add: servable_def one_change_def)
  moreover have "hot_changes (cd_sync small_cloud) = [one_change]" by (simp add: small_cloud_def)
  ultimately show ?thesis by (simp add: db_ok_def change_log_ok_def) (simp add: small_cloud_def one_change_def)
qed

lemma small_start: "sync_start ''w'' (small_cloud, empty_store)"
  using small_cloud_ok
  by (simp add: sync_start_def pull_floor_def option_default_def small_cloud_def sample_db_def loadLastAppliedHotChangeId_def
      empty_store_def current_or_def)

lemma small_latest: "latest small_cloud ''w'' WorkspaceSchedulerSettingsEntity ''w'' = Some 1"
  by (simp add: findLatestSyncChangeId_def small_cloud_def one_change_def about_entity_def max_change_id_def)


section \<open>Pulling\<close>

text \<open>
  C3. A pull of the web client comes to an end and brings the client up to date. Whatever writes
  the server has accepted and whatever pages the client has applied before, with the server keeping its
  whole log: the loop of \<open>pullHotChanges\<close> stops after at most as many pages as there are changes in
  the log, no page fails, and afterwards the client's copy of every entity that ever changed is the
  server's current state of it.
\<close>

theorem pull_catches_up:
  assumes "sync_reachable w (db, s)" and "length (hot_changes (cd_sync db)) < fuel"
  shows "\<exists>run. pullHotChanges fuel now w db s = Some (Inr run)
    \<and> (\<forall>t i. latest db w t i \<noteq> None \<longrightarrow> server_view db w t i \<noteq> None \<and> client_view (run_store run) w t i = server_view db w t i)"
proof -
  have inv: "db_ok db" "synced w db s" "pull_floor db w = 0" using reachable_inv [OF assms(1)] by (simp_all add: sync_inv_def)
  let ?run = "\<lparr>run_store = s, run_db = db, run_didChangeReviewSchedule = False, run_published = []\<rparr>"
  let ?after = "loadLastAppliedHotChangeId w s"
  have few: "length (changes_after db w ?after) < fuel"
    using assms(2) inv(1) by (auto simp: latest_changes_filter db_ok_def intro: le_less_trans [OF length_filter_le])
  have may: "may_pull db w ?after" "floor_kept db w"
    using inv(1,3) by (auto simp: may_pull_def floor_kept_def db_ok_def list_all_iff)
  obtain run where run: "pull_pages fuel now w syncIncrementalPageSize ?run ?after = Some (Inr run)"
      "up_to_date w (run_db run) (run_store run)" "run_db run = ensured db w"
    using pull_pages_return [of ?run w ?after syncIncrementalPageSize fuel now] inv may few
    by (auto simp: syncIncrementalPageSize_def)
  have "server_view db w t i \<noteq> None" if l: "latest db w t i \<noteq> None" for t i
    using l inv(1) latest_served by blast
  then show ?thesis using run by (auto simp: pullHotChanges_def up_to_date_def latest_ensured server_view_ensured)
qed

theorem pull_catches_up_witness:
  "\<exists>run. pullHotChanges 2 ''now'' ''w'' small_cloud empty_store = Some (Inr run)
    \<and> client_view (run_store run) ''w'' WorkspaceSchedulerSettingsEntity ''w'' \<noteq> None"
proof -
  have "length (hot_changes (cd_sync small_cloud)) < 2" by (simp add: small_cloud_def)
  from pull_catches_up [OF sync_reachable.start [OF small_start] this, of "''now''"] small_latest show ?thesis by force
qed





section \<open>Pushing\<close>

definition small_env :: cloud_env where
  "small_env = \<lparr>env_parse = host_dates, env_now = Date 2, env_clock = Date 2, env_user = ''u'', env_profile = ''p'',
     env_zone = (\<lambda>_. True), env_local_date = (\<lambda>_ _. ''1970-01-01'')\<rparr>"

definition settings_operation :: PushedOperation where
  "settings_operation = \<lparr>p_operationId = ''1'', p_entityId = ''w'', p_clientUpdatedAt = ''now'',
     p_payload = SettingsUpsert (q_input (sample_request ''b''))\<rparr>"

lemma settings_operation_metadata: "operation_metadata ''b'' settings_operation = q_metadata (sample_request ''b'')"
  by (simp add: operation_metadata_def settings_operation_def sample_request_def)

lemma small_push: "\<exists>r db. processSyncPushOperationsInExecutor small_env small_cloud ''w'' ''b'' [settings_operation] = Inr ([r], db)
    \<and> pr_status r \<noteq> Rejected"
proof -
  let ?db = "with_sync (ensureWorkspaceSyncMetadataInExecutor (cd_sync small_cloud) ''w'') small_cloud"
  have row: "map_of (db_workspaces (cd_settings ?db)) ''w'' = Some sample_row" by (simp add: small_cloud_def sample_db_def)
  obtain old where old: "mapWorkspaceSchedulerSettings sample_row = Inr old" using sample_row_mapped by blast
  obtain x where x: "applyWorkspaceSchedulerSettingsSnapshotInExecutor host_dates (Date 2) (cd_settings ?db) ''w''
       (q_input (sample_request ''b'')) (q_metadata (sample_request ''b'')) = Inr x"
    using apply_accepts [OF row old sample_request_valid(2,1) sample_request_dated] by fast
  have none: "loadExistingAppliedOperations ?db ''w'' ''b'' [''1''] = (\<lambda>_. None)"
    by (auto simp: loadExistingAppliedOperations_def latest_applied_def small_cloud_def fun_eq_iff)
  obtain stamp where stamp: "normalizeIsoTimestamp host_dates ''now'' ''clientUpdatedAt'' = Inr stamp"
    by (simp add: normalizeIsoTimestamp_def host_dates_now)
  obtain res settings where x': "x = (res, settings)" by (cases x)
  have "process_payload small_env ?db ''w'' ''b'' settings_operation
      = Inr (Outcome (r_applied res) (r_changeId res) (?db\<lparr>cd_settings := settings\<rparr>))"
    using x x' by (simp add: process_payload_def settings_operation_metadata) (simp add: settings_operation_def small_env_def)
  moreover have "list_ex P (cd_applied (?db\<lparr>cd_settings := settings\<rparr>)) = False" for P by (simp add: small_cloud_def)
  ultimately obtain r db where r: "processOperationInExecutor small_env ''w'' ''b'' settings_operation ?db = Inr (r, db)"
      "pr_status r \<noteq> Rejected"
    using stamp by (simp add: processOperationInExecutor_def recordAppliedOperation_def)
      (simp add: settings_operation_def small_env_def push_result_def)
  moreover have "loadExistingAppliedOperations ?db ''w'' ''b'' (map p_operationId [settings_operation]) = (\<lambda>_. None)"
    using none by (simp add: settings_operation_def)
  ultimately show ?thesis by (simp add: processSyncPushOperationsInExecutor_def push_one_def Let_def)
qed

text \<open>
  C10. Sending a batch again does no harm. When a push has returned and rejected no operation, the same
  batch, sent again by the same replica at any later time, is answered entirely from the ledger: every
  operation is a duplicate that carries the change it resulted in the first time, and the database stays
  as it is.
\<close>

theorem push_retry_is_harmless:
  assumes "processSyncPushOperationsInExecutor e db w replica ops = Inr (rs, db')" and "\<forall>r \<in> set rs. pr_status r \<noteq> Rejected"
  shows "processSyncPushOperationsInExecutor e' db' w replica ops
    = Inr (map2 (\<lambda>op r. push_result op Duplicate (pr_resultingHotChangeId r) None) ops rs, db')"
  using push_retry [OF assms, of e'] by (simp add: duplicates_def)

theorem push_retry_is_harmless_witness:
  "\<exists>r db. processSyncPushOperationsInExecutor small_env small_cloud ''w'' ''b'' [settings_operation] = Inr ([r], db)
    \<and> processSyncPushOperationsInExecutor small_env db ''w'' ''b'' [settings_operation]
      = Inr ([push_result settings_operation Duplicate (pr_resultingHotChangeId r) None], db)"
proof -
  obtain r db where r: "processSyncPushOperationsInExecutor small_env small_cloud ''w'' ''b'' [settings_operation] = Inr ([r], db)"
    and ok: "pr_status r \<noteq> Rejected" using small_push by blast
  from push_retry_is_harmless [OF r, of small_env] ok r show ?thesis by auto
qed

section \<open>Reviews\<close>

text \<open>
  C16. The days of a streak count the reviews. If for every user and day the count of the day's row is the
  number of review events stored for that user and day (0 without a row), with one row per day and one event
  per identifier, then so it is after any write: a pushed or submitted review, a review that is already
  stored, a batch of pushed operations that repeats some, or a change of cards, decks or settings.
\<close>

theorem review_days_counted:
  assumes "days_counted db" and "server_write db db'"
  shows "days_counted db'"
  using write_days assms by blast

theorem review_days_counted_witness:
  "\<exists>r db. processSyncPushOperationsInExecutor small_env small_cloud ''w'' ''b'' [settings_operation] = Inr ([r], db)
    \<and> days_counted db"
proof -
  obtain r db where r: "processSyncPushOperationsInExecutor small_env small_cloud ''w'' ''b'' [settings_operation] = Inr ([r], db)"
    using small_push by blast
  have "days_counted small_cloud" by (simp add: days_counted_def day_count_def small_cloud_def)
  from review_days_counted [OF this server_write.push [OF r]] r show ?thesis by blast
qed

end
