(* ===== verification/ProgressReports.thy ===== *)
theory ProgressReports
  imports StreakMeaning ReviewCounts
begin

text \<open>
  The progress reports of the backend (\<open>progress/reports\<close>, and the rest of
  \<open>progress/activeReviewDays/activeReviewDays.ts\<close>): the request's time zone and range, the days that
  reviews without one are given, the summary and the series of a user. Every report is a function of the
  tables and of the clock. The database computes local dates on its own, so its functions are the
  parameter \<open>db_zones\<close>; the identity column of the review events is the parameter \<open>sequence\<close>.
\<close>

record db_zones =
  dz_local_date :: "js_date \<Rightarrow> string \<Rightarrow> string"
  dz_midnight :: "string \<Rightarrow> int \<Rightarrow> string \<Rightarrow> int"

section \<open>Requests\<close>

record ProgressSeriesInput =
  pi_timeZone :: string
  pi_from :: string
  pi_to :: string

definition maximumInclusiveProgressRangeDays :: int where
  "maximumInclusiveProgressRangeDays = 366"

definition throwProgressValidationError :: "string \<Rightarrow> string \<Rightarrow> 'a result" where
  "throwProgressValidationError message code = Inl (HttpError 400 message (Some code))"

definition validateTimeZone :: "cloud_env \<Rightarrow> string \<Rightarrow> string result" where
  "validateTimeZone e v = (if trim v = [] then throwProgressValidationError ''timeZone is required'' ''PROGRESS_TIMEZONE_REQUIRED''
     else if env_zone e (trim v) then Inr (trim v)
     else throwProgressValidationError ''timeZone must be a valid IANA timezone'' ''PROGRESS_TIMEZONE_INVALID'')"

text \<open>\<open>fieldName.toUpperCase()\<close> is \<open>upper\<close>.\<close>

definition validateLocalDate :: "string \<Rightarrow> string \<Rightarrow> string \<Rightarrow> string result" where
  "validateLocalDate v fieldName upper = (let
     trimmedValue = trim v;
     invalid = throwProgressValidationError (fieldName @ '' must be a YYYY-MM-DD date'') (''PROGRESS_'' @ upper @ ''_INVALID'')
   in if trimmedValue = [] then throwProgressValidationError (fieldName @ '' is required'') (''PROGRESS_'' @ upper @ ''_REQUIRED'')
      else if \<not> fits local_date_template trimmedValue then invalid
      else (case (parseLocalDatePart trimmedValue 0 4, parseLocalDatePart trimmedValue 5 7, parseLocalDatePart trimmedValue 8 10) of
        (Some year, Some month, Some day) \<Rightarrow>
          (case date_UTC year (month - 1) day of
             InvalidDate \<Rightarrow> invalid
           | Date t \<Rightarrow> (if civil_of_day (utc_day t) \<noteq> (year, month - 1, day) then invalid else Inr trimmedValue))
      | _ \<Rightarrow> invalid))"

text \<open>The range has been validated, so both dates are valid and their difference is a number of whole days.\<close>

definition calculateInclusiveRangeDayCount :: "string \<Rightarrow> string \<Rightarrow> int" where
  "calculateInclusiveRangeDayCount from to =
     (instant (createUtcDateFromLocalDate to) - instant (createUtcDateFromLocalDate from)) div ms_per_day + 1"

definition validateProgressSeriesInput :: "cloud_env \<Rightarrow> ProgressSeriesInput \<Rightarrow> ProgressSeriesInput result" where
  "validateProgressSeriesInput e input =
     rbind (validateTimeZone e (pi_timeZone input)) (\<lambda>timeZone.
     rbind (validateLocalDate (pi_from input) ''from'' ''FROM'') (\<lambda>from.
     rbind (validateLocalDate (pi_to input) ''to'' ''TO'') (\<lambda>to.
     if to < from then throwProgressValidationError ''from must be less than or equal to to'' ''PROGRESS_RANGE_INVALID''
     else if maximumInclusiveProgressRangeDays < calculateInclusiveRangeDayCount from to
     then throwProgressValidationError ''Date range must include at most 366 days'' ''PROGRESS_RANGE_TOO_LARGE''
     else Inr \<lparr>pi_timeZone = timeZone, pi_from = from, pi_to = to\<rparr>)))"

text \<open>The search parameters of the request, \<open>None\<close> for a missing one.\<close>

definition parseProgressSeriesInputFromRequest ::
    "cloud_env \<Rightarrow> string option \<Rightarrow> string option \<Rightarrow> string option \<Rightarrow> ProgressSeriesInput result" where
  "parseProgressSeriesInputFromRequest e rawTimeZone rawFrom rawTo = (case (rawTimeZone, rawFrom, rawTo) of
     (None, _, _) \<Rightarrow> throwProgressValidationError ''timeZone is required'' ''PROGRESS_TIMEZONE_REQUIRED''
   | (Some _, None, _) \<Rightarrow> throwProgressValidationError ''from is required'' ''PROGRESS_FROM_REQUIRED''
   | (Some _, Some _, None) \<Rightarrow> throwProgressValidationError ''to is required'' ''PROGRESS_TO_REQUIRED''
   | (Some z, Some f, Some t) \<Rightarrow> validateProgressSeriesInput e \<lparr>pi_timeZone = z, pi_from = f, pi_to = t\<rparr>)"

section \<open>Active days\<close>

text \<open>The user's row of settings exists when \<open>hasSettings\<close>; its zone is an entry of \<open>cd_zones\<close>.\<close>

definition rememberProgressTimeZoneInExecutor :: "cloud_env \<Rightarrow> bool \<Rightarrow> cloud_db \<Rightarrow> string \<Rightarrow> string \<Rightarrow> cloud_db result" where
  "rememberProgressTimeZoneInExecutor e hasSettings db userId timeZone =
     rbind (requireIanaTimeZone e timeZone ''timeZone'') (\<lambda>normalizedTimeZone.
     if hasSettings then Inr (db\<lparr>cd_zones := map_set userId normalizedTimeZone (cd_zones db)\<rparr>)
     else Inl (Error (''Progress timezone user_settings row was not found for userId='' @ userId)))"

definition event_day :: "db_zones \<Rightarrow> string \<Rightarrow> stored_review \<Rightarrow> string" where
  "event_day z timeZone r = option_default
     (dz_local_date z (v_reviewed_at_client r) (option_default timeZone (v_time_zone r))) (v_local_date r)"

text \<open>\<open>target_review_events\<close>: the events without a day, and those whose day has no row.\<close>

definition to_materialize :: "db_zones \<Rightarrow> string \<Rightarrow> string \<Rightarrow> string \<Rightarrow> active_day list \<Rightarrow> stored_review \<Rightarrow> bool" where
  "to_materialize z timeZone userId wsp days r \<longleftrightarrow> v_reviewed_by r = userId \<and> v_workspace_id r = wsp
     \<and> (v_local_date r = None \<or> \<not> list_ex (is_day userId (event_day z timeZone r)) days)"

text \<open>\<open>updated_review_events\<close>.\<close>

definition materialized_event :: "db_zones \<Rightarrow> string \<Rightarrow> stored_review \<Rightarrow> stored_review" where
  "materialized_event z timeZone r = (if v_local_date r \<noteq> None then r
     else r\<lparr>v_time_zone := Some (option_default timeZone (v_time_zone r)), v_local_date := Some (event_day z timeZone r),
       v_zone_source := Some (option_default UserSettingsZone (v_zone_source r))\<rparr>)"

text \<open>\<open>active_day_rows\<close>: the earliest event, by instant and identifier, names the zone.\<close>

definition earliest_event :: "stored_review \<Rightarrow> stored_review list \<Rightarrow> stored_review" where
  "earliest_event r rs = foldl (\<lambda>a b. if instant (v_reviewed_at_client b) < instant (v_reviewed_at_client a)
       \<or> instant (v_reviewed_at_client b) = instant (v_reviewed_at_client a) \<and> v_review_event_id b < v_review_event_id a
     then b else a) r rs"

definition latest_instant :: "stored_review \<Rightarrow> stored_review list \<Rightarrow> js_date" where
  "latest_instant r rs = foldl (\<lambda>a b. if instant a < instant (v_reviewed_at_client b) then v_reviewed_at_client b else a)
     (v_reviewed_at_client r) rs"

definition active_day_row :: "string \<Rightarrow> string \<Rightarrow> string \<Rightarrow> stored_review \<Rightarrow> stored_review list \<Rightarrow> active_day" where
  "active_day_row timeZone userId day r rs = \<lparr>a_user = userId, a_local_date = day, a_review_count = int (length (r # rs)),
     a_first = v_reviewed_at_client (earliest_event r rs), a_last = latest_instant r rs,
     a_time_zone = option_default timeZone (v_time_zone (earliest_event r rs)),
     a_zone_source = option_default UserSettingsZone (v_zone_source (earliest_event r rs))\<rparr>"

text \<open>\<open>ON CONFLICT DO UPDATE\<close>.\<close>

definition merge_day :: "active_day \<Rightarrow> active_day \<Rightarrow> active_day" where
  "merge_day excluded r = (let earlier = instant (a_first excluded) < instant (a_first r) in
     r\<lparr>a_review_count := a_review_count r + a_review_count excluded,
      a_first := (if earlier then a_first excluded else a_first r),
      a_last := (if instant (a_last r) < instant (a_last excluded) then a_last excluded else a_last r),
      a_time_zone := (if earlier then a_time_zone excluded else a_time_zone r),
      a_zone_source := (if earlier then a_zone_source excluded else a_zone_source r)\<rparr>)"

definition upsert_day :: "active_day list \<Rightarrow> active_day \<Rightarrow> active_day list" where
  "upsert_day days d = (if list_ex (is_day (a_user d) (a_local_date d)) days
     then map (\<lambda>r. if is_day (a_user d) (a_local_date d) r then merge_day d r else r) days
     else days @ [d])"

text \<open>One row for each day of the targets, in the order the days first occur.\<close>

fun grouped_days :: "db_zones \<Rightarrow> string \<Rightarrow> string \<Rightarrow> stored_review list \<Rightarrow> string list \<Rightarrow> active_day list" where
  "grouped_days z timeZone userId targets [] = []"
| "grouped_days z timeZone userId targets (day # days) =
     (case filter (\<lambda>r. event_day z timeZone r = day) targets of
        [] \<Rightarrow> []
      | r # rs \<Rightarrow> [active_day_row timeZone userId day r rs]) @ grouped_days z timeZone userId targets days"

definition materializeMissingActiveReviewDaysForUserInExecutor ::
    "cloud_env \<Rightarrow> db_zones \<Rightarrow> cloud_db \<Rightarrow> string \<Rightarrow> string \<Rightarrow> string \<Rightarrow> ((nat \<times> nat) \<times> cloud_db) result" where
  "materializeMissingActiveReviewDaysForUserInExecutor e z db userId wsp timeZone =
     rbind (requireIanaTimeZone e timeZone ''timeZone'') (\<lambda>zone. let
       is_target = to_materialize z zone userId wsp (cd_days db);
       targets = filter is_target (cd_reviews db);
       rows = grouped_days z zone userId targets (remdups (map (event_day z zone) targets))
     in Inr ((length (filter (\<lambda>r. v_local_date r = None) targets), length rows),
       db\<lparr>cd_reviews := map (\<lambda>r. if is_target r then materialized_event z zone r else r) (cd_reviews db),
         cd_days := foldl upsert_day (cd_days db) rows\<rparr>))"

definition normalizeLocalDateFromQuery :: "string \<Rightarrow> string result" where
  "normalizeLocalDateFromQuery v = (if fits local_date_template v then Inr v
     else Inl (Error (''Invalid active review local date returned from database: '' @ v)))"

definition loadUserActiveReviewLocalDatesInExecutor :: "cloud_db \<Rightarrow> string \<Rightarrow> string list result" where
  "loadUserActiveReviewLocalDatesInExecutor db userId =
     map_r normalizeLocalDateFromQuery (sort (map a_local_date (filter (\<lambda>d. a_user d = userId) (cd_days db))))"

end
