(* ===== verification/ProgressLoaders.thy ===== *)
theory ProgressLoaders
  imports ProgressReports
begin

text \<open>
  The reports themselves (\<open>progress/reports/loaders\<close>): the watermarks of the review history, the summary,
  the series of daily reviews and streak days with the check of its invariant, and the schedule of due
  cards. The list of the user's workspaces and the access check of the database are arguments.
\<close>

section \<open>Watermarks\<close>

record ProgressReviewHistoryWatermark =
  wm_workspaceId :: string
  wm_reviewSequenceId :: int

definition normalizeNonNegativeIntegerFromQuery :: "int \<Rightarrow> string \<Rightarrow> int result" where
  "normalizeNonNegativeIntegerFromQuery v fieldName = (if v < 0
     then Inl (Error (''Invalid non-negative integer returned for '' @ fieldName)) else Inr v)"

text \<open>The driver returns a 64-bit column as text.\<close>

definition parseReviewSequenceId :: "string \<Rightarrow> jsnum" where
  "parseReviewSequenceId v = (let trimmedValue = trim v in
     if trimmedValue = [] \<or> \<not> list_all is_digit trimmedValue then NaN
     else fl (of_nat (dec_val 0 trimmedValue)))"

definition normalizeReviewSequenceId :: "string \<Rightarrow> string \<Rightarrow> int result" where
  "normalizeReviewSequenceId v wsp = (let normalizedValue = parseReviewSequenceId v in
     if \<not> is_integer normalizedValue \<or> jlt (num (2 ^ 53 - 1)) normalizedValue \<or> jlt normalizedValue (num 0)
     then Inl (Error (''Invalid review_sequence returned for progress watermark: workspaceId='' @ wsp @ '', value='' @ v))
     else Inr (int_of_num normalizedValue))"

definition mapReviewHistoryWatermarkRow :: "string \<times> string \<Rightarrow> ProgressReviewHistoryWatermark result" where
  "mapReviewHistoryWatermarkRow row = (let wsp = trim (fst row) in
     if wsp = [] then Inl (Error ''Invalid workspace_id returned for progress watermark'')
     else rbind (normalizeReviewSequenceId (snd row) wsp) (\<lambda>n. Inr \<lparr>wm_workspaceId = wsp, wm_reviewSequenceId = n\<rparr>))"

text \<open>\<open>[...new Set(xs)]\<close> keeps the first of equal elements.\<close>

definition set_elements :: "'a list \<Rightarrow> 'a list" where
  "set_elements xs = rev (remdups (rev xs))"

definition createSortedWorkspaceIds :: "(string \<Rightarrow> string \<Rightarrow> int) \<Rightarrow> string list \<Rightarrow> string list" where
  "createSortedWorkspaceIds lc ids = sort_by lc (set_elements ids)"

definition assertWatermarkRowsCoverWorkspaceIds ::
    "(string \<Rightarrow> string \<Rightarrow> int) \<Rightarrow> string list \<Rightarrow> (string \<times> string) list \<Rightarrow> unit result" where
  "assertWatermarkRowsCoverWorkspaceIds lc ids rows = (let
     expected = createSortedWorkspaceIds lc ids; actual = createSortedWorkspaceIds lc (map fst rows)
   in throw_if (expected \<noteq> actual)
     (Error (''Review-history watermark query did not return one row per workspace; expectedWorkspaceIds=''
       @ join '','' expected @ ''; returnedWorkspaceIds='' @ join '','' actual)))"

definition sortReviewHistoryWatermarks ::
    "(string \<Rightarrow> string \<Rightarrow> int) \<Rightarrow> ProgressReviewHistoryWatermark list \<Rightarrow> ProgressReviewHistoryWatermark list" where
  "sortReviewHistoryWatermarks lc = sort_by (\<lambda>l r. lc (wm_workspaceId l) (wm_workspaceId r))"

text \<open>\<open>COALESCE(MAX(review_sequence), 0)\<close> of the workspaces the user may read, \<open>sequence\<close> being the identity column.\<close>

definition watermark_rows :: "(string \<Rightarrow> bool) \<Rightarrow> (string \<Rightarrow> nat) \<Rightarrow> cloud_db \<Rightarrow> string list \<Rightarrow> (string \<times> string) list" where
  "watermark_rows allowed sequence db ids = map (\<lambda>w. (w, digits (foldl max 0
       (map (\<lambda>r. sequence (v_review_event_id r)) (filter (\<lambda>r. v_workspace_id r = w) (cd_reviews db))))))
     (sort (filter allowed (remdups ids)))"

definition loadReviewHistoryWatermarksInExecutor ::
    "(string \<Rightarrow> string \<Rightarrow> int) \<Rightarrow> (string \<Rightarrow> bool) \<Rightarrow> (string \<Rightarrow> nat) \<Rightarrow> cloud_db \<Rightarrow> string list
     \<Rightarrow> ProgressReviewHistoryWatermark list result" where
  "loadReviewHistoryWatermarksInExecutor lc allowed sequence db ids = (if ids = [] then Inr []
     else let rows = watermark_rows allowed sequence db ids in
       rbind (assertWatermarkRowsCoverWorkspaceIds lc ids rows) (\<lambda>_. map_r mapReviewHistoryWatermarkRow rows))"

section \<open>Summary\<close>

record ProgressSummary =
  ps_currentStreakDays :: int
  ps_longestStreakDays :: int
  ps_hasReviewedToday :: bool
  ps_lastReviewedOn :: "string option"
  ps_activeReviewDays :: int
  ps_streakFreeze :: StreakFreeze

record ProgressSummaryResponse =
  sr_timeZone :: string
  sr_summary :: ProgressSummary
  sr_generatedAt :: string
  sr_watermarks :: "ProgressReviewHistoryWatermark list"

definition createProgressSummary ::
    "int \<Rightarrow> int \<Rightarrow> int \<Rightarrow> bool \<Rightarrow> string option \<Rightarrow> StreakFreeze \<Rightarrow> ProgressSummary" where
  "createProgressSummary activeReviewDayCount current longest reviewedToday lastReviewedOn freeze =
     \<lparr>ps_currentStreakDays = current, ps_longestStreakDays = longest, ps_hasReviewedToday = reviewedToday,
      ps_lastReviewedOn = lastReviewedOn, ps_activeReviewDays = activeReviewDayCount, ps_streakFreeze = freeze\<rparr>"

text \<open>\<open>xs.at(-1) ?? null\<close>.\<close>

definition last_of :: "'a list \<Rightarrow> 'a option" where
  "last_of xs = (if xs = [] then None else Some (last xs))"

text \<open>The summary of the loaded days; the outer option is a loop that does not return.\<close>

definition summary_of_days :: "(string \<Rightarrow> string \<Rightarrow> int) \<Rightarrow> string list \<Rightarrow> string \<Rightarrow> ProgressSummary result option" where
  "summary_of_days lc activeReviewLocalDates today =
     map_option (\<lambda>r. rbind r (\<lambda>ev. Inr (createProgressSummary (int (length activeReviewLocalDates))
         (ev_currentStreakDays ev) (ev_longestStreakDays ev) (today \<in> set activeReviewLocalDates)
         (last_of activeReviewLocalDates) (ev_streakFreeze ev))))
       (evaluateStreakFreeze lc activeReviewLocalDates today streakFreezePolicy)"

definition buildUserProgressSummaryInExecutor ::
    "cloud_env \<Rightarrow> (string \<Rightarrow> string \<Rightarrow> int) \<Rightarrow> (string \<Rightarrow> bool) \<Rightarrow> (string \<Rightarrow> nat) \<Rightarrow> string list \<Rightarrow> bool \<Rightarrow> cloud_db
     \<Rightarrow> string \<Rightarrow> string \<Rightarrow> js_date \<Rightarrow> (ProgressSummaryResponse \<times> cloud_db) result option" where
  "buildUserProgressSummaryInExecutor e lc allowed sequence workspaceIds hasSettings db userId timeZone generatedAtDate =
     (case rbind (rememberProgressTimeZoneInExecutor e hasSettings db userId timeZone) (\<lambda>db.
        rbind (map_r (\<lambda>w. loadReviewHistoryWatermarksInExecutor lc allowed sequence db [w]) workspaceIds) (\<lambda>watermarks.
        rbind (loadUserActiveReviewLocalDatesInExecutor db userId) (\<lambda>dates. Inr (db, concat watermarks, dates)))) of
       Inl err \<Rightarrow> Some (Inl err)
     | Inr (db, watermarks, dates) \<Rightarrow>
         map_option (\<lambda>r. rbind r (\<lambda>summary. rbind (to_iso_string generatedAtDate) (\<lambda>generatedAt.
             Inr (\<lparr>sr_timeZone = timeZone, sr_summary = summary, sr_generatedAt = generatedAt,
               sr_watermarks = sortReviewHistoryWatermarks lc watermarks\<rparr>, db))))
           (summary_of_days lc dates (env_local_date e generatedAtDate timeZone)))"

section \<open>Daily reviews\<close>

record DailyReviewCounts =
  dc_reviewCount :: int
  dc_againCount :: int
  dc_hardCount :: int
  dc_goodCount :: int
  dc_easyCount :: int

record DailyReviewPoint = DailyReviewCounts +
  dp_date :: string

type_synonym count_row = "string \<times> DailyReviewCounts"

lemma set_utc_date_next: "set_utc_date_by (Date t) 1 = Date t' \<Longrightarrow> t' = t + ms_per_day"
proof -
  assume a: "set_utc_date_by (Date t) 1 = Date t'"
  obtain y mo d where c: "civil_of_day (utc_day t) = (y, mo, d)" using prod_cases3 by blast
  have "make_day y mo (d + 1) = utc_day t + 1" using civil_day_make [OF c] by (simp add: make_day_def Let_def)
  moreover have "utc_day t * ms_per_day + t mod ms_per_day = t" by (simp add: utc_day_def)
  ultimately show ?thesis using a c by (auto simp: set_utc_date_by_def time_clip_def algebra_simps split: if_splits)
qed

text \<open>\<open>while (currentDate.getTime() <= endDate.getTime())\<close>; a comparison with an invalid date fails.\<close>

function inclusive_range_loop :: "js_date \<Rightarrow> js_date \<Rightarrow> string list result" where
  "inclusive_range_loop currentDate endDate = (case (currentDate, endDate) of
     (Date t, Date u) \<Rightarrow> (if t \<le> u then rbind (formatUtcDateAsLocalDate currentDate) (\<lambda>day.
         rbind (inclusive_range_loop (set_utc_date_by currentDate 1) endDate) (\<lambda>days. Inr (day # days)))
       else Inr [])
   | _ \<Rightarrow> Inr [])"
  by pat_completeness auto

termination
proof (relation "measure (\<lambda>(c, e). case (c, e) of (Date t, Date u) \<Rightarrow> nat (u + 1 - t) | (Date t, InvalidDate) \<Rightarrow> 1 | _ \<Rightarrow> 0)", goal_cases)
  case (2 currentDate endDate d e t u day)
  then show ?case
    by (cases "set_utc_date_by (Date t) 1") (auto dest!: set_utc_date_next simp: ms_per_day_def)
qed simp

declare inclusive_range_loop.simps [simp del]

definition createInclusiveLocalDateRange :: "string \<Rightarrow> string \<Rightarrow> string list result" where
  "createInclusiveLocalDateRange from to =
     inclusive_range_loop (createUtcDateFromLocalDate from) (createUtcDateFromLocalDate to)"

definition createEmptyDailyReviewCounts :: DailyReviewCounts where
  "createEmptyDailyReviewCounts = \<lparr>dc_reviewCount = 0, dc_againCount = 0, dc_hardCount = 0, dc_goodCount = 0, dc_easyCount = 0\<rparr>"

definition addDailyReviewCounts :: "DailyReviewCounts \<Rightarrow> DailyReviewCounts \<Rightarrow> DailyReviewCounts" where
  "addDailyReviewCounts l r = \<lparr>dc_reviewCount = dc_reviewCount l + dc_reviewCount r,
     dc_againCount = dc_againCount l + dc_againCount r, dc_hardCount = dc_hardCount l + dc_hardCount r,
     dc_goodCount = dc_goodCount l + dc_goodCount r, dc_easyCount = dc_easyCount l + dc_easyCount r\<rparr>"

definition mapDailyReviewCountRow :: "count_row \<Rightarrow> DailyReviewCounts result" where
  "mapDailyReviewCountRow row =
     rbind (normalizeNonNegativeIntegerFromQuery (dc_reviewCount (snd row)) (fst row @ ''.review_count'')) (\<lambda>n.
     rbind (normalizeNonNegativeIntegerFromQuery (dc_againCount (snd row)) (fst row @ ''.again_count'')) (\<lambda>again.
     rbind (normalizeNonNegativeIntegerFromQuery (dc_hardCount (snd row)) (fst row @ ''.hard_count'')) (\<lambda>hard.
     rbind (normalizeNonNegativeIntegerFromQuery (dc_goodCount (snd row)) (fst row @ ''.good_count'')) (\<lambda>good.
     rbind (normalizeNonNegativeIntegerFromQuery (dc_easyCount (snd row)) (fst row @ ''.easy_count'')) (\<lambda>easy.
     Inr \<lparr>dc_reviewCount = n, dc_againCount = again, dc_hardCount = hard, dc_goodCount = good, dc_easyCount = easy\<rparr>)))))"

type_synonym day_counts = "(string \<times> DailyReviewCounts) list"

definition counts_at :: "day_counts \<Rightarrow> string \<Rightarrow> DailyReviewCounts" where
  "counts_at aggregate day = option_default createEmptyDailyReviewCounts (map_of aggregate day)"

definition addDailyReviewCountRows :: "day_counts \<Rightarrow> count_row list \<Rightarrow> day_counts result" where
  "addDailyReviewCountRows aggregate rows = fold_r (\<lambda>aggregate row.
     rbind (mapDailyReviewCountRow row) (\<lambda>c. Inr (map_set (fst row) (addDailyReviewCounts (counts_at aggregate (fst row)) c) aggregate)))
     aggregate rows"

definition createDailyReviews :: "string list \<Rightarrow> day_counts \<Rightarrow> DailyReviewPoint list" where
  "createDailyReviews days aggregate = map (\<lambda>day. let counts = counts_at aggregate day in
     \<lparr>dc_reviewCount = dc_reviewCount counts, dc_againCount = dc_againCount counts, dc_hardCount = dc_hardCount counts,
      dc_goodCount = dc_goodCount counts, dc_easyCount = dc_easyCount counts, dp_date = day\<rparr>) days"

text \<open>The reviews of the window, counted by the day of each and its rating.\<close>

definition counts_of :: "stored_review list \<Rightarrow> DailyReviewCounts" where
  "counts_of rs = (let rated = (\<lambda>n. int (length (filter (\<lambda>r. v_rating r = n) rs))) in
     \<lparr>dc_reviewCount = int (length rs), dc_againCount = rated 0, dc_hardCount = rated 1, dc_goodCount = rated 2,
      dc_easyCount = rated 3\<rparr>)"

definition in_window :: "db_zones \<Rightarrow> string \<Rightarrow> string \<Rightarrow> string \<Rightarrow> string \<Rightarrow> string \<Rightarrow> stored_review \<Rightarrow> bool" where
  "in_window z wsp userId timeZone from to r \<longleftrightarrow> v_workspace_id r = wsp \<and> v_reviewed_by r = userId
     \<and> dz_midnight z from (- 3) timeZone \<le> instant (v_reviewed_at_client r)
     \<and> instant (v_reviewed_at_client r) < dz_midnight z to 3 timeZone
     \<and> from \<le> event_day z timeZone r \<and> event_day z timeZone r \<le> to"

definition loadDailyReviewCountRowsInExecutor ::
    "db_zones \<Rightarrow> cloud_db \<Rightarrow> string \<Rightarrow> string \<Rightarrow> string \<Rightarrow> string \<Rightarrow> string \<Rightarrow> count_row list" where
  "loadDailyReviewCountRowsInExecutor z db wsp userId timeZone from to = (let
     rs = filter (in_window z wsp userId timeZone from to) (cd_reviews db)
   in map (\<lambda>day. (day, counts_of (filter (\<lambda>r. event_day z timeZone r = day) rs)))
     (sort (remdups (map (event_day z timeZone) rs))))"

section \<open>Streak days and their invariant\<close>

record ProgressSeries =
  se_timeZone :: string
  se_from :: string
  se_to :: string
  se_dailyReviews :: "DailyReviewPoint list"
  se_streakDays :: "(string \<times> StreakDayState) list"
  se_generatedAt :: "string option"
  se_watermarks :: "ProgressReviewHistoryWatermark list"

definition createSeriesStreakDays ::
    "string list \<Rightarrow> string list \<Rightarrow> (string \<times> StreakDayState) list \<Rightarrow> string \<Rightarrow> (string \<times> StreakDayState) list" where
  "createSeriesStreakDays days activeReviewDates evaluatedStreakDays today = map (\<lambda>date. (date,
     if date \<in> set activeReviewDates then Reviewed
     else option_default (if today \<le> date then Pending else Missed) (map_of (rev evaluatedStreakDays) date))) days"

definition day_invariant_error :: js_error where
  "day_invariant_error = Error ''Progress series day invariant failed''"

text \<open>The details of the message (user, zone, range and day) are left out.\<close>

definition validateProgressSeriesDayInvariant :: "ProgressSeries \<Rightarrow> unit result" where
  "validateProgressSeriesDayInvariant series = (let
     days = foldl (\<lambda>m p. map_set (dp_date p) p m) [] (se_dailyReviews series);
     streakState = map_of (rev (se_streakDays series))
   in rbind (map_r (\<lambda>(day, p). case streakState day of
       None \<Rightarrow> Inl day_invariant_error
     | Some st \<Rightarrow> if dc_reviewCount p = 0 \<and> st = Reviewed then Inr ()
         else throw_if ((0 < dc_reviewCount p) \<noteq> (st = Reviewed)) day_invariant_error) days) (\<lambda>_. Inr ()))"

section \<open>Series\<close>

definition series_workspace ::
    "cloud_env \<Rightarrow> (string \<Rightarrow> string \<Rightarrow> int) \<Rightarrow> db_zones \<Rightarrow> (string \<Rightarrow> bool) \<Rightarrow> (string \<Rightarrow> nat) \<Rightarrow> string \<Rightarrow> ProgressSeriesInput
     \<Rightarrow> day_counts \<times> ProgressReviewHistoryWatermark list \<times> cloud_db \<Rightarrow> string
     \<Rightarrow> (day_counts \<times> ProgressReviewHistoryWatermark list \<times> cloud_db) result" where
  "series_workspace e lc z allowed sequence userId input acc wsp = (case acc of (counts, watermarks, db) \<Rightarrow>
     rbind (materializeMissingActiveReviewDaysForUserInExecutor e z db userId wsp (pi_timeZone input)) (\<lambda>(_, db).
     rbind (addDailyReviewCountRows counts
       (loadDailyReviewCountRowsInExecutor z db wsp userId (pi_timeZone input) (pi_from input) (pi_to input))) (\<lambda>counts.
     rbind (loadReviewHistoryWatermarksInExecutor lc allowed sequence db [wsp]) (\<lambda>ws.
     Inr (counts, watermarks @ ws, db)))))"

definition buildUserProgressSeriesInExecutor ::
    "cloud_env \<Rightarrow> (string \<Rightarrow> string \<Rightarrow> int) \<Rightarrow> db_zones \<Rightarrow> (string \<Rightarrow> bool) \<Rightarrow> (string \<Rightarrow> nat) \<Rightarrow> string list \<Rightarrow> bool \<Rightarrow> cloud_db
     \<Rightarrow> string \<Rightarrow> ProgressSeriesInput \<Rightarrow> js_date \<Rightarrow> (ProgressSeries \<times> cloud_db) result option" where
  "buildUserProgressSeriesInExecutor e lc z allowed sequence workspaceIds hasSettings db userId input generatedAtDate =
     (case rbind (rememberProgressTimeZoneInExecutor e hasSettings db userId (pi_timeZone input)) (\<lambda>db.
        rbind (fold_r (series_workspace e lc z allowed sequence userId input) ([], [], db) workspaceIds) (\<lambda>(counts, watermarks, db).
        rbind (createInclusiveLocalDateRange (pi_from input) (pi_to input)) (\<lambda>dayRange.
        rbind (loadUserActiveReviewLocalDatesInExecutor db userId) (\<lambda>dates. Inr (counts, watermarks, db, dayRange, dates))))) of
       Inl err \<Rightarrow> Some (Inl err)
     | Inr (counts, watermarks, db, dayRange, dates) \<Rightarrow> (let today = env_local_date e generatedAtDate (pi_timeZone input) in
         map_option (\<lambda>r. rbind r (\<lambda>ev. rbind (to_iso_string generatedAtDate) (\<lambda>generatedAt. let
             series = \<lparr>se_timeZone = pi_timeZone input, se_from = pi_from input, se_to = pi_to input,
               se_dailyReviews = createDailyReviews dayRange counts,
               se_streakDays = createSeriesStreakDays dayRange dates (ev_streakDays ev) today,
               se_generatedAt = Some generatedAt, se_watermarks = sortReviewHistoryWatermarks lc watermarks\<rparr>
           in rbind (validateProgressSeriesDayInvariant series) (\<lambda>_. Inr (series, db)))))
         (evaluateStreakFreeze lc dates today streakFreezePolicy)))"

section \<open>Schedule of due cards\<close>

datatype ReviewScheduleBucketKey = NewBucket | TodayBucket | Days1To7 | Days8To30 | Days31To90 | Days91To360 | Years1To2 | LaterBucket

definition reviewScheduleBucketKeys :: "ReviewScheduleBucketKey list" where
  "reviewScheduleBucketKeys = [NewBucket, TodayBucket, Days1To7, Days8To30, Days31To90, Days91To360, Years1To2, LaterBucket]"

text \<open>The filter of each column, \<open>start\<close> giving the start of the day so many days after today.\<close>

fun in_bucket :: "(int \<Rightarrow> int) \<Rightarrow> ReviewScheduleBucketKey \<Rightarrow> js_date option \<Rightarrow> bool" where
  "in_bucket start NewBucket due = (due = None)"
| "in_bucket start bucket None = False"
| "in_bucket start TodayBucket (Some d) = (instant d < start 1)"
| "in_bucket start Days1To7 (Some d) = (start 1 \<le> instant d \<and> instant d < start 8)"
| "in_bucket start Days8To30 (Some d) = (start 8 \<le> instant d \<and> instant d < start 31)"
| "in_bucket start Days31To90 (Some d) = (start 31 \<le> instant d \<and> instant d < start 91)"
| "in_bucket start Days91To360 (Some d) = (start 91 \<le> instant d \<and> instant d < start 361)"
| "in_bucket start Years1To2 (Some d) = (start 361 \<le> instant d \<and> instant d < start 721)"
| "in_bucket start LaterBucket (Some d) = (start 721 \<le> instant d)"

type_synonym bucket_counts = "ReviewScheduleBucketKey \<Rightarrow> int"

definition createEmptyReviewScheduleBucketCounts :: bucket_counts where
  "createEmptyReviewScheduleBucketCounts = (\<lambda>_. 0)"

fun reviewScheduleSqlColumnByBucketKey :: "ReviewScheduleBucketKey \<Rightarrow> string" where
  "reviewScheduleSqlColumnByBucketKey NewBucket = ''new_count''"
| "reviewScheduleSqlColumnByBucketKey TodayBucket = ''today_count''"
| "reviewScheduleSqlColumnByBucketKey Days1To7 = ''days_1_to_7_count''"
| "reviewScheduleSqlColumnByBucketKey Days8To30 = ''days_8_to_30_count''"
| "reviewScheduleSqlColumnByBucketKey Days31To90 = ''days_31_to_90_count''"
| "reviewScheduleSqlColumnByBucketKey Days91To360 = ''days_91_to_360_count''"
| "reviewScheduleSqlColumnByBucketKey Years1To2 = ''years_1_to_2_count''"
| "reviewScheduleSqlColumnByBucketKey LaterBucket = ''later_count''"

definition addReviewScheduleCountRow :: "bucket_counts \<Rightarrow> bucket_counts \<Rightarrow> bucket_counts result" where
  "addReviewScheduleCountRow counts row =
     rbind (map_r (\<lambda>key. normalizeNonNegativeIntegerFromQuery (row key) (reviewScheduleSqlColumnByBucketKey key)) reviewScheduleBucketKeys) (\<lambda>_.
     Inr (\<lambda>key. counts key + row key))"

definition createReviewScheduleBuckets :: "bucket_counts \<Rightarrow> (ReviewScheduleBucketKey \<times> int) list" where
  "createReviewScheduleBuckets counts = map (\<lambda>key. (key, counts key)) reviewScheduleBucketKeys"

definition calculateReviewScheduleTotalCards :: "bucket_counts \<Rightarrow> int" where
  "calculateReviewScheduleTotalCards counts = foldl (\<lambda>total key. total + counts key) 0 reviewScheduleBucketKeys"

definition day_start :: "db_zones \<Rightarrow> string \<Rightarrow> js_date \<Rightarrow> int \<Rightarrow> int" where
  "day_start z timeZone generatedAt days = dz_midnight z (dz_local_date z generatedAt timeZone) days timeZone"

definition loadReviewScheduleCountRowInExecutor :: "db_zones \<Rightarrow> cloud_db \<Rightarrow> string \<Rightarrow> string \<Rightarrow> js_date \<Rightarrow> bucket_counts" where
  "loadReviewScheduleCountRowInExecutor z db wsp timeZone generatedAt = (\<lambda>key. int (length (filter
     (\<lambda>c. k_workspace_id c = wsp \<and> k_deleted_at c = None \<and> in_bucket (day_start z timeZone generatedAt) key (k_due_at c))
     (cd_cards db))))"

record ProgressReviewSchedule =
  sc_timeZone :: string
  sc_generatedAt :: string
  sc_totalCards :: int
  sc_buckets :: "(ReviewScheduleBucketKey \<times> int) list"
  sc_watermarks :: "ProgressReviewHistoryWatermark list"

definition schedule_workspace ::
    "(string \<Rightarrow> string \<Rightarrow> int) \<Rightarrow> db_zones \<Rightarrow> (string \<Rightarrow> bool) \<Rightarrow> (string \<Rightarrow> nat) \<Rightarrow> cloud_db \<Rightarrow> string \<Rightarrow> js_date
     \<Rightarrow> bucket_counts \<times> ProgressReviewHistoryWatermark list \<Rightarrow> string
     \<Rightarrow> (bucket_counts \<times> ProgressReviewHistoryWatermark list) result" where
  "schedule_workspace lc z allowed sequence db timeZone generatedAt acc wsp =
     rbind (addReviewScheduleCountRow (fst acc) (loadReviewScheduleCountRowInExecutor z db wsp timeZone generatedAt)) (\<lambda>counts.
     rbind (loadReviewHistoryWatermarksInExecutor lc allowed sequence db [wsp]) (\<lambda>ws. Inr (counts, snd acc @ ws)))"

definition buildUserProgressReviewScheduleInExecutor ::
    "(string \<Rightarrow> string \<Rightarrow> int) \<Rightarrow> db_zones \<Rightarrow> (string \<Rightarrow> bool) \<Rightarrow> (string \<Rightarrow> nat) \<Rightarrow> string list \<Rightarrow> cloud_db \<Rightarrow> string \<Rightarrow> js_date
     \<Rightarrow> ProgressReviewSchedule result" where
  "buildUserProgressReviewScheduleInExecutor lc z allowed sequence workspaceIds db timeZone generatedAt =
     rbind (fold_r (schedule_workspace lc z allowed sequence db timeZone generatedAt)
       (createEmptyReviewScheduleBucketCounts, []) workspaceIds) (\<lambda>(counts, watermarks).
     rbind (to_iso_string generatedAt) (\<lambda>stamp.
     Inr \<lparr>sc_timeZone = timeZone, sc_generatedAt = stamp, sc_totalCards = calculateReviewScheduleTotalCards counts,
       sc_buckets = createReviewScheduleBuckets counts, sc_watermarks = sortReviewHistoryWatermarks lc watermarks\<rparr>))"

end
