(* ===== verification/ProgressSpec.thy ===== *)
theory ProgressSpec
  imports ProgressLoaders
begin

text \<open>
  What the progress reports promise. Giving the reviews without a day their days keeps the counts of the
  active days, every counted review lies on an active day, and so the series passes its own check; the
  schedule counts every live card in one bucket.
\<close>

section \<open>Materialized days\<close>

lemma merge_day_simps [simp]:
  "is_day u d (merge_day x r) = is_day u d r" "a_user (merge_day x r) = a_user r"
  "a_local_date (merge_day x r) = a_local_date r" "a_review_count (merge_day x r) = a_review_count r + a_review_count x"
  by (simp_all add: is_day_def merge_day_def Let_def)

abbreviation day_key :: "active_day \<Rightarrow> string \<times> string" where
  "day_key d \<equiv> (a_user d, a_local_date d)"

lemma merged_day_count:
  assumes "list_ex (is_day (a_user x) (a_local_date x)) days"
  shows "day_count (map (\<lambda>r. if is_day (a_user x) (a_local_date x) r then merge_day x r else r) days) u d
    = day_count days u d + (if day_key x = (u, d) then a_review_count x else 0)"
  using assms
proof (induction days)
  case (Cons y days)
  show ?case
  proof (cases "is_day (a_user x) (a_local_date x) y")
    case True
    then have "is_day u d y \<longleftrightarrow> day_key x = (u, d)" by (auto simp: is_day_key)
    moreover have "find (is_day u d) (map (\<lambda>r. if is_day (a_user x) (a_local_date x) r then merge_day x r else r) days)
        = find (is_day u d) days" if "day_key x \<noteq> (u, d)"
      using that by (induction days) (auto simp: is_day_key)
    ultimately show ?thesis using True by (auto simp: day_count_def)
  next
    case False
    then show ?thesis using Cons by (auto simp: day_count_def)
  qed
qed simp

lemma upsert_day_count:
  "day_count (upsert_day days x) u d = day_count days u d + (if day_key x = (u, d) then a_review_count x else 0)"
proof (cases "list_ex (is_day (a_user x) (a_local_date x)) days")
  case True
  then show ?thesis using merged_day_count by (simp add: upsert_day_def)
next
  case False
  then have none: "find (is_day (a_user x) (a_local_date x)) days = None" by (auto simp: find_None_iff list_ex_iff)
  have "find (is_day u d) (days @ [x]) = (if day_key x = (u, d) then Some x else find (is_day u d) days)"
    using none find_add [of "is_day (a_user x) (a_local_date x)" days x] find_add_other [of "is_day u d" x]
    by (auto simp: is_day_def)
  then show ?thesis using False none by (auto simp: upsert_day_def day_count_def)
qed

lemma upsert_day_keys:
  "day_key ` set (upsert_day days x) = insert (day_key x) (day_key ` set days)"
  "distinct (map day_key days) \<Longrightarrow> distinct (map day_key (upsert_day days x))"
proof -
  let ?m = "map (\<lambda>r. if is_day (a_user x) (a_local_date x) r then merge_day x r else r) days"
  have k: "map day_key ?m = map day_key days" by (induction days) auto
  have mem: "day_key x \<in> day_key ` set days \<longleftrightarrow> list_ex (is_day (a_user x) (a_local_date x)) days"
    unfolding list_ex_iff is_day_key image_iff by metis
  have "day_key ` set ?m = day_key ` set days" using arg_cong [OF k, of set] by (simp only: set_map)
  with mem show "day_key ` set (upsert_day days x) = insert (day_key x) (day_key ` set days)"
    by (cases "list_ex (is_day (a_user x) (a_local_date x)) days") (simp_all only: upsert_day_def if_True if_False, auto)
  show "distinct (map day_key days) \<Longrightarrow> distinct (map day_key (upsert_day days x))"
    using k mem by (cases "list_ex (is_day (a_user x) (a_local_date x)) days") (simp_all only: upsert_day_def if_True if_False, auto)
qed

lemma upsert_days_count:
  "day_count (foldl upsert_day days rows) u d
    = day_count days u d + sum_list (map (\<lambda>x. if day_key x = (u, d) then a_review_count x else 0) rows)"
  by (induction rows arbitrary: days) (simp_all add: upsert_day_count)

lemma upsert_days_keys:
  "day_key ` set (foldl upsert_day days rows) = day_key ` set days \<union> day_key ` set rows"
  "distinct (map day_key days) \<Longrightarrow> distinct (map day_key (foldl upsert_day days rows))"
  by (induction rows arbitrary: days) (auto simp: upsert_day_keys)

lemma grouped_days_key:
  "x \<in> set (grouped_days z tz user targets days) \<Longrightarrow>
   a_user x = user \<and> a_local_date x \<in> set days \<and> (\<exists>r \<in> set targets. event_day z tz r = a_local_date x)"
proof (induction days)
  case (Cons day days)
  then show ?case
  proof (cases "filter (\<lambda>r. event_day z tz r = day) targets")
    case (Cons r rs)
    then have "r \<in> set (filter (\<lambda>r. event_day z tz r = day) targets)" by simp
    then have "\<exists>r \<in> set targets. event_day z tz r = day" by auto
    with Cons.prems Cons.IH Cons show ?thesis by (auto simp: active_day_row_def)
  qed auto
qed simp

lemma grouped_days_count:
  assumes "distinct days"
  shows "sum_list (map (\<lambda>x. if day_key x = (u, d) then a_review_count x else 0) (grouped_days z tz user targets days))
    = (if u = user \<and> d \<in> set days then int (length (filter (\<lambda>r. event_day z tz r = d) targets)) else 0)"
  using assms
proof (induction days)
  case (Cons day days)
  then show ?case by (cases "filter (\<lambda>r. event_day z tz r = day) targets") (auto simp: active_day_row_def)
qed simp

text \<open>Under the invariant the targets are exactly the user's reviews without a day.\<close>

lemma counted_row: "days_counted db \<Longrightarrow> r \<in> set (cd_reviews db) \<Longrightarrow> v_local_date r = Some d \<Longrightarrow>
  list_ex (is_day (v_reviewed_by r) d) (cd_days db)"
proof -
  assume a: "days_counted db" "r \<in> set (cd_reviews db)" "v_local_date r = Some d"
  then have "r \<in> set (filter (counted_on (v_reviewed_by r) d) (cd_reviews db))" by (simp add: counted_on_def)
  then have "0 < length (filter (counted_on (v_reviewed_by r) d) (cd_reviews db))" by (rule length_pos_if_in_set)
  moreover have "day_count (cd_days db) (v_reviewed_by r) d = int (length (filter (counted_on (v_reviewed_by r) d) (cd_reviews db)))"
    using a(1) by (simp only: days_counted_def)
  ultimately have "day_count (cd_days db) (v_reviewed_by r) d \<noteq> 0" by simp
  then show ?thesis by (auto simp: day_count_def find_Some_iff list_ex_iff split: option.splits)
qed

lemma targets_undated:
  assumes "days_counted db" and "r \<in> set (cd_reviews db)"
  shows "to_materialize z tz user w (cd_days db) r \<longleftrightarrow> v_reviewed_by r = user \<and> v_workspace_id r = w \<and> v_local_date r = None"
  using assms counted_row [OF assms] by (cases "v_local_date r") (auto simp: to_materialize_def event_day_def option_default_def)

lemma materialized_simps [simp]:
  "v_review_event_id (materialized_event z tz r) = v_review_event_id r" "v_reviewed_by (materialized_event z tz r) = v_reviewed_by r"
  "v_workspace_id (materialized_event z tz r) = v_workspace_id r"
  "v_local_date (materialized_event z tz r) = Some (event_day z tz r)"
  by (auto simp: materialized_event_def event_day_def option_default_def)

lemma materialized_counts:
  assumes "\<And>r. r \<in> set rs \<Longrightarrow> t r \<Longrightarrow> v_reviewed_by r = user \<and> v_local_date r = None"
  shows "length (filter (counted_on u d) (map (\<lambda>r. if t r then materialized_event z tz r else r) rs))
    = length (filter (counted_on u d) rs) + (if u = user then length (filter (\<lambda>r. event_day z tz r = d) (filter t rs)) else 0)"
  using assms
proof (induction rs)
  case (Cons r rs)
  then have IH: "length (filter (counted_on u d) (map (\<lambda>r. if t r then materialized_event z tz r else r) rs))
    = length (filter (counted_on u d) rs) + (if u = user then length (filter (\<lambda>r. event_day z tz r = d) (filter t rs)) else 0)"
    by simp
  show ?case
  proof (cases "t r")
    case True
    then have r: "v_reviewed_by r = user" "v_local_date r = None" using Cons.prems [of r] by simp_all
    have "counted_on u d (materialized_event z tz r) \<longleftrightarrow> u = user \<and> event_day z tz r = d" "\<not> counted_on u d r"
      using r by (auto simp: counted_on_def)
    then show ?thesis using IH True by (cases "u = user") (simp_all add: filter_filter conj_commute)
  next
    case False
    then show ?thesis using IH by (cases "u = user") (simp_all add: filter_filter conj_commute)
  qed
qed simp

lemma no_group_elements:
  "(if u = user \<and> d \<in> set (remdups (map f xs)) then int (length (filter (\<lambda>r. f r = d) xs)) else 0)
    = (if u = user then int (length (filter (\<lambda>r. f r = d) xs)) else 0)"
  by (auto simp: filter_empty_conv)

lemma materialize_counts:
  assumes run: "materializeMissingActiveReviewDaysForUserInExecutor e z db user w tz = Inr (n, db')" and ok: "days_counted db"
  shows "days_counted db'"
    and "\<forall>r \<in> set (cd_reviews db'). v_reviewed_by r = user \<and> v_workspace_id r = w \<longrightarrow> v_local_date r \<noteq> None"
    and "day_key ` set (cd_days db) \<subseteq> day_key ` set (cd_days db')"
    and "cd_cards db' = cd_cards db" and "cd_settings db' = cd_settings db"
proof -
  obtain zone where zone: "requireIanaTimeZone e tz ''timeZone'' = Inr zone"
    using run by (auto simp: materializeMissingActiveReviewDaysForUserInExecutor_def res_simps)
  let ?t = "to_materialize z zone user w (cd_days db)"
  let ?targets = "filter ?t (cd_reviews db)"
  let ?rows = "grouped_days z zone user ?targets (remdups (map (event_day z zone) ?targets))"
  let ?reviews = "map (\<lambda>r. if ?t r then materialized_event z zone r else r) (cd_reviews db)"
  have db': "db' = db\<lparr>cd_reviews := ?reviews, cd_days := foldl upsert_day (cd_days db) ?rows\<rparr>"
    using run zone by (simp add: materializeMissingActiveReviewDaysForUserInExecutor_def Let_def)
  note und = targets_undated [OF ok, of _ z zone user w]
  have days': "cd_days db' = foldl upsert_day (cd_days db) ?rows" and reviews': "cd_reviews db' = ?reviews" by (simp_all add: db')
  have "day_count (cd_days db') u d = int (length (filter (counted_on u d) (cd_reviews db')))" for u d
  proof -
    have "day_count (cd_days db') u d = day_count (cd_days db) u d
        + (if u = user \<and> d \<in> set (remdups (map (event_day z zone) ?targets))
           then int (length (filter (\<lambda>r. event_day z zone r = d) ?targets)) else 0)"
      unfolding days' by (simp only: upsert_days_count grouped_days_count [OF distinct_remdups])
    then have "day_count (cd_days db') u d = day_count (cd_days db) u d
        + (if u = user then int (length (filter (\<lambda>r. event_day z zone r = d) ?targets)) else 0)"
      by (simp only: no_group_elements cong: if_cong)
    moreover have "length (filter (counted_on u d) (cd_reviews db')) = length (filter (counted_on u d) (cd_reviews db))
        + (if u = user then length (filter (\<lambda>r. event_day z zone r = d) ?targets) else 0)"
      unfolding reviews' by (rule materialized_counts) (use und in auto)
    ultimately show ?thesis using ok by (simp add: days_counted_def)
  qed
  moreover have "distinct (map day_key (cd_days db'))" unfolding days' using ok upsert_days_keys(2) by (simp only: days_counted_def)
  moreover have "map v_review_event_id (cd_reviews db') = map v_review_event_id (cd_reviews db)"
    unfolding reviews' map_map by (rule map_cong [OF refl]) simp
  ultimately show "days_counted db'" using ok by (simp only: days_counted_def) simp
  show "\<forall>r \<in> set (cd_reviews db'). v_reviewed_by r = user \<and> v_workspace_id r = w \<longrightarrow> v_local_date r \<noteq> None"
  proof
    fix r' assume "r' \<in> set (cd_reviews db')"
    then obtain r where r: "r \<in> set (cd_reviews db)" "r' = (if ?t r then materialized_event z zone r else r)"
      unfolding reviews' by auto
    show "v_reviewed_by r' = user \<and> v_workspace_id r' = w \<longrightarrow> v_local_date r' \<noteq> None"
      using und [OF r(1)] r(2) by (cases "?t r") simp_all
  qed
  show "day_key ` set (cd_days db) \<subseteq> day_key ` set (cd_days db')" by (simp add: db' upsert_days_keys(1))
  show "cd_cards db' = cd_cards db" "cd_settings db' = cd_settings db" by (simp_all add: db')
qed

section \<open>Dates of active days\<close>

definition days_dated :: "cloud_db \<Rightarrow> bool" where
  "days_dated db \<longleftrightarrow> (\<forall>d \<in> set (cd_days db). \<exists>n. local_day n \<and> a_local_date d = iso_date n)"

text \<open>The database's local dates are dates of the years 100 to 9999.\<close>

definition zones_dated :: "db_zones \<Rightarrow> bool" where
  "zones_dated z \<longleftrightarrow> (\<forall>t tz. \<exists>n. local_day n \<and> dz_local_date z t tz = iso_date n)"

lemma days_dated_keys: "days_dated db \<longleftrightarrow> (\<forall>(u, d) \<in> day_key ` set (cd_days db). \<exists>n. local_day n \<and> d = iso_date n)"
  by (auto simp: days_dated_def)

lemma materialize_dated:
  assumes run: "materializeMissingActiveReviewDaysForUserInExecutor e z db user w tz = Inr (n, db')"
    and ok: "days_counted db" and dated: "days_dated db" "zones_dated z"
  shows "days_dated db'"
proof -
  obtain zone where zone: "requireIanaTimeZone e tz ''timeZone'' = Inr zone"
    using run by (auto simp: materializeMissingActiveReviewDaysForUserInExecutor_def res_simps)
  let ?targets = "filter (to_materialize z zone user w (cd_days db)) (cd_reviews db)"
  let ?rows = "grouped_days z zone user ?targets (remdups (map (event_day z zone) ?targets))"
  have days': "cd_days db' = foldl upsert_day (cd_days db) ?rows"
    using run zone by (auto simp: materializeMissingActiveReviewDaysForUserInExecutor_def Let_def)
  have "\<exists>n. local_day n \<and> a_local_date x = iso_date n" if x: "x \<in> set ?rows" for x
  proof -
    obtain r where r: "r \<in> set ?targets" "event_day z zone r = a_local_date x" using grouped_days_key [OF x] by blast
    then have "v_local_date r = None" using targets_undated [OF ok, of r z zone user w] by simp
    then show ?thesis using r(2) dated(2) by (simp add: event_day_def option_default_def zones_dated_def) metis
  qed
  then show ?thesis using dated(1) unfolding days_dated_keys days' upsert_days_keys(1) by auto
qed

lemma sorted_wrt_less_sort: "distinct xs \<Longrightarrow> sorted_wrt (<) (sort xs)" for xs :: "'a :: linorder list"
  by (simp add: strict_sorted_iff)

lemma sort_dates:
  assumes "sorted_wrt (<) ds" and "\<forall>d \<in> set ds. local_day d"
  shows "sort (map iso_date ds) = map iso_date ds"
proof (rule sorted_sort_id)
  have "sorted_wrt (\<lambda>a b. iso_date a \<le> iso_date b) ds"
    by (rule sorted_wrt_mono_rel [OF _ assms(1)]) (use assms(2) in \<open>auto simp: local_date_le\<close>)
  then show "sorted (map iso_date ds)" by (simp add: sorted_wrt_map)
qed

lemma active_dates:
  assumes "days_counted db" and "days_dated db"
  obtains ds where "loadUserActiveReviewLocalDatesInExecutor db user = Inr (map iso_date ds)" "sorted_wrt (<) ds"
    "\<forall>d \<in> set ds. local_day d" "\<And>d. (user, d) \<in> day_key ` set (cd_days db) \<longleftrightarrow> d \<in> iso_date ` set ds"
proof -
  let ?mine = "filter (\<lambda>d. a_user d = user) (cd_days db)"
  have "\<forall>s \<in> set (map a_local_date ?mine). \<exists>n. local_day n \<and> s = iso_date n" using assms(2) by (auto simp: days_dated_def)
  then obtain f where f: "\<forall>s \<in> set (map a_local_date ?mine). local_day (f s) \<and> s = iso_date (f s)" by metis
  let ?ns = "map f (map a_local_date ?mine)"
  have texts: "map iso_date ?ns = map a_local_date ?mine" using f by (simp add: map_idI)
  have "distinct (map day_key ?mine)" using assms(1) by (simp add: days_counted_def distinct_map_filter)
  then have "distinct (map a_local_date ?mine)" by (auto simp: distinct_map inj_on_def)
  then have dist: "distinct ?ns" using texts distinct_map by metis
  let ?ds = "sort ?ns"
  have day: "\<forall>d \<in> set ?ds. local_day d" using f by auto
  have sorted: "sorted_wrt (<) ?ds" by (rule sorted_wrt_less_sort [OF dist])
  have "mset (map iso_date ?ds) = mset (map a_local_date ?mine)" by (metis texts mset_map mset_sort)
  then have "sort (map a_local_date ?mine) = sort (map iso_date ?ds)" by (metis properties_for_sort sorted_sort mset_sort)
  then have "sort (map a_local_date ?mine) = map iso_date ?ds" using sort_dates [OF sorted day] by simp
  moreover have "map_r normalizeLocalDateFromQuery (map iso_date ?ds) = Inr (map iso_date ?ds)"
    using day by (subst map_r_total [where g = "\<lambda>x. x"])
      (auto simp: normalizeLocalDateFromQuery_def iso_date_fits local_day_iso)
  ultimately have load: "loadUserActiveReviewLocalDatesInExecutor db user = Inr (map iso_date ?ds)"
    by (simp only: loadUserActiveReviewLocalDatesInExecutor_def)
  have "iso_date ` set ?ds = a_local_date ` set ?mine" using arg_cong [OF texts, of set] by (simp only: set_map set_sort)
  then have "(user, d) \<in> day_key ` set (cd_days db) \<longleftrightarrow> d \<in> iso_date ` set ?ds" for d by auto
  with load sorted day show ?thesis by (rule that)
qed

section \<open>The range of a series\<close>

lemma format_local_day: "local_day n \<Longrightarrow> formatUtcDateAsLocalDate (Date (n * ms_per_day)) = Inr (iso_date n)"
proof -
  assume n: "local_day n"
  have "slice 0 10 (iso_date n @ c) = iso_date n" for c using length_iso_date [OF local_day_iso [OF n]] by (simp add: slice_def)
  moreover have "n * ms_per_day mod ms_per_day = 0" by simp
  ultimately show ?thesis
    by (simp only: formatUtcDateAsLocalDate_def to_iso_string.simps rbind_simps utc_day_ms)
qed

lemma local_day_small: "local_day n \<Longrightarrow> \<bar>n + 1\<bar> \<le> 100000000"
  using year_bounds_day [of n] by (auto simp: local_day_def)

lemma next_utc_date: "local_day n \<Longrightarrow> set_utc_date_by (Date (n * ms_per_day)) 1 = Date ((n + 1) * ms_per_day)"
proof -
  assume n: "local_day n"
  obtain y mo d where c: "civil_of_day n = (y, mo, d)" using prod_cases3 by blast
  show ?thesis using day_in_time_range [OF local_day_small [OF n]]
    by (simp add: set_utc_date_by_def c make_day_add civil_day_make [OF c])
qed

lemma range_loop_days:
  assumes "local_day b" and "a = b + 1 \<or> local_day a \<and> a \<le> b"
  shows "inclusive_range_loop (Date (a * ms_per_day)) (Date (b * ms_per_day)) = Inr (map iso_date [a..b])"
  using assms
proof (induction "nat (b + 1 - a)" arbitrary: a)
  case 0
  then have "a = b + 1" by auto
  then show ?case by (subst inclusive_range_loop.simps) (simp add: ms_per_day_def)
next
  case (Suc k)
  then have a: "local_day a" "a \<le> b" by auto
  have "local_day (a + 1)" if "a \<noteq> b"
    using local_day_between [OF a(1), of "a + 1"] local_day_last [OF Suc.prems(1)] a(2) that by simp
  then have "inclusive_range_loop (Date ((a + 1) * ms_per_day)) (Date (b * ms_per_day)) = Inr (map iso_date [a + 1..b])"
    using Suc.hyps(2) Suc.prems(1) a by (intro Suc.hyps(1)) auto
  moreover have "a * ms_per_day \<le> b * ms_per_day" using a(2) by (simp add: ms_per_day_def)
  ultimately show ?case
    using a(2) format_local_day [OF a(1)] next_utc_date [OF a(1)]
    by (subst inclusive_range_loop.simps) (simp add: upto_rec1 [of a b] del: upto.simps)
qed

lemma inclusive_range_days:
  assumes "local_day a" and "local_day b" and "a \<le> b"
  shows "createInclusiveLocalDateRange (iso_date a) (iso_date b) = Inr (map iso_date [a..b])"
  using range_loop_days [OF assms(2)] assms by (simp add: createInclusiveLocalDateRange_def createUtcDate_day)

section \<open>Watermarks\<close>

lemma digits_text: "digits n \<noteq> [] \<and> list_all is_digit (digits n) \<and> dec_val 0 (digits n) = n"
proof (induction n rule: digits.induct)
  case (1 n)
  have d: "is_digit (digit_char m)" "digit_val (digit_char m) = m" if "m < 10" for m
    using that by (simp_all add: is_digit_def digit_char_def digit_val_def)
  show ?case
  proof (cases "n < 10")
    case True
    then show ?thesis using d by (subst (1 2 3) digits.simps) simp
  next
    case False
    then show ?thesis using 1 d by (subst (1 2 3) digits.simps) (simp add: dec_val_append)
  qed
qed

lemma digits_trim: "trim (digits n) = digits n"
proof (rule trim_fixedI)
  have "\<not> is_space c" if "is_digit c" for c
    using that by (auto simp: is_digit_def is_space_def)
  moreover have "is_digit (hd (digits n))" "is_digit (last (digits n))"
    using digits_text [of n] by (simp_all add: list_all_iff)
  ultimately show "digits n = [] \<or> \<not> is_space (hd (digits n)) \<and> \<not> is_space (last (digits n))" by blast
qed

text \<open>Sequence numbers below \<open>2 ^ 53\<close> are read exactly.\<close>

lemma sequence_read:
  assumes "n \<le> 2 ^ 53 - 1"
  shows "normalizeReviewSequenceId (digits n) w = Inr (int n)"
proof -
  have "fl (of_int (int n)) = Num (of_int (int n))" by (rule fl_int) (use assms in simp)
  then have "parseReviewSequenceId (digits n) = Num (of_nat n)"
    using digits_text [of n] by (simp add: parseReviewSequenceId_def digits_trim)
  moreover have "\<not> (2 ^ 53 - 1 :: rat) < of_nat n"
  proof -
    have "(of_nat n :: rat) \<le> of_nat (2 ^ 53 - 1)" using assms by (simp only: of_nat_le_iff)
    then show ?thesis by simp
  qed
  ultimately show ?thesis by (simp add: normalizeReviewSequenceId_def)
qed

lemma foldl_max_le: "a \<le> m \<Longrightarrow> (\<forall>x \<in> set xs. x \<le> m) \<Longrightarrow> foldl max a xs \<le> m" for m :: nat
  by (induction xs arbitrary: a) auto

lemma watermarks_load:
  assumes "allowed w" and "trim w \<noteq> []" and "\<forall>i. sequence i \<le> 2 ^ 53 - 1"
  shows "\<exists>ws. loadReviewHistoryWatermarksInExecutor lc allowed sequence db [w] = Inr ws"
proof -
  let ?n = "foldl max 0 (map (\<lambda>r. sequence (v_review_event_id r)) (filter (\<lambda>r. v_workspace_id r = w) (cd_reviews db)))"
  have n: "?n \<le> 2 ^ 53 - 1" by (rule foldl_max_le) (use assms(3) in auto)
  have rows: "watermark_rows allowed sequence db [w] = [(w, digits ?n)]" using assms(1) by (simp add: watermark_rows_def)
  have "map_r mapReviewHistoryWatermarkRow [(w, digits ?n)] = Inr [\<lparr>wm_workspaceId = trim w, wm_reviewSequenceId = int ?n\<rparr>]"
    using sequence_read [OF n] assms(2) by (simp add: mapReviewHistoryWatermarkRow_def)
  moreover have "assertWatermarkRowsCoverWorkspaceIds lc [w] [(w, digits ?n)] = Inr ()"
    by (simp add: assertWatermarkRowsCoverWorkspaceIds_def createSortedWorkspaceIds_def set_elements_def)
  ultimately show ?thesis by (simp add: loadReviewHistoryWatermarksInExecutor_def rows)
qed

section \<open>Daily counts lie on active days\<close>

definition counts_on :: "string set \<Rightarrow> day_counts \<Rightarrow> bool" where
  "counts_on days counts \<longleftrightarrow> (\<forall>d. 0 \<le> dc_reviewCount (counts_at counts d)
     \<and> (0 < dc_reviewCount (counts_at counts d) \<longrightarrow> d \<in> days))"

lemma counts_at_set: "counts_at (map_set d c counts) d' = (if d' = d then c else counts_at counts d')"
  by (simp add: counts_at_def option_default_def)

lemma counts_of_nonneg: "0 \<le> dc_reviewCount (counts_of rs)" "mapDailyReviewCountRow (d, counts_of rs) = Inr (counts_of rs)"
  by (simp_all add: counts_of_def mapDailyReviewCountRow_def normalizeNonNegativeIntegerFromQuery_def Let_def)

lemma fold_r_total:
  assumes "P s" and "\<And>s x. P s \<Longrightarrow> x \<in> set xs \<Longrightarrow> \<exists>s'. f s x = Inr s' \<and> P s'"
  shows "\<exists>t. fold_r f s xs = Inr t \<and> P t"
  using assms
proof (induction xs arbitrary: s)
  case (Cons x xs)
  then obtain s' where s': "f s x = Inr s'" "P s'" by (metis list.set_intros(1))
  have "\<exists>t. fold_r f s' xs = Inr t \<and> P t" by (rule Cons.IH [OF s'(2)]) (use Cons.prems(2) in auto)
  then show ?case using s'(1) by simp
qed simp

lemma add_rows_on:
  assumes "counts_on days counts" and "\<forall>row \<in> set rows. fst row \<in> days \<and> (\<exists>rs. snd row = counts_of rs)"
  shows "\<exists>counts'. addDailyReviewCountRows counts rows = Inr counts' \<and> counts_on days counts'"
  unfolding addDailyReviewCountRows_def
proof (rule fold_r_total [where P = "counts_on days", OF assms(1)])
  fix counts row assume on: "counts_on days counts" and "row \<in> set rows"
  then obtain d rs where row: "row = (d, counts_of rs)" "d \<in> days" using assms(2) by (metis prod.collapse)
  have "counts_on days (map_set d (addDailyReviewCounts (counts_at counts d) (counts_of rs)) counts)"
    using on row(2) counts_of_nonneg(1) [of rs] by (auto simp: counts_on_def counts_at_set addDailyReviewCounts_def)
  then show "\<exists>s'. rbind (mapDailyReviewCountRow row) (\<lambda>c. Inr (map_set (fst row)
      (addDailyReviewCounts (counts_at counts (fst row)) c) counts)) = Inr s' \<and> counts_on days s'"
    by (simp add: row(1) counts_of_nonneg(2))
qed

abbreviation user_days :: "cloud_db \<Rightarrow> string \<Rightarrow> string set" where
  "user_days db user \<equiv> {d. (user, d) \<in> day_key ` set (cd_days db)}"

lemma counted_rows_on:
  assumes "days_counted db" and "\<forall>r \<in> set (cd_reviews db). v_reviewed_by r = user \<and> v_workspace_id r = w \<longrightarrow> v_local_date r \<noteq> None"
    and "row \<in> set (loadDailyReviewCountRowsInExecutor z db w user tz from to)"
  shows "fst row \<in> user_days db user \<and> (\<exists>rs. snd row = counts_of rs)"
proof -
  let ?rs = "filter (in_window z w user tz from to) (cd_reviews db)"
  obtain r where r: "r \<in> set ?rs" "fst row = event_day z tz r" and c: "\<exists>rs. snd row = counts_of rs"
    using assms(3) unfolding loadDailyReviewCountRowsInExecutor_def Let_def by (auto simp only: set_map set_sort set_remdups snd_conv fst_conv) blast
  have mine: "r \<in> set (cd_reviews db)" "v_reviewed_by r = user" "v_workspace_id r = w" using r(1) by (simp_all add: in_window_def)
  then obtain d where d: "v_local_date r = Some d" using assms(2) by auto
  then have "fst row = d" using r(2) by (simp add: event_day_def option_default_def)
  moreover have "list_ex (is_day user d) (cd_days db)" using counted_row [OF assms(1) mine(1) d] mine(2) by simp
  ultimately show ?thesis using c by (force simp: list_ex_iff is_day_def)
qed

text \<open>One workspace of the series.\<close>

definition series_inv :: "string \<Rightarrow> day_counts \<times> ProgressReviewHistoryWatermark list \<times> cloud_db \<Rightarrow> bool" where
  "series_inv user = (\<lambda>(counts, _, db). days_counted db \<and> days_dated db \<and> counts_on (user_days db user) counts)"

lemma series_step:
  assumes zone: "requireIanaTimeZone e (pi_timeZone input) ''timeZone'' = Inr zone" and z: "zones_dated z"
    and w: "allowed w" "trim w \<noteq> []" and sequence: "\<forall>i. sequence i \<le> 2 ^ 53 - 1" and inv: "series_inv user acc"
  shows "\<exists>acc'. series_workspace e lc z allowed sequence user input acc w = Inr acc' \<and> series_inv user acc'"
proof -
  obtain counts ws db where acc: "acc = (counts, ws, db)" using prod_cases3 by blast
  have ok: "days_counted db" "days_dated db" "counts_on (user_days db user) counts"
    using inv by (simp_all add: acc series_inv_def)
  obtain n db' where m: "materializeMissingActiveReviewDaysForUserInExecutor e z db user w (pi_timeZone input) = Inr (n, db')"
    using zone by (simp add: materializeMissingActiveReviewDaysForUserInExecutor_def Let_def)
  note mat = materialize_counts [OF m ok(1)]
  have "counts_on (user_days db' user) counts" using ok(3) mat(3) unfolding counts_on_def by blast
  then obtain counts' where counts': "addDailyReviewCountRows counts
      (loadDailyReviewCountRowsInExecutor z db' w user (pi_timeZone input) (pi_from input) (pi_to input)) = Inr counts'"
      "counts_on (user_days db' user) counts'"
    using add_rows_on counted_rows_on [OF mat(1,2)] by blast
  obtain ws' where "loadReviewHistoryWatermarksInExecutor lc allowed sequence db' [w] = Inr ws'"
    using watermarks_load [of allowed w sequence] w sequence by blast
  then have "series_workspace e lc z allowed sequence user input acc w = Inr (counts', ws @ ws', db')"
    by (simp add: series_workspace_def acc m counts'(1))
  moreover have "days_dated db'" by (rule materialize_dated [OF m ok(1,2) z])
  ultimately show ?thesis using mat(1) counts'(2) by (auto simp: series_inv_def)
qed

section \<open>The series passes its check\<close>

lemma map_set_mem: "x \<in> set (map_set k v m) \<Longrightarrow> x = (k, v) \<or> x \<in> set m"
  by (induction m) (auto split: if_splits)

lemma point_map_mem: "x \<in> set (foldl (\<lambda>m p. map_set (f p) p m) m ps) \<Longrightarrow> x \<in> set m \<or> (\<exists>p \<in> set ps. x = (f p, p))"
  by (induction ps arbitrary: m) (auto dest: map_set_mem)

lemma state_at:
  assumes "d \<in> set days"
  shows "map_of (rev (createSeriesStreakDays days dates evaluated today)) d
    = Some (if d \<in> set dates then Reviewed else option_default (if today \<le> d then Pending else Missed) (map_of (rev evaluated) d))"
  using assms by (simp add: createSeriesStreakDays_def rev_map map_of_map_restrict)

lemma daily_reviews_dates [simp]: "map dp_date (createDailyReviews days counts) = days"
  by (simp add: createDailyReviews_def Let_def o_def)

lemma day_check:
  assumes "counts_on (set dates) counts" and "se_dailyReviews series = createDailyReviews days counts"
    and "se_streakDays series = createSeriesStreakDays days dates evaluated today"
  shows "validateProgressSeriesDayInvariant series = Inr ()"
proof -
  let ?check = "\<lambda>(day, p). case map_of (rev (se_streakDays series)) day of
       None \<Rightarrow> Inl day_invariant_error
     | Some st \<Rightarrow> if dc_reviewCount p = 0 \<and> st = Reviewed then Inr ()
         else throw_if ((0 < dc_reviewCount p) \<noteq> (st = Reviewed)) day_invariant_error"
  have "?check x = Inr ()"
    if x: "x \<in> set (foldl (\<lambda>m p. map_set (dp_date p) p m) [] (createDailyReviews days counts))" for x
  proof -
    obtain p where p: "p \<in> set (createDailyReviews days counts)" "x = (dp_date p, p)" using point_map_mem [OF x] by auto
    then have d: "dp_date p \<in> set days" "dc_reviewCount p = dc_reviewCount (counts_at counts (dp_date p))"
      by (auto simp: createDailyReviews_def Let_def)
    have "0 \<le> dc_reviewCount p" "0 < dc_reviewCount p \<longrightarrow> dp_date p \<in> set dates"
      using assms(1) d(2) by (auto simp: counts_on_def)
    then show ?thesis using state_at [OF d(1), of dates evaluated today] by (auto simp: p(2) assms(3))
  qed
  then have "map_r ?check (foldl (\<lambda>m p. map_set (dp_date p) p m) [] (se_dailyReviews series))
      = Inr (map (\<lambda>_. ()) (foldl (\<lambda>m p. map_set (dp_date p) p m) [] (se_dailyReviews series)))"
    unfolding assms(2) by (intro map_r_total) auto
  then show ?thesis unfolding validateProgressSeriesDayInvariant_def Let_def by simp
qed

text \<open>What a series needs of the user, the request and the database's identity column.\<close>

definition series_served :: "cloud_env \<Rightarrow> (string \<Rightarrow> bool) \<Rightarrow> (string \<Rightarrow> nat) \<Rightarrow> string list \<Rightarrow> string \<Rightarrow> bool" where
  "series_served e allowed sequence workspaceIds tz \<longleftrightarrow> trim tz \<noteq> [] \<and> env_zone e (trim tz)
     \<and> (\<forall>w \<in> set workspaceIds. allowed w \<and> trim w \<noteq> []) \<and> (\<forall>i. sequence i \<le> 2 ^ 53 - 1)"

lemma default_policy: "\<exists>policy. validateStreakFreezePolicy streakFreezePolicy = Inr policy"
  by (simp add: validateStreakFreezePolicy_def streakFreezePolicy_def jle_def)

lemma series_returns:
  assumes db: "days_counted db" "days_dated db" and z: "zones_dated z"
    and served: "series_served e allowed sequence workspaceIds (pi_timeZone input)"
    and ab: "local_day a" "local_day b" "a \<le> b" "pi_from input = iso_date a" "pi_to input = iso_date b"
    and today: "env_local_date e (Date t) (pi_timeZone input) = iso_date T" "local_day T" "T < last_day"
    and lc: "collates_dates lc"
  shows "\<exists>series db' counts dates. buildUserProgressSeriesInExecutor e lc z allowed sequence workspaceIds True db user input (Date t)
      = Some (Inr (series, db')) \<and> days_counted db' \<and> days_dated db' \<and> counts_on (set dates) counts
    \<and> loadUserActiveReviewLocalDatesInExecutor db' user = Inr dates
    \<and> se_dailyReviews series = createDailyReviews (map iso_date [a..b]) counts
    \<and> (\<exists>evaluated. se_streakDays series = createSeriesStreakDays (map iso_date [a..b]) dates evaluated (iso_date T))"
proof -
  have zone: "requireIanaTimeZone e (pi_timeZone input) f = Inr (trim (pi_timeZone input))" for f
    using served by (simp add: requireIanaTimeZone_def series_served_def)
  let ?db = "db\<lparr>cd_zones := map_set user (trim (pi_timeZone input)) (cd_zones db)\<rparr>"
  have remember: "rememberProgressTimeZoneInExecutor e True db user (pi_timeZone input) = Inr ?db"
    by (simp add: rememberProgressTimeZoneInExecutor_def zone)
  have "series_inv user ([], [], ?db)" using db
    by (simp add: series_inv_def days_counted_def days_dated_def counts_on_def counts_at_def option_default_def createEmptyDailyReviewCounts_def)
  then have "\<exists>acc. fold_r (series_workspace e lc z allowed sequence user input) ([], [], ?db) workspaceIds = Inr acc \<and> series_inv user acc"
    by (rule fold_r_total) (rule series_step [OF zone z], use served in \<open>auto simp: series_served_def\<close>)
  then obtain counts ws db' where fold: "fold_r (series_workspace e lc z allowed sequence user input) ([], [], ?db) workspaceIds
      = Inr (counts, ws, db')" and inv: "series_inv user (counts, ws, db')" by (metis prod_cases3)
  have db': "days_counted db'" "days_dated db'" "counts_on (user_days db' user) counts" using inv by (simp_all add: series_inv_def)
  obtain ds where ds: "loadUserActiveReviewLocalDatesInExecutor db' user = Inr (map iso_date ds)" "sorted_wrt (<) ds"
      "\<forall>d \<in> set ds. local_day d" "\<And>d. (user, d) \<in> day_key ` set (cd_days db') \<longleftrightarrow> d \<in> iso_date ` set ds"
    by (rule active_dates [OF db'(1,2), of user]) (rule that)
  have on: "counts_on (set (map iso_date ds)) counts" using db'(3) ds(4) by (simp add: counts_on_def)
  obtain policy where policy: "validateStreakFreezePolicy streakFreezePolicy = Inr policy" using default_policy by blast
  note ev = evaluateStreakFreeze_days [OF policy ds(2,3) today(2,3) lc]
  obtain generatedAt where stamp: "to_iso_string (Date t) = Inr generatedAt" by simp
  let ?series = "\<lparr>se_timeZone = pi_timeZone input, se_from = pi_from input, se_to = pi_to input,
    se_dailyReviews = createDailyReviews (map iso_date [a..b]) counts,
    se_streakDays = createSeriesStreakDays (map iso_date [a..b]) (map iso_date ds) (ev_streakDays (evaluation_of_days policy ds T)) (iso_date T),
    se_generatedAt = Some generatedAt, se_watermarks = sortReviewHistoryWatermarks lc ws\<rparr>"
  have "validateProgressSeriesDayInvariant ?series = Inr ()" by (rule day_check [OF on]) simp_all
  then have "buildUserProgressSeriesInExecutor e lc z allowed sequence workspaceIds True db user input (Date t) = Some (Inr (?series, db'))"
    using inclusive_range_days [OF ab(1-3)]
    by (simp add: buildUserProgressSeriesInExecutor_def remember fold ds(1) ab(4,5) today(1) ev stamp Let_def
        del: to_iso_string.simps)
  then show ?thesis using db' on ds(1) by fastforce
qed

section \<open>The schedule counts every card once\<close>

definition rising :: "(int \<Rightarrow> int) \<Rightarrow> bool" where
  "rising start \<longleftrightarrow> start 1 \<le> start 8 \<and> start 8 \<le> start 31 \<and> start 31 \<le> start 91 \<and> start 91 \<le> start 361 \<and> start 361 \<le> start 721"

lemma one_bucket: "rising start \<Longrightarrow> sum_list (map (\<lambda>key. if in_bucket start key due then 1 else 0 :: int) reviewScheduleBucketKeys) = 1"
  by (cases due) (auto simp: rising_def reviewScheduleBucketKeys_def)

abbreviation live_cards :: "cloud_db \<Rightarrow> string \<Rightarrow> stored_card list" where
  "live_cards db w \<equiv> filter (\<lambda>c. k_workspace_id c = w \<and> k_deleted_at c = None) (cd_cards db)"

lemma length_filter_sum: "int (length (filter P xs)) = sum_list (map (\<lambda>x. if P x then 1 else 0) xs)"
  by (induction xs) simp_all

lemma bucket_row_total:
  assumes "rising (day_start z tz t)"
  shows "sum_list (map (loadReviewScheduleCountRowInExecutor z db w tz t) reviewScheduleBucketKeys) = int (length (live_cards db w))"
proof -
  have row: "loadReviewScheduleCountRowInExecutor z db w tz t
      = (\<lambda>key. int (length (filter (\<lambda>c. in_bucket (day_start z tz t) key (k_due_at c)) (live_cards db w))))"
    by (simp add: loadReviewScheduleCountRowInExecutor_def fun_eq_iff conj_ac)
  have total: "sum_list (map (\<lambda>key. int (length (filter (\<lambda>c. in_bucket (day_start z tz t) key (k_due_at c)) cs))) reviewScheduleBucketKeys)
      = int (length cs)" for cs
  proof (induction cs)
    case (Cons c cs)
    have "sum_list (map (\<lambda>key. int (length (filter (\<lambda>c. in_bucket (day_start z tz t) key (k_due_at c)) (c # cs)))) keys)
        = sum_list (map (\<lambda>key. if in_bucket (day_start z tz t) key (k_due_at c) then 1 else 0) keys)
        + sum_list (map (\<lambda>key. int (length (filter (\<lambda>c. in_bucket (day_start z tz t) key (k_due_at c)) cs))) keys)" for keys
      by (induction keys) auto
    then show ?case using Cons.IH one_bucket [OF assms] by simp
  qed (simp add: reviewScheduleBucketKeys_def)
  show ?thesis unfolding row by (rule total)
qed

lemma total_cards: "calculateReviewScheduleTotalCards counts = sum_list (map counts reviewScheduleBucketKeys)"
  by (simp add: calculateReviewScheduleTotalCards_def reviewScheduleBucketKeys_def)

lemma schedule_returns:
  assumes "\<forall>w \<in> set workspaceIds. allowed w \<and> trim w \<noteq> []" and "\<forall>i. sequence i \<le> 2 ^ 53 - 1" and "rising (day_start z tz (Date t))"
  shows "\<exists>sc. buildUserProgressReviewScheduleInExecutor lc z allowed sequence workspaceIds db tz (Date t) = Inr sc
    \<and> sc_totalCards sc = sum_list (map snd (sc_buckets sc))
    \<and> map fst (sc_buckets sc) = reviewScheduleBucketKeys
    \<and> sc_totalCards sc = (\<Sum>w \<leftarrow> workspaceIds. int (length (live_cards db w)))"
proof -
  let ?row = "\<lambda>w. loadReviewScheduleCountRowInExecutor z db w tz (Date t)"
  have "\<exists>ws. fold_r (schedule_workspace lc z allowed sequence db tz (Date t)) acc ids
      = Inr ((\<lambda>key. fst acc key + (\<Sum>w \<leftarrow> ids. ?row w key)), ws)"
    if "set ids \<subseteq> set workspaceIds" for acc ids
    using that
  proof (induction ids arbitrary: acc)
    case (Cons w ids)
    have "\<exists>ws. loadReviewHistoryWatermarksInExecutor lc allowed sequence db [w] = Inr ws"
      using watermarks_load [of allowed w sequence lc db] assms(1,2) Cons.prems by simp
    then obtain ws where ws: "loadReviewHistoryWatermarksInExecutor lc allowed sequence db [w] = Inr ws" by blast
    have "addReviewScheduleCountRow (fst acc) (?row w) = Inr (\<lambda>key. fst acc key + ?row w key)"
      by (simp add: addReviewScheduleCountRow_def reviewScheduleBucketKeys_def normalizeNonNegativeIntegerFromQuery_def
          loadReviewScheduleCountRowInExecutor_def)
    then have "schedule_workspace lc z allowed sequence db tz (Date t) acc w = Inr ((\<lambda>key. fst acc key + ?row w key), snd acc @ ws)"
      using ws by (simp add: schedule_workspace_def)
    with Cons.IH [of "((\<lambda>key. fst acc key + ?row w key), snd acc @ ws)"] Cons.prems show ?case by (simp add: add.assoc)
  qed auto
  from this [OF subset_refl, of "(createEmptyReviewScheduleBucketCounts, [])"]
  obtain ws where fold: "fold_r (schedule_workspace lc z allowed sequence db tz (Date t)) (createEmptyReviewScheduleBucketCounts, []) workspaceIds
      = Inr ((\<lambda>key. \<Sum>w \<leftarrow> workspaceIds. ?row w key), ws)" by (auto simp: createEmptyReviewScheduleBucketCounts_def)
  let ?counts = "\<lambda>key. \<Sum>w \<leftarrow> workspaceIds. ?row w key"
  have "sum_list (map (\<lambda>key. \<Sum>w \<leftarrow> ids. ?row w key) keys) = (\<Sum>w \<leftarrow> ids. sum_list (map (?row w) keys))" for ids keys
    by (induction ids) (simp_all add: sum_list_addf)
  then have "sum_list (map ?counts reviewScheduleBucketKeys) = (\<Sum>w \<leftarrow> workspaceIds. int (length (live_cards db w)))"
    using bucket_row_total [OF assms(3), of db] by simp
  then show ?thesis
    by (simp add: buildUserProgressReviewScheduleInExecutor_def fold total_cards createReviewScheduleBuckets_def o_def)
qed

end
