(* ===== verification/WebSeries.thy ===== *)
theory WebSeries
  imports ProgressLoaders
begin

text \<open>
  Progress on the web client: local dates (\<open>progress/progressDates.ts\<close>), its own streak evaluation
  (\<open>progress/streakFreeze.ts\<close>) and the series it renders, from what the server sent, what was reviewed
  on this device since, and what the device knows itself
  (\<open>appData/progress/snapshots/progressSeriesSnapshots.ts\<close>). The functions of the client's
  \<open>streakFreeze.ts\<close> that are word for word those of the backend are the ones of \<open>StreakFreeze\<close>; those
  that differ are here.
\<close>

section \<open>Computations with a loop\<close>

text \<open>\<open>None\<close> is a loop that does not return.\<close>

definition run_then :: "'a result option \<Rightarrow> ('a \<Rightarrow> 'b result option) \<Rightarrow> 'b result option" where
  "run_then r f = (case r of None \<Rightarrow> None | Some (Inl e) \<Rightarrow> Some (Inl e) | Some (Inr x) \<Rightarrow> f x)"

lemma run_then_simps [simp]:
  "run_then None f = None" "run_then (Some (Inl e)) f = Some (Inl e)" "run_then (Some (Inr x)) f = f x"
  by (simp_all add: run_then_def)

section \<open>Local dates\<close>

text \<open>\<open>value.split("-")\<close>.\<close>

fun split_dashes :: "string \<Rightarrow> string \<Rightarrow> string list" where
  "split_dashes part [] = [part]"
| "split_dashes part (c # s) = (if c = CHR ''-'' then part # split_dashes [] s else split_dashes (part @ [c]) s)"

definition part_at :: "nat \<Rightarrow> string list \<Rightarrow> string" where
  "part_at i parts = (if i < length parts then parts ! i else [])"

definition parseLocalDate :: "string \<Rightarrow> js_date result" where
  "parseLocalDate v = (let parts = split_dashes [] v in
     case (parse_int (part_at 0 parts), parse_int (part_at 1 parts), parse_int (part_at 2 parts)) of
       (Some year, Some month, Some day) \<Rightarrow> Inr (date_UTC year (month - 1) day)
     | _ \<Rightarrow> Inl (Error (''Invalid local date: '' @ v)))"

definition web_shiftLocalDate :: "string \<Rightarrow> int \<Rightarrow> string result" where
  "web_shiftLocalDate v offsetDays = rbind (parseLocalDate v) (\<lambda>nextDate.
     formatUtcDateAsLocalDate (set_utc_date_by nextDate offsetDays))"

definition progressRangeDayCount :: int where
  "progressRangeDayCount = 140"

definition progressRangeStartOffsetDays :: int where
  "progressRangeStartOffsetDays = 1 - progressRangeDayCount"

definition buildProgressSeriesInputForDateContext :: "string \<Rightarrow> string \<Rightarrow> ProgressSeriesInput result" where
  "buildProgressSeriesInputForDateContext timeZone today =
     rbind (web_shiftLocalDate today progressRangeStartOffsetDays) (\<lambda>from.
     Inr \<lparr>pi_timeZone = timeZone, pi_from = from, pi_to = today\<rparr>)"

text \<open>A zone of the form \<open>Etc/GMT\<close> for whole hours; \<open>getTimezoneOffset\<close> returns minutes behind UTC.\<close>

definition deriveFixedOffsetProgressTimeZone :: "int \<Rightarrow> string option" where
  "deriveFixedOffsetProgressTimeZone offsetMinutes =
     (if offsetMinutes mod 60 \<noteq> 0 then None
      else let offsetHours = offsetMinutes div 60 in
        if offsetHours = 0 then Some ''UTC''
        else if 0 < offsetHours then Some (''Etc/GMT+'' @ digits (nat offsetHours))
        else Some (''Etc/GMT-'' @ digits (nat (- offsetHours))))"

definition resolveFallbackProgressTimeZone :: "(string \<Rightarrow> bool) \<Rightarrow> int option \<Rightarrow> string" where
  "resolveFallbackProgressTimeZone usable offsetMinutes = (case offsetMinutes of
     None \<Rightarrow> ''UTC''
   | Some m \<Rightarrow> (case deriveFixedOffsetProgressTimeZone m of
       None \<Rightarrow> ''UTC''
     | Some z \<Rightarrow> if usable z then z else ''UTC''))"

section \<open>The client's streak\<close>

definition isNonNegativeSafeInteger :: "int \<Rightarrow> bool" where
  "isNonNegativeSafeInteger v \<longleftrightarrow> 0 \<le> v \<and> v \<le> 2 ^ 53 - 1"

text \<open>On safe integers the floor of a quotient is the integer quotient.\<close>

definition isCoherentStreakFreeze :: "StreakFreeze \<Rightarrow> bool" where
  "isCoherentStreakFreeze f \<longleftrightarrow>
     isNonNegativeSafeInteger (sf_availableCredits f) \<and> isNonNegativeSafeInteger (sf_capacity f)
     \<and> isNonNegativeSafeInteger (sf_balanceUnits f) \<and> isNonNegativeSafeInteger (sf_unitsPerCredit f)
     \<and> isNonNegativeSafeInteger (sf_earnedUnitsPerStreakDay f) \<and> isNonNegativeSafeInteger (sf_nextCreditProgressUnits f)
     \<and> isNonNegativeSafeInteger (sf_nextCreditRequiredUnits f) \<and> 0 < sf_unitsPerCredit f
     \<and> sf_nextCreditRequiredUnits f = sf_unitsPerCredit f
     \<and> (let maximumBalanceUnits = sf_capacity f * sf_unitsPerCredit f;
            expectedAvailableCredits = min (sf_capacity f) (sf_balanceUnits f div sf_unitsPerCredit f);
            expectedNextCreditProgressUnits = (if sf_capacity f \<le> expectedAvailableCredits then 0
              else sf_balanceUnits f mod sf_unitsPerCredit f)
        in maximumBalanceUnits \<le> 2 ^ 53 - 1 \<and> sf_balanceUnits f \<le> maximumBalanceUnits
           \<and> sf_availableCredits f = expectedAvailableCredits
           \<and> sf_nextCreditProgressUnits f = expectedNextCreditProgressUnits)"

definition createStreakFreezeFromFields :: "int \<Rightarrow> int \<Rightarrow> int \<Rightarrow> int \<Rightarrow> StreakFreeze" where
  "createStreakFreezeFromFields balance capacity units earned = (let
     maximumBalanceUnits = capacity * units;
     clampedBalanceUnits = min balance maximumBalanceUnits;
     availableCredits = min capacity (clampedBalanceUnits div units)
   in \<lparr>sf_availableCredits = availableCredits, sf_capacity = capacity, sf_balanceUnits = clampedBalanceUnits,
       sf_unitsPerCredit = units, sf_earnedUnitsPerStreakDay = earned,
       sf_nextCreditProgressUnits = (if capacity \<le> availableCredits then 0 else clampedBalanceUnits mod units),
       sf_nextCreditRequiredUnits = units\<rparr>)"

definition web_createStreakFreeze :: "int \<Rightarrow> policy \<Rightarrow> StreakFreeze" where
  "web_createStreakFreeze balance policy = createStreakFreezeFromFields (clampBalanceUnits balance policy)
     (maxCapacity policy) (unitsPerCredit policy) (earnedUnitsPerStreakDay policy)"

definition createDefaultStreakFreeze :: "StreakFreeze result" where
  "createDefaultStreakFreeze = rbind (validateStreakFreezePolicy streakFreezePolicy) (\<lambda>policy.
     Inr (web_createStreakFreeze (getInitialBalanceUnits policy) policy))"

definition addReviewedDayToStreakFreeze :: "StreakFreeze \<Rightarrow> StreakFreeze result" where
  "addReviewedDayToStreakFreeze f = (if \<not> isCoherentStreakFreeze f
     then Inl (Error ''Cannot add reviewed day to incoherent streak freeze object'')
     else Inr (createStreakFreezeFromFields (sf_balanceUnits f + sf_earnedUnitsPerStreakDay f) (sf_capacity f)
       (sf_unitsPerCredit f) (sf_earnedUnitsPerStreakDay f)))"

definition evaluateProgressStreakFreeze ::
    "(string \<Rightarrow> string \<Rightarrow> int) \<Rightarrow> string list \<Rightarrow> string \<Rightarrow> StreakFreezeEvaluation result option" where
  "evaluateProgressStreakFreeze lc sortedActiveReviewLocalDates today =
     run_then (Some (rbind (validateStreakFreezePolicy streakFreezePolicy) (\<lambda>policy.
        rbind (assertLocalDate today ''today'') (\<lambda>_.
        rbind (assertSortedActiveReviewLocalDates sortedActiveReviewLocalDates) (\<lambda>_. Inr policy))))) (\<lambda>policy.
     run_then (add_reviews policy (createInitialState policy, [])
        (filter (\<lambda>reviewDate. reviewDate \<le> today) sortedActiveReviewLocalDates)) (\<lambda>stateAfterReviews.
     run_then (addTrailingDaysThroughToday policy stateAfterReviews today) (\<lambda>(finalState, statesByDate).
     Some (Inr \<lparr>ev_currentStreakDays = currentStreakDays finalState, ev_longestStreakDays = longestStreakDays finalState,
       ev_streakFreeze = web_createStreakFreeze (balanceUnits finalState) policy,
       ev_streakDays = createStreakDays lc statesByDate\<rparr>))))"

section \<open>Daily reviews\<close>

definition createEmptyDailyReviewPoint :: "string \<Rightarrow> DailyReviewPoint" where
  "createEmptyDailyReviewPoint date = \<lparr>dc_reviewCount = 0, dc_againCount = 0, dc_hardCount = 0, dc_goodCount = 0,
     dc_easyCount = 0, dp_date = date\<rparr>"

type_synonym point_map = "(string \<times> DailyReviewPoint) list"

definition buildDailyReviewPointMap :: "DailyReviewPoint list \<Rightarrow> point_map" where
  "buildDailyReviewPointMap dailyReviews = foldl (\<lambda>m day. map_set (dp_date day) day m) [] dailyReviews"

definition point_at :: "point_map \<Rightarrow> string \<Rightarrow> DailyReviewPoint" where
  "point_at m date = option_default (createEmptyDailyReviewPoint date) (map_of m date)"

definition buildDailyReviewCountMap :: "DailyReviewPoint list \<Rightarrow> (string \<times> int) list" where
  "buildDailyReviewCountMap dailyReviews = foldl (\<lambda>m day. map_set (dp_date day) (dc_reviewCount day) m) [] dailyReviews"

definition addDailyReviewPoints :: "DailyReviewPoint \<Rightarrow> DailyReviewPoint \<Rightarrow> DailyReviewPoint result" where
  "addDailyReviewPoints l r = (if dp_date l \<noteq> dp_date r
     then Inl (Error (''Cannot merge progress days with different dates: '' @ dp_date l @ '', '' @ dp_date r))
     else Inr \<lparr>dc_reviewCount = dc_reviewCount l + dc_reviewCount r, dc_againCount = dc_againCount l + dc_againCount r,
       dc_hardCount = dc_hardCount l + dc_hardCount r, dc_goodCount = dc_goodCount l + dc_goodCount r,
       dc_easyCount = dc_easyCount l + dc_easyCount r, dp_date = dp_date l\<rparr>)"

text \<open>\<open>for (let currentDate = input.from; currentDate <= input.to; currentDate = shiftLocalDate(currentDate, 1))\<close>.\<close>

partial_function (option) date_range_loop :: "string list \<Rightarrow> string \<Rightarrow> string \<Rightarrow> string list result option" where
  "date_range_loop dates currentDate to =
     (if currentDate \<le> to
      then (case web_shiftLocalDate currentDate 1 of
          Inl e \<Rightarrow> Some (Inl e)
        | Inr next \<Rightarrow> date_range_loop (dates @ [currentDate]) next to)
      else Some (Inr dates))"

declare date_range_loop.simps [code]

definition createProgressSeriesDateRange :: "ProgressSeriesInput \<Rightarrow> string list result option" where
  "createProgressSeriesDateRange input = date_range_loop [] (pi_from input) (pi_to input)"

definition expandProgressDailyReviews :: "ProgressSeriesInput \<Rightarrow> DailyReviewPoint list \<Rightarrow> DailyReviewPoint list result option" where
  "expandProgressDailyReviews input dailyReviews = run_then (date_range_loop [] (pi_from input) (pi_to input)) (\<lambda>dates.
     Some (Inr (map (point_at (buildDailyReviewPointMap dailyReviews)) dates)))"

section \<open>Streak days\<close>

type_synonym streak_days = "(string \<times> StreakDayState) list"

definition createStreakDayStateMap :: "streak_days \<Rightarrow> streak_days result" where
  "createStreakDayStateMap streakDays = fold_r (\<lambda>m (date, st).
     if map_of m date \<noteq> None then Inl (Error (''Progress series streakDays must not contain duplicate date: '' @ date))
     else Inr (map_set date st m)) [] streakDays"

definition expandProgressStreakDays :: "ProgressSeriesInput \<Rightarrow> streak_days \<Rightarrow> streak_days result option" where
  "expandProgressStreakDays input streakDays = run_then (Some (createStreakDayStateMap streakDays)) (\<lambda>m.
     run_then (createProgressSeriesDateRange input) (\<lambda>dates.
     Some (map_r (\<lambda>date. case map_of m date of
         None \<Rightarrow> Inl (Error (''Progress series streakDays must include date: '' @ date))
       | Some st \<Rightarrow> Inr (date, st)) dates)))"

definition uniqueSortedLocalDates :: "(string \<Rightarrow> string \<Rightarrow> int) \<Rightarrow> string list \<Rightarrow> string list" where
  "uniqueSortedLocalDates lc localDates = sort_by lc (set_elements localDates)"

definition activeDatesFromDailyReviews :: "(string \<Rightarrow> string \<Rightarrow> int) \<Rightarrow> DailyReviewPoint list \<Rightarrow> string list" where
  "activeDatesFromDailyReviews lc dailyReviews =
     uniqueSortedLocalDates lc (map dp_date (filter (\<lambda>day. 0 < dc_reviewCount day) dailyReviews))"

definition createProgressStreakDays ::
    "(string \<Rightarrow> string \<Rightarrow> int) \<Rightarrow> ProgressSeriesInput \<Rightarrow> string list \<Rightarrow> streak_days result option" where
  "createProgressStreakDays lc input activeReviewLocalDates = (let activeDates = uniqueSortedLocalDates lc activeReviewLocalDates in
     run_then (evaluateProgressStreakFreeze lc activeDates (pi_to input)) (\<lambda>ev.
     run_then (Some (createStreakDayStateMap (ev_streakDays ev))) (\<lambda>evaluated.
     run_then (createProgressSeriesDateRange input) (\<lambda>dates.
     Some (Inr (map (\<lambda>date. (date, if date \<in> set activeDates then Reviewed
       else option_default (if pi_to input \<le> date then Pending else Missed) (map_of evaluated date))) dates))))))"

definition areStreakDaysEqual :: "streak_days \<Rightarrow> streak_days \<Rightarrow> bool" where
  "areStreakDaysEqual l r \<longleftrightarrow> length l = length r \<and> list_all2 (\<lambda>a b. fst a = fst b \<and> snd a = snd b) l r"

section \<open>Series\<close>

datatype ProgressSource = ServerSource | LocalOnlySource

record ProgressSeriesSnapshot = ProgressSeries +
  sn_chartData :: "DailyReviewPoint list"
  sn_source :: ProgressSource
  sn_isApproximate :: bool

definition series_input :: "ProgressSeries \<Rightarrow> ProgressSeriesInput" where
  "series_input series = \<lparr>pi_timeZone = se_timeZone series, pi_from = se_from series, pi_to = se_to series\<rparr>"

definition normalizeProgressSeries :: "ProgressSeries \<Rightarrow> ProgressSeries result option" where
  "normalizeProgressSeries series =
     run_then (expandProgressDailyReviews (series_input series) (se_dailyReviews series)) (\<lambda>dailyReviews.
     run_then (expandProgressStreakDays (series_input series) (se_streakDays series)) (\<lambda>streakDays.
     Some (Inr \<lparr>se_timeZone = se_timeZone series, se_from = se_from series, se_to = se_to series,
       se_dailyReviews = dailyReviews, se_streakDays = streakDays, se_generatedAt = se_generatedAt series,
       se_watermarks = se_watermarks series\<rparr>)))"

definition createProgressSeriesSnapshot :: "ProgressSeries \<Rightarrow> ProgressSource \<Rightarrow> bool \<Rightarrow> ProgressSeriesSnapshot result option" where
  "createProgressSeriesSnapshot series source approximate = run_then (normalizeProgressSeries series) (\<lambda>s.
     Some (Inr \<lparr>se_timeZone = se_timeZone s, se_from = se_from s, se_to = se_to s, se_dailyReviews = se_dailyReviews s,
       se_streakDays = se_streakDays s, se_generatedAt = se_generatedAt s, se_watermarks = se_watermarks s,
       sn_chartData = se_dailyReviews s, sn_source = source, sn_isApproximate = approximate\<rparr>))"

definition buildLocalFallbackSeries ::
    "(string \<Rightarrow> string \<Rightarrow> int) \<Rightarrow> ProgressSeriesInput \<Rightarrow> DailyReviewPoint list \<Rightarrow> string list \<Rightarrow> ProgressSeries result option" where
  "buildLocalFallbackSeries lc input dailyReviews activeReviewLocalDates = (let
     activeDates = activeReviewLocalDates @ activeDatesFromDailyReviews lc dailyReviews
   in run_then (expandProgressDailyReviews input dailyReviews) (\<lambda>expanded.
      run_then (createProgressStreakDays lc input activeDates) (\<lambda>streakDays.
      Some (Inr \<lparr>se_timeZone = pi_timeZone input, se_from = pi_from input, se_to = pi_to input,
        se_dailyReviews = expanded, se_streakDays = streakDays, se_generatedAt = None, se_watermarks = []\<rparr>))))"

text \<open>One day of the merge: the day to show, and whether it differs from the server's.\<close>

definition overlay_day :: "point_map \<Rightarrow> point_map \<Rightarrow> DailyReviewPoint \<Rightarrow> (DailyReviewPoint \<times> bool) result" where
  "overlay_day pending fallback day = (let
     localDay = point_at fallback (dp_date day)
   in rbind (addDailyReviewPoints day (point_at pending (dp_date day))) (\<lambda>dayWithPendingOverlay. let
        reviewCount = max (dc_reviewCount dayWithPendingOverlay) (dc_reviewCount localDay)
      in if reviewCount = dc_reviewCount day then Inr (day, False)
         else Inr (if dc_reviewCount dayWithPendingOverlay < dc_reviewCount localDay then localDay else dayWithPendingOverlay, True)))"

definition mergeProgressStreakDaysWithOverlay :: "ProgressSeries \<Rightarrow> string list \<Rightarrow> string list \<Rightarrow> streak_days" where
  "mergeProgressStreakDaysWithOverlay base localFallbackActiveDates reviewedOverlayDates = (let
     referenceLocalDate = se_to base;
     reviewedHere = referenceLocalDate \<in> set reviewedOverlayDates \<or> referenceLocalDate \<in> set localFallbackActiveDates
   in map (\<lambda>day. if fst day \<noteq> referenceLocalDate \<or> \<not> reviewedHere then day else (fst day, Reviewed)) (se_streakDays base))"

definition mergeProgressSeriesWithOverlay ::
    "ProgressSeries \<Rightarrow> DailyReviewPoint list option \<Rightarrow> ProgressSeries option \<Rightarrow> string list \<Rightarrow> (ProgressSeries \<times> bool) result option" where
  "mergeProgressSeriesWithOverlay serverBase overlay localFallback localFallbackActiveDates = (let
     pending = buildDailyReviewPointMap (option_default [] overlay);
     fallback = (case localFallback of None \<Rightarrow> [] | Some s \<Rightarrow> buildDailyReviewPointMap (se_dailyReviews s))
   in run_then (normalizeProgressSeries serverBase) (\<lambda>base.
      run_then (Some (map_r (overlay_day pending fallback) (se_dailyReviews base))) (\<lambda>merged. let
        hasOverlay = list_ex snd merged;
        reviewedOverlayDates = map fst (filter (\<lambda>(date, m). snd m \<and> 0 < dc_reviewCount (fst m)) (zip (map dp_date (se_dailyReviews base)) merged));
        mergedStreakDays = mergeProgressStreakDaysWithOverlay base localFallbackActiveDates reviewedOverlayDates;
        hasStreakDayOverlay = (\<not> areStreakDaysEqual mergedStreakDays (se_streakDays base))
      in if \<not> hasOverlay \<and> \<not> hasStreakDayOverlay then Some (Inr (base, False))
         else Some (Inr (base\<lparr>se_dailyReviews := map fst merged, se_streakDays := mergedStreakDays\<rparr>, True)))))"

definition buildRenderedSeries ::
    "ProgressSeriesSnapshot option \<Rightarrow> ProgressSeriesSnapshot option \<Rightarrow> string list \<Rightarrow> DailyReviewPoint list option \<Rightarrow> bool
     \<Rightarrow> ProgressSeriesSnapshot option result option" where
  "buildRenderedSeries serverBase localFallback localFallbackActiveDates pendingLocalOverlay canRenderServerBase =
     (case serverBase of
        Some base \<Rightarrow> if canRenderServerBase
          then run_then (mergeProgressSeriesWithOverlay (ProgressSeries.truncate base) pendingLocalOverlay
              (map_option ProgressSeries.truncate localFallback) localFallbackActiveDates) (\<lambda>(series, hasOverlay).
            run_then (createProgressSeriesSnapshot series ServerSource hasOverlay) (\<lambda>s. Some (Inr (Some s))))
          else Some (Inr localFallback)
      | None \<Rightarrow> Some (Inr localFallback))"

end
