(* ===== verification/WebSummary.thy ===== *)
theory WebSummary
  imports WebSeries
begin

text \<open>
  The summary the web client renders
  (\<open>appData/progress/snapshots/progressSummarySnapshots.ts\<close>): the server's, with a review of today
  that the server does not know of laid over it, or a lower bound computed from the active days
  of the rendered series.
\<close>

record ProgressSummaryPayload =
  pp_timeZone :: string
  pp_generatedAt :: "string option"
  pp_watermarks :: "ProgressReviewHistoryWatermark list"
  pp_summary :: ProgressSummary

record ProgressSummarySnapshot = ProgressSummaryPayload +
  pn_source :: ProgressSource
  pn_isApproximate :: bool

record ProgressRenderedSeriesSummaryContext =
  rc_lowerBoundSummary :: ProgressSummary
  rc_activeDates :: "string list"
  rc_activeDatesMissingFromServerBase :: "string list"

definition createProgressSummarySnapshot :: "ProgressSummaryPayload \<Rightarrow> ProgressSource \<Rightarrow> bool \<Rightarrow> ProgressSummarySnapshot" where
  "createProgressSummarySnapshot built source approximate =
     \<lparr>pp_timeZone = pp_timeZone built, pp_generatedAt = pp_generatedAt built, pp_watermarks = pp_watermarks built,
      pp_summary = pp_summary built, pn_source = source, pn_isApproximate = approximate\<rparr>"

definition maxLocalDate :: "string option \<Rightarrow> string option \<Rightarrow> string option" where
  "maxLocalDate a b = (case (a, b) of
     (None, _) \<Rightarrow> b
   | (Some x, None) \<Rightarrow> Some x
   | (Some x, Some y) \<Rightarrow> Some (if y \<le> x then x else y))"

definition createEmptyProgressSummary :: "ProgressSummary result" where
  "createEmptyProgressSummary = rbind createDefaultStreakFreeze (\<lambda>freeze.
     Inr \<lparr>ps_currentStreakDays = 0, ps_longestStreakDays = 0, ps_hasReviewedToday = False, ps_lastReviewedOn = None,
       ps_activeReviewDays = 0, ps_streakFreeze = freeze\<rparr>)"

definition activeDatesFromSeries :: "(string \<Rightarrow> string \<Rightarrow> int) \<Rightarrow> ProgressSeries \<Rightarrow> string list" where
  "activeDatesFromSeries lc series = activeDatesFromDailyReviews lc (se_dailyReviews series)"

definition summaryLowerBoundFromActiveDates ::
    "(string \<Rightarrow> string \<Rightarrow> int) \<Rightarrow> string list \<Rightarrow> string \<Rightarrow> ProgressSummary result option" where
  "summaryLowerBoundFromActiveDates lc activeDates today = (let sortedActiveDates = uniqueSortedLocalDates lc activeDates in
     if sortedActiveDates = [] then Some createEmptyProgressSummary
     else run_then (evaluateProgressStreakFreeze lc sortedActiveDates today) (\<lambda>ev.
       Some (Inr \<lparr>ps_currentStreakDays = ev_currentStreakDays ev, ps_longestStreakDays = ev_longestStreakDays ev,
         ps_hasReviewedToday = (today \<in> set sortedActiveDates), ps_lastReviewedOn = last_of sortedActiveDates,
         ps_activeReviewDays = int (length sortedActiveDates), ps_streakFreeze = ev_streakFreeze ev\<rparr>)))"

definition validateProgressSeriesPairInputs :: "ProgressSeries \<Rightarrow> ProgressSeries \<Rightarrow> unit result" where
  "validateProgressSeriesPairInputs serverBase renderedSeries =
     throw_if (\<not> (se_timeZone serverBase = se_timeZone renderedSeries \<and> se_from serverBase = se_from renderedSeries
         \<and> se_to serverBase = se_to renderedSeries))
       (Error (''Progress series summary context inputs must share the same range. serverBase='' @ se_timeZone serverBase
         @ '' '' @ se_from serverBase @ ''...'' @ se_to serverBase @ '', renderedSeries='' @ se_timeZone renderedSeries
         @ '' '' @ se_from renderedSeries @ ''...'' @ se_to renderedSeries @ ''.''))"

definition activeDatesMissingFromServerBase :: "ProgressSeries \<Rightarrow> ProgressSeries \<Rightarrow> string list result option" where
  "activeDatesMissingFromServerBase serverBase renderedSeries =
     run_then (Some (validateProgressSeriesPairInputs serverBase renderedSeries)) (\<lambda>_.
     run_then (normalizeProgressSeries serverBase) (\<lambda>base.
     run_then (normalizeProgressSeries renderedSeries) (\<lambda>rendered. let
       serverReviewCounts = buildDailyReviewCountMap (se_dailyReviews base)
     in Some (Inr (map dp_date (filter (\<lambda>day. 0 < dc_reviewCount day
          \<and> option_default 0 (map_of serverReviewCounts (dp_date day)) = 0) (se_dailyReviews rendered)))))))"

definition createProgressRenderedSeriesSummaryContext ::
    "(string \<Rightarrow> string \<Rightarrow> int) \<Rightarrow> ProgressSeries option \<Rightarrow> ProgressSeries option
     \<Rightarrow> ProgressRenderedSeriesSummaryContext option result option" where
  "createProgressRenderedSeriesSummaryContext lc serverBase renderedSeries = (case renderedSeries of
     None \<Rightarrow> Some (Inr None)
   | Some rendered \<Rightarrow> (let activeDates = activeDatesFromSeries lc rendered in
       run_then (case serverBase of None \<Rightarrow> Some (Inr []) | Some base \<Rightarrow> activeDatesMissingFromServerBase base rendered) (\<lambda>missing.
       run_then (summaryLowerBoundFromActiveDates lc activeDates (se_to rendered)) (\<lambda>summary.
       Some (Inr (Some \<lparr>rc_lowerBoundSummary = summary, rc_activeDates = activeDates,
         rc_activeDatesMissingFromServerBase = missing\<rparr>))))))"

definition hasLocalReferenceReview ::
    "string list \<Rightarrow> ProgressRenderedSeriesSummaryContext option \<Rightarrow> string \<Rightarrow> bool" where
  "hasLocalReferenceReview localFallbackActiveDates renderedSeriesContext referenceLocalDate \<longleftrightarrow>
     referenceLocalDate \<in> set localFallbackActiveDates
     \<or> (case renderedSeriesContext of None \<Rightarrow> False
        | Some c \<Rightarrow> referenceLocalDate \<in> set (rc_activeDatesMissingFromServerBase c))"

text \<open>\<open>areProgressSummariesEqual\<close> compares every field, so it is equality.\<close>

definition areProgressSummariesEqual :: "ProgressSummary \<Rightarrow> ProgressSummary \<Rightarrow> bool" where
  "areProgressSummariesEqual l r \<longleftrightarrow> ps_currentStreakDays l = ps_currentStreakDays r
     \<and> ps_longestStreakDays l = ps_longestStreakDays r \<and> ps_hasReviewedToday l = ps_hasReviewedToday r
     \<and> ps_lastReviewedOn l = ps_lastReviewedOn r \<and> ps_activeReviewDays l = ps_activeReviewDays r
     \<and> ps_streakFreeze l = ps_streakFreeze r"

definition hasProgressSummaryOverlay :: "ProgressSummaryPayload \<Rightarrow> ProgressSummarySnapshot \<Rightarrow> bool" where
  "hasProgressSummaryOverlay mergedPayload serverBase \<longleftrightarrow>
     \<not> areProgressSummariesEqual (pp_summary mergedPayload) (pp_summary serverBase)"

definition mergeProgressSummary ::
    "ProgressSummarySnapshot \<Rightarrow> string list \<Rightarrow> ProgressRenderedSeriesSummaryContext option \<Rightarrow> string
     \<Rightarrow> ProgressSummaryPayload result" where
  "mergeProgressSummary serverBase localFallbackActiveDates renderedSeriesContext referenceLocalDate = (let
     base = pp_summary serverBase;
     hasReferenceReviewOverlay = (\<not> ps_hasReviewedToday base
       \<and> hasLocalReferenceReview localFallbackActiveDates renderedSeriesContext referenceLocalDate);
     current = (if hasReferenceReviewOverlay then max 1 (ps_currentStreakDays base + 1) else ps_currentStreakDays base)
   in rbind (if hasReferenceReviewOverlay then rbind (addReviewedDayToStreakFreeze (ps_streakFreeze base)) (\<lambda>freeze.
          Inr (base\<lparr>ps_currentStreakDays := current, ps_longestStreakDays := max (ps_longestStreakDays base) current,
            ps_hasReviewedToday := True,
            ps_lastReviewedOn := maxLocalDate (ps_lastReviewedOn base) (Some referenceLocalDate),
            ps_activeReviewDays := ps_activeReviewDays base + 1, ps_streakFreeze := freeze\<rparr>))
        else Inr base) (\<lambda>summary.
      Inr \<lparr>pp_timeZone = pp_timeZone serverBase, pp_generatedAt = pp_generatedAt serverBase,
        pp_watermarks = pp_watermarks serverBase, pp_summary = summary\<rparr>))"

definition buildRenderedSummary ::
    "ProgressSummarySnapshot option \<Rightarrow> ProgressSummarySnapshot option \<Rightarrow> string list \<Rightarrow> bool
     \<Rightarrow> ProgressRenderedSeriesSummaryContext option \<Rightarrow> string option \<Rightarrow> bool \<Rightarrow> ProgressSummarySnapshot option result" where
  "buildRenderedSummary serverBase localFallback localFallbackActiveDates hasPendingLocalReviews renderedSeriesContext
     referenceLocalDate canRenderServerBase = (case serverBase of
     Some base \<Rightarrow> if canRenderServerBase then
         (case referenceLocalDate of
            None \<Rightarrow> Inl (Error ''Progress summary reference local date is required when rendering a server summary.'')
          | Some date \<Rightarrow> rbind (mergeProgressSummary base localFallbackActiveDates renderedSeriesContext date) (\<lambda>mergedPayload.
              if hasPendingLocalReviews \<or> hasProgressSummaryOverlay mergedPayload base
              then Inr (Some (createProgressSummarySnapshot mergedPayload ServerSource True))
              else Inr (Some base)))
       else Inr localFallback
   | None \<Rightarrow> Inr localFallback)"

end
