(* ===== verification/WebProgress.thy ===== *)
theory WebProgress
  imports ProgressSpec WebSummary
begin

text \<open>
  The client's progress against the server's: its streak evaluation is the server's, a summary from the
  same days is the server's summary, and a review of today laid over the server's report gives the report
  the server computes once it knows the review.
\<close>

section \<open>The same evaluation\<close>

lemma web_freeze: "web_createStreakFreeze b policy = createStreakFreeze b policy"
  by (simp add: web_createStreakFreeze_def createStreakFreezeFromFields_def createStreakFreeze_def clampBalanceUnits_def
      getMaximumBalanceUnits_def getAvailableCredits_def Let_def min.assoc)

lemma web_evaluation: "evaluateProgressStreakFreeze lc dates today = evaluateStreakFreeze lc dates today streakFreezePolicy"
  by (simp add: evaluateProgressStreakFreeze_def evaluateStreakFreeze_def run_then_def web_freeze split: option.split sum.split)

section \<open>Sorted dates\<close>

interpretation date_texts: comparator lc "if collates_dates lc then iso_date ` {n. local_day n} else {}" for lc
  by unfold_locales (auto simp: collates_dates_def split: if_splits)

lemma unique_dates:
  assumes lc: "collates_dates lc" and "sorted_wrt (<) ds" and "\<forall>d \<in> set ds. local_day d" and "set dates = iso_date ` set ds"
  shows "uniqueSortedLocalDates lc dates = map iso_date ds"
proof -
  let ?u = "sort_by lc (set_elements dates)"
  have set: "set ?u = iso_date ` set ds" using assms(4) by (simp add: set_elements_def)
  have "sorted_wrt (\<lambda>a b. lc a b \<le> 0) ?u"
    using date_texts.sort_by_sorted [of "set_elements dates" lc] set assms(1,3) by auto
  then have "sorted_wrt (\<le>) ?u"
  proof (rule sorted_wrt_mono_rel [rotated])
    fix a b assume "a \<in> set ?u" "b \<in> set ?u" "lc a b \<le> 0"
    then obtain m n where "a = iso_date m" "b = iso_date n" "local_day m" "local_day n" "m \<le> n"
      using set assms(1,3) by (auto simp: collates_dates_def)
    then show "a \<le> b" by (simp add: local_date_le)
  qed
  moreover have "distinct ?u" by (simp add: set_elements_def)
  moreover have "sorted (map iso_date ds)" using sort_dates [OF assms(2,3)] by (metis sorted_sort)
  moreover have "inj_on iso_date (set ds)" using assms(3) by (auto simp: inj_on_def local_date_inject)
  then have "distinct (map iso_date ds)" using assms(2) by (simp add: distinct_map strict_sorted_iff)
  ultimately show ?thesis
    unfolding uniqueSortedLocalDates_def using set by (intro sorted_distinct_set_unique) auto
qed

section \<open>The default policy\<close>

definition default_units :: policy where
  "default_units = \<lparr>startCapacity = 2, maxCapacity = 2, unitsPerCredit = 10, earnedUnitsPerStreakDay = 1\<rparr>"

lemma default_units: "validateStreakFreezePolicy streakFreezePolicy = Inr default_units"
  by (simp add: validateStreakFreezePolicy_def streakFreezePolicy_def default_units_def jle_def)

lemma default_valid: "valid_policy default_units"
  by (rule validateStreakFreezePolicy_valid [OF default_units])

text \<open>Between streaks the balance is the initial one.\<close>

definition rested :: "policy \<Rightarrow> StreakComputationState \<Rightarrow> bool" where
  "rested policy st \<longleftrightarrow> (\<not> hasActiveSegment st \<longrightarrow> balanceUnits st = getInitialBalanceUnits policy)"

lemma rested_step: "rested policy st \<Longrightarrow> rested policy (fst (day_step policy R T (st, m) d))"
  by (simp add: rested_def day_defs Let_def)

lemma rested_run: "rested policy (day_run policy R T (createInitialState policy) ds)"
proof (induction ds rule: rev_induct)
  case Nil
  show ?case by (simp add: day_run_def rested_def createInitialState_def)
next
  case (snoc d ds)
  then show ?case using rested_step by (simp add: day_run_def)
qed

section \<open>One more review today\<close>

lemma day_run_cong:
  assumes "\<And>d. d \<in> set days \<Longrightarrow> d \<in> R \<longleftrightarrow> d \<in> R'"
  shows "day_run policy R T st days = day_run policy R' T st days"
    and "day_states policy R T st days = day_states policy R' T st days"
proof -
  have step: "day_step policy R T c d = day_step policy R' T c d" if "d \<in> R \<longleftrightarrow> d \<in> R'" for c d
    using that by (simp add: day_step_def)
  have kind: "day_kind policy R T st d = day_kind policy R' T st d" if "d \<in> R \<longleftrightarrow> d \<in> R'" for st d
    using that by (simp add: day_kind_def)
  show "day_run policy R T st days = day_run policy R' T st days"
    using assms step by (induction days arbitrary: st) (simp_all add: day_run_def)
  show "day_states policy R T st days = day_states policy R' T st days"
    using assms step kind by (induction days arbitrary: st) simp_all
qed

lemma day_run_snoc: "day_run policy R T st (ds @ [d]) = fst (day_step policy R T (day_run policy R T st ds, []) d)"
  by (simp add: day_run_def)

lemma insort_today:
  assumes "sorted_wrt (<) ds" and "T \<notin> set ds"
  shows "sorted_wrt (<) (insort T ds)" and "filter (\<lambda>d. d \<le> T) (insort T ds) = filter (\<lambda>d. d \<le> T) ds @ [T]"
    and "last (insort T ds) = (if ds = [] then T else max (last ds) T)" and "first_day (insort T ds) T = first_day ds T"
proof -
  show "sorted_wrt (<) (insort T ds)" using assms by (simp add: strict_sorted_iff sorted_insort distinct_insort)
  show f: "filter (\<lambda>d. d \<le> T) (insort T ds) = filter (\<lambda>d. d \<le> T) ds @ [T]"
    using assms
  proof (induction ds)
    case (Cons d ds)
    show ?case
    proof (cases "T \<le> d")
      case True
      then have "T < d" using Cons.prems(2) by auto
      moreover from this have "\<forall>x \<in> set ds. T < x" using Cons.prems(1) by auto
      ultimately have "filter (\<lambda>x. x \<le> T) (d # ds) = []" by (auto simp: filter_empty_conv)
      then show ?thesis using True by simp
    qed (use Cons in auto)
  qed simp
  show "last (insort T ds) = (if ds = [] then T else max (last ds) T)"
    using assms
  proof (induction ds)
    case (Cons d ds)
    then have "ds \<noteq> [] \<Longrightarrow> d \<le> last ds" using last_in_set [of ds] by (auto intro: order_less_imp_le)
    with Cons show ?case by (cases ds) (auto split: if_splits)
  qed simp
  show "first_day (insort T ds) T = first_day ds T"
    unfolding first_day_def f by (cases "filter (\<lambda>d. d \<le> T) ds") auto
qed

text \<open>The evaluation with and without today's review, from the state before today.\<close>

lemma evaluations_of_today:
  assumes sorted: "sorted_wrt (<) ds" and dated: "\<forall>d \<in> set ds. local_day d" "local_day T" and fresh: "T \<notin> set ds"
    and v: "valid_policy policy"
  obtains st ks where "streak_inv policy st (map snd ks)" "rested policy st"
    "map fst ks = [first_day ds T..T - 1]"
    "evaluation_of_days policy ds T = \<lparr>ev_currentStreakDays = currentStreakDays st, ev_longestStreakDays = longestStreakDays st,
       ev_streakFreeze = createStreakFreeze (balanceUnits st) policy, ev_streakDays = dated_states (ks @ [(T, Pending)])\<rparr>"
    "evaluation_of_days policy (insort T ds) T = (let
       current = (if hasActiveSegment st then currentStreakDays st + 1 else 1)
     in \<lparr>ev_currentStreakDays = current, ev_longestStreakDays = max (longestStreakDays st) current,
       ev_streakFreeze = createStreakFreeze (addStreakDayEarnedUnits
         (if hasActiveSegment st then balanceUnits st else getInitialBalanceUnits policy) policy) policy,
       ev_streakDays = dated_states (ks @ [(T, Reviewed)])\<rparr>)"
proof -
  let ?R = "{d \<in> set ds. d \<le> T}" and ?a = "first_day ds T" and ?fresh_state = "createInitialState policy"
  let ?R' = "{d \<in> set (insort T ds). d \<le> T}"
  have a: "?a \<le> T" using first_day_bounds [OF dated] by simp
  then have days: "[?a..T] = [?a..T - 1] @ [T]" by (simp add: upto_rec2)
  let ?st = "day_run policy ?R T ?fresh_state [?a..T - 1]" and ?ks = "day_states policy ?R T ?fresh_state [?a..T - 1]"
  have R: "d \<in> ?R' \<longleftrightarrow> d \<in> ?R" if "d \<in> set [?a..T - 1]" for d using that by (auto simp: set_insort_key)
  have run: "day_run policy ?R' T ?fresh_state [?a..T - 1] = ?st" and states: "day_states policy ?R' T ?fresh_state [?a..T - 1] = ?ks"
    by (rule day_run_cong, rule R, assumption)+
  have "T \<notin> ?R" "T \<in> ?R'" using fresh by (auto simp: set_insort_key)
  then have before: "evaluation_of_days policy ds T = \<lparr>ev_currentStreakDays = currentStreakDays ?st,
       ev_longestStreakDays = longestStreakDays ?st, ev_streakFreeze = createStreakFreeze (balanceUnits ?st) policy,
       ev_streakDays = dated_states (?ks @ [(T, Pending)])\<rparr>"
    unfolding evaluation_of_days_def Let_def days day_states_append day_run_snoc
    by (simp add: day_step_def addPendingDay_def day_kind_def)
  have "evaluation_of_days policy (insort T ds) T = (let
       current = (if hasActiveSegment ?st then currentStreakDays ?st + 1 else 1)
     in \<lparr>ev_currentStreakDays = current, ev_longestStreakDays = max (longestStreakDays ?st) current,
       ev_streakFreeze = createStreakFreeze (addStreakDayEarnedUnits
         (if hasActiveSegment ?st then balanceUnits ?st else getInitialBalanceUnits policy) policy) policy,
       ev_streakDays = dated_states (?ks @ [(T, Reviewed)])\<rparr>)"
    unfolding evaluation_of_days_def insort_today(4) [OF sorted fresh] Let_def days day_states_append day_run_snoc run states
    using \<open>T \<in> ?R'\<close> by (simp add: day_step_def addReviewedDay_def day_kind_def Let_def)
  with before show thesis
    by (intro that [of ?st ?ks]) (use streak_inv_run [OF v] rested_run in auto)
qed

section \<open>The summary\<close>

lemma summary_days:
  assumes "sorted_wrt (<) ds" and "\<forall>d \<in> set ds. local_day d" and "local_day T" and "T < last_day" and "collates_dates lc"
  shows "summary_of_days lc (map iso_date ds) (iso_date T) = Some (Inr (let ev = evaluation_of_days default_units ds T in
    createProgressSummary (int (length ds)) (ev_currentStreakDays ev) (ev_longestStreakDays ev) (T \<in> set ds)
      (last_of (map iso_date ds)) (ev_streakFreeze ev)))"
proof -
  have "iso_date T \<in> iso_date ` set ds \<longleftrightarrow> T \<in> set ds" using assms(2,3) local_date_inject by auto
  then show ?thesis
    by (simp add: summary_of_days_def evaluateStreakFreeze_days [OF default_units assms] Let_def)
qed

lemma freeze_coherent:
  assumes "0 \<le> b" and "b \<le> getMaximumBalanceUnits default_units"
  shows "isCoherentStreakFreeze (createStreakFreeze b default_units)" and "sf_balanceUnits (createStreakFreeze b default_units) = b"
proof -
  have b: "0 \<le> b" "b \<le> 20" using assms by (simp_all add: getMaximumBalanceUnits_def default_units_def)
  then have "0 \<le> b div 10" "b div 10 \<le> 2" "0 \<le> b mod 10" "b mod 10 < 10" by auto
  then show "isCoherentStreakFreeze (createStreakFreeze b default_units)"
    using b by (auto simp: isCoherentStreakFreeze_def createStreakFreeze_def clampBalanceUnits_def getAvailableCredits_def
        getMaximumBalanceUnits_def default_units_def isNonNegativeSafeInteger_def Let_def)
  show "sf_balanceUnits (createStreakFreeze b default_units) = b"
    using b by (simp add: createStreakFreeze_def clampBalanceUnits_def getMaximumBalanceUnits_def default_units_def Let_def)
qed

lemma reviewed_freeze:
  assumes "0 \<le> b" and "b \<le> getMaximumBalanceUnits default_units"
  shows "addReviewedDayToStreakFreeze (createStreakFreeze b default_units)
    = Inr (createStreakFreeze (addStreakDayEarnedUnits b default_units) default_units)"
proof -
  have fields: "sf_capacity (createStreakFreeze b default_units) = 2" "sf_unitsPerCredit (createStreakFreeze b default_units) = 10"
    "sf_earnedUnitsPerStreakDay (createStreakFreeze b default_units) = 1"
    by (simp_all add: createStreakFreeze_def default_units_def Let_def)
  have "createStreakFreezeFromFields (b + 1) 2 10 1 = createStreakFreeze (addStreakDayEarnedUnits b default_units) default_units"
    by (simp add: createStreakFreezeFromFields_def createStreakFreeze_def addStreakDayEarnedUnits_def clampBalanceUnits_def
        getAvailableCredits_def getMaximumBalanceUnits_def default_units_def Let_def)
  then show ?thesis
    by (simp add: addReviewedDayToStreakFreeze_def freeze_coherent [OF assms] fields)
qed

lemma last_date_today:
  assumes "sorted_wrt (<) ds" and "\<forall>d \<in> set ds. local_day d" and "local_day T" and "T \<notin> set ds"
  shows "maxLocalDate (last_of (map iso_date ds)) (Some (iso_date T)) = last_of (map iso_date (insort T ds))"
proof (cases "ds = []")
  case True
  then show ?thesis by (simp add: maxLocalDate_def last_of_def)
next
  case False
  then have l: "local_day (last ds)" using assms(2) by simp
  have "insort T ds \<noteq> []" by (metis insort_not_Nil)
  then have "last_of (map iso_date (insort T ds)) = Some (iso_date (max (last ds) T))"
    using False insort_today(3) [OF assms(1,4)] by (simp add: last_of_def last_map)
  then show ?thesis using False local_date_le [OF assms(3) l] by (auto simp: maxLocalDate_def last_of_def last_map max_def)
qed

lemma summary_overlay:
  assumes sorted: "sorted_wrt (<) ds" and dated: "\<forall>d \<in> set ds. local_day d" "local_day T" "T < last_day" and fresh: "T \<notin> set ds"
    and lc: "collates_dates lc"
    and base: "summary_of_days lc (map iso_date ds) (iso_date T) = Some (Inr (pp_summary snapshot))"
    and reviewed: "hasLocalReferenceReview active ctx (iso_date T)"
  shows "\<exists>p. mergeProgressSummary snapshot active ctx (iso_date T) = Inr p
    \<and> summary_of_days lc (map iso_date (insort T ds)) (iso_date T) = Some (Inr (pp_summary p))"
proof -
  obtain st ks where st: "streak_inv default_units st (map snd ks)" "rested default_units st"
    and before: "evaluation_of_days default_units ds T = \<lparr>ev_currentStreakDays = currentStreakDays st,
       ev_longestStreakDays = longestStreakDays st, ev_streakFreeze = createStreakFreeze (balanceUnits st) default_units,
       ev_streakDays = dated_states (ks @ [(T, Pending)])\<rparr>"
    and after: "evaluation_of_days default_units (insort T ds) T = (let
       current = (if hasActiveSegment st then currentStreakDays st + 1 else 1)
     in \<lparr>ev_currentStreakDays = current, ev_longestStreakDays = max (longestStreakDays st) current,
       ev_streakFreeze = createStreakFreeze (addStreakDayEarnedUnits
         (if hasActiveSegment st then balanceUnits st else getInitialBalanceUnits default_units) default_units) default_units,
       ev_streakDays = dated_states (ks @ [(T, Reviewed)])\<rparr>)"
    by (rule evaluations_of_today [OF sorted dated(1,2) fresh default_valid])
  have balance: "(if hasActiveSegment st then balanceUnits st else getInitialBalanceUnits default_units) = balanceUnits st"
    using st(2) by (simp add: rested_def)
  have inv: "0 \<le> currentStreakDays st" "hasActiveSegment st \<longleftrightarrow> 0 < currentStreakDays st"
    "0 \<le> balanceUnits st" "balanceUnits st \<le> getMaximumBalanceUnits default_units"
    using st(1) by (auto simp: streak_inv_def)
  then have current: "(if hasActiveSegment st then currentStreakDays st + 1 else 1) = max 1 (currentStreakDays st + 1)" by auto
  have s: "pp_summary snapshot = createProgressSummary (int (length ds)) (currentStreakDays st) (longestStreakDays st) False
      (last_of (map iso_date ds)) (createStreakFreeze (balanceUnits st) default_units)"
    using base fresh by (simp add: summary_days [OF sorted dated lc] before)
  have "local_day d" if "d \<in> set (insort T ds)" for d using that dated by (auto simp: set_insort_key)
  then have s': "summary_of_days lc (map iso_date (insort T ds)) (iso_date T) = Some (Inr (createProgressSummary (int (length ds) + 1)
      (max 1 (currentStreakDays st + 1)) (max (longestStreakDays st) (max 1 (currentStreakDays st + 1))) True
      (last_of (map iso_date (insort T ds))) (createStreakFreeze (addStreakDayEarnedUnits (balanceUnits st) default_units) default_units)))"
    using summary_days [OF insort_today(1) [OF sorted fresh] _ dated(2,3) lc]
    by (simp add: after balance current Let_def set_insort_key add.commute)
  show ?thesis
    unfolding s' by (simp add: mergeProgressSummary_def s createProgressSummary_def reviewed Let_def
        reviewed_freeze [OF inv(3,4)] last_date_today [OF sorted dated(1,2) fresh])
qed

lemma local_summary:
  assumes sorted: "sorted_wrt (<) ds" and dated: "\<forall>d \<in> set ds. local_day d" "local_day T" "T < last_day"
    and lc: "collates_dates lc" and dates: "set dates = iso_date ` set ds"
  shows "summaryLowerBoundFromActiveDates lc dates (iso_date T) = summary_of_days lc (map iso_date ds) (iso_date T)"
proof (cases "ds = []")
  case True
  have "createEmptyProgressSummary = Inr (createProgressSummary 0 0 0 False None
      (createStreakFreeze (getInitialBalanceUnits default_units) default_units))"
    by (simp add: createEmptyProgressSummary_def createDefaultStreakFreeze_def default_units web_freeze createProgressSummary_def)
  moreover have "evaluation_of_days default_units [] T = \<lparr>ev_currentStreakDays = 0, ev_longestStreakDays = 0,
      ev_streakFreeze = createStreakFreeze (getInitialBalanceUnits default_units) default_units, ev_streakDays = [(iso_date T, Pending)]\<rparr>"
    by (simp add: evaluation_of_days_def first_day_def day_run_def day_step_def addPendingDay_def createInitialState_def
        dated_states_def day_kind_def)
  ultimately show ?thesis
    using True unique_dates [OF lc sorted dated(1) dates] summary_days [OF sorted dated lc]
    by (simp add: summaryLowerBoundFromActiveDates_def last_of_def Let_def)
next
  case False
  then show ?thesis
    using unique_dates [OF lc sorted dated(1) dates] evaluateStreakFreeze_days [OF default_units sorted dated lc]
    by (simp add: summaryLowerBoundFromActiveDates_def web_evaluation summary_of_days_def createProgressSummary_def)
qed

section \<open>The client's range of dates\<close>

lemma split_digits: "(\<And>c. c \<in> set s \<Longrightarrow> c \<noteq> CHR ''-'') \<Longrightarrow> split_dashes part (s @ CHR ''-'' # t) = (part @ s) # split_dashes [] t"
  by (induction s arbitrary: part) simp_all

lemma split_last: "(\<And>c. c \<in> set s \<Longrightarrow> c \<noteq> CHR ''-'') \<Longrightarrow> split_dashes part s = [part @ s]"
  by (induction s arbitrary: part) simp_all

lemma parseLocalDate_day: "local_day n \<Longrightarrow> parseLocalDate (iso_date n) = Inr (Date (n * ms_per_day))"
proof -
  assume n: "local_day n"
  obtain y mo d where c: "civil_of_day n = (y, mo, d)" using prod_cases3 by blast
  note l = iso_date_layout [OF local_day_iso [OF n] c]
  have no_dash: "x \<noteq> CHR ''-''" if "x \<in> set (pad w m)" for x w m using pad_digits [OF that] by (auto simp: is_digit_def)
  have "iso_date n = pad 4 (nat y) @ CHR ''-'' # pad 2 (nat (mo + 1)) @ CHR ''-'' # pad 2 (nat d)" using l(1) by simp
  then have "split_dashes [] (iso_date n) = [pad 4 (nat y), pad 2 (nat (mo + 1)), pad 2 (nat d)]"
    using split_digits [of "pad 4 (nat y)"] split_digits [of "pad 2 (nat (mo + 1))"] split_last [of "pad 2 (nat d)"] no_dash
    by (simp del: pad.simps)
  moreover have "parse_int (pad 4 (nat y)) = Some y" "parse_int (pad 2 (nat (mo + 1))) = Some (mo + 1)" "parse_int (pad 2 (nat d)) = Some d"
    using parse_int_pad [of 4 "nat y"] parse_int_pad [of 2 "nat (mo + 1)"] parse_int_pad [of 2 "nat d"] l(2-7)
    by (simp_all del: pad.simps)
  ultimately show ?thesis
    using date_UTC_day [OF c n] by (simp add: parseLocalDate_def part_at_def Let_def del: pad.simps)
qed

lemma web_shift_day: "local_day n \<Longrightarrow> web_shiftLocalDate (iso_date n) k = shiftLocalDate (iso_date n) k"
  by (simp add: web_shiftLocalDate_def parseLocalDate_day shiftLocalDate_def createUtcDate_day)

lemma date_range_days:
  assumes "local_day a" and "local_day b" and "a \<le> b + 1" and "b < last_day"
  shows "date_range_loop dates (iso_date a) (iso_date b) = Some (Inr (dates @ map iso_date [a..b]))"
  using assms
proof (induction "nat (b + 1 - a)" arbitrary: a dates)
  case 0
  then have "a = b + 1" by simp
  moreover from this have "\<not> iso_date a \<le> iso_date b" using local_date_le [OF 0(2,3)] by simp
  ultimately show ?case by (subst date_range_loop.simps) simp
next
  case (Suc k)
  have le: "a \<le> b" using Suc.hyps(2) by simp
  have next_day: "local_day (a + 1)" using local_day_between [OF Suc.prems(1), of "a + 1"] Suc.prems(4) le by simp
  have "web_shiftLocalDate (iso_date a) 1 = Inr (iso_date (a + 1))"
    using shift_next_day [OF Suc.prems(1)] web_shift_day [OF Suc.prems(1)] Suc.prems(4) le by simp
  moreover have "iso_date a \<le> iso_date b" using local_date_le [OF Suc.prems(1,2)] le by simp
  moreover have "[a..b] = a # [a + 1..b]" using le by (simp add: upto_rec1)
  ultimately show ?case
    using Suc.hyps(1) [of "a + 1" "dates @ [iso_date a]"] Suc.hyps(2) Suc.prems le next_day
    by (subst date_range_loop.simps) simp
qed

section \<open>The series\<close>

lemma state_map:
  assumes "distinct (map fst ks)"
  shows "createStreakDayStateMap ks = Inr ks"
proof -
  have "fold_r (\<lambda>m (date, st). if map_of m date \<noteq> None
      then Inl (Error (''Progress series streakDays must not contain duplicate date: '' @ date))
      else Inr (map_set date st m)) m ks = Inr (m @ ks)" if "distinct (map fst (m @ ks))" for m
    using that
  proof (induction ks arbitrary: m)
    case (Cons k ks)
    obtain date st where k: "k = (date, st)" by force
    have "date \<notin> fst ` set m" using Cons.prems by (auto simp: k)
    then have "map_of m date = None" "map_set date st m = m @ [(date, st)]" "\<forall>y. (date, y) \<notin> set m"
      by (simp_all add: map_of_eq_None_iff map_set_fresh) force
    then show ?case using Cons.IH [of "m @ [(date, st)]"] Cons.prems by (simp add: k)
  qed simp
  from this [of "[]"] assms show ?thesis by (simp add: createStreakDayStateMap_def)
qed

lemma distinct_dates: "local_day a \<Longrightarrow> local_day b \<Longrightarrow> distinct (map iso_date [a..b])"
proof -
  assume ab: "local_day a" "local_day b"
  have "local_day n" if "n \<in> set [a..b]" for n
    using that local_day_between [OF ab(1)] local_day_last [OF ab(2)] by auto
  then have "inj_on iso_date (set [a..b])" by (auto simp: inj_on_def local_date_inject)
  then show ?thesis by (simp add: distinct_map)
qed

lemma point_map_date: "dp_date (point_at (buildDailyReviewPointMap ps) d) = d"
proof -
  have "dp_date p = k" if "(k, p) \<in> set (buildDailyReviewPointMap ps)" for k p
    using point_map_mem [of "(k, p)" dp_date "[]" ps] that by (auto simp: buildDailyReviewPointMap_def)
  then show ?thesis
    by (auto simp: point_at_def option_default_def createEmptyDailyReviewPoint_def split: option.split dest!: map_of_SomeD)
qed

text \<open>A series over the whole of its range is in normal form, up to its daily reviews.\<close>

lemma normalized_series:
  assumes ab: "local_day a" "local_day b" "a \<le> b" "b < last_day" and "se_from series = iso_date a" and "se_to series = iso_date b"
    and days: "map fst (se_streakDays series) = map iso_date [a..b]"
  shows "\<exists>points. normalizeProgressSeries series = Some (Inr (series\<lparr>se_dailyReviews := points\<rparr>)) \<and> map dp_date points = map iso_date [a..b]"
proof -
  let ?range = "map iso_date [a..b]" and ?points = "map (point_at (buildDailyReviewPointMap (se_dailyReviews series))) (map iso_date [a..b])"
  have loop: "date_range_loop [] (iso_date a) (iso_date b) = Some (Inr ?range)" using date_range_days [of a b "[]"] ab by simp
  have dist: "distinct (map fst (se_streakDays series))" unfolding days by (rule distinct_dates [OF ab(1,2)])
  let ?ks = "se_streakDays series"
  have "map_r (\<lambda>date. case map_of ?ks date of
       None \<Rightarrow> Inl (Error (''Progress series streakDays must include date: '' @ date))
     | Some st \<Rightarrow> Inr (date, st)) (map fst ?ks) = Inr (map (\<lambda>date. (date, the (map_of ?ks date))) (map fst ?ks))"
    using dist by (intro map_r_total) (auto simp: map_of_is_SomeI)
  also have "map (\<lambda>date. (date, the (map_of ?ks date))) (map fst ?ks) = ?ks"
    unfolding map_map by (rule map_idI) (use dist in \<open>auto simp: map_of_is_SomeI\<close>)
  finally have streak: "expandProgressStreakDays (series_input series) ?ks = Some (Inr ?ks)"
    unfolding days by (simp add: expandProgressStreakDays_def state_map [OF dist] createProgressSeriesDateRange_def
        series_input_def assms(5,6) loop)
  have "map dp_date ?points = ?range" by (simp add: point_map_date)
  moreover have "expandProgressDailyReviews (series_input series) (se_dailyReviews series) = Some (Inr ?points)"
    by (simp add: expandProgressDailyReviews_def series_input_def assms(5,6) loop)
  ultimately show ?thesis
    by (intro exI [of _ ?points]) (simp add: normalizeProgressSeries_def streak)
qed

lemma overlay_points:
  "\<exists>merged. map_r (overlay_day (buildDailyReviewPointMap pending) fallback) points = Inr merged \<and> length merged = length points"
proof -
  have "\<exists>x. overlay_day (buildDailyReviewPointMap pending) fallback p = Inr x" for p
    using point_map_date [of pending "dp_date p"] by (auto simp: overlay_day_def addDailyReviewPoints_def Let_def)
  then obtain g where "\<And>p. overlay_day (buildDailyReviewPointMap pending) fallback p = Inr (g p)" by metis
  then have "map_r (overlay_day (buildDailyReviewPointMap pending) fallback) points = Inr (map g points)" by (intro map_r_total) simp
  then show ?thesis by simp
qed

text \<open>The states the server reports with and without the review.\<close>

lemma streak_days_today:
  assumes sorted: "sorted_wrt (<) ds" and dated: "\<forall>d \<in> set ds. local_day d" "local_day T" and fresh: "T \<notin> set ds"
    and a: "local_day a" "a \<le> T"
  shows "createSeriesStreakDays (map iso_date [a..T]) (map iso_date (insort T ds))
      (ev_streakDays (evaluation_of_days default_units (insort T ds) T)) (iso_date T)
    = map (\<lambda>day. if fst day = iso_date T then (fst day, Reviewed) else day)
        (createSeriesStreakDays (map iso_date [a..T]) (map iso_date ds) (ev_streakDays (evaluation_of_days default_units ds T)) (iso_date T))"
proof -
  obtain st ks where ks: "map fst ks = [first_day ds T..T - 1]"
    and before: "ev_streakDays (evaluation_of_days default_units ds T) = dated_states (ks @ [(T, Pending)])"
    and after: "ev_streakDays (evaluation_of_days default_units (insort T ds) T) = dated_states (ks @ [(T, Reviewed)])"
    by (rule evaluations_of_today [OF sorted dated fresh default_valid]) (simp add: Let_def)
  have "iso_date n = iso_date T \<longleftrightarrow> n = T" if "n \<in> set [a..T]" for n
    using that local_day_between [OF a(1)] local_day_last [OF dated(2)] local_date_inject [OF _ dated(2)] by auto
  moreover have "map_of (rev (dated_states (ks @ [(T, k)]))) (iso_date n) = map_of (rev (dated_states ks)) (iso_date n)"
    if "iso_date n \<noteq> iso_date T" for n k
    using that by (simp add: dated_states_def)
  ultimately show ?thesis
    unfolding createSeriesStreakDays_def before after by (auto simp: set_insort_key)
qed

lemma series_overlay:
  assumes sorted: "sorted_wrt (<) ds" and dated: "\<forall>d \<in> set ds. local_day d" "local_day T" "T < last_day" and fresh: "T \<notin> set ds"
    and a: "local_day a" "a \<le> T" and range: "se_from base = iso_date a" "se_to base = iso_date T"
    and streak: "se_streakDays base = createSeriesStreakDays (map iso_date [a..T]) (map iso_date ds)
      (ev_streakDays (evaluation_of_days default_units ds T)) (iso_date T)"
    and here: "iso_date T \<in> set active"
  shows "\<exists>sn. buildRenderedSeries (Some base) fallback active pending True = Some (Inr (Some sn))
    \<and> se_streakDays sn = createSeriesStreakDays (map iso_date [a..T]) (map iso_date (insort T ds))
      (ev_streakDays (evaluation_of_days default_units (insort T ds) T)) (iso_date T)"
proof -
  let ?b = "ProgressSeries.truncate base"
  let ?days = "createSeriesStreakDays (map iso_date [a..T]) (map iso_date (insort T ds))
      (ev_streakDays (evaluation_of_days default_units (insort T ds) T)) (iso_date T)"
  let ?pending = "buildDailyReviewPointMap (option_default [] pending)"
  let ?fallback = "case map_option ProgressSeries.truncate fallback of None \<Rightarrow> [] | Some s \<Rightarrow> buildDailyReviewPointMap (se_dailyReviews s)"
  have b: "se_from ?b = iso_date a" "se_to ?b = iso_date T" "se_streakDays ?b = se_streakDays base"
    using range by (simp_all add: ProgressSeries.truncate_def)
  have fst_days: "map fst (createSeriesStreakDays r dates ev today) = r" for r dates ev today
    by (simp add: createSeriesStreakDays_def o_def)
  obtain points where norm: "normalizeProgressSeries ?b = Some (Inr (?b\<lparr>se_dailyReviews := points\<rparr>))"
    using normalized_series [OF a(1) dated(2) a(2) dated(3) b(1,2)] by (auto simp: b(3) streak fst_days)
  obtain merged where merged: "map_r (overlay_day ?pending ?fallback) points = Inr merged" using overlay_points by blast
  have days: "mergeProgressStreakDaysWithOverlay (?b\<lparr>se_dailyReviews := points\<rparr>) active overlayDates = ?days" for overlayDates
    unfolding streak_days_today [OF sorted dated(1,2) fresh a] using here
    by (simp add: mergeProgressStreakDaysWithOverlay_def b streak Let_def)
  have rendered: "\<exists>sn. createProgressSeriesSnapshot s ServerSource flag = Some (Inr sn) \<and> se_streakDays sn = ?days"
    if "se_from s = iso_date a" "se_to s = iso_date T" "se_streakDays s = ?days" for s flag
    using normalized_series [OF a(1) dated(2) a(2) dated(3) that(1,2)] that(3)
    by (auto simp: createProgressSeriesSnapshot_def fst_days)
  let ?fl = "map_option ProgressSeries.truncate fallback"
  have merge: "mergeProgressSeriesWithOverlay ?b pending fl active = (if \<not> list_ex snd merged \<and> areStreakDaysEqual ?days (se_streakDays base)
      then Some (Inr (?b\<lparr>se_dailyReviews := points\<rparr>, False))
      else Some (Inr (?b\<lparr>se_dailyReviews := map fst merged, se_streakDays := ?days\<rparr>, True)))"
    if m: "map_r (overlay_day ?pending (case fl of None \<Rightarrow> [] | Some s \<Rightarrow> buildDailyReviewPointMap (se_dailyReviews s))) points = Inr merged"
    for fl merged
    using m b(3) by (simp add: mergeProgressSeriesWithOverlay_def norm days Let_def del: option.case(2))
  have "\<exists>s flag. mergeProgressSeriesWithOverlay ?b pending ?fl active = Some (Inr (s, flag))
      \<and> se_from s = iso_date a \<and> se_to s = iso_date T \<and> se_streakDays s = ?days"
  proof (cases "\<not> list_ex snd merged \<and> areStreakDaysEqual ?days (se_streakDays base)")
    case True
    then have "se_streakDays base = ?days"
      by (auto simp: areStreakDaysEqual_def list_all2_conv_all_nth intro!: nth_equalityI prod_eqI)
    moreover have "mergeProgressSeriesWithOverlay ?b pending ?fl active = Some (Inr (?b\<lparr>se_dailyReviews := points\<rparr>, False))"
      unfolding merge [OF merged] by (rule if_P [OF True])
    ultimately show ?thesis using b by - (intro exI conjI, assumption, simp_all)
  next
    case False
    have "mergeProgressSeriesWithOverlay ?b pending ?fl active
        = Some (Inr (?b\<lparr>se_dailyReviews := map fst merged, se_streakDays := ?days\<rparr>, True))"
      unfolding merge [OF merged] by (rule if_not_P [OF False])
    then show ?thesis using b by - (intro exI conjI, assumption, simp_all)
  qed
  then obtain s flag where "mergeProgressSeriesWithOverlay ?b pending (map_option ProgressSeries.truncate fallback) active = Some (Inr (s, flag))"
      "se_from s = iso_date a" "se_to s = iso_date T" "se_streakDays s = ?days" by blast
  with rendered [of s flag] show ?thesis by (auto simp: buildRenderedSeries_def)
qed

end
