(* ===== verification/ProgressProperties.thy ===== *)
theory ProgressProperties
  imports WebProgress SyncProperties StreakProperties
begin

text \<open>
  The properties of the progress reports: what the web client computes from the same days as the
  server and what it lays over the server's report, the series of a user, and the schedule of due cards.
\<close>

section \<open>Concrete inputs of the witnesses\<close>

definition undated_review :: stored_review where
  "undated_review = \<lparr>v_review_event_id = ''r'', v_workspace_id = ''w'', v_card_id = ''c'', v_replica_id = ''a'',
     v_client_event_id = ''1'', v_rating = 2, v_reviewed_at_client = Date (19005 * ms_per_day),
     v_reviewed_at_server = Date (19005 * ms_per_day), v_reviewed_by = ''u'', v_time_zone = None, v_local_date = None,
     v_zone_source = None\<rparr>"

definition due_card :: "js_date option \<Rightarrow> stored_card" where
  "due_card due = \<lparr>k_workspace_id = ''w'', k_card_id = ''c'', k_front_text = ''f'', k_back_text = ''b'', k_card_type = ''basic'',
     k_metadata = JNull, k_tags = [], k_due_at = due, k_created_at = Date 0, k_reps = 0, k_lapses = 0, k_state = New,
     k_step_index = None, k_stability = None, k_difficulty = None, k_last_reviewed_at = None, k_scheduled_days = None,
     k_client_updated_at = Date 0, k_replica_id = ''a'', k_operation_id = ''1'', k_updated_at = Date 0, k_deleted_at = None\<rparr>"

definition progress_cloud :: cloud_db where
  "progress_cloud = small_cloud\<lparr>cd_reviews := [undated_review], cd_cards := [due_card None, due_card (Some (Date 0))]\<rparr>"

definition utc_zones :: db_zones where
  "utc_zones = \<lparr>dz_local_date = (\<lambda>_ _. iso_date 19005), dz_midnight = (\<lambda>_ days _. (19005 + days) * ms_per_day)\<rparr>"

definition progress_env :: cloud_env where
  "progress_env = small_env\<lparr>env_local_date := (\<lambda>_ _. iso_date 19006)\<rparr>"

lemma progress_cloud_ok: "days_counted progress_cloud" "days_dated progress_cloud"
  by (simp_all add: days_counted_def days_dated_def progress_cloud_def small_cloud_def day_count_def counted_on_def undated_review_def)

lemma trim_samples: "trim ''w'' \<noteq> []" "trim ''UTC'' \<noteq> []"
  by code_simp+

lemma utc_zones_ok: "zones_dated utc_zones"
  using sample_days(2) by (auto simp: zones_dated_def utc_zones_def)

lemma default_units_summary:
  "\<exists>s. summary_of_days plain_collation (map iso_date [19000, 19001, 19005]) (iso_date 19006) = Some (Inr s)"
  using summary_days [OF sample_days plain_collation_dates] by (auto simp: Let_def)

section \<open>The same numbers on both sides\<close>

text \<open>
  C13. The summary the web client computes on its own, from review dates in any order and with
  repetitions, is the summary the server computes from the user's active days: both return, with the
  same streaks, the same last day, the same number of days and the same freeze.
\<close>

theorem local_summary_is_server_summary:
  assumes "sorted_wrt (<) ds" and "\<forall>d \<in> set ds. local_day d" and "local_day T" and "T < last_day"
    and "collates_dates lc" and "set dates = iso_date ` set ds"
  shows "\<exists>s. summaryLowerBoundFromActiveDates lc dates (iso_date T) = Some (Inr s)
    \<and> summary_of_days lc (map iso_date ds) (iso_date T) = Some (Inr s)
    \<and> evaluateProgressStreakFreeze lc (map iso_date ds) (iso_date T)
      = evaluateStreakFreeze lc (map iso_date ds) (iso_date T) streakFreezePolicy"
  using local_summary [OF assms] summary_days [OF assms(1-5)] web_evaluation by (simp add: Let_def)

theorem local_summary_is_server_summary_witness:
  "\<exists>s. summaryLowerBoundFromActiveDates plain_collation (map iso_date [19005, 19000, 19001, 19000]) (iso_date 19006) = Some (Inr s)
    \<and> summary_of_days plain_collation (map iso_date [19000, 19001, 19005]) (iso_date 19006) = Some (Inr s)"
proof -
  have "set (map iso_date [19005, 19000, 19001, 19000]) = iso_date ` set [19000, 19001, 19005]" by auto
  from local_summary_is_server_summary [OF sample_days plain_collation_dates this] show ?thesis by blast
qed

text \<open>
  C31. A review of today that only the client knows, laid over what the server sent, gives what the
  server computes once it knows the review: the merged summary is the summary of the days with today, and
  the streak days of the rendered series, for a range that ends today, are those the server reports then.
\<close>

theorem overlay_is_recomputation:
  assumes "sorted_wrt (<) ds" and "\<forall>d \<in> set ds. local_day d" and "local_day T" and "T < last_day" and "T \<notin> set ds"
    and "collates_dates lc" and "iso_date T \<in> set active"
    and "summary_of_days lc (map iso_date ds) (iso_date T) = Some (Inr (pp_summary snapshot))"
    and "evaluateStreakFreeze lc (map iso_date ds) (iso_date T) streakFreezePolicy = Some (Inr ev)"
    and "local_day a" and "a \<le> T" and "se_from base = iso_date a" and "se_to base = iso_date T"
    and "se_streakDays base = createSeriesStreakDays (map iso_date [a..T]) (map iso_date ds) (ev_streakDays ev) (iso_date T)"
  shows "(\<exists>p. mergeProgressSummary snapshot active ctx (iso_date T) = Inr p
      \<and> summary_of_days lc (map iso_date (insort T ds)) (iso_date T) = Some (Inr (pp_summary p)))
    \<and> (\<exists>sn ev'. buildRenderedSeries (Some base) fallback active pending True = Some (Inr (Some sn))
      \<and> evaluateStreakFreeze lc (map iso_date (insort T ds)) (iso_date T) streakFreezePolicy = Some (Inr ev')
      \<and> se_streakDays sn = createSeriesStreakDays (map iso_date [a..T]) (map iso_date (insort T ds)) (ev_streakDays ev') (iso_date T))"
proof -
  have ev: "ev = evaluation_of_days default_units ds T"
    using evaluateStreakFreeze_days [OF default_units assms(1-4,6)] assms(9) by simp
  have dated': "\<forall>d \<in> set (insort T ds). local_day d" using assms(2,3) by (simp add: set_insort_key)
  have "hasLocalReferenceReview active ctx (iso_date T)" using assms(7) by (simp add: hasLocalReferenceReview_def)
  note summary = summary_overlay [OF assms(1-6,8) this]
  obtain sn where sn: "buildRenderedSeries (Some base) fallback active pending True = Some (Inr (Some sn))"
    "se_streakDays sn = createSeriesStreakDays (map iso_date [a..T]) (map iso_date (insort T ds))
      (ev_streakDays (evaluation_of_days default_units (insort T ds) T)) (iso_date T)"
    using series_overlay [OF assms(1-5,10-13) assms(14) [unfolded ev] assms(7)] by blast
  note after = evaluateStreakFreeze_days [OF default_units insort_today(1) [OF assms(1,5)] dated' assms(3,4,6)]
  show ?thesis by (intro conjI summary) (use sn after in blast)
qed

theorem overlay_is_recomputation_witness:
  "\<exists>snapshot base p sn. mergeProgressSummary snapshot [iso_date 19006] None (iso_date 19006) = Inr p
    \<and> summary_of_days plain_collation (map iso_date [19000, 19001, 19005, 19006]) (iso_date 19006) = Some (Inr (pp_summary p))
    \<and> buildRenderedSeries (Some base) None [iso_date 19006] None True = Some (Inr (Some sn))"
proof -
  obtain s where s: "summary_of_days plain_collation (map iso_date [19000, 19001, 19005]) (iso_date 19006) = Some (Inr s)"
    using default_units_summary by blast
  let ?snapshot = "\<lparr>pp_timeZone = ''UTC'', pp_generatedAt = None, pp_watermarks = [], pp_summary = s, pn_source = ServerSource,
    pn_isApproximate = False\<rparr>"
  let ?ev = "evaluation_of_days default_units [19000, 19001, 19005] 19006"
  let ?base = "\<lparr>se_timeZone = ''UTC'', se_from = iso_date 19000, se_to = iso_date 19006, se_dailyReviews = [],
    se_streakDays = createSeriesStreakDays (map iso_date [19000..19006]) (map iso_date [19000, 19001, 19005])
      (ev_streakDays ?ev) (iso_date 19006), se_generatedAt = None, se_watermarks = [], sn_chartData = [],
    sn_source = ServerSource, sn_isApproximate = False\<rparr>"
  note ev = evaluateStreakFreeze_days [OF default_units sample_days plain_collation_dates]
  have "local_day 19000" "(19000 :: int) \<le> 19006" "19006 \<notin> set [19000, 19001, 19005 :: int]"
    "iso_date 19006 \<in> set [iso_date 19006]" "insort 19006 [19000, 19001, 19005 :: int] = [19000, 19001, 19005, 19006]"
    using sample_days(2) by simp_all
  note facts = this
  have s': "summary_of_days plain_collation (map iso_date [19000, 19001, 19005]) (iso_date 19006) = Some (Inr (pp_summary ?snapshot))"
    using s by simp
  have base: "se_from ?base = iso_date 19000" "se_to ?base = iso_date 19006"
    "se_streakDays ?base = createSeriesStreakDays (map iso_date [19000..19006]) (map iso_date [19000, 19001, 19005])
      (ev_streakDays ?ev) (iso_date 19006)" by (simp_all only: ProgressSeries.select_convs)
  from overlay_is_recomputation [OF sample_days facts(3) plain_collation_dates facts(4) s' ev facts(1,2) base, of None None None]
  show ?thesis unfolding facts(5) by blast
qed

section \<open>Reports of the server\<close>

text \<open>
  C39. The series of a user is served: with the table of active days in step with the reviews,
  the report gives the missing reviews their days, counts the reviews of the range, and passes its own
  check. Its daily reviews and its streak days are the days of the requested range, a day with reviews
  is a reviewed day, and the table of active days it leaves is still in step with the reviews.
\<close>

theorem series_is_served:
  assumes "days_counted db" and "days_dated db" and "zones_dated z"
    and "series_served e allowed sequence workspaceIds (pi_timeZone input)"
    and "local_day a" and "local_day b" and "a \<le> b" and "pi_from input = iso_date a" and "pi_to input = iso_date b"
    and "env_local_date e (Date t) (pi_timeZone input) = iso_date T" and "local_day T" and "T < last_day"
    and "collates_dates lc"
  shows "\<exists>series db'. buildUserProgressSeriesInExecutor e lc z allowed sequence workspaceIds True db user input (Date t)
      = Some (Inr (series, db'))
    \<and> days_counted db' \<and> days_dated db'
    \<and> map dp_date (se_dailyReviews series) = map iso_date [a..b] \<and> map fst (se_streakDays series) = map iso_date [a..b]
    \<and> (\<forall>p \<in> set (se_dailyReviews series). 0 < dc_reviewCount p \<longrightarrow> (dp_date p, Reviewed) \<in> set (se_streakDays series))"
proof -
  obtain series db' counts dates evaluated where
    run: "buildUserProgressSeriesInExecutor e lc z allowed sequence workspaceIds True db user input (Date t) = Some (Inr (series, db'))"
      "days_counted db'" "days_dated db'" and on: "counts_on (set dates) counts"
    and daily: "se_dailyReviews series = createDailyReviews (map iso_date [a..b]) counts"
    and streak: "se_streakDays series = createSeriesStreakDays (map iso_date [a..b]) dates evaluated (iso_date T)"
    using series_returns [OF assms] by blast
  have "\<forall>p \<in> set (se_dailyReviews series). 0 < dc_reviewCount p \<longrightarrow> (dp_date p, Reviewed) \<in> set (se_streakDays series)"
    using on unfolding daily streak by (auto simp: createDailyReviews_def createSeriesStreakDays_def counts_on_def Let_def)
  moreover have "map dp_date (se_dailyReviews series) = map iso_date [a..b]" "map fst (se_streakDays series) = map iso_date [a..b]"
    unfolding daily streak by (simp_all add: createSeriesStreakDays_def o_def)
  ultimately show ?thesis using run by (intro exI conjI)
qed

theorem series_is_served_witness:
  "\<exists>series db'. buildUserProgressSeriesInExecutor progress_env plain_collation utc_zones (\<lambda>_. True) (\<lambda>_. 1) [''w''] True
      progress_cloud ''u'' \<lparr>pi_timeZone = ''UTC'', pi_from = iso_date 19000, pi_to = iso_date 19006\<rparr> (Date 0) = Some (Inr (series, db'))
    \<and> map dp_date (se_dailyReviews series) = map iso_date [19000..19006]"
proof -
  let ?input = "\<lparr>pi_timeZone = ''UTC'', pi_from = iso_date 19000, pi_to = iso_date 19006\<rparr>"
  have served: "series_served progress_env (\<lambda>_. True) (\<lambda>_. 1) [''w''] (pi_timeZone ?input)"
    by (simp add: series_served_def progress_env_def small_env_def trim_samples)
  have input: "local_day 19000" "local_day 19006" "(19000 :: int) \<le> 19006" "pi_from ?input = iso_date 19000"
    "pi_to ?input = iso_date 19006" "env_local_date progress_env (Date 0) (pi_timeZone ?input) = iso_date 19006"
    using sample_days(2,3) by (simp_all add: progress_env_def)
  from series_is_served [OF progress_cloud_ok utc_zones_ok served input sample_days(3,4) plain_collation_dates]
  show ?thesis by blast
qed

text \<open>
  C40. The schedule of due cards counts every live card of the requested workspaces in exactly one of
  its buckets, cards that are due at no time included: it is served, and its buckets, in their fixed
  order, add up to its total, which is the number of those cards. The starts of the days that the
  database computes only need to follow one another.
\<close>

theorem schedule_counts_every_card:
  assumes "\<forall>w \<in> set workspaceIds. allowed w \<and> trim w \<noteq> []" and "\<forall>i. sequence i \<le> 2 ^ 53 - 1"
    and "rising (day_start z tz (Date t))"
  shows "\<exists>sc. buildUserProgressReviewScheduleInExecutor lc z allowed sequence workspaceIds db tz (Date t) = Inr sc
    \<and> sc_totalCards sc = sum_list (map snd (sc_buckets sc))
    \<and> map fst (sc_buckets sc) = reviewScheduleBucketKeys
    \<and> sc_totalCards sc = (\<Sum>w \<leftarrow> workspaceIds.
        int (length (filter (\<lambda>c. k_workspace_id c = w \<and> k_deleted_at c = None) (cd_cards db))))"
  by (rule schedule_returns [OF assms])

theorem schedule_counts_every_card_witness:
  "\<exists>sc. buildUserProgressReviewScheduleInExecutor plain_collation utc_zones (\<lambda>_. True) (\<lambda>_. 1) [''w''] progress_cloud ''UTC'' (Date 0)
      = Inr sc \<and> sc_totalCards sc = 2"
proof -
  have ok: "\<forall>w \<in> set [''w'']. True \<and> trim w \<noteq> []" "\<forall>i. (1 :: nat) \<le> 2 ^ 53 - 1" "rising (day_start utc_zones ''UTC'' (Date 0))"
    by (simp_all add: trim_samples rising_def day_start_def utc_zones_def ms_per_day_def)
  have "length (live_cards progress_cloud ''w'') = 2" by (simp add: progress_cloud_def due_card_def)
  with schedule_counts_every_card [OF ok, of plain_collation progress_cloud] show ?thesis by auto
qed

end
