(* ===== verification/WebOutbox.thy ===== *)
theory WebOutbox
  imports WebStore
begin

text \<open>
  Local writes of the web client (\<open>appData/sync/local/syncLocalMutations.ts\<close>): a card, a deck or a
  review is stored in the browser, and an operation that tells the server is put into the outbox
  (\<open>localDb/sync/outbox.ts\<close>), which \<open>pushOutbox\<close> (\<open>appData/sync/remote/pushOutbox.ts\<close>) sends. Random identifiers and
  times are arguments. A local write returns its result and the next state of the device, also when it
  throws. The recovery from a database that cannot be opened, runs that failed or were discarded, and the
  cache of daily counts beside the review events are left out.
\<close>

section \<open>The outbox\<close>

record PersistedOutboxRecord =
  or_operationId :: string
  or_workspaceId :: string
  or_createdAt :: string
  or_attemptCount :: int
  or_lastError :: string
  or_affectsReviewSchedule :: "bool option"
  or_operation :: SyncPushOperation

definition isScheduleRelevantCardOutboxRecord :: "PersistedOutboxRecord \<Rightarrow> bool" where
  "isScheduleRelevantCardOutboxRecord r = (case payload (or_operation r) of
     push_payload.CardUpsert _ \<Rightarrow> or_else (or_affectsReviewSchedule r) True
   | _ \<Rightarrow> False)"

definition isProgressReviewEventOperation :: "PersistedOutboxRecord \<Rightarrow> bool" where
  "isProgressReviewEventOperation r = (case payload (or_operation r) of ReviewEventAppend _ \<Rightarrow> True | _ \<Rightarrow> False)"

text \<open>The store has the key \<open>[workspaceId, operationId]\<close>; the order of the list is of no account.\<close>

definition outbox_key :: "PersistedOutboxRecord \<Rightarrow> string \<times> string" where
  "outbox_key r = (or_workspaceId r, or_operationId r)"

definition putOutboxRecord :: "PersistedOutboxRecord \<Rightarrow> PersistedOutboxRecord list \<Rightarrow> PersistedOutboxRecord list" where
  "putOutboxRecord r outbox = filter (\<lambda>q. outbox_key q \<noteq> outbox_key r) outbox @ [r]"

definition deleteOutboxRecord :: "string \<Rightarrow> string \<Rightarrow> PersistedOutboxRecord list \<Rightarrow> PersistedOutboxRecord list" where
  "deleteOutboxRecord wsp i outbox = filter (\<lambda>q. outbox_key q \<noteq> (wsp, i)) outbox"

text \<open>The index orders by workspace and creation time, records with both equal by their key.\<close>

definition listOutboxRecords :: "string \<Rightarrow> PersistedOutboxRecord list \<Rightarrow> PersistedOutboxRecord list" where
  "listOutboxRecords wsp outbox =
     filter (\<lambda>r. or_workspaceId r = wsp) (sort_key or_createdAt (sort_key or_operationId outbox))"

section \<open>The device\<close>

record web_device =
  dv_store :: web_store
  dv_reviewEvents :: "string \<times> string \<rightharpoonup> WebModel.ReviewEvent"
  dv_outbox :: "PersistedOutboxRecord list"
  dv_installationId :: "string option"

definition requireCloudInstallationId :: "string option \<Rightarrow> string result" where
  "requireCloudInstallationId settings = (case settings of
     None \<Rightarrow> Inl (Error ''Cloud settings are not loaded'')
   | Some i \<Rightarrow> if trim i = [] then Inl (Error ''Cloud settings installationId is not loaded'') else Inr i)"

definition loadCardById :: "string \<Rightarrow> string \<Rightarrow> web_store \<Rightarrow> Card option" where
  "loadCardById wsp i s = (case ws_cards s (wsp, i) of
     None \<Rightarrow> None | Some r \<Rightarrow> if deletedAt r \<noteq> None then None else Some (toCard r))"

definition loadDeckRecord :: "string \<Rightarrow> string \<Rightarrow> web_store \<Rightarrow> Deck option" where
  "loadDeckRecord wsp i s = (case ws_decks s (wsp, i) of
     None \<Rightarrow> None | Some deck \<Rightarrow> if deckDeletedAt deck \<noteq> None then None else Some deck)"

definition requireCard :: "string \<Rightarrow> string \<Rightarrow> web_store \<Rightarrow> Card result" where
  "requireCard wsp i s = (case loadCardById wsp i s of
     None \<Rightarrow> Inl (Error (''Card not found: '' @ i)) | Some c \<Rightarrow> Inr c)"

definition requireDeck :: "string \<Rightarrow> string \<Rightarrow> web_store \<Rightarrow> Deck result" where
  "requireDeck wsp i s = (case loadDeckRecord wsp i s of
     None \<Rightarrow> Inl (Error (''Deck not found: '' @ i)) | Some deck \<Rightarrow> Inr deck)"

section \<open>Local writes\<close>

record LocalCardMutationResult =
  lc_card :: Card
  lc_didChangeProgressHistory :: bool
  lc_didChangeReviewSchedule :: bool

definition outbox_record :: "string \<Rightarrow> string \<Rightarrow> string \<Rightarrow> bool option \<Rightarrow> SyncPushOperation \<Rightarrow> PersistedOutboxRecord" where
  "outbox_record wsp i made affects op = \<lparr>or_operationId = i, or_workspaceId = wsp, or_createdAt = made, or_attemptCount = 0,
     or_lastError = [], or_affectsReviewSchedule = affects, or_operation = op\<rparr>"

text \<open>The end of every write of a card: the operation is built, the card is put, then the record.\<close>

definition store_card ::
    "string \<Rightarrow> string \<Rightarrow> string \<Rightarrow> Card option \<Rightarrow> Card \<Rightarrow> web_device \<Rightarrow> LocalCardMutationResult result \<times> web_device" where
  "store_card wsp i made existing nextCard dv = (let
     affects = doesCardMutationAffectReviewSchedule existing nextCard
   in case rbind (buildCardUpsertOperation nextCard) (\<lambda>op.
        rbind (putCardInTransaction wsp nextCard (dv_store dv)) (\<lambda>s. Inr (op, s))) of
      Inl err \<Rightarrow> (Inl err, dv)
    | Inr (op, s) \<Rightarrow> (Inr \<lparr>lc_card = nextCard, lc_didChangeProgressHistory = False, lc_didChangeReviewSchedule = affects\<rparr>,
        dv\<lparr>dv_store := s, dv_outbox := putOutboxRecord (outbox_record wsp i made (Some affects) op) (dv_outbox dv)\<rparr>))"

definition createCardLocally ::
    "string \<Rightarrow> string \<Rightarrow> string \<Rightarrow> WebModel.CreateCardInput \<Rightarrow> string \<Rightarrow> web_device \<Rightarrow> LocalCardMutationResult result \<times> web_device" where
  "createCardLocally uuid newCardId wsp input updated dv = (let i = to_lower uuid in
     case rbind (WebEditing.normalizeCreateCardInput input) (\<lambda>normalizedInput.
       rbind (requireCloudInstallationId (dv_installationId dv)) (\<lambda>installationId.
       Inr (buildInitialCard newCardId normalizedInput updated installationId i))) of
       Inl err \<Rightarrow> (Inl err, dv)
     | Inr nextCard \<Rightarrow> store_card wsp i updated None nextCard dv)"

definition updateCardLocally ::
    "string \<Rightarrow> string \<Rightarrow> string \<Rightarrow> WebModel.UpdateCardInput \<Rightarrow> string \<Rightarrow> web_device \<Rightarrow> LocalCardMutationResult result \<times> web_device" where
  "updateCardLocally uuid wsp cid input updated dv = (let i = to_lower uuid in
     case rbind (requireCard wsp cid (dv_store dv)) (\<lambda>existingCard.
       rbind (WebEditing.normalizeUpdateCardInput input) (\<lambda>normalizedInput.
       rbind (requireCloudInstallationId (dv_installationId dv)) (\<lambda>installationId.
       Inr (existingCard, buildUpdatedCard existingCard normalizedInput updated installationId i)))) of
       Inl err \<Rightarrow> (Inl err, dv)
     | Inr (existingCard, nextCard) \<Rightarrow> store_card wsp i updated (Some existingCard) nextCard dv)"

definition deleteCardLocally ::
    "string \<Rightarrow> string \<Rightarrow> string \<Rightarrow> string \<Rightarrow> web_device \<Rightarrow> LocalCardMutationResult result \<times> web_device" where
  "deleteCardLocally uuid wsp cid updated dv = (let i = to_lower uuid in
     case rbind (requireCard wsp cid (dv_store dv)) (\<lambda>existingCard.
       rbind (requireCloudInstallationId (dv_installationId dv)) (\<lambda>installationId.
       Inr (existingCard, buildDeletedCard existingCard updated installationId i))) of
       Inl err \<Rightarrow> (Inl err, dv)
     | Inr (existingCard, nextCard) \<Rightarrow> store_card wsp i updated (Some existingCard) nextCard dv)"

definition store_deck :: "string \<Rightarrow> string \<Rightarrow> string \<Rightarrow> Deck \<Rightarrow> web_device \<Rightarrow> web_device" where
  "store_deck wsp i made nextDeck dv = dv\<lparr>dv_store := putDeckInTransaction nextDeck (dv_store dv),
     dv_outbox := putOutboxRecord (outbox_record wsp i made None (buildDeckUpsertOperation nextDeck)) (dv_outbox dv)\<rparr>"

definition createDeckLocally ::
    "string \<Rightarrow> string \<Rightarrow> string \<Rightarrow> WebModel.DeckInput \<Rightarrow> string \<Rightarrow> web_device \<Rightarrow> Deck result \<times> web_device" where
  "createDeckLocally uuid newDeckId wsp input updated dv = (let i = to_lower uuid in
     case rbind (WebEditing.normalizeCreateDeckInput input) (\<lambda>normalizedInput.
       rbind (requireCloudInstallationId (dv_installationId dv)) (\<lambda>installationId.
       Inr ((buildDeck newDeckId normalizedInput updated installationId i)\<lparr>deckWorkspaceId := wsp\<rparr>))) of
       Inl err \<Rightarrow> (Inl err, dv)
     | Inr nextDeck \<Rightarrow> (Inr nextDeck, store_deck wsp i updated nextDeck dv))"

definition updateDeckLocally ::
    "string \<Rightarrow> string \<Rightarrow> string \<Rightarrow> WebModel.DeckInput \<Rightarrow> string \<Rightarrow> web_device \<Rightarrow> Deck result \<times> web_device" where
  "updateDeckLocally uuid wsp did input updated dv = (let i = to_lower uuid in
     case rbind (requireDeck wsp did (dv_store dv)) (\<lambda>existingDeck.
       rbind (WebEditing.normalizeUpdateDeckInput input) (\<lambda>normalizedInput.
       rbind (requireCloudInstallationId (dv_installationId dv)) (\<lambda>installationId.
       Inr (buildUpdatedDeck existingDeck normalizedInput updated installationId i)))) of
       Inl err \<Rightarrow> (Inl err, dv)
     | Inr nextDeck \<Rightarrow> (Inr nextDeck, store_deck wsp i updated nextDeck dv))"

definition deleteDeckLocally ::
    "string \<Rightarrow> string \<Rightarrow> string \<Rightarrow> string \<Rightarrow> web_device \<Rightarrow> Deck result \<times> web_device" where
  "deleteDeckLocally uuid wsp did updated dv = (let i = to_lower uuid in
     case rbind (requireDeck wsp did (dv_store dv)) (\<lambda>existingDeck.
       rbind (requireCloudInstallationId (dv_installationId dv)) (\<lambda>installationId.
       Inr (buildDeletedDeck existingDeck updated installationId i))) of
       Inl err \<Rightarrow> (Inl err, dv)
     | Inr nextDeck \<Rightarrow> (Inr nextDeck, store_deck wsp i updated nextDeck dv))"

text \<open>A review: the event, the card, and one operation for each. \<open>p\<close> parses the dates the host parses.\<close>

definition reviewed_locally ::
    "js_math \<Rightarrow> (string \<Rightarrow> js_date) \<Rightarrow> string \<Rightarrow> string \<Rightarrow> ReviewRating \<Rightarrow> string \<Rightarrow> string \<Rightarrow> web_device
     \<Rightarrow> (Card \<times> Card \<times> string) result" where
  "reviewed_locally m p wsp cid rating reviewedAt cardOperation dv =
     rbind (requireCard wsp cid (dv_store dv)) (\<lambda>existingCard.
     rbind (case ws_workspaceSettings (dv_store dv) wsp of
         None \<Rightarrow> Inl (Error ''Workspace scheduler settings are not loaded'') | Some settings \<Rightarrow> Inr settings) (\<lambda>settings.
     rbind (requireCloudInstallationId (dv_installationId dv)) (\<lambda>installationId.
     rbind (computeReviewSchedule m (toReviewableCardState p existingCard) (scheduler_config.truncate settings) rating
         (new_date_text p reviewedAt)) (\<lambda>schedule.
     rbind (buildReviewedCard existingCard schedule reviewedAt installationId cardOperation) (\<lambda>nextCard.
     Inr (existingCard, nextCard, installationId))))))"

definition submitReviewLocally ::
    "js_math \<Rightarrow> (string \<Rightarrow> js_date) \<Rightarrow> string \<times> string \<times> string \<Rightarrow> string \<Rightarrow> string \<Rightarrow> ReviewRating \<Rightarrow> string \<Rightarrow> string
     \<Rightarrow> web_device \<Rightarrow> LocalCardMutationResult result \<times> web_device" where
  "submitReviewLocally m p uuids wsp cid rating reviewedAt timeZone dv = (case uuids of (eventUuid, clientUuid, cardUuid) \<Rightarrow>
     let eventId = to_lower eventUuid; clientEvent = to_lower clientUuid; cardOperation = to_lower cardUuid in
     case rbind (reviewed_locally m p wsp cid rating reviewedAt cardOperation dv) (\<lambda>(existingCard, nextCard, installationId).
       rbind (buildCardUpsertOperation nextCard) (\<lambda>op. Inr (existingCard, nextCard, installationId, op))) of
       Inl err \<Rightarrow> (Inl err, dv)
     | Inr (existingCard, nextCard, installationId, op) \<Rightarrow> (let
         event = buildReviewEvent wsp cid installationId rating reviewedAt (Some timeZone) eventId clientEvent;
         affects = doesCardMutationAffectReviewSchedule (Some existingCard) nextCard;
         dv = dv\<lparr>dv_reviewEvents := (dv_reviewEvents dv)((wsp, eventId) \<mapsto> event)\<rparr>
       in case putCardInTransaction wsp nextCard (dv_store dv) of
         Inl err \<Rightarrow> (Inl err, dv)
       | Inr s \<Rightarrow> (Inr \<lparr>lc_card = nextCard, lc_didChangeProgressHistory = True, lc_didChangeReviewSchedule = affects\<rparr>,
           dv\<lparr>dv_store := s, dv_outbox :=
             putOutboxRecord (outbox_record wsp cardOperation reviewedAt (Some affects) op)
               (putOutboxRecord (outbox_record wsp eventId reviewedAt None (buildReviewEventAppendOperation event))
                 (dv_outbox dv))\<rparr>)))"

end
