(* ===== verification/WebPush.thy ===== *)
theory WebPush
  imports WebOutbox SyncPush
begin

text \<open>
  Sending the outbox (\<open>appData/sync/remote/pushOutbox.ts\<close>): batches of at most a hundred records, a record
  is deleted when its operation is acknowledged, and a batch that fails is put back with one more attempt.
  A request may reach the server several times before its answer arrives, since the transport sends it again
  after a failure of the network; the text of an error and the reading of an operation by the server are
  parameters.
\<close>

section \<open>The connection\<close>

text \<open>
  An attempt whose answer was lost has run on the server; one that was not delivered has not. The request
  ends with an attempt that is answered, or with an error.
\<close>

datatype attempt = AnswerLost cloud_env | NotDelivered

record push_request =
  rq_attempts :: "attempt list"
  rq_outcome :: "js_error + cloud_env"

definition run_push ::
    "cloud_env \<Rightarrow> string \<Rightarrow> string \<Rightarrow> PushedOperation list \<Rightarrow> cloud_db \<Rightarrow> SyncPushOperationResult list result \<times> cloud_db" where
  "run_push e wsp replicaId operations db = (case processSyncPushOperationsInExecutor e db wsp replicaId operations of
     Inl err \<Rightarrow> (Inl err, db) | Inr (rs, db') \<Rightarrow> (Inr rs, db'))"

fun run_attempt :: "string \<Rightarrow> string \<Rightarrow> PushedOperation list \<Rightarrow> attempt \<Rightarrow> cloud_db \<Rightarrow> cloud_db" where
  "run_attempt wsp replicaId operations (AnswerLost e) db = snd (run_push e wsp replicaId operations db)"
| "run_attempt wsp replicaId operations NotDelivered db = db"

definition pushSyncOperations ::
    "push_request \<Rightarrow> string \<Rightarrow> string \<Rightarrow> PushedOperation list \<Rightarrow> cloud_db \<Rightarrow> SyncPushOperationResult list result \<times> cloud_db" where
  "pushSyncOperations request wsp replicaId operations db = (let
     db = fold (run_attempt wsp replicaId operations) (rq_attempts request) db
   in case rq_outcome request of
        Inl err \<Rightarrow> (Inl err, db)
      | Inr e \<Rightarrow> run_push e wsp replicaId operations db)"

section \<open>The loop\<close>

record RemoteSyncFlags =
  fl_didChangeProgressHistory :: bool
  fl_didChangeReviewSchedule :: bool

definition createEmptyRemoteSyncFlags :: RemoteSyncFlags where
  "createEmptyRemoteSyncFlags = \<lparr>fl_didChangeProgressHistory = False, fl_didChangeReviewSchedule = False\<rparr>"

definition mergeRemoteSyncFlags :: "RemoteSyncFlags \<Rightarrow> RemoteSyncFlags \<Rightarrow> RemoteSyncFlags" where
  "mergeRemoteSyncFlags l r = \<lparr>fl_didChangeProgressHistory = (fl_didChangeProgressHistory l \<or> fl_didChangeProgressHistory r),
     fl_didChangeReviewSchedule = (fl_didChangeReviewSchedule l \<or> fl_didChangeReviewSchedule r)\<rparr>"

definition isAcknowledgedPushStatus :: "PushStatus \<Rightarrow> bool" where
  "isAcknowledgedPushStatus status \<longleftrightarrow> status = Applied \<or> status = Ignored \<or> status = Duplicate"

text \<open>The operations acknowledged by an answer, in its order.\<close>

definition acknowledged :: "SyncPushOperationResult list \<Rightarrow> string list" where
  "acknowledged rs = map pr_operationId (filter (\<lambda>r. isAcknowledgedPushStatus (pr_status r)) rs)"

definition push_batch_size :: nat where
  "push_batch_size = 100"

record push_side =
  sd_describe :: "js_error \<Rightarrow> string"
  sd_read :: "SyncPushOperation \<Rightarrow> PushedOperation"
  sd_workspaceId :: string
  sd_replicaId :: string

text \<open>One turn of the loop, for an outbox that is not empty, in a run that is neither failed nor discarded.\<close>

definition push_round ::
    "push_side \<Rightarrow> push_request \<Rightarrow> RemoteSyncFlags \<Rightarrow> PersistedOutboxRecord list \<Rightarrow> cloud_db
     \<Rightarrow> RemoteSyncFlags result \<times> PersistedOutboxRecord list \<times> cloud_db" where
  "push_round sd request flags outbox db = (let
     wsp = sd_workspaceId sd;
     batch = take push_batch_size (listOutboxRecords wsp outbox);
     reviewScheduleOperationIds = map or_operationId (filter isScheduleRelevantCardOutboxRecord batch)
   in case pushSyncOperations request wsp (sd_replicaId sd) (map (\<lambda>r. sd_read sd (or_operation r)) batch) db of
        (Inl err, db) \<Rightarrow> (Inl err, fold (\<lambda>r. putOutboxRecord (r\<lparr>or_attemptCount := or_attemptCount r + 1,
            or_lastError := sd_describe sd err\<rparr>)) batch outbox, db)
      | (Inr rs, db) \<Rightarrow> (Inr \<lparr>
            fl_didChangeProgressHistory = (fl_didChangeProgressHistory flags \<or> list_ex isProgressReviewEventOperation batch),
            fl_didChangeReviewSchedule = (fl_didChangeReviewSchedule flags
              \<or> list_ex (\<lambda>i. i \<in> set reviewScheduleOperationIds) (acknowledged rs))\<rparr>,
          fold (deleteOutboxRecord wsp) (acknowledged rs) outbox, db))"

text \<open>
  The loop, one unit of fuel and one request per turn; \<open>None\<close> when the fuel is spent before the outbox of the
  workspace is empty. A thrown error ends it.
\<close>

fun push_rounds ::
    "nat \<Rightarrow> push_side \<Rightarrow> (nat \<Rightarrow> push_request) \<Rightarrow> RemoteSyncFlags \<Rightarrow> PersistedOutboxRecord list \<Rightarrow> cloud_db
     \<Rightarrow> (RemoteSyncFlags result \<times> PersistedOutboxRecord list \<times> cloud_db) option" where
  "push_rounds 0 sd requests flags outbox db = None"
| "push_rounds (Suc fuel) sd requests flags outbox db =
     (if listOutboxRecords (sd_workspaceId sd) outbox = [] then Some (Inr flags, outbox, db)
      else case push_round sd (requests 0) flags outbox db of
        (Inl err, outbox, db) \<Rightarrow> Some (Inl err, outbox, db)
      | (Inr flags, outbox, db) \<Rightarrow> push_rounds fuel sd (\<lambda>n. requests (Suc n)) flags outbox db)"

definition pushOutbox ::
    "nat \<Rightarrow> push_side \<Rightarrow> (nat \<Rightarrow> push_request) \<Rightarrow> web_device \<Rightarrow> cloud_db \<Rightarrow> (RemoteSyncFlags result \<times> web_device \<times> cloud_db) option" where
  "pushOutbox fuel sd requests dv db = map_option (\<lambda>(r, outbox, db). (r, dv\<lparr>dv_outbox := outbox\<rparr>, db))
     (push_rounds fuel sd requests createEmptyRemoteSyncFlags (dv_outbox dv) db)"

end
