(* ===== verification/OutboxSpec.thy ===== *)
theory OutboxSpec
  imports WebPush SyncRetry ReviewCounts
begin

text \<open>
  No local write is lost: the operations of the outbox stay there, word for word, until the ledger of the
  server holds them, whatever else the client and the server do and wherever a push is cut off.
\<close>

section \<open>The ledger only grows\<close>

definition ledger_grows :: "cloud_db \<Rightarrow> cloud_db \<Rightarrow> bool" where
  "ledger_grows db db' \<longleftrightarrow> (\<exists>rows. cd_applied db' = cd_applied db @ rows)"

lemma ledger_grows_refl [simp]: "ledger_grows db db"
  by (simp add: ledger_grows_def)

lemma ledger_grows_trans [trans]: "ledger_grows a b \<Longrightarrow> ledger_grows b c \<Longrightarrow> ledger_grows a c"
  by (auto simp: ledger_grows_def)

lemma same_ledger_grows: "cd_applied db' = cd_applied db \<Longrightarrow> ledger_grows db db'"
  by (simp add: ledger_grows_def)

lemma grows_ledger: "ledger_grows db db' \<Longrightarrow> ledger db w replica i \<noteq> [] \<Longrightarrow> ledger db' w replica i \<noteq> []"
  by (auto simp: ledger_grows_def ledger_def)

lemma record_grows:
  assumes "recordAppliedOperation e db w replica operation c = Inr db'"
  shows "ledger_grows db db'" and "ledger db' w replica (p_operationId operation) \<noteq> []"
  using assms by (auto simp: recordAppliedOperation_def res_simps ledger_grows_def ledger_def is_applied_def split: if_splits)

lemma payload_applied: "process_payload e db w replica operation = Inr (Outcome a c db') \<Longrightarrow> cd_applied db' = cd_applied db"
proof -
  assume run: "process_payload e db w replica operation = Inr (Outcome a c db')"
  have "reviews_kept db db' \<or> ledger_kept db db'"
    using run by (cases "p_payload operation")
      (auto simp: process_payload_def process_review_def Let_def res_simps split: if_splits
        intro: reviewless content_reviews [OF upsert_card_kept] append_review_kept, auto simp: reviews_kept_def)
  then show ?thesis by (auto simp: reviews_kept_def ledger_kept_def)
qed

lemma operation_grows:
  assumes "processOperationInExecutor e w replica operation db = Inr (r, db')"
  shows "ledger_grows db db'" and "pr_operationId r = p_operationId operation"
    and "pr_status r \<noteq> Rejected \<Longrightarrow> ledger db' w replica (p_operationId operation) \<noteq> []"
proof -
  obtain outcome where o: "process_payload e db w replica operation = Inr outcome"
    using assms by (auto simp: processOperationInExecutor_def res_simps)
  have "ledger_grows db db' \<and> pr_operationId r = p_operationId operation
    \<and> (pr_status r \<noteq> Rejected \<longrightarrow> ledger db' w replica (p_operationId operation) \<noteq> [])"
  proof (cases outcome)
    case (Reject message)
    then show ?thesis using assms o by (auto simp: processOperationInExecutor_def push_result_def)
  next
    case (Outcome a c db1)
    then have "recordAppliedOperation e db1 w replica operation c = Inr db'"
      using assms o by (auto simp: processOperationInExecutor_def res_simps)
    from record_grows [OF this] same_ledger_grows [OF payload_applied [OF o [unfolded Outcome]]]
    show ?thesis using assms o Outcome ledger_grows_trans by (auto simp: processOperationInExecutor_def res_simps push_result_def)
  qed
  then show "ledger_grows db db'" "pr_operationId r = p_operationId operation"
    "pr_status r \<noteq> Rejected \<Longrightarrow> ledger db' w replica (p_operationId operation) \<noteq> []" by auto
qed

text \<open>One answer for every operation, in order; those that are not rejected are in the ledger.\<close>

definition answers :: "cloud_db \<Rightarrow> string \<Rightarrow> string \<Rightarrow> SyncPushOperationResult list \<Rightarrow> bool" where
  "answers db w replica rs \<longleftrightarrow> (\<forall>r \<in> set rs. pr_status r \<noteq> Rejected \<longrightarrow> ledger db w replica (pr_operationId r) \<noteq> [])"

lemma batch_answers:
  assumes "each_r (push_one e w replica existing) ops db = Inr (rs, db')"
    and "\<And>i. existing i \<noteq> None \<Longrightarrow> ledger db w replica i \<noteq> []"
  shows "ledger_grows db db' \<and> map pr_operationId rs = map p_operationId ops \<and> answers db' w replica rs"
  using assms
proof (induction ops arbitrary: db rs)
  case Nil
  then show ?case by (simp add: answers_def)
next
  case (Cons op ops)
  obtain r rs' db1 where r: "push_one e w replica existing op db = Inr (r, db1)"
      "each_r (push_one e w replica existing) ops db1 = Inr (rs', db')" "rs = r # rs'"
    using Cons.prems(1) by (auto simp: res_simps)
  have one: "ledger_grows db db1 \<and> pr_operationId r = p_operationId op
      \<and> (pr_status r \<noteq> Rejected \<longrightarrow> ledger db1 w replica (p_operationId op) \<noteq> [])"
  proof (cases "existing (p_operationId op)")
    case None
    then have "processOperationInExecutor e w replica op db = Inr (r, db1)" using r(1) by (simp add: push_one_def)
    from operation_grows [OF this] show ?thesis by blast
  next
    case (Some c)
    then show ?thesis using r(1) Cons.prems(2) by (auto simp: push_one_def push_result_def)
  qed
  have "ledger db1 w replica i \<noteq> []" if "existing i \<noteq> None" for i
    using Cons.prems(2) [OF that] grows_ledger one by blast
  note rest = Cons.IH [OF r(2) this]
  have grows: "ledger_grows db1 db'" and ids: "map pr_operationId rs' = map p_operationId ops" and ok: "answers db' w replica rs'"
    using rest by auto
  have "pr_status r \<noteq> Rejected \<longrightarrow> ledger db' w replica (pr_operationId r) \<noteq> []" using one grows_ledger [OF grows] by metis
  then have "answers db' w replica rs" using ok by (simp add: answers_def r(3))
  moreover have "ledger_grows db db'" using one grows ledger_grows_trans by blast
  ultimately show ?case using one ids r(3) by simp
qed

lemma push_answers:
  assumes "processSyncPushOperationsInExecutor e db w replica ops = Inr (rs, db')"
  shows "ledger_grows db db'" and "map pr_operationId rs = map p_operationId ops" and "answers db' w replica rs"
proof -
  let ?db = "with_sync (ensureWorkspaceSyncMetadataInExecutor (cd_sync db) w) db"
  let ?existing = "loadExistingAppliedOperations ?db w replica (map p_operationId ops)"
  have run: "each_r (push_one e w replica ?existing) ops ?db = Inr (rs, db')"
    using assms by (simp add: processSyncPushOperationsInExecutor_def Let_def)
  have existing: "ledger ?db w replica i \<noteq> []" if "?existing i \<noteq> None" for i
    using that by (auto simp: loadExistingAppliedOperations_def ledger_def latest_applied_def split: if_splits)
  from batch_answers [OF run existing] have "ledger_grows ?db db' \<and> map pr_operationId rs = map p_operationId ops \<and> answers db' w replica rs"
    by blast
  moreover have "cd_applied ?db = cd_applied db" by simp
  ultimately show "ledger_grows db db'" "map pr_operationId rs = map p_operationId ops" "answers db' w replica rs"
    by (auto simp: ledger_grows_def)
qed

lemma write_grows: "server_write db db' \<Longrightarrow> ledger_grows db db'"
proof (induction rule: server_write.induct)
  case (push e db w replicaId operations rs db')
  then show ?case by (rule push_answers(1))
next
  case (review m e newIds db w replicaId input md r db')
  then obtain sync db1 ev op a row' lock r' where
    app: "appendReviewEventSnapshotInExecutor e (with_sync sync db) w ev op = Inr (a, db1)"
    and run: "applied_card e w lock row' (put_card w (si_cardId input) row' db1) = Inr (r', db')"
    by (auto simp: submitReview_def Let_def res_simps split: if_splits option.splits)
  have "ledger_kept db1 db'" using content_ledger [OF content_only_trans [OF put_card_kept applied_card_kept [OF run]]] .
  then show ?case using append_review_kept [OF app] by (intro same_ledger_grows) (simp add: ledger_kept_def)
next
  case (settings p now db w input md r s)
  then show ?case by (simp add: ledger_grows_def)
qed (auto dest!: batches_reviews simp: reviews_kept_def intro: same_ledger_grows)

section \<open>A request\<close>

lemma run_push_grows:
  assumes "run_push e w replica ops db = (r, db')"
  shows "ledger_grows db db'" and "\<And>rs. r = Inr rs \<Longrightarrow> map pr_operationId rs = map p_operationId ops \<and> answers db' w replica rs"
proof (atomize (full), cases "processSyncPushOperationsInExecutor e db w replica ops")
  case (Inl err)
  then show "ledger_grows db db' \<and> (\<forall>rs. r = Inr rs \<longrightarrow> map pr_operationId rs = map p_operationId ops \<and> answers db' w replica rs)"
    using assms by (auto simp: run_push_def)
next
  case (Inr x)
  then obtain rs where "processSyncPushOperationsInExecutor e db w replica ops = Inr (rs, db')" "r = Inr rs"
    using assms by (cases x) (auto simp: run_push_def)
  with push_answers [OF this(1)] show "ledger_grows db db' \<and> (\<forall>rs. r = Inr rs \<longrightarrow> map pr_operationId rs = map p_operationId ops \<and> answers db' w replica rs)"
    by auto
qed

lemma attempts_grow: "ledger_grows db (fold (run_attempt w replica ops) attempts db)"
proof (induction attempts arbitrary: db)
  case (Cons a attempts)
  have "ledger_grows db (run_attempt w replica ops a db)"
    by (cases a) (auto intro: run_push_grows [OF surjective_pairing])
  then show ?case using Cons.IH [of "run_attempt w replica ops a db"] ledger_grows_trans by simp
qed simp

lemma request_grows:
  assumes "pushSyncOperations request w replica ops db = (r, db')"
  shows "ledger_grows db db'" and "\<And>rs. r = Inr rs \<Longrightarrow> map pr_operationId rs = map p_operationId ops \<and> answers db' w replica rs"
proof -
  let ?db = "fold (run_attempt w replica ops) (rq_attempts request) db"
  have "ledger_grows ?db db' \<and> (\<forall>rs. r = Inr rs \<longrightarrow> map pr_operationId rs = map p_operationId ops \<and> answers db' w replica rs)"
  proof (cases "rq_outcome request")
    case (Inr e)
    then show ?thesis using assms run_push_grows [of e w replica ops ?db r db'] by (simp add: pushSyncOperations_def Let_def)
  qed (use assms in \<open>auto simp: pushSyncOperations_def Let_def\<close>)
  then show "ledger_grows db db'" "\<And>rs. r = Inr rs \<Longrightarrow> map pr_operationId rs = map p_operationId ops \<and> answers db' w replica rs"
    using attempts_grow ledger_grows_trans by blast+
qed

section \<open>The outbox\<close>

text \<open>What the store and the writes guarantee: one record for a key, named after its operation.\<close>

definition outbox_ok :: "PersistedOutboxRecord list \<Rightarrow> bool" where
  "outbox_ok outbox \<longleftrightarrow> distinct (map outbox_key outbox) \<and> (\<forall>r \<in> set outbox. operationId (or_operation r) = or_operationId r)"

text \<open>A record counts as kept while one with its key, its operation and its creation time is there.\<close>

definition holds :: "PersistedOutboxRecord list \<Rightarrow> PersistedOutboxRecord \<Rightarrow> bool" where
  "holds outbox r \<longleftrightarrow> (\<exists>q \<in> set outbox. outbox_key q = outbox_key r \<and> or_operation q = or_operation r \<and> or_createdAt q = or_createdAt r)"

lemma put_record_ok:
  assumes "outbox_ok outbox" and "operationId (or_operation r) = or_operationId r"
  shows "outbox_ok (putOutboxRecord r outbox)"
proof -
  have "distinct (map outbox_key (filter P outbox))" for P
    using assms(1) by (simp add: outbox_ok_def distinct_map_filter)
  then show ?thesis using assms by (auto simp: outbox_ok_def putOutboxRecord_def)
qed

lemma put_record_holds:
  assumes "holds outbox q" and "outbox_key r = outbox_key q \<Longrightarrow> or_operation r = or_operation q \<and> or_createdAt r = or_createdAt q"
  shows "holds (putOutboxRecord r outbox) q"
  using assms by (cases "outbox_key r = outbox_key q") (auto simp: holds_def putOutboxRecord_def)

lemma put_record_itself: "holds (putOutboxRecord r outbox) r"
  by (simp add: holds_def putOutboxRecord_def)

lemma deletes_ok: "outbox_ok outbox \<Longrightarrow> outbox_ok (fold (deleteOutboxRecord w) ids outbox)"
proof (induction ids arbitrary: outbox)
  case (Cons i ids)
  have "outbox_ok (deleteOutboxRecord w i outbox)" using Cons.prems by (simp add: deleteOutboxRecord_def outbox_ok_def distinct_map_filter)
  from Cons.IH [OF this] show ?case by simp
qed simp

lemma set_deletes: "set (fold (deleteOutboxRecord w) ids outbox) = {r \<in> set outbox. \<forall>i \<in> set ids. outbox_key r \<noteq> (w, i)}"
  by (induction ids arbitrary: outbox) (auto simp: deleteOutboxRecord_def)

lemma deletes_hold:
  assumes "holds outbox r"
  shows "holds (fold (deleteOutboxRecord w) ids outbox) r \<or> or_workspaceId r = w \<and> or_operationId r \<in> set ids"
  using assms by (auto simp: holds_def set_deletes outbox_key_def)

lemma set_list_records: "set (listOutboxRecords w outbox) = {r \<in> set outbox. or_workspaceId r = w}"
  by (auto simp: listOutboxRecords_def)

text \<open>A batch that failed is put back with its operations untouched.\<close>

definition failed_record :: "string \<Rightarrow> PersistedOutboxRecord \<Rightarrow> PersistedOutboxRecord" where
  "failed_record err r = r\<lparr>or_attemptCount := or_attemptCount r + 1, or_lastError := err\<rparr>"

lemma failed_record_simps [simp]:
  "outbox_key (failed_record err r) = outbox_key r" "or_operation (failed_record err r) = or_operation r"
  "or_createdAt (failed_record err r) = or_createdAt r" "or_operationId (failed_record err r) = or_operationId r"
  by (simp_all add: failed_record_def outbox_key_def)

lemma put_back:
  assumes "outbox_ok outbox" and "\<And>r. r \<in> set batch \<Longrightarrow> holds outbox r"
  shows "outbox_ok (fold (\<lambda>r. putOutboxRecord (failed_record err r)) batch outbox)"
    and "holds outbox q \<Longrightarrow> holds (fold (\<lambda>r. putOutboxRecord (failed_record err r)) batch outbox) q"
proof (atomize (full), use assms in \<open>induction batch arbitrary: outbox\<close>)
  case (Cons r batch)
  have unique: "or_operation a = or_operation b \<and> or_createdAt a = or_createdAt b"
    if h: "holds outbox a" "holds outbox b" "outbox_key a = outbox_key b" for a b
  proof -
    obtain a' b' where ab: "a' \<in> set outbox" "outbox_key a' = outbox_key a" "or_operation a' = or_operation a" "or_createdAt a' = or_createdAt a"
        "b' \<in> set outbox" "outbox_key b' = outbox_key b" "or_operation b' = or_operation b" "or_createdAt b' = or_createdAt b"
      using h(1,2) by (auto simp: holds_def)
    have "inj_on outbox_key (set outbox)" using Cons.prems(1) by (simp add: outbox_ok_def distinct_map)
    moreover have "outbox_key a' = outbox_key b'" using ab h(3) by simp
    ultimately have "a' = b'" using ab(1,5) by (metis inj_onD)
    then show ?thesis using ab by simp
  qed
  have r: "holds outbox r" using Cons.prems(2) by simp
  then have "operationId (or_operation r) = or_operationId r"
    using Cons.prems(1) by (auto simp: holds_def outbox_ok_def outbox_key_def)
  then have ok: "outbox_ok (putOutboxRecord (failed_record err r) outbox)"
    using put_record_ok [OF Cons.prems(1), of "failed_record err r"] by simp
  have kept: "holds (putOutboxRecord (failed_record err r) outbox) q" if "holds outbox q" for q
    by (rule put_record_holds [OF that]) (use unique [OF r that] in simp)
  have batch: "holds (putOutboxRecord (failed_record err r) outbox) b" if "b \<in> set batch" for b
    using that Cons.prems(2) kept by simp
  show ?case using Cons.IH [OF ok batch] kept by simp
qed simp

section \<open>A turn of the push\<close>

text \<open>An operation is sent as itself: the server reads its identifier.\<close>

definition reads_ids :: "push_side \<Rightarrow> bool" where
  "reads_ids sd \<longleftrightarrow> (\<forall>op. p_operationId (sd_read sd op) = operationId op)"

definition delivered :: "push_side \<Rightarrow> cloud_db \<Rightarrow> PersistedOutboxRecord \<Rightarrow> bool" where
  "delivered sd db r \<longleftrightarrow> or_workspaceId r = sd_workspaceId sd
     \<and> ledger db (sd_workspaceId sd) (sd_replicaId sd) (or_operationId r) \<noteq> []"

lemma delivered_grows: "ledger_grows db db' \<Longrightarrow> delivered sd db r \<Longrightarrow> delivered sd db' r"
  using grows_ledger by (auto simp: delivered_def)

lemma acknowledged_delivered:
  assumes "answers db (sd_workspaceId sd) (sd_replicaId sd) rs" and "or_workspaceId r = sd_workspaceId sd"
    and "or_operationId r \<in> set (acknowledged rs)"
  shows "delivered sd db r"
  using assms by (auto simp: answers_def acknowledged_def isAcknowledgedPushStatus_def delivered_def)

lemma batch_holds: "r \<in> set (take n (listOutboxRecords w outbox)) \<Longrightarrow> holds outbox r"
  using set_list_records [of w outbox] by (auto simp: holds_def dest!: in_set_takeD)

lemma push_round_keeps:
  assumes ok: "outbox_ok outbox" and run: "push_round sd request flags outbox db = (r, outbox', db')"
  shows "outbox_ok outbox' \<and> ledger_grows db db' \<and> (\<forall>q. holds outbox q \<longrightarrow> holds outbox' q \<or> delivered sd db' q)"
proof -
  let ?batch = "take push_batch_size (listOutboxRecords (sd_workspaceId sd) outbox)"
  obtain a db1 where req: "pushSyncOperations request (sd_workspaceId sd) (sd_replicaId sd)
      (map (\<lambda>r. sd_read sd (or_operation r)) ?batch) db = (a, db1)" by fastforce
  note grows = request_grows [OF req]
  show ?thesis
  proof (cases a)
    case (Inl err)
    then have "outbox' = fold (\<lambda>r. putOutboxRecord (failed_record (sd_describe sd err) r)) ?batch outbox" "db' = db1"
      using run req by (simp_all add: push_round_def failed_record_def Let_def)
    then show ?thesis using put_back [OF ok batch_holds] grows(1) by simp
  next
    case (Inr rs)
    then have eq: "outbox' = fold (deleteOutboxRecord (sd_workspaceId sd)) (acknowledged rs) outbox" "db' = db1"
      using run req by (simp_all add: push_round_def Let_def)
    have "answers db1 (sd_workspaceId sd) (sd_replicaId sd) rs" using grows(2) [OF Inr] by blast
    then show ?thesis unfolding eq using deletes_ok [OF ok] grows(1) deletes_hold acknowledged_delivered by blast
  qed
qed

end
