(* ===== verification/OutboxSystem.thy ===== *)
theory OutboxSystem
  imports OutboxSpec
begin

text \<open>
  The local writes of a device and everything that happens to its outbox, as a transition system: writes by
  the user, turns of the push that end in any way, pages of the pull, and the other writes of the server.
\<close>

section \<open>Local writes\<close>

text \<open>\<open>crypto.randomUUID\<close> gives an identifier that no record of the outbox has.\<close>

definition fresh_id :: "web_device \<Rightarrow> string \<Rightarrow> string \<Rightarrow> bool" where
  "fresh_id dv w uuid \<longleftrightarrow> (w, to_lower uuid) \<notin> outbox_key ` set (dv_outbox dv)"

inductive local_write :: "web_device \<Rightarrow> web_device \<Rightarrow> bool" where
  create_card: "createCardLocally uuid newCardId w input made dv = (r, dv') \<Longrightarrow> fresh_id dv w uuid \<Longrightarrow> local_write dv dv'"
| update_card: "updateCardLocally uuid w cid edit made dv = (r, dv') \<Longrightarrow> fresh_id dv w uuid \<Longrightarrow> local_write dv dv'"
| delete_card: "deleteCardLocally uuid w cid made dv = (r, dv') \<Longrightarrow> fresh_id dv w uuid \<Longrightarrow> local_write dv dv'"
| create_deck: "createDeckLocally uuid newDeckId w deckInput made dv = (d, dv') \<Longrightarrow> fresh_id dv w uuid \<Longrightarrow> local_write dv dv'"
| update_deck: "updateDeckLocally uuid w did deckInput made dv = (d, dv') \<Longrightarrow> fresh_id dv w uuid \<Longrightarrow> local_write dv dv'"
| delete_deck: "deleteDeckLocally uuid w did made dv = (d, dv') \<Longrightarrow> fresh_id dv w uuid \<Longrightarrow> local_write dv dv'"
| review: "submitReviewLocally m p (eventUuid, clientUuid, cardUuid) w cid rating reviewedAt timeZone dv = (r, dv')
    \<Longrightarrow> fresh_id dv w eventUuid \<Longrightarrow> fresh_id dv w cardUuid \<Longrightarrow> to_lower eventUuid \<noteq> to_lower cardUuid \<Longrightarrow> local_write dv dv'"

text \<open>A record is queued for every entity a write changed, with the operation that tells its new state.\<close>

definition queued :: "web_device \<Rightarrow> string \<Rightarrow> SyncPushOperation \<Rightarrow> bool" where
  "queued dv w op \<longleftrightarrow> (\<exists>r \<in> set (dv_outbox dv). or_workspaceId r = w \<and> or_operation r = op)"

definition changes_queued :: "web_device \<Rightarrow> web_device \<Rightarrow> bool" where
  "changes_queued dv dv' \<longleftrightarrow>
     (\<forall>w i. ws_cards (dv_store dv') (w, i) \<noteq> ws_cards (dv_store dv) (w, i) \<longrightarrow> (\<exists>stored op.
        ws_cards (dv_store dv') (w, i) = Some stored \<and> buildCardUpsertOperation (toCard stored) = Inr op \<and> queued dv' w op))
   \<and> (\<forall>w i. ws_decks (dv_store dv') (w, i) \<noteq> ws_decks (dv_store dv) (w, i) \<longrightarrow> (\<exists>deck.
        ws_decks (dv_store dv') (w, i) = Some deck \<and> queued dv' w (buildDeckUpsertOperation deck)))
   \<and> (\<forall>w i. dv_reviewEvents dv' (w, i) \<noteq> dv_reviewEvents dv (w, i) \<longrightarrow> (\<exists>event.
        dv_reviewEvents dv' (w, i) = Some event \<and> queued dv' w (buildReviewEventAppendOperation event)))"

text \<open>The key of a stored deck is made of its fields.\<close>

definition decks_keyed :: "web_store \<Rightarrow> bool" where
  "decks_keyed s \<longleftrightarrow> (\<forall>w i deck. ws_decks s (w, i) = Some deck \<longrightarrow> deckWorkspaceId deck = w \<and> deckId deck = i)"

text \<open>What every local write does to the outbox.\<close>

definition written :: "web_device \<Rightarrow> web_device \<Rightarrow> bool" where
  "written dv dv' \<longleftrightarrow> outbox_ok (dv_outbox dv') \<and> (\<forall>q. holds (dv_outbox dv) q \<longrightarrow> holds (dv_outbox dv') q)
     \<and> (decks_keyed (dv_store dv) \<longrightarrow> decks_keyed (dv_store dv') \<and> changes_queued dv dv')"

lemma written_refl: "outbox_ok (dv_outbox dv) \<Longrightarrow> written dv dv"
  by (simp add: written_def changes_queued_def)

lemma stored_card_total: "\<exists>stored. toStoredCard w c = Inr stored"
  by (simp add: toStoredCard_def deriveDueAtMillis_def deriveDueAtBucketMillis_def parseDueAtMillis_returns split: option.split)

lemma put_card_total:
  obtains stored where "putCardInTransaction w c s = Inr (s\<lparr>ws_cards := (ws_cards s)((w, cardId c) \<mapsto> stored),
      ws_cardTags := writeCardTagRecords w c (ws_cardTags s)\<rparr>)" "toCard stored = c"
proof -
  obtain stored where stored: "toStoredCard w c = Inr stored" using stored_card_total by blast
  from that [of stored] toStoredCard_fields [OF stored] show thesis by (simp add: putCardInTransaction_def stored)
qed

lemma put_fresh:
  assumes ok: "outbox_ok outbox" and fresh: "outbox_key r \<notin> outbox_key ` set outbox" and "operationId (or_operation r) = or_operationId r"
  shows "outbox_ok (putOutboxRecord r outbox)" and "holds outbox q \<Longrightarrow> holds (putOutboxRecord r outbox) q"
    and "set (putOutboxRecord r outbox) = insert r (set outbox)"
proof -
  show "outbox_ok (putOutboxRecord r outbox)" by (rule put_record_ok [OF ok assms(3)])
  have "filter (\<lambda>q. outbox_key q \<noteq> outbox_key r) outbox = outbox"
    by (rule filter_True) (use fresh in \<open>metis imageI\<close>)
  then show "set (putOutboxRecord r outbox) = insert r (set outbox)" by (simp add: putOutboxRecord_def)
  assume q: "holds outbox q"
  then obtain q' where "q' \<in> set outbox" "outbox_key q' = outbox_key q" by (auto simp: holds_def)
  then have "outbox_key r \<noteq> outbox_key q" using fresh by (metis imageI)
  then show "holds (putOutboxRecord r outbox) q" using put_record_holds [OF q] by blast
qed

lemma outbox_record_simps [simp]:
  "outbox_key (outbox_record w i made affects op) = (w, i)" "or_operation (outbox_record w i made affects op) = op"
  "or_operationId (outbox_record w i made affects op) = i" "or_workspaceId (outbox_record w i made affects op) = w"
  by (simp_all add: outbox_record_def outbox_key_def)

lemma card_operation_id: "buildCardUpsertOperation c = Inr op \<Longrightarrow> operationId op = cardOperationId c"
  by (auto simp: buildCardUpsertOperation_def res_simps)

lemma store_card_written:
  assumes run: "store_card w i made existing c dv = (r, dv')" and ok: "outbox_ok (dv_outbox dv)"
    and fresh: "(w, i) \<notin> outbox_key ` set (dv_outbox dv)" and i: "cardOperationId c = i"
  shows "written dv dv'"
proof (cases "buildCardUpsertOperation c")
  case (Inl err)
  then show ?thesis using run written_refl [OF ok] by (simp add: store_card_def Let_def)
next
  case (Inr op)
  obtain stored where put: "putCardInTransaction w c (dv_store dv) = Inr ((dv_store dv)\<lparr>ws_cards := (ws_cards (dv_store dv))((w, cardId c) \<mapsto> stored),
      ws_cardTags := writeCardTagRecords w c (ws_cardTags (dv_store dv))\<rparr>)" "toCard stored = c"
    by (rule put_card_total)
  let ?r = "outbox_record w i made (Some (doesCardMutationAffectReviewSchedule existing c)) op"
  have dv': "dv' = dv\<lparr>dv_store := (dv_store dv)\<lparr>ws_cards := (ws_cards (dv_store dv))((w, cardId c) \<mapsto> stored),
      ws_cardTags := writeCardTagRecords w c (ws_cardTags (dv_store dv))\<rparr>, dv_outbox := putOutboxRecord ?r (dv_outbox dv)\<rparr>"
    using run by (simp add: store_card_def Inr put(1) Let_def)
  have "outbox_key ?r \<notin> outbox_key ` set (dv_outbox dv)" using fresh by simp
  note put_r = put_fresh [OF ok this]
  have id: "operationId (or_operation ?r) = or_operationId ?r" using card_operation_id [OF Inr] i by simp
  have "queued dv' w op" using put_r(3) [OF id] by (simp add: queued_def dv')
  then show ?thesis using put_r(1,2) [OF id] put(2) Inr by (simp add: written_def changes_queued_def decks_keyed_def dv')
qed

lemma store_deck_written:
  assumes ok: "outbox_ok (dv_outbox dv)" and fresh: "(w, i) \<notin> outbox_key ` set (dv_outbox dv)"
    and i: "deckOperationId deck = i" and w: "decks_keyed (dv_store dv) \<Longrightarrow> deckWorkspaceId deck = w"
  shows "written dv (store_deck w i made deck dv)"
proof -
  let ?r = "outbox_record w i made None (buildDeckUpsertOperation deck)"
  have "outbox_key ?r \<notin> outbox_key ` set (dv_outbox dv)" using fresh by simp
  note put_r = put_fresh [OF ok this]
  have id: "operationId (or_operation ?r) = or_operationId ?r" using i by (simp add: buildDeckUpsertOperation_def)
  have "queued (store_deck w i made deck dv) w (buildDeckUpsertOperation deck)"
    using put_r(3) [OF id] by (simp add: queued_def store_deck_def)
  then show ?thesis using put_r(1,2) [OF id] w
    by (auto simp: written_def changes_queued_def decks_keyed_def store_deck_def putDeckInTransaction_def)
qed

lemma review_written:
  assumes run: "submitReviewLocally m p (eventUuid, clientUuid, cardUuid) w cid rating reviewedAt timeZone dv = (r, dv')"
    and ok: "outbox_ok (dv_outbox dv)" and fresh: "fresh_id dv w eventUuid" "fresh_id dv w cardUuid" "to_lower eventUuid \<noteq> to_lower cardUuid"
  shows "written dv dv'"
proof (cases "rbind (reviewed_locally m p w cid rating reviewedAt (to_lower cardUuid) dv) (\<lambda>(existingCard, nextCard, installationId).
       rbind (buildCardUpsertOperation nextCard) (\<lambda>op. Inr (existingCard, nextCard, installationId, op)))")
  case (Inl err)
  then have "dv' = dv" using run by (simp add: submitReviewLocally_def Let_def)
  then show ?thesis using written_refl [OF ok] by simp
next
  case (Inr x)
  then obtain existing c installation op where x: "x = (existing, c, installation, op)"
    and c: "reviewed_locally m p w cid rating reviewedAt (to_lower cardUuid) dv = Inr (existing, c, installation)"
    and op: "buildCardUpsertOperation c = Inr op" by (auto simp: res_simps)
  have id: "cardOperationId c = to_lower cardUuid" using c by (auto simp: reviewed_locally_def buildReviewedCard_def res_simps simp del: to_iso_string.simps)
  obtain stored where put: "putCardInTransaction w c (dv_store dv) = Inr ((dv_store dv)\<lparr>ws_cards := (ws_cards (dv_store dv))((w, cardId c) \<mapsto> stored),
      ws_cardTags := writeCardTagRecords w c (ws_cardTags (dv_store dv))\<rparr>)" "toCard stored = c"
    by (rule put_card_total)
  let ?event = "buildReviewEvent w cid installation rating reviewedAt (Some timeZone) (to_lower eventUuid) (to_lower clientUuid)"
  let ?r1 = "outbox_record w (to_lower eventUuid) reviewedAt None (buildReviewEventAppendOperation ?event)"
  let ?r2 = "outbox_record w (to_lower cardUuid) reviewedAt (Some (doesCardMutationAffectReviewSchedule (Some existing) c)) op"
  have dv': "dv' = dv\<lparr>dv_store := (dv_store dv)\<lparr>ws_cards := (ws_cards (dv_store dv))((w, cardId c) \<mapsto> stored),
      ws_cardTags := writeCardTagRecords w c (ws_cardTags (dv_store dv))\<rparr>,
      dv_reviewEvents := (dv_reviewEvents dv)((w, to_lower eventUuid) \<mapsto> ?event),
      dv_outbox := putOutboxRecord ?r2 (putOutboxRecord ?r1 (dv_outbox dv))\<rparr>"
    using run unfolding submitReviewLocally_def Let_def prod.case Inr x sum.case
    by (intro web_device.equality) (auto simp: put(1))
  have "outbox_key ?r1 \<notin> outbox_key ` set (dv_outbox dv)" using fresh(1) by (simp add: fresh_id_def)
  note one = put_fresh [OF ok this]
  have id1: "operationId (or_operation ?r1) = or_operationId ?r1" by (simp add: buildReviewEventAppendOperation_def buildReviewEvent_def)
  have "outbox_key ?r2 \<notin> outbox_key ` set (putOutboxRecord ?r1 (dv_outbox dv))"
    unfolding one(3) [OF id1] using fresh(2,3) by (auto simp: fresh_id_def)
  note two = put_fresh [OF one(1) [OF id1] this]
  have id2: "operationId (or_operation ?r2) = or_operationId ?r2" using card_operation_id [OF op] id by simp
  have "queued dv' w op" "queued dv' w (buildReviewEventAppendOperation ?event)"
    unfolding queued_def dv' using two(3) [OF id2] one(3) [OF id1] by simp_all
  then show ?thesis using two(1,2) [OF id2] one(2) [OF id1] put(2) op by (simp add: written_def changes_queued_def decks_keyed_def dv')
qed

lemma local_write_written:
  assumes "local_write dv dv'" and ok: "outbox_ok (dv_outbox dv)"
  shows "written dv dv'"
  using assms
proof (induction rule: local_write.induct)
  case (create_card uuid newCardId w input made dv r dv')
  then show ?case
    by (auto simp: createCardLocally_def fresh_id_def Let_def res_simps buildInitialCard_def intro: written_refl store_card_written
        split: sum.splits)
next
  case (update_card uuid w cid edit made dv r dv')
  then show ?case
    by (auto simp: updateCardLocally_def fresh_id_def Let_def res_simps buildUpdatedCard_def intro: written_refl store_card_written
        split: sum.splits)
next
  case (delete_card uuid w cid made dv r dv')
  then show ?case
    by (auto simp: deleteCardLocally_def fresh_id_def Let_def res_simps buildDeletedCard_def intro: written_refl store_card_written
        split: sum.splits)
next
  case (create_deck uuid newDeckId w deckInput made dv d dv')
  then show ?case
    by (auto simp: createDeckLocally_def fresh_id_def Let_def res_simps buildDeck_def intro: written_refl store_deck_written
        split: sum.splits)
next
  case (update_deck uuid w did deckInput made dv d dv')
  then show ?case
    by (auto simp: updateDeckLocally_def fresh_id_def Let_def res_simps buildUpdatedDeck_def requireDeck_def loadDeckRecord_def decks_keyed_def
        intro!: store_deck_written intro: written_refl split: sum.splits option.splits if_splits)
next
  case (delete_deck uuid w did made dv d dv')
  then show ?case
    by (auto simp: deleteDeckLocally_def fresh_id_def Let_def res_simps buildDeletedDeck_def requireDeck_def loadDeckRecord_def decks_keyed_def
        intro!: store_deck_written intro: written_refl split: sum.splits option.splits if_splits)
next
  case (review m p eventUuid clientUuid cardUuid w cid rating reviewedAt timeZone dv r dv')
  then show ?case using review_written by blast
qed

section \<open>The device and the server\<close>

text \<open>
  A push can be cut off while the acknowledged records are being deleted. The writes of the server are those of
  any user and any device.
\<close>

inductive device_step :: "push_side \<Rightarrow> cloud_db \<times> web_device \<Rightarrow> cloud_db \<times> web_device \<Rightarrow> bool" for sd where
  written_locally: "local_write dv dv' \<Longrightarrow> device_step sd (db, dv) (db, dv')"
| pushed: "push_round sd request flags (dv_outbox dv) db = (r, outbox, db') \<Longrightarrow> device_step sd (db, dv) (db', dv\<lparr>dv_outbox := outbox\<rparr>)"
| cut_off: "pushSyncOperations request (sd_workspaceId sd) (sd_replicaId sd) (map (\<lambda>r. sd_read sd (or_operation r))
      (take push_batch_size (listOutboxRecords (sd_workspaceId sd) (dv_outbox dv)))) db = (Inr rs, db')
    \<Longrightarrow> device_step sd (db, dv)
      (db', dv\<lparr>dv_outbox := fold (deleteOutboxRecord (sd_workspaceId sd)) (take n (acknowledged rs)) (dv_outbox dv)\<rparr>)"
| pulled: "pull_page now w n run after = Inr (run', stop, rest) \<Longrightarrow> run_store run = dv_store dv
    \<Longrightarrow> device_step sd (run_db run, dv) (run_db run', dv\<lparr>dv_store := run_store run'\<rparr>)"
| served: "server_write db db' \<Longrightarrow> device_step sd (db, dv) (db', dv)"

definition kept_or_delivered :: "push_side \<Rightarrow> cloud_db \<times> web_device \<Rightarrow> cloud_db \<times> web_device \<Rightarrow> bool" where
  "kept_or_delivered sd x y \<longleftrightarrow> outbox_ok (dv_outbox (snd y)) \<and> ledger_grows (fst x) (fst y)
     \<and> (\<forall>q. holds (dv_outbox (snd x)) q \<longrightarrow> holds (dv_outbox (snd y)) q \<or> delivered sd (fst y) q)"

lemma pull_grows: "pull_page now w n run after = Inr (run', stop, rest) \<Longrightarrow> ledger_grows (run_db run) (run_db run')"
  by (rule same_ledger_grows) (auto simp: pull_page_def processSyncPull_def Let_def res_simps split: if_splits)

lemma device_step_keeps: "device_step sd x y \<Longrightarrow> outbox_ok (dv_outbox (snd x)) \<Longrightarrow> kept_or_delivered sd x y"
proof (induction rule: device_step.induct)
  case (written_locally dv dv' db)
  then show ?case using local_write_written [of dv dv'] by (simp add: kept_or_delivered_def written_def)
next
  case (pushed request flags dv db r outbox db')
  from push_round_keeps [OF _ pushed(1)] pushed(2) show ?case by (simp add: kept_or_delivered_def)
next
  case (cut_off request dv db rs db' n)
  note grows = request_grows [OF cut_off(1)]
  have "delivered sd db' q" if "or_workspaceId q = sd_workspaceId sd" "or_operationId q \<in> set (take n (acknowledged rs))" for q
    using acknowledged_delivered [OF _ that(1)] grows(2) that(2) by (auto dest: in_set_takeD)
  then show ?case using cut_off(2) grows(1) deletes_ok deletes_hold unfolding kept_or_delivered_def by fastforce
next
  case (pulled now w n run after run' stop rest dv)
  then show ?case using pull_grows by (simp add: kept_or_delivered_def)
next
  case (served db db' dv)
  then show ?case using write_grows by (simp add: kept_or_delivered_def)
qed

lemma device_steps_keep:
  assumes "rtranclp (device_step sd) x y" and "outbox_ok (dv_outbox (snd x))"
  shows "kept_or_delivered sd x y"
  using assms
proof (induction rule: rtranclp_induct)
  case base
  then show ?case by (simp add: kept_or_delivered_def)
next
  case (step y z)
  then have xy: "kept_or_delivered sd x y" by simp
  then have "kept_or_delivered sd y z" using device_step_keeps [OF step(2)] by (simp add: kept_or_delivered_def)
  then show ?case using xy ledger_grows_trans delivered_grows unfolding kept_or_delivered_def by blast
qed

section \<open>The loop of the push\<close>

text \<open>An operation the server does not reject, whatever its state.\<close>

definition accepted :: "push_side \<Rightarrow> PersistedOutboxRecord \<Rightarrow> bool" where
  "accepted sd r \<longleftrightarrow> (\<forall>e db message. process_payload e db (sd_workspaceId sd) (sd_replicaId sd) (sd_read sd (or_operation r))
     \<noteq> Inr (Reject message))"

lemma accepted_batch:
  assumes "each_r (push_one e w replica existing) ops db = Inr (rs, db')"
    and "\<And>op e db message. op \<in> set ops \<Longrightarrow> process_payload e db w replica op \<noteq> Inr (Reject message)"
  shows "\<forall>r \<in> set rs. pr_status r \<noteq> Rejected"
  using assms
proof (induction ops arbitrary: db rs)
  case (Cons op ops)
  obtain r rs' db1 where r: "push_one e w replica existing op db = Inr (r, db1)"
      "each_r (push_one e w replica existing) ops db1 = Inr (rs', db')" "rs = r # rs'"
    using Cons.prems(1) by (auto simp: res_simps)
  have "pr_status r \<noteq> Rejected"
  proof (cases "existing (p_operationId op)")
    case None
    then obtain outcome where o: "process_payload e db w replica op = Inr outcome"
      using r(1) by (auto simp: push_one_def processOperationInExecutor_def res_simps)
    then obtain a c db2 where "outcome = Outcome a c db2" using Cons.prems(2) [of op e db] by (cases outcome) auto
    then show ?thesis using r(1) None o
      by (cases a) (auto simp: push_one_def processOperationInExecutor_def push_result_def res_simps)
  qed (use r(1) in \<open>auto simp: push_one_def push_result_def\<close>)
  moreover have "\<forall>r \<in> set rs'. pr_status r \<noteq> Rejected" by (rule Cons.IH [OF r(2)]) (use Cons.prems(2) in auto)
  ultimately show ?case using r(3) by simp
qed simp

lemma accepted_request:
  assumes "pushSyncOperations request w replica ops db = (Inr rs, db')"
    and "\<And>op e db message. op \<in> set ops \<Longrightarrow> process_payload e db w replica op \<noteq> Inr (Reject message)"
  shows "acknowledged rs = map p_operationId ops"
proof -
  obtain e db1 where "run_push e w replica ops db1 = (Inr rs, db')"
    using assms(1) by (auto simp: pushSyncOperations_def Let_def split: sum.splits)
  then have push: "processSyncPushOperationsInExecutor e db1 w replica ops = Inr (rs, db')"
    by (auto simp: run_push_def split: sum.splits)
  have "\<forall>r \<in> set rs. pr_status r \<noteq> Rejected"
    by (rule accepted_batch [OF push [unfolded processSyncPushOperationsInExecutor_def Let_def] assms(2)])
  then have "filter (\<lambda>r. isAcknowledgedPushStatus (pr_status r)) rs = rs"
    by (intro filter_True ballI) (metis PushStatus.exhaust isAcknowledgedPushStatus_def)
  then show ?thesis using push_answers(2) [OF push] by (simp add: acknowledged_def)
qed

lemma push_rounds_end:
  assumes "outbox_ok outbox" and "reads_ids sd" and "\<And>r. r \<in> set outbox \<Longrightarrow> or_workspaceId r = sd_workspaceId sd \<Longrightarrow> accepted sd r"
    and "length (filter (\<lambda>r. or_workspaceId r = sd_workspaceId sd) outbox) < fuel"
  shows "\<exists>r outbox' db'. push_rounds fuel sd requests flags outbox db = Some (r, outbox', db')
    \<and> ((\<exists>flags'. r = Inr flags') \<longrightarrow> listOutboxRecords (sd_workspaceId sd) outbox' = [])
    \<and> outbox_ok outbox' \<and> ledger_grows db db' \<and> (\<forall>q. holds outbox q \<longrightarrow> holds outbox' q \<or> delivered sd db' q)"
  using assms
proof (induction fuel arbitrary: requests flags outbox db)
  case (Suc fuel)
  let ?w = "sd_workspaceId sd" and ?batch = "take push_batch_size (listOutboxRecords (sd_workspaceId sd) outbox)"
  show ?case
  proof (cases "listOutboxRecords ?w outbox = []")
    case True
    then show ?thesis using Suc.prems(1) by simp
  next
    case False
    obtain r outbox1 db1 where round: "push_round sd (requests 0) flags outbox db = (r, outbox1, db1)" by (metis prod_cases3)
    note kept = push_round_keeps [OF Suc.prems(1) round]
    show ?thesis
    proof (cases r)
      case (Inl err)
      then show ?thesis using False round kept by simp
    next
      case (Inr flags1)
      obtain a db2 where req: "pushSyncOperations (requests 0) ?w (sd_replicaId sd) (map (\<lambda>r. sd_read sd (or_operation r)) ?batch) db = (a, db2)"
        by fastforce
      obtain rs where a: "a = Inr rs" using round req Inr by (cases a) (simp_all add: push_round_def Let_def)
      have acc: "accepted sd b" if "b \<in> set ?batch" for b
        using that Suc.prems(3) set_list_records [of ?w outbox] by (auto dest!: in_set_takeD)
      have "acknowledged rs = map p_operationId (map (\<lambda>r. sd_read sd (or_operation r)) ?batch)"
        by (rule accepted_request [OF req [unfolded a]]) (use acc in \<open>auto simp: accepted_def\<close>)
      moreover have "p_operationId (sd_read sd (or_operation b)) = or_operationId b" if "b \<in> set ?batch" for b
        using that Suc.prems(1,2) set_list_records [of ?w outbox] by (auto simp: reads_ids_def outbox_ok_def dest!: in_set_takeD)
      ultimately have acks: "acknowledged rs = map or_operationId ?batch" by simp
      have deleted: "outbox1 = fold (deleteOutboxRecord ?w) (acknowledged rs) outbox"
        using round req a by (simp add: push_round_def Let_def)
      note outbox1 = set_deletes [of ?w "acknowledged rs" outbox, folded deleted] deleted
      obtain b where b: "b \<in> set ?batch" using False by (cases "listOutboxRecords ?w outbox") (auto simp: push_batch_size_def)
      then have bw: "b \<in> set outbox" "or_workspaceId b = ?w" using set_list_records [of ?w outbox] by (auto dest!: in_set_takeD)
      have fewer: "fold (deleteOutboxRecord ?w) ids outbox = filter (\<lambda>q. \<forall>i \<in> set ids. outbox_key q \<noteq> (?w, i)) outbox" for ids
        by (induction ids arbitrary: outbox) (simp_all add: deleteOutboxRecord_def conj_commute)
      have "b \<notin> set outbox1" using outbox1(1) acks b bw by (auto simp: outbox_key_def)
      then have "length (filter (\<lambda>r. or_workspaceId r = ?w) outbox1) < length (filter (\<lambda>r. or_workspaceId r = ?w) outbox)"
        unfolding outbox1(2) fewer filter_filter
        using length_filter_less [of b "filter (\<lambda>r. or_workspaceId r = ?w) outbox"
            "\<lambda>q. \<forall>i \<in> set (acknowledged rs). outbox_key q \<noteq> (?w, i)"] bw by (simp add: conj_commute)
      then have less: "length (filter (\<lambda>r. or_workspaceId r = ?w) outbox1) < fuel" using Suc.prems(4) by simp
      have acc1: "accepted sd q" if "q \<in> set outbox1" "or_workspaceId q = ?w" for q using that Suc.prems(3) outbox1(1) by simp
      obtain r' outbox' db' where rest: "push_rounds fuel sd (\<lambda>n. requests (Suc n)) flags1 outbox1 db1 = Some (r', outbox', db')"
          "(\<exists>flags'. r' = Inr flags') \<longrightarrow> listOutboxRecords ?w outbox' = []" "outbox_ok outbox'" "ledger_grows db1 db'"
          "\<forall>q. holds outbox1 q \<longrightarrow> holds outbox' q \<or> delivered sd db' q"
        using Suc.IH [of outbox1 "\<lambda>n. requests (Suc n)" flags1 db1] kept Suc.prems(2) acc1 less by blast
      have "push_rounds (Suc fuel) sd requests flags outbox db = Some (r', outbox', db')" using False round Inr rest(1) by simp
      moreover have "ledger_grows db db'" using kept rest(4) ledger_grows_trans by blast
      moreover have "\<forall>q. holds outbox q \<longrightarrow> holds outbox' q \<or> delivered sd db' q" using kept rest(4,5) delivered_grows by blast
      ultimately show ?thesis using rest(2,3) by blast
    qed
  qed
qed simp

text \<open>An operation the server rejects every time is sent again and again.\<close>

lemma rejected_request:
  assumes "with_sync (ensureWorkspaceSyncMetadataInExecutor (cd_sync db) w) db = db0"
    and "process_payload e db0 w replica op = Inr (Reject message)" and "ledger db0 w replica (p_operationId op) = []"
  shows "pushSyncOperations \<lparr>rq_attempts = [], rq_outcome = Inr e\<rparr> w replica [op] db
    = (Inr [push_result op Rejected None (Some message)], db0)"
proof -
  have "loadExistingAppliedOperations db0 w replica [p_operationId op] (p_operationId op) = None"
    using assms(3) by (simp add: loadExistingAppliedOperations_def ledger_def latest_applied_def)
  then have "processSyncPushOperationsInExecutor e db w replica [op] = Inr ([push_result op Rejected None (Some message)], db0)"
    using assms(1,2) by (simp add: processSyncPushOperationsInExecutor_def push_one_def processOperationInExecutor_def Let_def)
  then show ?thesis by (simp add: pushSyncOperations_def run_push_def)
qed

lemma rejected_loops:
  assumes r: "listOutboxRecords (sd_workspaceId sd) outbox = [r]"
    and answered: "\<And>n. requests n = \<lparr>rq_attempts = [], rq_outcome = Inr (env n)\<rparr>"
    and rejected: "\<And>n. \<exists>message. process_payload (env n) db0 (sd_workspaceId sd) (sd_replicaId sd) (sd_read sd (or_operation r)) = Inr (Reject message)"
    and new: "ledger db0 (sd_workspaceId sd) (sd_replicaId sd) (p_operationId (sd_read sd (or_operation r))) = []"
    and db0: "with_sync (ensureWorkspaceSyncMetadataInExecutor (cd_sync db) (sd_workspaceId sd)) db = db0"
      "with_sync (ensureWorkspaceSyncMetadataInExecutor (cd_sync db0) (sd_workspaceId sd)) db0 = db0"
  shows "push_rounds fuel sd requests flags outbox db = None"
  using answered rejected db0
proof (induction fuel arbitrary: requests env flags db)
  case (Suc fuel)
  obtain message where m: "process_payload (env 0) db0 (sd_workspaceId sd) (sd_replicaId sd) (sd_read sd (or_operation r)) = Inr (Reject message)"
    using Suc.prems(2) by blast
  note req = rejected_request [OF Suc.prems(3) m new, folded Suc.prems(1) [of 0]]
  have batch: "take push_batch_size (listOutboxRecords (sd_workspaceId sd) outbox) = [r]" by (simp add: r push_batch_size_def)
  have "\<exists>flags'. push_round sd (requests 0) flags outbox db = (Inr flags', outbox, db0)"
    unfolding push_round_def Let_def batch by (simp add: req acknowledged_def isAcknowledgedPushStatus_def push_result_def)
  then obtain flags' where round: "push_round sd (requests 0) flags outbox db = (Inr flags', outbox, db0)" by blast
  have "push_rounds fuel sd (\<lambda>n. requests (Suc n)) flags' outbox db0 = None"
    by (rule Suc.IH [of "\<lambda>n. requests (Suc n)" "\<lambda>n. env (Suc n)"]) (use Suc.prems in auto)
  then show ?case using r round by simp
qed simp

end
