(* ===== verification/OutboxProperties.thy ===== *)
theory OutboxProperties
  imports OutboxSystem SyncProperties
begin

text \<open>
  The properties of the outbox of the web client: local writes are queued, what is queued is not lost, and when
  sending it comes to an end.
\<close>

section \<open>Concrete inputs of the witnesses\<close>

definition small_device :: "PersistedOutboxRecord list \<Rightarrow> web_device" where
  "small_device outbox = \<lparr>dv_store = empty_store, dv_reviewEvents = (\<lambda>_. None), dv_outbox = outbox, dv_installationId = Some ''i''\<rparr>"

definition small_deck :: WebModel.DeckInput where
  "small_deck = \<lparr>inputName = ''n'', inputFilter = \<lparr>filterVersion = 2, filterTags = []\<rparr>\<rparr>"

definition local_deck :: Deck where
  "local_deck = (buildDeck ''d'' small_deck ''now'' ''i'' ''o'')\<lparr>deckWorkspaceId := ''w''\<rparr>"

definition deck_record :: PersistedOutboxRecord where
  "deck_record = outbox_record ''w'' ''o'' ''now'' None (buildDeckUpsertOperation local_deck)"

definition local_review :: WebModel.ReviewEvent where
  "local_review = buildReviewEvent ''w'' ''c'' ''i'' Good ''now'' None ''v'' ''e''"

definition review_record :: PersistedOutboxRecord where
  "review_record = outbox_record ''w'' ''v'' ''now'' None (buildReviewEventAppendOperation local_review)"

text \<open>A server that reads decks and reviews field by field.\<close>

definition read_fields :: "SyncPushOperation \<Rightarrow> PushedOperation" where
  "read_fields op = \<lparr>p_operationId = operationId op, p_entityId = entityId op, p_clientUpdatedAt = opClientUpdatedAt op,
     p_payload = (case payload op of
       push_payload.ReviewEventAppend ev \<Rightarrow> ReviewAppend \<lparr>rp_reviewEventId = ep_reviewEventId ev, rp_cardId = ep_cardId ev,
         rp_clientEventId = ep_clientEventId ev, rp_rating = 2, rp_reviewedAtClient = ep_reviewedAtClient ev,
         rp_reviewedTimeZone = ep_reviewedTimeZone ev\<rparr>
     | push_payload.DeckUpsert deck \<Rightarrow> SyncPushPayload.DeckUpsert \<lparr>dp_snapshot = \<lparr>di_deckId = WebEditing.dp_deckId deck,
         di_name = WebEditing.dp_name deck, di_filterDefinition = \<lparr>df_tags = WebEditing.dp_tags deck\<rparr>,
         di_createdAt = WebEditing.dp_createdAt deck, di_deletedAt = WebEditing.dp_deletedAt deck\<rparr>, dp_effortLevels = []\<rparr>
     | push_payload.CardUpsert _ \<Rightarrow> MediaUpsert [] [])\<rparr>"

definition small_side :: push_side where
  "small_side = \<lparr>sd_describe = (\<lambda>_. ''failed''), sd_read = read_fields, sd_workspaceId = ''w'', sd_replicaId = ''a''\<rparr>"



lemma deck_record_fields: "or_workspaceId deck_record = ''w''" "outbox_key deck_record = (''w'', ''o'')"
  "operationId (or_operation deck_record) = or_operationId deck_record"
  by (simp_all add: deck_record_def buildDeckUpsertOperation_def local_deck_def buildDeck_def)

section \<open>Properties\<close>



text \<open>
  C15. No queued write is lost. From a consistent outbox, after any number of local writes, pages of the
  pull, writes of the server and turns of the push, with answers lost, batches failed and turns cut off in
  between: every record is still in the outbox with its operation unchanged, or the server's ledger holds
  its operation.
\<close>

theorem no_queued_write_lost:
  assumes "rtranclp (device_step sd) (db, dv) (db', dv')" and "outbox_ok (dv_outbox dv)" and "r \<in> set (dv_outbox dv)"
  shows "(\<exists>q \<in> set (dv_outbox dv'). outbox_key q = outbox_key r \<and> or_operation q = or_operation r)
    \<or> or_workspaceId r = sd_workspaceId sd \<and> ledger db' (sd_workspaceId sd) (sd_replicaId sd) (or_operationId r) \<noteq> []"
proof -
  have "holds (dv_outbox dv) r" using assms(3) by (auto simp: holds_def)
  then show ?thesis using device_steps_keep [OF assms(1)] assms(2) by (auto simp: kept_or_delivered_def holds_def delivered_def)
qed

theorem no_queued_write_lost_witness:
  "\<exists>dv' db'. rtranclp (device_step small_side) (small_cloud, small_device [deck_record]) (db', dv') \<and>
    ((\<exists>q \<in> set (dv_outbox dv'). or_operation q = or_operation deck_record) \<or> ledger db' ''w'' ''a'' ''o'' \<noteq> [])"
proof -
  let ?request = "\<lparr>rq_attempts = [NotDelivered, AnswerLost small_env], rq_outcome = Inr small_env\<rparr>"
  obtain r outbox db' where "push_round small_side ?request createEmptyRemoteSyncFlags (dv_outbox (small_device [deck_record])) small_cloud
      = (r, outbox, db')" by (metis prod_cases3)
  from pushed [OF this] have step: "rtranclp (device_step small_side) (small_cloud, small_device [deck_record])
      (db', (small_device [deck_record])\<lparr>dv_outbox := outbox\<rparr>)" by (rule r_into_rtranclp)
  have "outbox_ok (dv_outbox (small_device [deck_record]))" "deck_record \<in> set (dv_outbox (small_device [deck_record]))"
    using deck_record_fields by (simp_all add: outbox_ok_def small_device_def)
  note lost = no_queued_write_lost [OF step this]
  have names: "sd_workspaceId small_side = ''w''" "sd_replicaId small_side = ''a''" "or_operationId deck_record = ''o''"
    by (simp_all add: small_side_def deck_record_def)
  have "(\<exists>q \<in> set (dv_outbox ((small_device [deck_record])\<lparr>dv_outbox := outbox\<rparr>)). or_operation q = or_operation deck_record)
      \<or> ledger db' ''w'' ''a'' ''o'' \<noteq> []" using lost unfolding names by blast
  with step show ?thesis by blast
qed



text \<open>
  C22. An operation that the server rejects every time is never given up: when it is the only one left
  and every request is answered, the loop sends it again for ever, whatever the number of turns.
\<close>

theorem rejected_operation_loops:
  assumes "listOutboxRecords (sd_workspaceId sd) (dv_outbox dv) = [r]"
    and "\<forall>n. requests n = \<lparr>rq_attempts = [], rq_outcome = Inr (env n)\<rparr>"
    and "with_sync (ensureWorkspaceSyncMetadataInExecutor (cd_sync db) (sd_workspaceId sd)) db = db0"
    and "\<forall>n. \<exists>message. process_payload (env n) db0 (sd_workspaceId sd) (sd_replicaId sd) (sd_read sd (or_operation r))
      = Inr (Reject message)"
    and "ledger db (sd_workspaceId sd) (sd_replicaId sd) (p_operationId (sd_read sd (or_operation r))) = []"
  shows "\<forall>fuel. pushOutbox fuel sd requests dv db = None"
proof
  fix fuel
  have "known_workspace db0 (sd_workspaceId sd)" using ensure_total by (auto simp: known_workspace_def simp flip: assms(3))
  then have again: "with_sync (ensureWorkspaceSyncMetadataInExecutor (cd_sync db0) (sd_workspaceId sd)) db0 = db0"
    by (simp add: known_ensured)
  have "ledger db0 (sd_workspaceId sd) (sd_replicaId sd) (p_operationId (sd_read sd (or_operation r))) = []"
    using assms(5) by (simp add: ledger_def flip: assms(3))
  from rejected_loops [OF assms(1) _ _ this assms(3) again, of requests env fuel] assms(2,4)
  show "pushOutbox fuel sd requests dv db = None" by (simp add: pushOutbox_def)
qed

theorem rejected_operation_loops_witness:
  "\<forall>fuel. pushOutbox fuel small_side (\<lambda>_. \<lparr>rq_attempts = [], rq_outcome = Inr small_env\<rparr>) (small_device [review_record]) small_cloud = None"
proof -
  let ?db0 = "with_sync (ensureWorkspaceSyncMetadataInExecutor (cd_sync small_cloud) ''w'') small_cloud"
  have one: "listOutboxRecords (sd_workspaceId small_side) (dv_outbox (small_device [review_record])) = [review_record]"
    by (simp add: listOutboxRecords_def small_side_def small_device_def review_record_def)
  have db0: "with_sync (ensureWorkspaceSyncMetadataInExecutor (cd_sync small_cloud) (sd_workspaceId small_side)) small_cloud = ?db0"
    by (simp add: small_side_def)
  obtain stamp where stamp: "normalizeIsoTimestamp (env_parse small_env) ''now'' f = Inr stamp" for f
    by (simp add: normalizeIsoTimestamp_def small_env_def host_dates_now)
  have "loadCardRowForMutation ?db0 ''w'' ''c'' = None" by (simp add: loadCardRowForMutation_def small_cloud_def)
  then have "\<forall>n :: nat. \<exists>message. process_payload small_env ?db0 (sd_workspaceId small_side) (sd_replicaId small_side)
      (sd_read small_side (or_operation review_record)) = Inr (Reject message)"
    by (simp add: small_side_def read_fields_def review_record_def buildReviewEventAppendOperation_def local_review_def buildReviewEvent_def
        process_payload_def process_review_def stamp)
  moreover have "ledger small_cloud (sd_workspaceId small_side) (sd_replicaId small_side)
      (p_operationId (sd_read small_side (or_operation review_record))) = []"
    by (simp add: ledger_def small_cloud_def)
  ultimately show ?thesis
    by (intro rejected_operation_loops [OF one _ db0, of _ "\<lambda>_. small_env"]) simp_all
qed

end
