(* ===== verification/Spec2Isabelle.thy ===== *)
theory Spec2Isabelle
  imports FsrsSafety SettingsProperties ReviewProperties StreakProperties WebReplay SqlProperties SyncProperties ProgressProperties OutboxProperties
begin

text \<open>
  Cardly is a flashcard application. A backend (\<open>apps/backend/src\<close>) keeps workspaces of cards and
  decks in a database, schedules reviews, and synchronises clients; the web client (\<open>apps/web/src\<close>) keeps
  a copy of the workspaces in the browser, reviews offline, and sends and pulls changes. This library
  models the core of both, function by function under the names of the source, and proves what makes it
  correct. Model names are the source's; a name that clashes is prefixed or suffixed, a step of a longer
  function (the body of a loop, a row an SQL statement writes) has a name of its own.

  The language. Numbers are IEEE doubles with the language's rounding (\<open>JsNumber\<close>; bounds of expressions
  in \<open>JsBounds\<close>, printing in \<open>JsNumText\<close>), dates are time values with the calendar of the specification
  (\<open>JsDate\<close>, \<open>JsDateText\<close>), strings have one character per code unit below 256 (\<open>JsString\<close>), regular
  expressions backtrack (\<open>JsRegex\<close>), JSON is \<open>JsValue\<close>. A thrown error is an \<open>Inl\<close> (\<open>Prelude\<close>, with the
  lemmas on results, folds and association lists everything shares). Functions of the host are
  parameters: the transcendental functions of \<open>Math\<close> (the record \<open>js_math\<close>), the parser of dates the specification leaves to
  the implementation, the collation, the clock, time zones and random numbers.

  The parts, their theories and files:
  \<^item> Scheduler (\<open>scheduling/index.ts\<close>, \<open>workspaceConfig.ts\<close>): \<open>FsrsScheduler\<close> has every function of FSRS-6,
    \<open>Alea\<close> the seeded generator of the interval fuzz, \<open>WorkspaceConfig\<close> the configuration. \<open>FsrsMemory\<close> bounds
    the memory state, \<open>FsrsInterval\<close> the intervals, \<open>FsrsTransitions\<close> states the card as a transition
    table and shows that replaying a history refines it, \<open>FsrsSafety\<close> joins the three.
  \<^item> Stored cards (\<open>cards/review/fsrs.ts\<close>, \<open>reviews.ts\<close>): \<open>ReviewCards\<close> has the consistency check and the
    card side of \<open>submitReview\<close>; \<open>ReviewProperties\<close> shows that a stored card is the replay of its reviews.
  \<^item> Last writer wins and settings (\<open>sync/conflicts/lww.ts\<close>, \<open>scheduling/workspaceSettings.ts\<close>,
    \<open>sync/replication/changes.ts\<close>): \<open>Lww\<close> with the locales \<open>comparator\<close> and \<open>lww_register\<close>, \<open>WorkspaceSettings\<close>,
    \<open>SyncChanges\<close> (the hot change log); \<open>SettingsProperties\<close>.
  \<^item> Streaks (\<open>progress/streakFreeze.ts\<close>): \<open>LocalDates\<close>, \<open>StreakFreeze\<close>; \<open>StreakFreezeSpec\<close> is the evaluation
    on calendar days, \<open>StreakMeaning\<close> what its numbers mean, \<open>StreakProperties\<close> the properties.
  \<^item> The database and the server's writes: \<open>CloudDb\<close> (the tables and the readers of their rows), \<open>CloudCards\<close>
    (\<open>cards/mutations.ts\<close>, \<open>cards/shared.ts\<close>), \<open>CloudDecks\<close> (\<open>decks/index.ts\<close>), \<open>CloudReviews\<close> (the review events
    and the active days beside them), \<open>SyncPush\<close> (\<open>sync/replication/push.ts\<close>), \<open>SyncPull\<close>
    (\<open>sync/replication/hotPull.ts\<close>). A transaction is a function from the state to a result and the next state; an
    error leaves the state before it.
  \<^item> The browser database and the pull loop (\<open>localDb\<close>, \<open>appData/sync/remote\<close>): \<open>WebStore\<close>.
  \<^item> Local writes and the outbox (\<open>appData/sync/local\<close>, \<open>localDb/sync/outbox.ts\<close>, \<open>appData/sync/remote/pushOutbox.ts\<close>):
    \<open>WebOutbox\<close> has the writes of a device, \<open>WebPush\<close> the sending of the outbox over a connection that may lose answers;
    \<open>OutboxSpec\<close> shows what a turn of the push keeps, \<open>OutboxSystem\<close> is the transition system of a device and the
    server, \<open>OutboxProperties\<close> states the properties.
  \<^item> Synchronisation as a whole: \<open>SyncEvolve\<close> states what every write promises the pull and \<open>SyncWrites\<close>
    proves it for each, \<open>SyncConverge\<close> follows a client through pages, \<open>SyncSystem\<close> is the transition system of
    a server and a client with its invariant, \<open>SyncRetry\<close> the repetition of a push, \<open>ReviewCounts\<close> the counts of
    active days; \<open>SyncProperties\<close> states the properties.
  \<^item> Progress (\<open>progress/reports\<close>, \<open>progress/activeReviewDays\<close>; of the web client \<open>progress\<close> and
    \<open>appData/progress/snapshots\<close>): \<open>ProgressReports\<close> has the validation of requests and the days given to reviews
    without one, \<open>ProgressLoaders\<close> the summary, the series and the schedule of due cards, \<open>WebSeries\<close> and \<open>WebSummary\<close>
    what the client renders from them; \<open>ProgressSpec\<close> and \<open>WebProgress\<close> prove what they promise,
    \<open>ProgressProperties\<close> states the properties.
  \<^item> The web client's domain (\<open>appData/domain\<close>, \<open>types\<close>): \<open>WebModel\<close>, \<open>DueAt\<close>, \<open>ReviewFilters\<close>, \<open>ReviewOrder\<close>,
    \<open>WebEditing\<close>; \<open>FilterSpec\<close> and \<open>WebSpec\<close> state what they promise, \<open>WebProperties\<close> and \<open>WebReplay\<close> the properties.
  \<^item> The SQL dialect of the AI tools (\<open>aiTools/sqlDialect\<close>): \<open>SqlTypes\<close>, \<open>SqlSchema\<close>, \<open>SqlSplit\<close>,
    \<open>SqlPredicate\<close>, \<open>SqlMutation\<close>, \<open>SqlParser\<close>, \<open>SqlRows\<close>, \<open>SqlSelect\<close>; \<open>SqlSplitSpec\<close>, \<open>SqlSelectSpec\<close> and
    \<open>SqlNesting\<close> hold the reference descriptions, \<open>SqlProperties\<close> the properties.

  What is shown. The properties C1 to C40 stand in this theory and in the theories named
  \<open>...Properties\<close> and \<open>WebReplay\<close>: a card is what replaying its history gives, in
  every phase, with memory, interval and due date in range (C1, C2, C4 to C9, C17, C18, C33); writes
  converge whatever their order (C12, C30); a client that pulls ends up with the server's state and is never
  wrong about what it has passed (C3, C11), a batch that is sent again changes nothing (C10), a local write
  is queued and never lost before the server has it (C14, C15), and sending ends unless the server keeps
  rejecting an operation (C22, C28), streak days count the stored reviews (C16), the tag index follows the
  cards (C29); the streak evaluation returns, except on one day, and its numbers are runs of days (C19 to
  C21, C23); the progress reports are served and agree between server and client, a review the server does
  not know yet included (C13, C31, C39, C40); due dates, queue and filters mean what they say (C24 to C27,
  C32); the SQL dialect splits, reads, groups, matches and pages as its reference descriptions do (C34 to
  C38).

  Loops. Loops over lists are recursive functions. The loops of the streak evaluation and of the client's
  date range are partial functions (\<open>None\<close> for a loop that does not return); C19, C23, C13 and
  C31 say when they return. The pull loop has fuel, one unit per page; C3 shows that one more unit than the
  log has changes is enough, and C28 the same for the loop of the push and the records of the outbox. The
  loops of the SQL splitting run over the text; the parser of predicates ends since every segment is shorter
  than its text.

  Not modelled: the schema library's validation of request bodies and the decoders of the web client (only
  the fields they keep), the bootstrap and the import and pull of review history, the listing, search and
  paging of cards and decks, media uploads, authentication, chat, the catalog, community and leaderboards,
  the backfill of active days from the history, the web client's views and reading queries, observability,
  infrastructure, and the Android and iOS applications, which are other languages. Of the database,
  constraints that the modelled statements rely on are part of the statements: row level security, roles and
  triggers are not. Floating point results of \<open>Math.exp\<close> and \<open>Math.pow\<close> are
  arguments, with the accuracy the proofs need as their hypothesis.
\<close>

section \<open>Concrete inputs of the witnesses\<close>

definition day_review :: "ReviewRating \<Rightarrow> int \<Rightarrow> ReviewHistoryEvent" where
  "day_review r k = \<lparr>e_rating = r, e_reviewedAt = Date (1700000000000 + k * ms_per_day)\<rparr>"

lemma modern_day_review: "0 \<le> k \<Longrightarrow> k \<le> 30 \<Longrightarrow> modern (e_reviewedAt (day_review r k))"
proof -
  assume k: "0 \<le> k" "k \<le> 30"
  then have "utc_day (1700000000000 + k * ms_per_day) = 19675 + k"
    by (simp add: utc_day_def ms_per_day_def)
  moreover have "year_from_day (19675 + k) \<ge> 100"
    using k by (simp add: year_from_day_def Let_def)
  ultimately show ?thesis
    using k by (simp add: modern_def day_review_def max_time_def ms_per_day_def)
qed

lemma default_settings_valid: "valid_settings defaultWorkspaceSchedulerConfig 36500"
proof -
  have "inb (1 / 2) 1 (fl 0.9)" by (rule inb_fl) (simp_all add: rep_rules)
  then have "inb 0 1 (fl 0.9)" "fl 0.9 \<noteq> Num 0" by (auto elim!: inbE)
  moreover have "minutes_ok (Num 1)" "minutes_ok (Num 10)"
    unfolding minutes_ok_def by (intro exI [of _ 1] exI [of _ 10]; simp)+
  ultimately show ?thesis
    by (simp add: valid_settings_def interval_settings_def steps_ok_def defaultWorkspaceSchedulerConfig_def)
qed

lemma default_steps: "learningStepsMinutes defaultWorkspaceSchedulerConfig \<noteq> []"
  "relearningStepsMinutes defaultWorkspaceSchedulerConfig \<noteq> []"
  by (simp_all add: defaultWorkspaceSchedulerConfig_def)

text \<open>A history the scheduler accepts: learned in one sitting, reviewed, forgotten.\<close>

definition sample_history :: "ReviewHistoryEvent list" where
  "sample_history = [day_review Good 0, day_review Good 0, day_review Good 3, day_review Again 10]"

lemma sample_history_in_order: "in_order None sample_history"
  by (simp add: in_order_def sample_history_def day_review_def ms_per_day_def)

lemma sample_history_modern: "\<forall>ev \<in> set sample_history. modern (e_reviewedAt ev)"
  by (simp add: sample_history_def modern_day_review)

lemma rebuild_accepts:
  assumes "learningStepsMinutes settings \<noteq> []" and "relearningStepsMinutes settings \<noteq> []"
  shows "(\<exists>b. rebuildCardScheduleState m i settings evs = Inr b) \<longleftrightarrow> in_order None evs"
proof -
  have e: "c_lastReviewedAt (createEmptyReviewableCardScheduleState i) = None"
    by (simp add: createEmptyReviewableCardScheduleState_def)
  show ?thesis
    unfolding fold_rebuild_Inr_iff [OF assms well_formed_empty, of m i None evs, unfolded e, symmetric]
    by (auto simp: rebuild_fold res_simps)
qed

lemma sample_history_accepted:
  "\<exists>b. rebuildCardScheduleState m i defaultWorkspaceSchedulerConfig sample_history = Inr b"
  using rebuild_accepts [OF default_steps] sample_history_in_order by blast

section \<open>The scheduler\<close>

text \<open>
  C1. Replaying a review history refines the abstract card machine: whatever the scheduler's
  settings and formulas compute, the state, the step index, the number of reviews and the number of
  lapses that \<open>rebuildCardScheduleState\<close> returns are those the transition table gives, folded over
  the ratings from the new card; the number of reviews is the length of the history, and there are
  at most as many lapses as \<open>Again\<close> answers.
\<close>

theorem rebuild_refines_card_machine:
  assumes "rebuildCardScheduleState m i settings evs = Inr b"
  shows "progress_of_rebuilt b = foldl (\<lambda>p ev. progress_step settings (e_rating ev) p) initial_progress evs
    \<and> b_reps b = int (length evs) \<and> b_lapses b \<le> int (length (filter (\<lambda>ev. e_rating ev = Again) evs))"
proof -
  obtain st where st: "b = rebuilt_of_state st"
    "progress_of_card (fst st) = foldl (\<lambda>p ev. progress_step settings (e_rating ev) p) initial_progress evs"
    by (rule rebuild_Inr [OF assms])
  then have eq: "progress_of_rebuilt b = foldl (\<lambda>p ev. progress_step settings (e_rating ev) p) initial_progress evs"
    by (simp add: progress_of_rebuilt_state)
  have r: "b_reps b = p_reps (progress_of_rebuilt b)" "b_lapses b = p_lapses (progress_of_rebuilt b)"
    by (simp_all add: progress_of_rebuilt_def)
  have "p_reps initial_progress = 0" "p_lapses initial_progress = 0"
    by (simp_all add: initial_progress_def)
  then show ?thesis
    unfolding r eq using progress_foldl [where evs = evs and settings = settings and p = initial_progress]
    by simp
qed

theorem rebuild_refines_card_machine_witness:
  "\<exists>b. rebuildCardScheduleState coarse_math ''card'' defaultWorkspaceSchedulerConfig sample_history = Inr b
     \<and> progress_of_rebuilt b = \<lparr>p_phase = PRelearning 0, p_reps = 4, p_lapses = 1\<rparr>"
proof -
  obtain b where b: "rebuildCardScheduleState coarse_math ''card'' defaultWorkspaceSchedulerConfig sample_history = Inr b"
    using sample_history_accepted by blast
  from rebuild_refines_card_machine [OF b] b show ?thesis
    by (simp add: sample_history_def day_review_def progress_step_def initial_progress_def
        defaultWorkspaceSchedulerConfig_def)
qed

text \<open>
  C2. A replay with settings that have learning and relearning steps succeeds exactly when no
  review lies before its predecessor; there is no other way for it to fail.
\<close>

theorem rebuild_succeeds_iff_in_order:
  assumes "learningStepsMinutes settings \<noteq> []" and "relearningStepsMinutes settings \<noteq> []"
  shows "(\<exists>b. rebuildCardScheduleState m i settings evs = Inr b) \<longleftrightarrow> in_order None evs"
  by (rule rebuild_accepts [OF assms])

theorem rebuild_succeeds_iff_in_order_witness:
  "(\<exists>b. rebuildCardScheduleState coarse_math ''card'' defaultWorkspaceSchedulerConfig sample_history = Inr b)
   \<and> \<not> (\<exists>b. rebuildCardScheduleState coarse_math ''card'' defaultWorkspaceSchedulerConfig
        [day_review Good 3, day_review Good 1] = Inr b)"
  using rebuild_succeeds_iff_in_order [OF default_steps, of coarse_math "''card''" sample_history]
    rebuild_succeeds_iff_in_order [OF default_steps, of coarse_math "''card''" "[day_review Good 3, day_review Good 1]"]
    sample_history_in_order
  by (simp add: in_order_def day_review_def ms_per_day_def)

text \<open>
  Rebuilding from a history that grew by one review is reviewing the card rebuilt from the
  shorter history: the incremental update of a stored card and the replay of its events agree, in
  their results and in their errors.
\<close>

theorem rebuild_is_incremental:
  "rebuildCardScheduleState m i settings (evs @ [ev]) =
     rbind (rebuildCardScheduleState m i settings evs) (\<lambda>b.
       rbind (computeReviewSchedule m (card_of_rebuilt i b) settings (e_rating ev) (e_reviewedAt ev))
         (\<lambda>s. Inr (rebuilt_of_schedule s)))"
  by (rule rebuild_snoc)

text \<open>
  C4. A review is accepted exactly when the stored card is consistent, the review does not lie
  before the last one, and the step list of the card's state is not empty (which a successful
  review of a card in state \<open>review\<close> does not need).
\<close>

theorem review_accepted_iff:
  "(\<exists>s. computeReviewSchedule m crd settings rating now = Inr s) \<longleftrightarrow>
     consistent crd \<and> \<not> backwards crd now
     \<and> (0 < length (getStepsForState settings (c_state crd)) \<or> c_state crd = Review \<and> rating \<in> {Hard, Good, Easy})"
  unfolding computeReviewSchedule_Inr_iff by (cases rating) simp_all

text \<open>
  C5. An accepted review of a card whose stored memory is in range, under validated settings,
  yields a finite stability in \<open>[0.001, 36500]\<close> that eight decimals represent, a finite difficulty
  in \<open>[1, 10]\<close>, and a due date after the review: a whole number of days between 1 and the maximum
  interval plus two for a card in review, between 1 minute and 36 hours for a short-term step. The
  stored card is again one the scheduler accepts.
\<close>

theorem review_is_safe:
  assumes "math_ok m" and "valid_settings settings M" and "card_ok crd" and "modern (Date t)"
    and "computeReviewSchedule m crd settings rating (Date t) = Inr s"
  shows "memory_ok (schedule_memory s) \<and> due_ok M t s \<and> card_ok (card_of_schedule (c_cardId crd) s)"
  using computeReviewSchedule_safe [OF assms] by blast

theorem review_is_safe_witness:
  "\<exists>s. computeReviewSchedule coarse_math (createEmptyReviewableCardScheduleState ''card'')
       defaultWorkspaceSchedulerConfig Easy (Date 1700000000000) = Inr s
     \<and> memory_ok (schedule_memory s) \<and> due_ok 36500 1700000000000 s"
proof -
  have m: "modern (Date 1700000000000)" using modern_day_review [of 0] by (simp add: day_review_def)
  have "\<exists>s. computeReviewSchedule coarse_math (createEmptyReviewableCardScheduleState ''card'')
      defaultWorkspaceSchedulerConfig Easy (Date 1700000000000) = Inr s"
    unfolding computeReviewSchedule_Inr_iff
    by (simp add: consistent_def backwards_def createEmptyReviewableCardScheduleState_def
        getStepsForState_def defaultWorkspaceSchedulerConfig_def)
  then obtain s where "computeReviewSchedule coarse_math (createEmptyReviewableCardScheduleState ''card'')
      defaultWorkspaceSchedulerConfig Easy (Date 1700000000000) = Inr s" ..
  with review_is_safe [OF coarse_math_ok default_settings_valid card_ok_empty m this] show ?thesis by blast
qed

text \<open>
  C6. Every card rebuilt from a history of reviews at modern dates is one the scheduler accepts:
  consistent, with difficulty and stability finite and in range, however long the history is.
\<close>

theorem rebuilt_card_is_ok:
  assumes "math_ok m" and "valid_settings settings M" and "\<forall>ev \<in> set evs. modern (e_reviewedAt ev)"
    and "rebuildCardScheduleState m i settings evs = Inr b"
  shows "card_ok (card_of_rebuilt i b)"
  by (rule rebuild_safe [OF assms])

theorem rebuilt_card_is_ok_witness:
  "\<exists>b. rebuildCardScheduleState coarse_math ''card'' defaultWorkspaceSchedulerConfig sample_history = Inr b
     \<and> card_ok (card_of_rebuilt ''card'' b)"
proof -
  obtain b where b: "rebuildCardScheduleState coarse_math ''card'' defaultWorkspaceSchedulerConfig sample_history = Inr b"
    using sample_history_accepted by blast
  from rebuilt_card_is_ok [OF coarse_math_ok default_settings_valid sample_history_modern b] b
  show ?thesis by blast
qed

text \<open>
  C7. The three intervals a successful review offers are whole days, strictly increasing from hard
  to good to easy, at least one day; hard stays within the workspace's maximum interval, good and
  easy can pass it by at most one and two days.
\<close>

theorem success_intervals_increase:
  assumes "math_ok m" and "interval_settings settings M" and "0 \<le> E" and "E \<le> 2 ^ 40"
    and "stability_ok sh" and "stability_ok sg" and "stability_ok sy"
  shows "\<exists>h g y. success_intervals m settings (num E) sh sg sy seed = (num h, num g, num y)
     \<and> 1 \<le> h \<and> h < g \<and> g < y \<and> h \<le> M \<and> g \<le> M + 1 \<and> y \<le> M + 2"
  using success_intervals_ordered [OF assms(1-4) stability_ok_inb [OF assms(5)] stability_ok_inb [OF assms(6)]
      stability_ok_inb [OF assms(7)], of seed] by metis

theorem success_intervals_increase_witness:
  "\<exists>h g y. success_intervals coarse_math defaultWorkspaceSchedulerConfig (num 3) S_MIN S_MIN S_MIN ''seed''
       = (num h, num g, num y) \<and> 1 \<le> h \<and> h < g \<and> g < y \<and> h \<le> 36500"
proof -
  have i: "interval_settings defaultWorkspaceSchedulerConfig 36500"
    using default_settings_valid by (simp add: valid_settings_def)
  from success_intervals_increase [OF coarse_math_ok i _ _ stability_ok_S_MIN stability_ok_S_MIN stability_ok_S_MIN,
      of 3 "''seed''"] show ?thesis by fastforce
qed

text \<open>
  C8. The interval of a card is the unfuzzed interval when fuzz is off or the interval is below
  three days; otherwise it lies in the fuzz range, whose bounds enclose the unfuzzed interval, stay
  within two days and the maximum, and exceed the days already elapsed whenever the unfuzzed
  interval does.
\<close>

theorem next_interval_in_fuzz_range:
  assumes "math_ok m" and "stability_ok s" and "interval_settings settings M" and "0 \<le> E" and "E \<le> 2 ^ 40"
  shows "\<exists>R n lo hi. raw_interval m s settings = num R \<and> nextInterval m s (num E) settings seed = num n
     \<and> 1 \<le> R \<and> R \<le> M \<and> lo \<le> R \<and> R \<le> hi \<and> lo \<le> n \<and> n \<le> hi \<and> hi \<le> M
     \<and> (if enableFuzz settings \<and> 3 \<le> R
        then getFuzzRange (num R) (num E) (num M) = \<lparr>minInterval = num lo, maxInterval = num hi\<rparr>
          \<and> 2 \<le> lo \<and> (E < R \<longrightarrow> E < lo)
        else lo = R \<and> hi = R)"
proof (rule nextInterval_cases [OF assms(1) stability_ok_inb [OF assms(2)] assms(3-5), of seed], goal_cases)
  case (1 R)
  then show ?case by (intro exI [of _ R]) auto
next
  case (2 R lo hi n)
  then show ?case by (intro exI [of _ R] exI [of _ n] exI [of _ lo] exI [of _ hi]) auto
qed

theorem next_interval_in_fuzz_range_witness:
  "\<exists>R n lo hi. raw_interval coarse_math S_MIN defaultWorkspaceSchedulerConfig = num R
     \<and> nextInterval coarse_math S_MIN (num 3) defaultWorkspaceSchedulerConfig ''seed'' = num n
     \<and> 1 \<le> R \<and> R \<le> 36500 \<and> lo \<le> R \<and> R \<le> hi \<and> lo \<le> n \<and> n \<le> hi \<and> hi \<le> 36500
     \<and> (if enableFuzz defaultWorkspaceSchedulerConfig \<and> 3 \<le> R
        then getFuzzRange (num R) (num 3) (num 36500) = \<lparr>minInterval = num lo, maxInterval = num hi\<rparr>
          \<and> 2 \<le> lo \<and> (3 < R \<longrightarrow> 3 < lo)
        else lo = R \<and> hi = R)"
proof -
  have i: "interval_settings defaultWorkspaceSchedulerConfig 36500"
    using default_settings_valid by (simp add: valid_settings_def)
  show ?thesis by (rule next_interval_in_fuzz_range [OF coarse_math_ok stability_ok_S_MIN i]) simp_all
qed

text \<open>
  C9. A successful review never lowers a card's stability, and a lapse never raises it.
\<close>

theorem review_moves_stability:
  assumes "math_ok m" and "memory_ok ms" and "1 \<le> g" and "g \<le> 4"
    and "length (relearningStepsMinutes settings) < 2 ^ 32" and "inb 0 (2 ^ 40) elapsed"
  shows "if g = 1 then jle (m_stability (computeNextReviewMemoryState m ms elapsed g settings)) (m_stability ms)
    else jle (m_stability ms) (m_stability (computeNextReviewMemoryState m ms elapsed g settings))"
  using computeNextReviewMemoryState_ok(2,3) [OF assms] assms(3) by simp

theorem review_moves_stability_witness:
  "jle (m_stability (computeNextReviewMemoryState coarse_math (createInitialMemoryState coarse_math 3) (num 5) 1
      defaultWorkspaceSchedulerConfig)) (m_stability (createInitialMemoryState coarse_math 3))"
proof -
  have g: "(1::int) \<le> 1" "(1::int) \<le> 4" by simp_all
  have l: "length (relearningStepsMinutes defaultWorkspaceSchedulerConfig) < 2 ^ 32"
    by (simp add: defaultWorkspaceSchedulerConfig_def)
  have e: "inb 0 (2 ^ 40) (num 5)" by simp
  have ms: "memory_ok (createInitialMemoryState coarse_math 3)"
    by (rule createInitialMemoryState_ok [OF coarse_math_ok]) simp_all
  from review_moves_stability [OF coarse_math_ok ms g l e] show ?thesis by simp
qed

text \<open>
  The elapsed days of a review are the difference of the calendar days (UTC) of the two
  timestamps, for every pair of modern dates in order.
\<close>

theorem elapsed_days_are_calendar_days:
  assumes "modern (Date a)" and "modern (Date b)" and "a \<le> b"
  shows "dateDiffInDays (Date a) (Date b) = Inr (num (utc_day b - utc_day a))"
  by (rule dateDiffInDays_modern [OF assms])

theorem elapsed_days_are_calendar_days_witness:
  "dateDiffInDays (e_reviewedAt (day_review Good 0)) (e_reviewedAt (day_review Good 3)) = Inr (num 3)"
  using elapsed_days_are_calendar_days [of 1700000000000 "1700000000000 + 3 * ms_per_day"]
    modern_day_review [of 0] modern_day_review [of 3]
  by (simp add: day_review_def utc_day_def ms_per_day_def)

text \<open>
  Every number the seeded generator draws is a multiple of \<open>2 ^ -32\<close> in \<open>[0, 1)\<close>, whatever
  the seed and however many numbers are drawn.
\<close>

theorem alea_draws_in_unit_interval:
  "list_all unit32 (alea_draws k (new_Alea seed))"
  using alea_draws_unit32 [OF new_Alea_inv] by (simp add: list_all_iff)

end
